(* ===== verification/Go_Base.thy ===== *)
theory Go_Base
  imports Main "HOL-Library.Char_ord" "HOL-Library.List_Lexorder" "HOL-Library.Monad_Syntax"
begin

section \<open>Prelude: what the components share\<close>

text \<open>
  The generic part of the development: fallible results (an \<open>error\<close> on the left of a
  sum, the value on the right, as a Go function returns a value and an error), the string operations
  of Go's \<^verbatim>\<open>strings\<close> and \<^verbatim>\<open>strconv\<close> packages that the repository calls, and the
  lemma collections the component theories use. Strings are byte sequences: a \<^typ>\<open>char\<close> is
  one byte, as in a Go string.
\<close>

named_theorems go_simps \<open>characterisations of the string operations, for rewriting\<close>
named_theorems inv_intros \<open>preservation of the invariants by the operations\<close>

subsection \<open>Errors\<close>

text \<open>
  A Go error value with what the program inspects of it: the typed errors it tests with
  \<^verbatim>\<open>errors.As\<close>, and the chain built by \<^verbatim>\<open>fmt.Errorf("...: %w", err)\<close>. A message
  keeps the fixed words of its format string; operands are kept where a caller looks at them.
\<close>

datatype error =
    Msg string
  | Wrap string error
  | TerminalError error
  | PendingError error
  | NotFoundError string
  | NotReadyError string string
  | BadReference string
  | DigestMismatch string string string
  | UnsupportedUnpack string
  | HTTPStatus nat

type_synonym 'a res = "error + 'a"

definition bind_res :: "'a res \<Rightarrow> ('a \<Rightarrow> 'b res) \<Rightarrow> 'b res" where
  "bind_res m f = (case m of Inl e \<Rightarrow> Inl e | Inr x \<Rightarrow> f x)"

lemma bind_res_simps [simp]:
  "bind_res (Inl e) f = Inl e"
  "bind_res (Inr x) f = f x"
  by (simp_all add: bind_res_def)

lemma bind_res_Inr:
  "bind_res m f = Inr y \<longleftrightarrow> (\<exists>x. m = Inr x \<and> f x = Inr y)"
  by (cases m) simp_all

lemma bind_res_Inl:
  "bind_res m f = Inl e \<longleftrightarrow> m = Inl e \<or> (\<exists>x. m = Inr x \<and> f x = Inl e)"
  by (cases m) simp_all

lemma bind_res_cong [fundef_cong]:
  "m = m' \<Longrightarrow> (\<And>x. m' = Inr x \<Longrightarrow> f x = f' x) \<Longrightarrow> bind_res m f = bind_res m' f'"
  by (cases m') simp_all

fun map_res :: "('a \<Rightarrow> 'b) \<Rightarrow> 'a res \<Rightarrow> 'b res" where
  "map_res f (Inl e) = Inl e"
| "map_res f (Inr x) = Inr (f x)"

text \<open>A loop that stops at the first error, as every \<^verbatim>\<open>for\<close> with an early return does.\<close>

fun fold_res :: "('a \<Rightarrow> 's \<Rightarrow> 's res) \<Rightarrow> 'a list \<Rightarrow> 's \<Rightarrow> 's res" where
  "fold_res f [] s = Inr s"
| "fold_res f (x # xs) s = (case f x s of Inl e \<Rightarrow> Inl e | Inr s' \<Rightarrow> fold_res f xs s')"

lemma fold_res_append:
  "fold_res f (xs @ ys) s = bind_res (fold_res f xs s) (fold_res f ys)"
  by (induction xs arbitrary: s) (auto split: sum.splits)

lemma fold_res_invariant:
  assumes "fold_res f xs s = Inr t" and "I s"
    and step: "\<And>x s s'. x \<in> set xs \<Longrightarrow> I s \<Longrightarrow> f x s = Inr s' \<Longrightarrow> I s'"
  shows "I t"
  using assms
proof (induction xs arbitrary: s)
  case Nil
  then show ?case by simp
next
  case (Cons x xs)
  then obtain s' where s': "f x s = Inr s'" "fold_res f xs s' = Inr t"
    by (auto split: sum.splits)
  have "I s'" using Cons.prems(2) s'(1) by (rule Cons.prems(3)[rotated]) simp
  then show ?case
    using Cons.IH[OF s'(2)] Cons.prems(3) by (meson list.set_intros(2))
qed

fun map_list_res :: "('a \<Rightarrow> 'b res) \<Rightarrow> 'a list \<Rightarrow> 'b list res" where
  "map_list_res f [] = Inr []"
| "map_list_res f (x # xs) =
     (case f x of Inl e \<Rightarrow> Inl e
      | Inr y \<Rightarrow> (case map_list_res f xs of Inl e \<Rightarrow> Inl e | Inr ys \<Rightarrow> Inr (y # ys)))"

lemma map_list_res_Inr:
  "map_list_res f xs = Inr ys \<longleftrightarrow> list_all2 (\<lambda>x y. f x = Inr y) xs ys"
proof (induction xs arbitrary: ys)
  case Nil
  then show ?case by auto
next
  case (Cons x xs)
  show ?case
  proof (cases "f x")
    case (Inr y)
    then show ?thesis
      by (cases "map_list_res f xs") (auto simp: list_all2_Cons1 Cons.IH[symmetric])
  qed (auto simp: list_all2_Cons1)
qed

subsection \<open>Error triage\<close>

text \<open>\<^verbatim>\<open>errors.As\<close> walks the chain: the wrapped error is looked at below a wrapper.\<close>

fun err_any :: "(error \<Rightarrow> bool) \<Rightarrow> error \<Rightarrow> bool" where
  "err_any P (Wrap m e) = (P (Wrap m e) \<or> err_any P e)"
| "err_any P (TerminalError e) = (P (TerminalError e) \<or> err_any P e)"
| "err_any P (PendingError e) = (P (PendingError e) \<or> err_any P e)"
| "err_any P e = P e"

subsection \<open>Strings\<close>

definition has_prefix :: "'a list \<Rightarrow> 'a list \<Rightarrow> bool" where
  "has_prefix s p \<longleftrightarrow> take (length p) s = p"

definition trim_prefix :: "'a list \<Rightarrow> 'a list \<Rightarrow> 'a list" where
  "trim_prefix s p = (if has_prefix s p then drop (length p) s else s)"

definition has_suffix :: "'a list \<Rightarrow> 'a list \<Rightarrow> bool" where
  "has_suffix s p \<longleftrightarrow> length p \<le> length s \<and> drop (length s - length p) s = p"

definition trim_suffix :: "'a list \<Rightarrow> 'a list \<Rightarrow> 'a list" where
  "trim_suffix s p = (if has_suffix s p then take (length s - length p) s else s)"

fun contains :: "'a list \<Rightarrow> 'a list \<Rightarrow> bool" where
  "contains [] p = (p = [])"
| "contains (x # xs) p = (has_prefix (x # xs) p \<or> contains xs p)"

text \<open>\<^verbatim>\<open>strings.Cut\<close> at a one-byte separator; \<open>None\<close> is the \<^verbatim>\<open>found = false\<close> result.\<close>

fun cut :: "'a \<Rightarrow> 'a list \<Rightarrow> ('a list \<times> 'a list) option" where
  "cut c [] = None"
| "cut c (x # xs) =
     (if x = c then Some ([], xs)
      else (case cut c xs of None \<Rightarrow> None | Some (a, b) \<Rightarrow> Some (x # a, b)))"

text \<open>The first result of \<^verbatim>\<open>strings.Cut\<close>: everything before the separator, or all of it.\<close>

definition cut_before :: "'a \<Rightarrow> 'a list \<Rightarrow> 'a list" where
  "cut_before c s = takeWhile (\<lambda>x. x \<noteq> c) s"

fun split_on :: "'a \<Rightarrow> 'a list \<Rightarrow> 'a list list" where
  "split_on c [] = [[]]"
| "split_on c (x # xs) =
     (if x = c then [] # split_on c xs
      else (case split_on c xs of [] \<Rightarrow> [[x]] | y # ys \<Rightarrow> (x # y) # ys))"

fun join :: "'a list \<Rightarrow> 'a list list \<Rightarrow> 'a list" where
  "join sep [] = []"
| "join sep [x] = x"
| "join sep (x # y # ys) = x @ sep @ join sep (y # ys)"

text \<open>\<^verbatim>\<open>strings.LastIndex\<close> of one byte, \<open>None\<close> for -1.\<close>

fun last_index :: "'a \<Rightarrow> 'a list \<Rightarrow> nat option" where
  "last_index c [] = None"
| "last_index c (x # xs) =
     (case last_index c xs of Some i \<Rightarrow> Some (Suc i) | None \<Rightarrow> if x = c then Some 0 else None)"

lemma has_prefix_iff [go_simps]: "has_prefix s p \<longleftrightarrow> (\<exists>r. s = p @ r)"
proof
  assume "has_prefix s p"
  then have "s = p @ drop (length p) s"
    by (metis append_take_drop_id has_prefix_def)
  then show "\<exists>r. s = p @ r" by blast
qed (auto simp: has_prefix_def)

lemma has_prefix_append [simp]: "has_prefix (p @ s) p"
  by (simp add: has_prefix_def)

lemma has_prefix_single: "has_prefix s [c] \<longleftrightarrow> (\<exists>r. s = c # r)"
  by (simp add: has_prefix_iff)

lemma trim_prefix_append [simp]: "trim_prefix (p @ s) p = s"
  by (simp add: trim_prefix_def)

lemma trim_prefix_none: "\<not> has_prefix s p \<Longrightarrow> trim_prefix s p = s"
  by (simp add: trim_prefix_def)

lemma has_suffix_iff [go_simps]: "has_suffix s p \<longleftrightarrow> (\<exists>r. s = r @ p)"
proof
  assume "has_suffix s p"
  then have "s = take (length s - length p) s @ p"
    by (metis append_take_drop_id has_suffix_def)
  then show "\<exists>r. s = r @ p" by blast
qed (auto simp: has_suffix_def)

lemma trim_suffix_append [simp]: "trim_suffix (s @ p) p = s"
  by (simp add: trim_suffix_def has_suffix_iff)

lemma contains_iff [go_simps]: "contains s p \<longleftrightarrow> (\<exists>a b. s = a @ p @ b)"
proof (induction s)
  case (Cons x xs)
  have "(\<exists>a b. x # xs = a @ p @ b) \<longleftrightarrow> has_prefix (x # xs) p \<or> (\<exists>a b. xs = a @ p @ b)"
    (is "?l \<longleftrightarrow> ?r")
  proof
    assume ?l
    then obtain a b where ab: "x # xs = a @ p @ b" by blast
    show ?r
    proof (cases a)
      case Nil
      with ab show ?thesis by (simp add: has_prefix_iff)
    next
      case (Cons y ys)
      with ab show ?thesis by auto
    qed
  next
    assume ?r
    then show ?l
      by (metis append_Cons append_Nil append.assoc has_prefix_iff)
  qed
  with Cons show ?case by simp
qed simp

lemma cut_Some [go_simps]: "cut c s = Some (a, b) \<longleftrightarrow> s = a @ c # b \<and> c \<notin> set a"
proof (induction s arbitrary: a b)
  case Nil
  then show ?case by simp
next
  case (Cons x xs)
  show ?case
  proof (cases a)
    case Nil
    then show ?thesis by (auto split: option.splits)
  next
    case a: (Cons y ys)
    show ?thesis
    proof (cases "x = c")
      case True
      with a show ?thesis by auto
    next
      case False
      have "cut c (x # xs) = Some (a, b) \<longleftrightarrow> y = x \<and> cut c xs = Some (ys, b)"
        using False a by (auto split: option.splits)
      with Cons.IH[of ys b] a False show ?thesis by auto
    qed
  qed
qed

lemma cut_None [go_simps]: "cut c s = None \<longleftrightarrow> c \<notin> set s"
  by (induction s) (auto split: option.splits)

lemma until_sep_cancel:
  "c \<notin> set a \<Longrightarrow> c \<notin> set b \<Longrightarrow> a @ c # r = b @ c # s \<longleftrightarrow> a = b \<and> r = s"
  by (metis cut_Some option.inject prod.inject)

lemma cut_before_append [simp]: "c \<notin> set a \<Longrightarrow> cut_before c (a @ c # b) = a"
  unfolding cut_before_def by (induction a) auto

lemma cut_before_none [simp]: "c \<notin> set a \<Longrightarrow> cut_before c a = a"
  unfolding cut_before_def by (induction a) auto

lemma split_on_not_Nil [simp]: "split_on c s \<noteq> []"
  by (induction s) (auto split: list.splits)

lemma join_Cons: "xs \<noteq> [] \<Longrightarrow> join sep (x # xs) = x @ sep @ join sep xs"
  by (cases xs) simp_all

lemma join_split_on [simp]: "join [c] (split_on c s) = s"
proof (induction s)
  case (Cons x xs)
  obtain y ys where y: "split_on c xs = y # ys"
    using split_on_not_Nil by (metis neq_Nil_conv)
  show ?case
  proof (cases "x = c")
    case True
    with Cons show ?thesis by (simp add: join_Cons)
  next
    case False
    with Cons y show ?thesis by (cases ys) auto
  qed
qed simp

lemma split_on_no_sep: "c \<notin> set s \<Longrightarrow> split_on c s = [s]"
  by (induction s) auto

lemma split_on_append_sep: "c \<notin> set a \<Longrightarrow> split_on c (a @ c # b) = a # split_on c b"
  by (induction a) auto

lemma split_on_join:
  "xs \<noteq> [] \<Longrightarrow> (\<forall>x \<in> set xs. c \<notin> set x) \<Longrightarrow> split_on c (join [c] xs) = xs"
proof (induction xs rule: induct_list012)
  case (3 x y zs)
  then show ?case by (simp add: split_on_append_sep)
qed (simp_all add: split_on_no_sep)

lemma split_on_elem: "x \<in> set (split_on c s) \<Longrightarrow> c \<notin> set x"
proof (induction s arbitrary: x)
  case (Cons y ys)
  obtain z zs where z: "split_on c ys = z # zs"
    using split_on_not_Nil by (metis neq_Nil_conv)
  with Cons show ?case by (auto split: if_splits)
qed simp

lemma join_append:
  "xs \<noteq> [] \<Longrightarrow> ys \<noteq> [] \<Longrightarrow> join sep (xs @ ys) = join sep xs @ sep @ join sep ys"
proof (induction xs rule: induct_list012)
  case (2 x)
  then show ?case by (simp add: join_Cons)
next
  case (3 x y zs)
  then show ?case by simp
qed simp

lemma last_index_None: "last_index c s = None \<longleftrightarrow> c \<notin> set s"
  by (induction s) (auto split: option.splits)

lemma last_index_append: "c \<notin> set b \<Longrightarrow> last_index c (a @ c # b) = Some (length a)"
  by (induction a) (auto simp: last_index_None[THEN iffD2])

lemma last_index_app:
  "last_index c (a @ b) =
     (case last_index c b of Some j \<Rightarrow> Some (length a + j) | None \<Rightarrow> last_index c a)"
  by (induction a) (auto split: option.splits)

lemma last_index_Some:
  assumes "last_index c s = Some i"
  shows "i < length s \<and> s = take i s @ c # drop (Suc i) s \<and> c \<notin> set (drop (Suc i) s)"
  using assms
proof (induction s arbitrary: i)
  case (Cons x xs)
  show ?case
  proof (cases "last_index c xs")
    case None
    with Cons.prems show ?thesis by (auto simp: last_index_None split: if_splits)
  next
    case (Some j)
    with Cons.prems have "i = Suc j" by simp
    with Cons.IH[OF Some] show ?thesis by simp
  qed
qed simp

end
