(* ===== verification/Api_Types.thy ===== *)
theory Api_Types
  imports Go_Strings
begin

section \<open>The API types both kinds share\<close>

text \<open>
  \<^verbatim>\<open>api/v1alpha1/shared_types.go\<close>: what an object says about publishing, what status records
  of it, and the methods that resolve the effective values. A pointer is an \<open>option\<close>, a time is its
  count of nanoseconds, and a policy is kept as the string it is, so that a value outside the
  enumeration stays representable.
\<close>

record ref_export_keys =
  rk_ref :: string
  rk_digest :: string

record ref_export =
  rx_namespace :: string
  rx_keys :: ref_export_keys
  rx_labels :: "(string \<times> string) list"
  rx_annotations :: "(string \<times> string) list"

record ref_export_status =
  rs_name :: string
  rs_namespace :: string

record push =
  ps_repository :: string
  ps_tags :: "string list"
  ps_secret_ref :: "string option"
  ps_ref :: string
  ps_history :: "int option"
  ps_immutable :: "bool option"
  ps_on_conflict :: string
  ps_write_ref_to :: "ref_export option"

record source_record =
  so_name :: string
  so_revision :: string
  so_digest :: string

record build_record =
  br_tags :: "string list"
  br_digest :: string
  br_blobs :: "string list"
  br_sources :: "source_record list"
  br_input_hash :: string
  br_manifests :: "string list"
  br_time :: "int option"
  br_lost :: "int option"

record tag_conflict =
  tc_tag :: string
  tc_existing :: string
  tc_dropped :: string
  tc_observed :: "int option"

record artifact =
  ar_digest :: string
  ar_revision :: string
  ar_ref :: string
  ar_tags :: "string list"
  ar_updated :: "int option"

record source_ref =
  sr_kind :: string
  sr_name :: string
  sr_namespace :: string
  sr_revision :: string
  sr_subpath :: string

subsection \<open>Conditions and reasons\<close>

abbreviation (input) ready_condition :: string where "ready_condition \<equiv> ''Ready''"
abbreviation (input) reconciling_condition :: string where "reconciling_condition \<equiv> ''Reconciling''"
abbreviation (input) stalled_condition :: string where "stalled_condition \<equiv> ''Stalled''"

abbreviation (input) reason_succeeded :: string where "reason_succeeded \<equiv> ''Succeeded''"
abbreviation (input) reason_progressing :: string where "reason_progressing \<equiv> ''Progressing''"
abbreviation (input) reason_digest_mismatch :: string where "reason_digest_mismatch \<equiv> ''DigestMismatch''"
abbreviation (input) reason_invalid_spec :: string where "reason_invalid_spec \<equiv> ''InvalidSpec''"
abbreviation (input) reason_immutable_conflict :: string where
  "reason_immutable_conflict \<equiv> ''ImmutableTagConflict''"
abbreviation (input) reason_fetch_failed :: string where "reason_fetch_failed \<equiv> ''FetchFailed''"
abbreviation (input) reason_suspended :: string where "reason_suspended \<equiv> ''Suspended''"
abbreviation (input) reason_retention_degraded :: string where
  "reason_retention_degraded \<equiv> ''RetentionDegraded''"
abbreviation (input) reason_retention_lost :: string where "reason_retention_lost \<equiv> ''RetentionLost''"
abbreviation (input) reason_artifact_lost :: string where "reason_artifact_lost \<equiv> ''ArtifactLost''"
abbreviation (input) reason_unpinned_source :: string where "reason_unpinned_source \<equiv> ''UnpinnedSource''"
abbreviation (input) reason_build_failed :: string where "reason_build_failed \<equiv> ''BuildFailed''"
abbreviation (input) reason_dependency_not_ready :: string where
  "reason_dependency_not_ready \<equiv> ''DependencyNotReady''"

abbreviation (input) finalizer :: string where "finalizer \<equiv> ''finalizers.oci.lhns.de''"

subsection \<open>Effective values\<close>

abbreviation (input) conflict_fail :: string where "conflict_fail \<equiv> ''Fail''"
abbreviation (input) conflict_overwrite :: string where "conflict_overwrite \<equiv> ''Overwrite''"
abbreviation (input) conflict_keep :: string where "conflict_keep \<equiv> ''Keep''"

definition resolve_conflict :: "string \<Rightarrow> bool option \<Rightarrow> string" where
  "resolve_conflict explicit deprecated =
     (if explicit \<noteq> [] then explicit
      else if deprecated = Some False then conflict_overwrite
      else conflict_fail)"

definition conflict_policy :: "push option \<Rightarrow> string" where
  "conflict_policy p =
     (case p of None \<Rightarrow> conflict_fail | Some q \<Rightarrow> resolve_conflict (ps_on_conflict q) (ps_immutable q))"

definition default_history_limit :: int where
  "default_history_limit = 10"

definition history_limit :: "push option \<Rightarrow> int \<Rightarrow> int" where
  "history_limit p operator =
     (case (case p of None \<Rightarrow> None | Some q \<Rightarrow> ps_history q) of
        Some h \<Rightarrow> if h > 0 then h else if operator > 0 then operator else default_history_limit
      | None \<Rightarrow> if operator > 0 then operator else default_history_limit)"

definition get_tags :: "push option \<Rightarrow> string list" where
  "get_tags p = (case p of None \<Rightarrow> [] | Some q \<Rightarrow> ps_tags q)"

definition get_ref :: "push option \<Rightarrow> string" where
  "get_ref p = (case p of None \<Rightarrow> [] | Some q \<Rightarrow> ps_ref q)"

definition get_write_ref_to :: "push option \<Rightarrow> ref_export option" where
  "get_write_ref_to p = (case p of None \<Rightarrow> None | Some q \<Rightarrow> ps_write_ref_to q)"

definition revision_matches :: "string \<Rightarrow> string \<Rightarrow> bool" where
  "revision_matches want got =
     (if want = [] then True
      else if want = got then True
      else if CHR ''@'' \<in> set want then False
      else (case cut (CHR ''@'') got of None \<Rightarrow> False | Some (ref, _) \<Rightarrow> ref = want))"

text \<open>
  \<^verbatim>\<open>splitPinnedRef\<close> of \<^verbatim>\<open>imagecomposition_types.go\<close>: the repository, without a tag,
  and the digest. An absent index is below every present one, as Go's -1 is.
\<close>

definition after_slash :: "nat option \<Rightarrow> nat option \<Rightarrow> bool" where
  "after_slash colon sl =
     (case colon of None \<Rightarrow> False | Some i \<Rightarrow> (case sl of None \<Rightarrow> True | Some j \<Rightarrow> j < i))"

definition strip_tag :: "string \<Rightarrow> string" where
  "strip_tag repo =
     (if after_slash (last_index (CHR '':'') repo) (last_index (CHR ''/'') repo)
      then take (the (last_index (CHR '':'') repo)) repo else repo)"

definition split_pinned_ref :: "string \<Rightarrow> string \<times> string" where
  "split_pinned_ref ref =
     (case last_index (CHR ''@'') ref of
        None \<Rightarrow> (ref, [])
      | Some at \<Rightarrow> (strip_tag (take at ref), drop (Suc at) ref))"

subsection \<open>Facts\<close>

lemma history_limit_pos: "0 < history_limit p operator"
  by (auto simp: history_limit_def default_history_limit_def split: option.splits)

lemma revision_matches_spec:
  "revision_matches want got \<longleftrightarrow>
     want = [] \<or> want = got \<or> (CHR ''@'' \<notin> set want \<and> (\<exists>h. got = want @ ''@'' @ h))"
  by (auto simp: revision_matches_def cut_Some cut_None until_sep_cancel split: option.splits)

end
