(* ===== verification/Go_Utf8.thy ===== *)
theory Go_Utf8
  imports Go_Base
begin

section \<open>UTF-8\<close>

text \<open>
  The two functions of Go's UTF-8 support the repository calls, \<^verbatim>\<open>utf8.ValidString\<close> and
  \<^verbatim>\<open>strings.ToValidUTF8(s, "")\<close>, over byte strings, and what they do to a string that was cut
  in the middle of a rune.
\<close>

definition byte :: "char \<Rightarrow> nat" where
  "byte c = of_char c"

definition cont_byte :: "char \<Rightarrow> bool" where
  "cont_byte c \<longleftrightarrow> 128 \<le> byte c \<and> byte c \<le> 191"

text \<open>
  The number of bytes the leading byte announces (0 for a byte that cannot lead), the range of
  the second byte, and the width of the encoding at the head of a string, 0 when it is invalid.
\<close>

definition rune_need :: "char \<Rightarrow> nat" where
  "rune_need b =
     (if byte b < 128 then 1
      else if 194 \<le> byte b \<and> byte b \<le> 223 then 2
      else if 224 \<le> byte b \<and> byte b \<le> 239 then 3
      else if 240 \<le> byte b \<and> byte b \<le> 244 then 4
      else 0)"

definition second_ok :: "char \<Rightarrow> char \<Rightarrow> bool" where
  "second_ok b c \<longleftrightarrow>
     (if byte b = 224 then 160 else if byte b = 240 then 144 else 128) \<le> byte c \<and>
     byte c \<le> (if byte b = 237 then 159 else if byte b = 244 then 143 else 191)"

definition conts_ok :: "char \<Rightarrow> string \<Rightarrow> bool" where
  "conts_ok b r \<longleftrightarrow>
     rune_need b \<le> 1 \<or>
     (rune_need b \<le> Suc (length r) \<and> second_ok b (hd r) \<and>
      list_all cont_byte (take (rune_need b - 2) (tl r)))"

fun rune_width :: "string \<Rightarrow> nat" where
  "rune_width [] = 0"
| "rune_width (b # r) = (if conts_ok b r then rune_need b else 0)"

declare rune_width.simps [simp del]

lemma rune_need_bound: "rune_need b \<le> 4"
  by (simp add: rune_need_def)

lemma rune_width_bound: "rune_width s \<le> 4"
  by (cases s) (simp_all add: rune_width.simps rune_need_bound)

lemma rune_width_length: "rune_width s \<le> length s"
  by (cases s) (auto simp: rune_width.simps conts_ok_def)

lemma rune_width_ascii: "byte b < 128 \<Longrightarrow> rune_width (b # r) = 1"
  by (simp add: rune_width.simps rune_need_def conts_ok_def)

lemma rune_width_cont: "cont_byte b \<Longrightarrow> rune_width (b # r) = 0"
  by (simp add: rune_width.simps rune_need_def cont_byte_def)

lemma second_ok_cont: "second_ok b c \<Longrightarrow> cont_byte c"
  by (auto simp: second_ok_def cont_byte_def split: if_splits)

text \<open>The width depends on the encoded bytes only, and all but the first are continuations.\<close>

lemma rune_width_take:
  assumes "rune_width s = w" "0 < w"
  shows "rune_width (take w s @ t) = w"
proof -
  obtain b r where s: "s = b # r" "conts_ok b r" "rune_need b = w"
    using assms by (cases s) (auto simp: rune_width.simps split: if_splits)
  have "conts_ok b (take (w - 1) r @ t)"
  proof (cases "w = 1")
    case True
    with s show ?thesis by (simp add: conts_ok_def)
  next
    case False
    with assms s have w: "2 \<le> w" "w \<le> Suc (length r)" "second_ok b (hd r)"
      "list_all cont_byte (take (w - 2) (tl r))" by (auto simp: conts_ok_def)
    then obtain c cs where r: "r = c # cs" by (cases r) auto
    obtain v where v: "w = Suc (Suc v)" using w(1) by (metis add_2_eq_Suc le_Suc_ex)
    with w r s(3) show ?thesis by (simp add: conts_ok_def min_def)
  qed
  with s assms(2) show ?thesis by (cases w) (simp_all add: rune_width.simps)
qed

lemma rune_width_conts:
  assumes "rune_width (b # r) = Suc n"
  shows "list_all cont_byte (take n r)"
proof (cases n)
  case (Suc m)
  with assms have w: "conts_ok b r" "rune_need b = Suc (Suc m)"
    by (auto simp: rune_width.simps split: if_splits)
  then have "second_ok b (hd r)" "list_all cont_byte (take m (tl r))" "r \<noteq> []"
    by (auto simp: conts_ok_def)
  with Suc show ?thesis by (cases r) (simp_all add: second_ok_cont)
qed simp

text \<open>A proper part of an encoding is not one.\<close>

lemma rune_width_short:
  "rune_width s = w \<Longrightarrow> k < w \<Longrightarrow> rune_width (take k s) = 0"
  by (cases s; cases k) (auto simp: rune_width.simps conts_ok_def split: if_splits)

function valid_utf8 :: "string \<Rightarrow> bool" where
  "valid_utf8 s = (if s = [] then True
     else if rune_width s = 0 then False else valid_utf8 (drop (rune_width s) s))"
  by pat_completeness auto
termination
  by (relation "measure length") auto

function to_valid_utf8 :: "string \<Rightarrow> string" where
  "to_valid_utf8 s = (if s = [] then []
     else if rune_width s = 0 then to_valid_utf8 (tl s)
     else take (rune_width s) s @ to_valid_utf8 (drop (rune_width s) s))"
  by pat_completeness auto
termination
  by (relation "measure length") auto

declare valid_utf8.simps [simp del] to_valid_utf8.simps [simp del]

lemma valid_utf8_Nil [simp]: "valid_utf8 []"
  by (simp add: valid_utf8.simps)

lemma to_valid_utf8_Nil [simp]: "to_valid_utf8 [] = []"
  by (simp add: to_valid_utf8.simps)

lemma valid_utf8_rune:
  "rune_width s = w \<Longrightarrow> 0 < w \<Longrightarrow> valid_utf8 (take w s @ t) = valid_utf8 t"
proof -
  assume w: "rune_width s = w" "0 < w"
  then have "take w s @ t \<noteq> []" using rune_width_length[of s] by auto
  moreover have "length (take w s) = w" using w rune_width_length[of s] by simp
  ultimately show ?thesis
    using w rune_width_take[OF w, of t]
    by (subst valid_utf8.simps) (simp del: take_eq_Nil)
qed

lemma valid_utf8D:
  assumes "valid_utf8 s" "s \<noteq> []"
  shows "0 < rune_width s" "valid_utf8 (drop (rune_width s) s)"
  using assms by (subst (asm) valid_utf8.simps, simp split: if_splits)+

lemma valid_to_valid_utf8: "valid_utf8 (to_valid_utf8 s)"
proof (induction s rule: to_valid_utf8.induct)
  case (1 s)
  show ?case
    using 1 by (subst to_valid_utf8.simps) (auto simp: valid_utf8_rune)
qed

lemma length_to_valid_utf8: "length (to_valid_utf8 s) \<le> length s"
proof (induction s rule: to_valid_utf8.induct)
  case (1 s)
  show ?case
  proof (cases "s = [] \<or> rune_width s = 0")
    case True
    then show ?thesis
      using 1(1) by (subst to_valid_utf8.simps) (auto intro: le_trans)
  next
    case False
    then have "length (to_valid_utf8 (drop (rune_width s) s)) \<le> length s - rune_width s"
      using 1(2) by simp
    with False show ?thesis
      using rune_width_length[of s] by (subst to_valid_utf8.simps) simp
  qed
qed

lemma to_valid_utf8_id: "valid_utf8 s \<Longrightarrow> to_valid_utf8 s = s"
proof (induction s rule: to_valid_utf8.induct)
  case (1 s)
  show ?case
  proof (cases "s = []")
    case False
    with "1.prems" have "0 < rune_width s" "valid_utf8 (drop (rune_width s) s)"
      by (simp_all add: valid_utf8D)
    with 1(2) False have "to_valid_utf8 (drop (rune_width s) s) = drop (rune_width s) s" by simp
    with False \<open>0 < rune_width s\<close> show ?thesis by (subst to_valid_utf8.simps) simp
  qed simp
qed

lemma to_valid_utf8_conts: "list_all cont_byte s \<Longrightarrow> to_valid_utf8 s = []"
  by (induction s) (simp_all add: to_valid_utf8.simps rune_width_cont)

lemma to_valid_utf8_fragment:
  assumes "rune_width s = w" "k < w"
  shows "to_valid_utf8 (take k s) = []"
proof (cases k)
  case (Suc n)
  obtain b r where s: "s = b # r" using assms by (cases s) (auto simp: rune_width.simps)
  from assms(1) s Suc assms(2) have "list_all cont_byte (take (w - 1) r)"
    by (intro rune_width_conts[of b]) simp
  moreover have "take n r = take n (take (w - 1) r)"
    using Suc assms(2) by (simp only: take_take) (simp add: min_absorb1)
  ultimately have "list_all cont_byte (take n r)"
    by (metis (no_types, lifting) in_set_takeD list_all_iff)
  moreover have "rune_width (take k s) = 0" by (rule rune_width_short[OF assms])
  ultimately show ?thesis
    using s Suc by (subst to_valid_utf8.simps) (simp add: to_valid_utf8_conts)
qed simp

text \<open>
  Cutting a valid string at \<open>n\<close> bytes and repairing the cut gives an initial part of it that
  is valid and at most three bytes short.
\<close>

lemma to_valid_utf8_take:
  assumes "valid_utf8 s" "n \<le> length s"
  shows "\<exists>m. to_valid_utf8 (take n s) = take m s \<and> m \<le> n \<and> n \<le> m + 3"
  using assms
proof (induction s arbitrary: n rule: valid_utf8.induct)
  case (1 s)
  show ?case
  proof (cases "s = []")
    case True
    with "1.prems" show ?thesis by simp
  next
    case False
    define w where "w = rune_width s"
    have w: "0 < w" "w \<le> 4" "w \<le> length s" "valid_utf8 (drop w s)"
      using "1.prems"(1) False rune_width_bound[of s] rune_width_length[of s]
      by (simp_all add: w_def valid_utf8D)
    show ?thesis
    proof (cases "n < w")
      case True
      then have "to_valid_utf8 (take n s) = []"
        using to_valid_utf8_fragment[of s w n] by (simp add: w_def)
      with True w(2) show ?thesis by (intro exI[of _ 0]) simp
    next
      case n: False
      have split: "take n s = take w s @ take (n - w) (drop w s)"
        using n by (metis le_add_diff_inverse not_less take_add)
      have "\<exists>m. to_valid_utf8 (take (n - w) (drop w s)) = take m (drop w s) \<and>
          m \<le> n - w \<and> n - w \<le> m + 3"
        using "1.IH"[OF False, folded w_def, of "n - w"] w "1.prems"(2) by simp
      then obtain m where m: "to_valid_utf8 (take (n - w) (drop w s)) = take m (drop w s)"
        "m \<le> n - w" "n - w \<le> m + 3" by blast
      have rw: "rune_width (take n s) = w"
        unfolding split using rune_width_take[of s w] w by (simp add: w_def)
      have "to_valid_utf8 (take n s) = take w s @ to_valid_utf8 (take (n - w) (drop w s))"
        using n w rw by (subst to_valid_utf8.simps) (simp add: min_absorb1 drop_take split[symmetric])
      also have "\<dots> = take (w + m) s" using m by (simp add: take_add)
      finally have "to_valid_utf8 (take n s) = take (w + m) s" .
      moreover have "w + m \<le> n" "n \<le> w + m + 3" using m n by linarith+
      ultimately show ?thesis by blast
    qed
  qed
qed

text \<open>Cutting at the front drops at most the continuation bytes of one rune.\<close>

lemma to_valid_utf8_append:
  "valid_utf8 s \<Longrightarrow> to_valid_utf8 (s @ t) = s @ to_valid_utf8 t"
proof (induction s rule: valid_utf8.induct)
  case (1 s)
  show ?case
  proof (cases "s = []")
    case False
    define w where "w = rune_width s"
    have w: "0 < w" "w \<le> length s" "valid_utf8 (drop w s)"
      using "1.prems" False rune_width_length[of s]
      by (simp_all add: w_def valid_utf8D)
    have "rune_width (take w s @ (drop w s @ t)) = w"
      using rune_width_take[of s w] w(1) by (simp add: w_def)
    then have rw: "rune_width (s @ t) = w" by (metis append.assoc append_take_drop_id)
    have "to_valid_utf8 (s @ t) = take w s @ to_valid_utf8 (drop w s @ t)"
      using False rw w by (subst to_valid_utf8.simps) simp
    with 1(1)[OF False] w show ?thesis by (simp add: w_def)
  qed simp
qed

lemma valid_utf8_append: "valid_utf8 s \<Longrightarrow> valid_utf8 t \<Longrightarrow> valid_utf8 (s @ t)"
  by (metis to_valid_utf8_append to_valid_utf8_id valid_to_valid_utf8)

text \<open>Every ASCII string is valid.\<close>

lemma valid_utf8_ascii: "list_all (\<lambda>c. byte c < 128) s \<Longrightarrow> valid_utf8 s"
  by (induction s) (simp_all add: valid_utf8.simps rune_width_ascii)

lemma to_valid_utf8_conts_append: "list_all cont_byte c \<Longrightarrow> to_valid_utf8 (c @ r) = to_valid_utf8 r"
  by (induction c) (simp_all add: to_valid_utf8.simps[of "x # y" for x y] rune_width_cont)

lemma rune_tail_conts:
  assumes "rune_width s = w" "0 < k" "k < w"
  shows "list_all cont_byte (drop k (take w s))"
proof -
  obtain b r where s: "s = b # r" using assms by (cases s) (auto simp: rune_width.simps)
  obtain n where n: "w = Suc n" using assms by (cases w) auto
  obtain j where j: "k = Suc j" using assms by (cases k) auto
  have "list_all cont_byte (take n r)"
    using assms(1) s n by (intro rune_width_conts[of b]) simp
  then show ?thesis using s n j by (auto simp: list_all_iff dest: in_set_dropD)
qed

text \<open>Cutting off the front of a valid string loses at most the rune that was cut.\<close>

lemma to_valid_utf8_drop:
  "valid_utf8 s \<Longrightarrow> k \<le> length s \<Longrightarrow> \<exists>m. to_valid_utf8 (drop k s) = drop m s \<and> k \<le> m \<and> m \<le> k + 3"
proof (induction s arbitrary: k rule: valid_utf8.induct)
  case (1 s)
  show ?case
  proof (cases "s = []")
    case True
    with "1.prems" show ?thesis by (intro exI[of _ 0]) simp
  next
    case False
    define w where "w = rune_width s"
    have w: "0 < w" "w \<le> 4" "w \<le> length s" "valid_utf8 (drop w s)"
      using "1.prems"(1) False rune_width_bound[of s] rune_width_length[of s]
      by (simp_all add: w_def valid_utf8D)
    show ?thesis
    proof (cases "w \<le> k")
      case True
      then obtain m where "to_valid_utf8 (drop (k - w) (drop w s)) = drop m (drop w s)"
        "k - w \<le> m" "m \<le> k - w + 3"
        using "1.IH"[OF False] w "1.prems"(2) unfolding w_def[symmetric]
        by (metis diff_le_mono length_drop not_gr_zero)
      with True show ?thesis by (intro exI[of _ "w + m"]) (auto simp: add.commute)
    next
      case k: False
      show ?thesis
      proof (cases "k = 0")
        case True
        with "1.prems" show ?thesis by (intro exI[of _ 0]) (simp add: to_valid_utf8_id)
      next
        case k0: False
        have "drop k s = drop k (take w s) @ drop w s"
          using k w(3) by (metis append_take_drop_id drop_append drop_eq_Nil2 diff_is_0_eq
              drop0 length_take min.absorb2 nat_le_linear)
        moreover have "list_all cont_byte (drop k (take w s))"
          using k k0 by (intro rune_tail_conts) (simp_all add: w_def)
        ultimately have "to_valid_utf8 (drop k s) = drop w s"
          using to_valid_utf8_conts_append to_valid_utf8_id[OF w(4)] by simp
        with k k0 w(2) show ?thesis by (intro exI[of _ w]) simp
      qed
    qed
  qed
qed

subsection \<open>Quoting\<close>

text \<open>
  \<^verbatim>\<open>%q\<close> of a string: \<^verbatim>\<open>strconv.Quote\<close>. Every rune beyond ASCII is taken to be printable.
\<close>

definition hex_digit :: "nat \<Rightarrow> char" where
  "hex_digit d = char_of (if d < 10 then 48 + d else 87 + d)"

definition quote_byte :: "char \<Rightarrow> string" where
  "quote_byte c =
     (let n = byte c in
      if n = 34 \<or> n = 92 then [CHR 0x5C, c]
      else if 32 \<le> n \<and> n < 127 then [c]
      else if n = 7 then [CHR 0x5C, CHR ''a''] else if n = 8 then [CHR 0x5C, CHR ''b'']
      else if n = 9 then [CHR 0x5C, CHR ''t''] else if n = 10 then [CHR 0x5C, CHR ''n'']
      else if n = 11 then [CHR 0x5C, CHR ''v''] else if n = 12 then [CHR 0x5C, CHR ''f'']
      else if n = 13 then [CHR 0x5C, CHR ''r'']
      else [CHR 0x5C, CHR ''x'', hex_digit (n div 16), hex_digit (n mod 16)])"

function quote_body :: "string \<Rightarrow> string" where
  "quote_body s =
     (if s = [] then []
      else if rune_width s \<le> 1 then quote_byte (hd s) @ quote_body (tl s)
      else take (rune_width s) s @ quote_body (drop (rune_width s) s))"
  by pat_completeness auto
termination
  by (relation "measure length") auto

declare quote_body.simps [simp del]

definition quoted :: "string \<Rightarrow> string" where
  "quoted s = CHR 0x22 # quote_body s @ [CHR 0x22]"

definition plain_byte :: "char \<Rightarrow> bool" where
  "plain_byte c \<longleftrightarrow> 32 \<le> byte c \<and> byte c < 127 \<and> byte c \<noteq> 34 \<and> byte c \<noteq> 92"

lemma quoted_plain: "list_all plain_byte s \<Longrightarrow> quoted s = CHR 0x22 # s @ [CHR 0x22]"
proof -
  have "quote_body s = s" if "list_all plain_byte s" for s
    using that
    by (induction s) (simp_all add: quote_body.simps rune_width_ascii plain_byte_def quote_byte_def Let_def)
  then show "list_all plain_byte s \<Longrightarrow> ?thesis" by (simp add: quoted_def)
qed

end
