(* ===== verification/Recon.thy ===== *)
theory Recon
  imports Api_Types Go_Utf8
begin

section \<open>What both reconcilers share\<close>

text \<open>
  \<^verbatim>\<open>internal/reconciler/reconciler.go\<close>: the error triage, conditions, message truncation,
  history rotation and tag resolution. The Go interface \<^verbatim>\<open>Object\<close> is the extensible record
  \<open>conditioned\<close>: both kinds extend it with their own status. The API machinery's list of conditions
  holds one condition per type, and is a map from types; transition times are not kept.
\<close>

subsection \<open>Errors\<close>

definition terminal :: "string \<Rightarrow> error" where
  "terminal m = TerminalError (Msg m)"

definition pending :: "string \<Rightarrow> error" where
  "pending m = PendingError (Msg m)"

fun is_terminal_error :: "error \<Rightarrow> bool" where
  "is_terminal_error (TerminalError e) = True"
| "is_terminal_error e = False"

fun is_pending_error :: "error \<Rightarrow> bool" where
  "is_pending_error (PendingError e) = True"
| "is_pending_error e = False"

definition is_terminal :: "error \<Rightarrow> bool" where
  "is_terminal e = err_any is_terminal_error e"

definition is_pending :: "error \<Rightarrow> bool" where
  "is_pending e = err_any is_pending_error e"

text \<open>The registry's 404, wherever it is in the chain; the first transport error found decides.\<close>

fun transport_status :: "error \<Rightarrow> nat option" where
  "transport_status (HTTPStatus n) = Some n"
| "transport_status (Wrap m e) = transport_status e"
| "transport_status (TerminalError e) = transport_status e"
| "transport_status (PendingError e) = transport_status e"
| "transport_status _ = None"

definition is_not_found :: "error \<Rightarrow> bool" where
  "is_not_found e \<longleftrightarrow> transport_status e = Some 404"

text \<open>The text of an error, as far as the model keeps it.\<close>

fun err_text :: "error \<Rightarrow> string" where
  "err_text (Msg m) = m"
| "err_text (Wrap m e) = m @ '': '' @ err_text e"
| "err_text (TerminalError e) = err_text e"
| "err_text (PendingError e) = err_text e"
| "err_text (NotFoundError n) = n @ '' not found''"
| "err_text (NotReadyError n w) = n @ '' is not ready: '' @ w"
| "err_text (BadReference r) = r"
| "err_text (DigestMismatch w g r) = ''digest mismatch for '' @ r @ '': declared '' @ w @ '', got '' @ g"
| "err_text (UnsupportedUnpack m) = ''unknown unpack mode '' @ quoted m @
     '': this controller does not implement it, so the CRD may be newer than the controller''"
| "err_text (HTTPStatus n) = ''unexpected status code '' @ show_nat n"

text \<open>Durations are nanoseconds.\<close>

definition second :: int where
  "second = 1000000000"

definition pending_retry_interval :: int where
  "pending_retry_interval = 30 * second"

definition hour :: int where
  "hour = 3600 * second"

definition interval :: "int option \<Rightarrow> int" where
  "interval d = (case d of Some n \<Rightarrow> if n > 0 then n else hour | None \<Rightarrow> hour)"

subsection \<open>Messages\<close>

definition truncate_msg :: "string \<Rightarrow> nat \<Rightarrow> string" where
  "truncate_msg s n = (if length s \<le> n then s else to_valid_utf8 (take n s))"

definition truncation_marker :: string where
  "truncation_marker = ''...(truncated)...'' @ [CHR 0x0A]"

definition truncate_tail :: "string \<Rightarrow> nat \<Rightarrow> string" where
  "truncate_tail s n =
     (if length s \<le> n then s
      else if n \<le> length truncation_marker then to_valid_utf8 (drop (length s - n) s)
      else truncation_marker @
        to_valid_utf8 (drop (length s - (n - length truncation_marker)) s))"

subsection \<open>Conditions and events\<close>

datatype cond_status = CTrue | CFalse | CUnknown

record condition =
  cd_status :: cond_status
  cd_reason :: string
  cd_message :: string
  cd_generation :: int

record conditioned =
  co_generation :: int
  co_conds :: "string \<rightharpoonup> condition"

record event =
  evt_warning :: bool
  evt_reason :: string
  evt_message :: string

definition mk_event :: "bool \<Rightarrow> string \<Rightarrow> string \<Rightarrow> event" where
  "mk_event w r m = \<lparr>evt_warning = w, evt_reason = r, evt_message = truncate_msg m 1024\<rparr>"

definition set_condition ::
    "string \<Rightarrow> cond_status \<Rightarrow> string \<Rightarrow> string \<Rightarrow> 'a conditioned_scheme \<Rightarrow> 'a conditioned_scheme" where
  "set_condition t s r m o' =
     o'\<lparr>co_conds := (co_conds o')(t \<mapsto>
        \<lparr>cd_status = s, cd_reason = r, cd_message = truncate_msg m 32768,
         cd_generation = co_generation o'\<rparr>)\<rparr>"

definition remove_condition :: "string \<Rightarrow> 'a conditioned_scheme \<Rightarrow> 'a conditioned_scheme" where
  "remove_condition t o' = o'\<lparr>co_conds := (co_conds o')(t := None)\<rparr>"

definition set_progressing ::
    "string \<Rightarrow> artifact option \<Rightarrow> 'a conditioned_scheme \<Rightarrow> 'a conditioned_scheme" where
  "set_progressing what published o' =
     (let msg = (case published of None \<Rightarrow> what
                 | Some a \<Rightarrow> what @ ''; '' @ ar_ref a @ '' is still the published image'');
          o1 = set_condition ready_condition CUnknown reason_progressing msg o';
          o2 = set_condition reconciling_condition CTrue reason_progressing msg o1
      in remove_condition stalled_condition o2)"

subsection \<open>History\<close>

text \<open>The loop of \<^verbatim>\<open>RecordHistory\<close>; \<open>n\<close> is how many entries the result already has.\<close>

fun keep_history :: "string \<Rightarrow> int \<Rightarrow> int \<Rightarrow> build_record list \<Rightarrow> build_record list" where
  "keep_history d limit n [] = []"
| "keep_history d limit n (h # hs) =
     (if br_digest h = d then keep_history d limit n hs
      else if n = limit then []
      else h # keep_history d limit (n + 1) hs)"

definition record_history :: "build_record list \<Rightarrow> build_record option \<Rightarrow> int \<Rightarrow> build_record list" where
  "record_history history rec limit =
     (case rec of
        None \<Rightarrow> history
      | Some r \<Rightarrow>
          let limit' = (if limit < 1 then 1 else limit)
          in r # keep_history (br_digest r) limit' 1 history)"

subsection \<open>Tags\<close>

text \<open>\<^verbatim>\<open>^[a-zA-Z0-9_][a-zA-Z0-9._-]*$\<close>\<close>

definition tag_start :: "char \<Rightarrow> bool" where
  "tag_start c \<longleftrightarrow>
     (let n = of_char c :: nat in
      (97 \<le> n \<and> n \<le> 122) \<or> (65 \<le> n \<and> n \<le> 90) \<or> (48 \<le> n \<and> n \<le> 57) \<or> c = CHR ''_'')"

definition tag_char :: "char \<Rightarrow> bool" where
  "tag_char c \<longleftrightarrow> tag_start c \<or> c = CHR ''.'' \<or> c = CHR ''-''"

definition tag_pattern :: "string \<Rightarrow> bool" where
  "tag_pattern t = (case t of [] \<Rightarrow> False | c # cs \<Rightarrow> tag_start c \<and> list_all tag_char cs)"

text \<open>An empty tag is no tag. A colon before the last slash is a port.\<close>

definition tag_from_ref :: "string \<Rightarrow> string res" where
  "tag_from_ref ref =
     (if ref = [] then Inr []
      else if CHR ''@'' \<in> set ref then Inl (terminal (''the ref '' @ quoted ref @
        '' carries a digest; it must name a tag, since the digest is an output rather than an input''))
      else if \<not> after_slash (last_index (CHR '':'') ref) (last_index (CHR ''/'') ref) then Inr []
      else (let tag = drop (Suc (the (last_index (CHR '':'') ref))) ref in
        if tag_pattern tag then Inr tag else Inl (terminal (''the ref '' @ quoted ref @ '' has an invalid tag '' @ quoted tag))))"

fun unique_tags :: "string set \<Rightarrow> string list \<Rightarrow> string list" where
  "unique_tags seen [] = []"
| "unique_tags seen (t # ts) =
     (if t = [] then unique_tags seen ts
      else if t \<in> seen then unique_tags seen ts
      else t # unique_tags (insert t seen) ts)"

definition effective_tags :: "string list \<Rightarrow> string \<Rightarrow> string list res" where
  "effective_tags tags ref =
     (case tag_from_ref ref of
        Inl e \<Rightarrow> Inl e
      | Inr from_ref \<Rightarrow> Inr (unique_tags {} (tags @ [from_ref])))"

subsection \<open>What truncation keeps\<close>

lemma truncate_msg_valid:
  assumes "valid_utf8 s"
  shows "valid_utf8 (truncate_msg s n)"
  using assms by (simp add: truncate_msg_def valid_to_valid_utf8)

lemma truncate_msg_length: "length (truncate_msg s n) \<le> n"
  using length_to_valid_utf8[of "take n s"] by (auto simp: truncate_msg_def min_def)

lemma truncation_marker_valid: "valid_utf8 truncation_marker"
  unfolding truncation_marker_def by (rule valid_utf8_ascii) (simp add: byte_def)

lemma truncate_tail_length: "length (truncate_tail s n) \<le> n"
proof -
  let ?m = "length truncation_marker"
  have a: "length (to_valid_utf8 (drop (length s - k) s)) \<le> k" if "k \<le> length s" for k
    using length_to_valid_utf8[of "drop (length s - k) s"] that by simp
  show ?thesis
  proof (cases "length s \<le> n \<or> n \<le> ?m")
    case True
    then show ?thesis using a[of n] by (auto simp: truncate_tail_def)
  next
    case False
    then have f: "n < length s" "?m < n" by simp_all
    then have "n - ?m \<le> length s" by linarith
    from a[OF this] f show ?thesis by (simp add: truncate_tail_def)
  qed
qed

text \<open>
  Truncating a valid message to n bytes gives a valid message of at most n bytes: a
  prefix that loses no more than the rune that was cut, or, from the other end, the marker and a
  suffix that loses no more than that.
\<close>

theorem truncation_safe:
  assumes "valid_utf8 s"
  shows "length (truncate_msg s n) \<le> n \<and> valid_utf8 (truncate_msg s n) \<and>
    (\<exists>m. truncate_msg s n = take m s \<and> (n \<le> m + 3 \<or> length s \<le> n)) \<and>
    length (truncate_tail s n) \<le> n \<and> valid_utf8 (truncate_tail s n) \<and>
    (n < length s \<and> length truncation_marker < n \<longrightarrow>
      (\<exists>m. truncate_tail s n = truncation_marker @ drop m s \<and> m \<le> length s - n + length truncation_marker + 3))"
proof (intro conjI impI)
  show "length (truncate_msg s n) \<le> n" by (rule truncate_msg_length)
  show "valid_utf8 (truncate_msg s n)" by (rule truncate_msg_valid[OF assms])
  show "length (truncate_tail s n) \<le> n" by (rule truncate_tail_length)
  show "valid_utf8 (truncate_tail s n)"
    using assms truncation_marker_valid
    by (auto simp: truncate_tail_def valid_to_valid_utf8 intro: valid_utf8_append)
  show "\<exists>m. truncate_msg s n = take m s \<and> (n \<le> m + 3 \<or> length s \<le> n)"
  proof (cases "length s \<le> n")
    case True
    then show ?thesis by (intro exI[of _ "length s"]) (simp add: truncate_msg_def)
  next
    case False
    then obtain m where "to_valid_utf8 (take n s) = take m s" "m \<le> n" "n \<le> m + 3"
      using to_valid_utf8_take[OF assms, of n] by auto
    with False show ?thesis by (intro exI[of _ m]) (simp add: truncate_msg_def)
  qed
  assume a: "n < length s \<and> length truncation_marker < n"
  let ?k = "length s - (n - length truncation_marker)"
  obtain m where m: "to_valid_utf8 (drop ?k s) = drop m s" "m \<le> ?k + 3"
    using to_valid_utf8_drop[OF assms, of ?k] by auto
  with a show "\<exists>m. truncate_tail s n = truncation_marker @ drop m s \<and>
      m \<le> length s - n + length truncation_marker + 3"
    by (intro exI[of _ m]) (simp add: truncate_tail_def)
qed

theorem truncation_safe_witness:
  "length (truncate_msg [CHR 0x61, char_of (195 :: nat), char_of (169 :: nat)] 2) \<le> 2 \<and>
   valid_utf8 (truncate_tail (replicate 30 (CHR ''x'')) 20)"
proof (rule conjI)
  have "valid_utf8 [CHR 0x61, char_of (195 :: nat), char_of (169 :: nat)]" by code_simp
  then show "length (truncate_msg [CHR 0x61, char_of (195 :: nat), char_of (169 :: nat)] 2) \<le> 2"
    by (rule conjunct1[OF truncation_safe])
  have "valid_utf8 (replicate 30 (CHR ''x''))" by code_simp
  then show "valid_utf8 (truncate_tail (replicate 30 (CHR ''x'')) 20)"
    using truncation_safe[of "replicate 30 (CHR ''x'')" 20] by blast
qed

subsection \<open>What the history keeps\<close>

lemma keep_history_take:
  "n \<le> limit \<Longrightarrow>
   keep_history d limit n hs = take (nat (limit - n)) (filter (\<lambda>h. br_digest h \<noteq> d) hs)"
proof (induction hs arbitrary: n)
  case (Cons h hs)
  show ?case
  proof (cases "br_digest h = d \<or> n = limit")
    case False
    then have "nat (limit - n) = Suc (nat (limit - (n + 1)))"
      using Cons.prems by (simp add: nat_eq_iff)
    with False Cons show ?thesis by simp
  qed (use Cons in auto)
qed simp

text \<open>
  Recording a build puts it in front, keeps the most recent others up to the limit in
  their order, at least the new one, and moves a rebuild of an old digest instead of repeating it;
  a pass without a build leaves the history alone. Digests stay distinct.
\<close>

theorem record_history_keeps:
  "record_history hs None limit = hs \<and>
   record_history hs (Some r) limit =
     r # take (nat (max 1 limit) - 1) (filter (\<lambda>h. br_digest h \<noteq> br_digest r) hs) \<and>
   (distinct (map br_digest hs) \<longrightarrow> distinct (map br_digest (record_history hs (Some r) limit)))"
proof -
  have e: "record_history hs (Some r) limit =
     r # take (nat (max 1 limit) - 1) (filter (\<lambda>h. br_digest h \<noteq> br_digest r) hs)"
    by (simp add: record_history_def keep_history_take Let_def max_def nat_diff_distrib)
  have "distinct (map br_digest (record_history hs (Some r) limit))"
    if "distinct (map br_digest hs)"
  proof -
    have "distinct (map br_digest (filter (\<lambda>h. br_digest h \<noteq> br_digest r) hs))"
      using that by (rule distinct_map_filter)
    then have "distinct (take k (map br_digest (filter (\<lambda>h. br_digest h \<noteq> br_digest r) hs)))" for k
      by (rule distinct_take)
    then show ?thesis
      unfolding e by (auto simp: take_map dest!: in_set_takeD)
  qed
  with e show ?thesis by (simp add: record_history_def)
qed

definition sample_record :: "string \<Rightarrow> build_record" where
  "sample_record d =
     \<lparr>br_tags = [], br_digest = d, br_blobs = [], br_sources = [], br_input_hash = [],
      br_manifests = [], br_time = None, br_lost = None\<rparr>"

theorem record_history_keeps_witness:
  "distinct (map br_digest (record_history [sample_record ''a'', sample_record ''b'', sample_record ''c'']
     (Some (sample_record ''b'')) 2))"
proof -
  have "distinct (map br_digest [sample_record ''a'', sample_record ''b'', sample_record ''c''])"
    by code_simp
  then show ?thesis using record_history_keeps by blast
qed

subsection \<open>Which tags are published\<close>

lemma unique_tags_spec:
  "set (unique_tags seen ts) = set ts - {[]} - seen \<and> distinct (unique_tags seen ts)"
  by (induction ts arbitrary: seen) auto

lemma after_slash_last:
  assumes "CHR '':'' \<notin> set tag" "CHR ''/'' \<notin> set tag"
  shows "after_slash (last_index (CHR '':'') (repo @ '':'' @ tag)) (last_index (CHR ''/'') (repo @ '':'' @ tag))"
    "last_index (CHR '':'') (repo @ '':'' @ tag) = Some (length repo)"
proof -
  show c: "last_index (CHR '':'') (repo @ '':'' @ tag) = Some (length repo)"
    using last_index_append[OF assms(1), of repo] by simp
  have "last_index (CHR ''/'') (repo @ '':'' @ tag) = last_index (CHR ''/'') repo"
    using assms(2) by (simp add: last_index_app last_index_None[THEN iffD2] split: option.splits)
  then show "after_slash (last_index (CHR '':'') (repo @ '':'' @ tag)) (last_index (CHR ''/'') (repo @ '':'' @ tag))"
    unfolding c by (auto simp: after_slash_def dest: last_index_Some split: option.splits)
qed

lemma after_slash_port:
  assumes "CHR '':'' \<notin> set path"
  shows "\<not> after_slash (last_index (CHR '':'') (x @ ''/'' @ path)) (last_index (CHR ''/'') (x @ ''/'' @ path))"
proof -
  have "last_index (CHR '':'') (''/'' @ path) = None"
    unfolding last_index_None using assms by simp
  then have c: "last_index (CHR '':'') (x @ ''/'' @ path) = last_index (CHR '':'') x"
    using last_index_app[of "CHR '':''" x "''/'' @ path"] by simp
  have "last_index (CHR ''/'') (''/'' @ path) \<noteq> None" unfolding last_index_None by simp
  then obtain j where "last_index (CHR ''/'') (x @ ''/'' @ path) = Some (length x + j)"
    using last_index_app[of "CHR ''/''" x "''/'' @ path"] by (auto split: option.splits)
  then show ?thesis
    unfolding c by (auto simp: after_slash_def dest!: last_index_Some split: option.splits)
qed

lemma tag_pattern_chars:
  assumes "tag_pattern t"
  shows "CHR '':'' \<notin> set t" "CHR ''/'' \<notin> set t" "CHR ''@'' \<notin> set t" "t \<noteq> []"
  using assms
  by (auto simp: tag_pattern_def tag_start_def tag_char_def list_all_iff Let_def split: list.splits)

text \<open>
  A reference contributes the tag it was written with, a port is not taken for one, a
  digest or a malformed tag is refused for good, and the published tags are the listed ones and the
  reference's without repeats and without empty ones.
\<close>

theorem effective_tags_spec:
  "(CHR ''@'' \<notin> set repo \<and> tag_pattern tag \<longrightarrow> tag_from_ref (repo @ '':'' @ tag) = Inr tag) \<and>
   (CHR ''@'' \<notin> set (host @ '':'' @ port) \<and> CHR '':'' \<notin> set path \<longrightarrow>
      tag_from_ref (host @ '':'' @ port @ ''/'' @ path) =
        (if CHR ''@'' \<in> set path then Inl (terminal (''the ref '' @ quoted (host @ '':'' @ port @ ''/'' @ path) @
          '' carries a digest; it must name a tag, since the digest is an output rather than an input'')) else Inr [])) \<and>
   (effective_tags ts ref = Inr out \<longrightarrow>
      distinct out \<and> set out = (set ts \<union> {t. tag_from_ref ref = Inr t}) - {[]}) \<and>
   (effective_tags ts ref = Inl e \<longrightarrow> is_terminal e)"
proof (intro conjI impI)
  assume a: "CHR ''@'' \<notin> set repo \<and> tag_pattern tag"
  then show "tag_from_ref (repo @ '':'' @ tag) = Inr tag"
    using after_slash_last[of tag repo] tag_pattern_chars[of tag]
    by (simp add: tag_from_ref_def Let_def)
next
  assume a: "CHR ''@'' \<notin> set (host @ '':'' @ port) \<and> CHR '':'' \<notin> set path"
  let ?ref = "(host @ '':'' @ port) @ ''/'' @ path"
  have "\<not> after_slash (last_index (CHR '':'') ?ref) (last_index (CHR ''/'') ?ref)"
    using a by (intro after_slash_port) simp
  with a show "tag_from_ref (host @ '':'' @ port @ ''/'' @ path) =
        (if CHR ''@'' \<in> set path then Inl (terminal (''the ref '' @ quoted (host @ '':'' @ port @ ''/'' @ path) @
          '' carries a digest; it must name a tag, since the digest is an output rather than an input'')) else Inr [])"
    by (simp add: tag_from_ref_def)
next
  assume "effective_tags ts ref = Inr out"
  then obtain t where t: "tag_from_ref ref = Inr t" "out = unique_tags {} (ts @ [t])"
    by (auto simp: effective_tags_def split: sum.splits)
  then show "distinct out" "set out = (set ts \<union> {t. tag_from_ref ref = Inr t}) - {[]}"
    using unique_tags_spec[of "{}" "ts @ [t]"] by auto
next
  assume "effective_tags ts ref = Inl e"
  then show "is_terminal e"
    by (auto simp: effective_tags_def tag_from_ref_def terminal_def is_terminal_def Let_def
        split: sum.splits if_splits)
qed

theorem effective_tags_spec_witness:
  "tag_from_ref ''ghcr.io/a/b:v1'' = Inr ''v1'' \<and>
   tag_from_ref ''localhost:5000/app'' = Inr [] \<and>
   effective_tags [''v1'', ''main'', ''v1''] ''x:latest'' = Inr [''v1'', ''main'', ''latest''] \<and>
   distinct [''v1'', ''main'', ''latest''] \<and>
   is_terminal (terminal ''the ref \"x:.latest\" has an invalid tag \".latest\"'')"
proof -
  have e: "effective_tags [''v1'', ''main'', ''v1''] ''x:latest'' = Inr [''v1'', ''main'', ''latest'']"
    by code_simp
  have f: "effective_tags [] ''x:.latest'' = Inl (terminal ''the ref \"x:.latest\" has an invalid tag \".latest\"'')" by code_simp
  note s = effective_tags_spec[of "''ghcr.io/a/b''" "''v1''" "''localhost''" "''5000''" "''app''"]
  have "tag_pattern ''v1''" by code_simp
  then have "tag_from_ref (''ghcr.io/a/b'' @ '':'' @ ''v1'') = Inr ''v1''"
    using s by simp
  moreover have "tag_from_ref (''localhost'' @ '':'' @ ''5000'' @ ''/'' @ ''app'') = Inr []"
    using s by simp
  moreover have "distinct [''v1'', ''main'', ''latest'']" using s e by blast
  moreover have "is_terminal (terminal ''the ref \"x:.latest\" has an invalid tag \".latest\"'')" using s f by blast
  ultimately show ?thesis using e by simp
qed

end
