(* ===== verification/Default_Registry.thy ===== *)
theory Default_Registry
  imports Recon
begin

section \<open>Registries and credentials\<close>

text \<open>
  \<^verbatim>\<open>internal/reconciler/defaultregistry.go\<close>, \<^verbatim>\<open>auth.go\<close> and \<^verbatim>\<open>remoteauth.go\<close>: where an
  object publishes when it does not say, which name a workload is told, and whose credential goes
  to which host. JSON and base64 decoding, the API server's reader and the registry library's
  canonical Docker Hub key are arguments.
\<close>

subsection \<open>The operator's registry\<close>

record default_registry =
  dr_host :: string
  dr_public :: string
  dr_secret :: string
  dr_namespace :: string

definition configured :: "default_registry \<Rightarrow> bool" where
  "configured d \<longleftrightarrow> dr_host d \<noteq> []"

definition host_of :: "string \<Rightarrow> string" where
  "host_of reference = cut_before (CHR ''/'') reference"

definition owns :: "default_registry \<Rightarrow> string \<Rightarrow> bool" where
  "owns d repository \<longleftrightarrow>
     (if dr_host d = [] \<or> repository = [] then False
      else host_of repository = host_of (dr_host d))"

definition repository_at :: "string \<Rightarrow> string \<Rightarrow> string \<Rightarrow> string" where
  "repository_at host namespace name = trim_suffix host ''/'' @ ''/'' @ namespace @ ''/'' @ name"

definition repository_for :: "default_registry \<Rightarrow> string \<Rightarrow> string \<Rightarrow> string" where
  "repository_for d namespace name = repository_at (dr_host d) namespace name"

definition public_repository :: "default_registry \<Rightarrow> string \<Rightarrow> string" where
  "public_repository d repository =
     (if dr_public d = [] \<or> repository = [] \<or> \<not> owns d repository then repository
      else (case cut (CHR ''/'') repository of
          None \<Rightarrow> trim_suffix (dr_public d) ''/''
        | Some (_, path) \<Rightarrow> trim_suffix (dr_public d) ''/'' @ ''/'' @ path))"

definition credential_for ::
    "default_registry \<Rightarrow> string \<Rightarrow> string \<Rightarrow> string \<Rightarrow> string \<times> string" where
  "credential_for d object_namespace own_secret_ref target =
     (if own_secret_ref \<noteq> [] then (own_secret_ref, object_namespace)
      else if dr_secret d \<noteq> [] \<and> owns d target then (dr_secret d, dr_namespace d)
      else ([], []))"

definition insecure_host :: "string \<Rightarrow> string list \<Rightarrow> bool" where
  "insecure_host repository insecure \<longleftrightarrow> list_ex (\<lambda>h. h = host_of repository) insecure"

subsection \<open>Docker credentials\<close>

record docker_auth =
  da_username :: string
  da_password :: string
  da_auth :: string

type_synonym auth_config = "string \<times> string"
type_synonym keychain = "string \<rightharpoonup> auth_config"
type_synonym secret_data = "string \<rightharpoonup> string"

text \<open>\<^verbatim>\<open>strings.Index\<close> of a substring.\<close>

fun index_sub :: "string \<Rightarrow> string \<Rightarrow> nat option" where
  "index_sub [] p = (if p = [] then Some 0 else None)"
| "index_sub (x # xs) p =
     (if has_prefix (x # xs) p then Some 0 else map_option Suc (index_sub xs p))"

definition normalise_host :: "string \<Rightarrow> string" where
  "normalise_host host =
     (let h = (case index_sub host ''://'' of None \<Rightarrow> host | Some i \<Rightarrow> drop (i + 3) host)
      in (case index_sub h ''/'' of None \<Rightarrow> h | Some i \<Rightarrow> if i > 0 then take i h else h))"

definition docker_config_key :: string where
  "docker_config_key = ''.dockerconfigjson''"

definition decode_auth :: "(string \<Rightarrow> string option) \<Rightarrow> docker_auth \<Rightarrow> auth_config res" where
  "decode_auth base64 a =
     (if da_username a = [] \<and> da_auth a \<noteq> [] then
        (case base64 (da_auth a) of
           None \<Rightarrow> Inl (Wrap ''decoding auth'' (Msg ''illegal base64 data''))
         | Some s \<Rightarrow>
             (case cut (CHR '':'') s of
                None \<Rightarrow> Inl (Msg ''auth is not username:password'')
              | Some (user, pass) \<Rightarrow> Inr (user, pass)))
      else Inr (da_username a, da_password a))"

fun add_auths ::
    "(string \<Rightarrow> string option) \<Rightarrow> (string \<times> docker_auth) list \<Rightarrow> keychain \<Rightarrow> keychain res" where
  "add_auths base64 [] kc = Inr kc"
| "add_auths base64 ((host, a) # rest) kc =
     (case decode_auth base64 a of
        Inl e \<Rightarrow> Inl e
      | Inr (user, pass) \<Rightarrow>
          if user = [] \<and> pass = [] then add_auths base64 rest kc
          else add_auths base64 rest (kc(normalise_host host \<mapsto> (user, pass))))"

definition keychain_from_secret ::
    "(string \<Rightarrow> (string \<times> docker_auth) list option) \<Rightarrow> (string \<Rightarrow> string option) \<Rightarrow> secret_data \<Rightarrow>
     keychain res" where
  "keychain_from_secret json base64 data =
     (case data docker_config_key of
        None \<Rightarrow> Inl (Msg ''missing key .dockerconfigjson'')
      | Some raw \<Rightarrow>
          (case json raw of
             None \<Rightarrow> Inl (Wrap ''parsing .dockerconfigjson'' (Msg ''invalid JSON''))
           | Some auths \<Rightarrow>
               if auths = [] then Inl (Msg '' contains no auths entries'')
               else (case add_auths base64 auths Map.empty of
                   Inl e \<Rightarrow> Inl e
                 | Inr kc \<Rightarrow>
                     if list_all (\<lambda>a. kc (normalise_host (fst a)) = None) auths
                     then Inl (Msg '' contains no usable credentials'')
                     else Inr kc)))"

definition hub_aliases :: "string \<Rightarrow> string list" where
  "hub_aliases default_key = [default_key, ''index.docker.io'', ''docker.io'']"

fun first_alias :: "keychain \<Rightarrow> string list \<Rightarrow> auth_config option" where
  "first_alias kc [] = None"
| "first_alias kc (h # hs) = (case kc h of Some a \<Rightarrow> Some a | None \<Rightarrow> first_alias kc hs)"

text \<open>\<open>None\<close> is the anonymous authenticator.\<close>

definition resolve_auth :: "string \<Rightarrow> keychain \<Rightarrow> string \<Rightarrow> auth_config option" where
  "resolve_auth default_key kc want =
     (case kc want of
        Some a \<Rightarrow> Some a
      | None \<Rightarrow>
          if want \<in> set (hub_aliases default_key) then first_alias kc (hub_aliases default_key)
          else None)"

subsection \<open>The options of one request\<close>

text \<open>What reading an object from the API server yields.\<close>

datatype 'a lookup = Found 'a | Missing | ReadFailed error

datatype auth_choice = AnonymousAuth | KeychainAuth keychain

record secret_env =
  se_get :: "string \<Rightarrow> string \<Rightarrow> secret_data lookup"
  se_json :: "string \<Rightarrow> (string \<times> docker_auth) list option"
  se_base64 :: "string \<Rightarrow> string option"

text \<open>The push credential of an object: its own reference's name, empty without one.\<close>

definition own_secret_ref :: "push option \<Rightarrow> string" where
  "own_secret_ref p =
     (case p of None \<Rightarrow> [] | Some q \<Rightarrow> (case ps_secret_ref q of None \<Rightarrow> [] | Some n \<Rightarrow> n))"

definition remote_auth ::
    "secret_env \<Rightarrow> default_registry \<Rightarrow> (string \<Rightarrow> error) \<Rightarrow> string \<Rightarrow> string \<Rightarrow> push option \<Rightarrow>
     auth_choice res" where
  "remote_auth env d soft namespace repository p =
     (case credential_for d namespace (own_secret_ref p) repository of
        (name, ns) \<Rightarrow>
          if name = [] then Inr AnonymousAuth
          else (case se_get env ns name of
              Missing \<Rightarrow> Inl (soft ''push secret not found yet'')
            | ReadFailed e \<Rightarrow> Inl (Wrap ''reading push secret'' e)
            | Found data \<Rightarrow>
                (case keychain_from_secret (se_json env) (se_base64 env) data of
                   Inl e \<Rightarrow> Inl (soft ''push secret is unusable'')
                 | Inr kc \<Rightarrow> Inr (KeychainAuth kc))))"

text \<open>\<^verbatim>\<open>pullOptions\<close> of \<^verbatim>\<open>internal/controller/auth.go\<close>, for base and layer images.\<close>

definition pull_options :: "secret_env \<Rightarrow> string \<Rightarrow> string option \<Rightarrow> auth_choice res" where
  "pull_options env namespace ref =
     (case ref of
        None \<Rightarrow> Inr AnonymousAuth
      | Some name \<Rightarrow>
          (case se_get env namespace name of
             Missing \<Rightarrow> Inl (pending ''pull secret not found yet'')
           | ReadFailed e \<Rightarrow> Inl (Wrap ''reading pull secret'' e)
           | Found data \<Rightarrow>
               (case keychain_from_secret (se_json env) (se_base64 env) data of
                  Inl e \<Rightarrow> Inl (pending ''pull secret is unusable'')
                | Inr kc \<Rightarrow> Inr (KeychainAuth kc))))"

subsection \<open>Where credentials go\<close>

lemma host_of_repository_for:
  assumes "host_of (dr_host d) \<noteq> []"
  shows "host_of (repository_for d ns n) = host_of (dr_host d)"
proof -
  let ?h = "dr_host d"
  have c: "cut_before (CHR ''/'') (a @ b) = cut_before (CHR ''/'') a"
    if "CHR ''/'' \<in> set a" for a b :: string
    using that unfolding cut_before_def by (induction a) auto
  show ?thesis
  proof (cases "CHR ''/'' \<in> set ?h")
    case True
    show ?thesis
    proof (cases "has_suffix ?h ''/''")
      case True
      then obtain r where "?h = r @ ''/''" by (auto simp: has_suffix_iff)
      then show ?thesis
        using c[of "?h"] by (simp add: repository_for_def repository_at_def host_of_def)
    next
      case False
      with \<open>CHR ''/'' \<in> set ?h\<close> show ?thesis
        by (simp add: repository_for_def repository_at_def host_of_def trim_suffix_def c)
    qed
  next
    case False
    then have "\<not> has_suffix ?h ''/''" by (auto simp: has_suffix_iff)
    with False show ?thesis
      by (simp add: repository_for_def repository_at_def host_of_def trim_suffix_def)
  qed
qed

lemma repository_for_inject:
  assumes "CHR ''/'' \<notin> set ns" "CHR ''/'' \<notin> set ns'"
    and "repository_for d ns n = repository_for d ns' n'"
  shows "ns = ns' \<and> n = n'"
  using assms until_sep_cancel[OF assms(1,2)]
  by (simp add: repository_for_def repository_at_def)

text \<open>
  Property C23. The operator's credential is read only for a target on the operator's own host: a
  request authenticates with the object's own secret from its own namespace, or with the operator's
  when the hosts are equal, or not at all; and a target elsewhere without an own secret is
  anonymous, whatever secrets exist.
\<close>

theorem operator_credential_boundary:
  "(remote_auth env d soft ns repo p = Inr (KeychainAuth kc) \<longrightarrow>
      (\<exists>data cns name. se_get env cns name = Found data \<and>
         keychain_from_secret (se_json env) (se_base64 env) data = Inr kc \<and>
         (name = own_secret_ref p \<and> cns = ns \<or>
          own_secret_ref p = [] \<and> name = dr_secret d \<and> cns = dr_namespace d \<and>
          dr_host d \<noteq> [] \<and> host_of repo = host_of (dr_host d)))) \<and>
   (own_secret_ref p = [] \<and> host_of repo \<noteq> host_of (dr_host d) \<longrightarrow>
      remote_auth env d soft ns repo p = Inr AnonymousAuth)"
proof (intro conjI impI)
  assume "remote_auth env d soft ns repo p = Inr (KeychainAuth kc)"
  moreover obtain name cns where c: "credential_for d ns (own_secret_ref p) repo = (name, cns)"
    by fastforce
  ultimately obtain data where "se_get env cns name = Found data"
    "keychain_from_secret (se_json env) (se_base64 env) data = Inr kc" "name \<noteq> []"
    by (auto simp: remote_auth_def split: if_splits lookup.splits sum.splits)
  moreover have "name = own_secret_ref p \<and> cns = ns \<or>
      own_secret_ref p = [] \<and> name = dr_secret d \<and> cns = dr_namespace d \<and>
      dr_host d \<noteq> [] \<and> host_of repo = host_of (dr_host d)"
    using c \<open>name \<noteq> []\<close> by (auto simp: credential_for_def owns_def split: if_splits)
  ultimately show "\<exists>data cns name. se_get env cns name = Found data \<and>
         keychain_from_secret (se_json env) (se_base64 env) data = Inr kc \<and>
         (name = own_secret_ref p \<and> cns = ns \<or>
          own_secret_ref p = [] \<and> name = dr_secret d \<and> cns = dr_namespace d \<and>
          dr_host d \<noteq> [] \<and> host_of repo = host_of (dr_host d))"
    by blast
next
  assume "own_secret_ref p = [] \<and> host_of repo \<noteq> host_of (dr_host d)"
  then have "credential_for d ns (own_secret_ref p) repo = ([], [])"
    by (simp add: credential_for_def owns_def)
  then show "remote_auth env d soft ns repo p = Inr AnonymousAuth"
    by (simp add: remote_auth_def)
qed

definition bundled_registry :: default_registry where
  "bundled_registry =
     \<lparr>dr_host = ''registry.svc:5000'', dr_public = ''node:30500'', dr_secret = ''op'',
      dr_namespace = ''system''\<rparr>"

definition one_secret_env :: secret_env where
  "one_secret_env =
     \<lparr>se_get = (\<lambda>ns n. if ns = ''system'' \<and> n = ''op''
         then Found [docker_config_key \<mapsto> ''json''] else Missing),
      se_json = (\<lambda>s. Some [(''https://registry.svc:5000/v1/'',
         \<lparr>da_username = ''u'', da_password = ''p'', da_auth = []\<rparr>)]),
      se_base64 = (\<lambda>s. None)\<rparr>"

lemma one_secret_resolves:
  "remote_auth one_secret_env bundled_registry pending ''team'' ''registry.svc:5000/team/app'' None =
     Inr (KeychainAuth [''registry.svc:5000'' \<mapsto> (''u'', ''p'')])"
  by (simp add: remote_auth_def one_secret_env_def bundled_registry_def own_secret_ref_def
      credential_for_def owns_def host_of_def cut_before_def keychain_from_secret_def decode_auth_def
      normalise_host_def has_prefix_def docker_config_key_def)

theorem operator_credential_boundary_witness:
  "host_of ''registry.svc:5000/team/app'' = host_of (dr_host bundled_registry) \<and>
   remote_auth one_secret_env bundled_registry pending ''team'' ''attacker.example/x'' None =
     Inr AnonymousAuth"
proof (rule conjI)
  note b = operator_credential_boundary[of one_secret_env bundled_registry pending "''team''" _ None]
  obtain cns name where "name = own_secret_ref None \<and> cns = ''team'' \<and> se_get one_secret_env cns name \<noteq> Missing \<or>
      host_of ''registry.svc:5000/team/app'' = host_of (dr_host bundled_registry)"
    using conjunct1[OF b] one_secret_resolves by (metis lookup.distinct(1))
  then show "host_of ''registry.svc:5000/team/app'' = host_of (dr_host bundled_registry)"
    by (auto simp: one_secret_env_def own_secret_ref_def)
  have "own_secret_ref None = [] \<and> host_of ''attacker.example/x'' \<noteq> host_of (dr_host bundled_registry)"
    by code_simp
  then show "remote_auth one_secret_env bundled_registry pending ''team'' ''attacker.example/x'' None =
     Inr AnonymousAuth"
    using conjunct2[OF b] by blast
qed

text \<open>Every key of a keychain is the normalised host of an entry of the secret, with its login.\<close>

lemma add_auths_entries:
  "add_auths base64 auths kc = Inr kc' \<Longrightarrow> kc' h = Some up \<Longrightarrow>
   kc h = Some up \<or>
   (\<exists>(host, a) \<in> set auths. normalise_host host = h \<and> decode_auth base64 a = Inr up)"
proof (induction auths arbitrary: kc)
  case (Cons x xs)
  obtain host a where x: "x = (host, a)" by (cases x)
  then obtain user pass where up: "decode_auth base64 a = Inr (user, pass)"
    using Cons.prems(1) by (auto split: sum.splits)
  show ?case
  proof (cases "user = [] \<and> pass = []")
    case True
    then have "add_auths base64 xs kc = Inr kc'" using Cons.prems(1) x up by simp
    from Cons.IH[OF this Cons.prems(2)] show ?thesis by auto
  next
    case False
    then have "add_auths base64 xs (kc(normalise_host host \<mapsto> (user, pass))) = Inr kc'"
      using Cons.prems(1) x up by auto
    from Cons.IH[OF this Cons.prems(2)] x up show ?thesis by (auto split: if_splits)
  qed
qed simp

lemma first_alias_Some: "first_alias kc hs = Some a \<Longrightarrow> \<exists>h \<in> set hs. kc h = Some a"
  by (induction hs) (auto split: option.splits)

text \<open>
  A login from a secret is presented only to the registry its entry names, scheme and
  path aside, or between the spellings of Docker Hub.
\<close>

theorem credential_stays_with_host:
  assumes "keychain_from_secret json base64 data = Inr kc" "resolve_auth hub kc want = Some up"
  shows "\<exists>raw auths host a. data docker_config_key = Some raw \<and> json raw = Some auths \<and>
    (host, a) \<in> set auths \<and> decode_auth base64 a = Inr up \<and>
    (normalise_host host = want \<or>
     want \<in> set (hub_aliases hub) \<and> normalise_host host \<in> set (hub_aliases hub))"
proof -
  obtain raw auths where r: "data docker_config_key = Some raw" "json raw = Some auths"
    "add_auths base64 auths Map.empty = Inr kc"
    using assms(1)
    by (auto simp: keychain_from_secret_def split: option.splits if_splits sum.splits)
  obtain h where h: "kc h = Some up"
    "h = want \<or> want \<in> set (hub_aliases hub) \<and> h \<in> set (hub_aliases hub)"
    using assms(2) first_alias_Some[of kc "hub_aliases hub" up]
    by (auto simp: resolve_auth_def split: option.splits if_splits)
  obtain host a where "(host, a) \<in> set auths" "normalise_host host = h" "decode_auth base64 a = Inr up"
    using add_auths_entries[OF r(3) h(1)] by auto
  with r h(2) show ?thesis by blast
qed

theorem credential_stays_with_host_witness:
  "resolve_auth ''hub'' [''registry.svc:5000'' \<mapsto> (''u'', ''p'')] ''registry.svc:5000'' = Some (''u'', ''p'') \<and>
   (\<exists>host. normalise_host host = ''registry.svc:5000'' \<or> normalise_host host \<in> set (hub_aliases ''hub''))"
proof -
  let ?kc = "[''registry.svc:5000'' \<mapsto> (''u'', ''p'')]"
  have k: "keychain_from_secret (se_json one_secret_env) (se_base64 one_secret_env)
      [docker_config_key \<mapsto> ''json''] = Inr ?kc"
    by (simp add: one_secret_env_def keychain_from_secret_def decode_auth_def normalise_host_def
        has_prefix_def docker_config_key_def)
  have r: "resolve_auth ''hub'' ?kc ''registry.svc:5000'' = Some (''u'', ''p'')"
    by (simp add: resolve_auth_def)
  from credential_stays_with_host[OF k r] r show ?thesis by blast
qed

end
