(* ===== verification/Go_Path.thy ===== *)
theory Go_Path
  imports Go_Base
begin

section \<open>Slash-separated paths\<close>

text \<open>
  Go's \<^verbatim>\<open>path\<close> package as the repository uses it: \<^verbatim>\<open>Clean\<close>, \<^verbatim>\<open>Join\<close>, \<^verbatim>\<open>Split\<close>,
  \<^verbatim>\<open>Dir\<close>, \<^verbatim>\<open>Base\<close>. \<^verbatim>\<open>Clean\<close> is computed on the list of components with a stack, which is
  the documented lexical processing: empty and \<^verbatim>\<open>.\<close> components vanish, an inner \<^verbatim>\<open>..\<close>
  removes the component before it, a leading \<^verbatim>\<open>..\<close> of a rooted path vanishes and one of a
  relative path stays. The lemmas describe a cleaned path by its components, which is the
  form in which the traversal properties of the archive code are proved.
\<close>

abbreviation slash :: char where
  "slash \<equiv> CHR ''/''"

fun clean_stack :: "bool \<Rightarrow> string list \<Rightarrow> string list \<Rightarrow> string list" where
  "clean_stack rooted [] acc = rev acc"
| "clean_stack rooted (c # cs) acc =
     (if c = [] \<or> c = ''.'' then clean_stack rooted cs acc
      else if c = ''..'' then
        (case acc of
           [] \<Rightarrow> if rooted then clean_stack rooted cs [] else clean_stack rooted cs [''..'']
         | a # as \<Rightarrow> if a = ''..'' then clean_stack rooted cs (''..'' # acc)
                   else clean_stack rooted cs as)
      else clean_stack rooted cs (c # acc))"

definition clean_comps :: "string \<Rightarrow> string list" where
  "clean_comps p = clean_stack (has_prefix p [slash]) (split_on slash p) []"

definition path_clean :: "string \<Rightarrow> string" where
  "path_clean p =
     (if has_prefix p [slash] then slash # join [slash] (clean_comps p)
      else if clean_comps p = [] then ''.'' else join [slash] (clean_comps p))"

definition path_join :: "string \<Rightarrow> string \<Rightarrow> string" where
  "path_join a b =
     (if a = [] \<and> b = [] then []
      else if a = [] then path_clean b
      else path_clean (a @ [slash] @ b))"

definition path_split :: "string \<Rightarrow> string \<times> string" where
  "path_split p =
     (case last_index slash p of
        None \<Rightarrow> ([], p)
      | Some i \<Rightarrow> (take (Suc i) p, drop (Suc i) p))"

definition path_dir :: "string \<Rightarrow> string" where
  "path_dir p = path_clean (fst (path_split p))"

fun drop_trailing_slashes :: "string \<Rightarrow> string" where
  "drop_trailing_slashes s = rev (dropWhile (\<lambda>c. c = slash) (rev s))"

definition path_base :: "string \<Rightarrow> string" where
  "path_base p =
     (if p = [] then ''.''
      else let t = snd (path_split (drop_trailing_slashes p)) in if t = [] then ''/'' else t)"

definition path_is_abs :: "string \<Rightarrow> bool" where
  "path_is_abs p = has_prefix p [slash]"

subsection \<open>Components\<close>

text \<open>A component that names a file: what is left of a path when it is clean.\<close>

definition plain :: "string \<Rightarrow> bool" where
  "plain c \<longleftrightarrow> c \<noteq> [] \<and> c \<noteq> ''.'' \<and> c \<noteq> ''..'' \<and> slash \<notin> set c"

text \<open>The components of a cleaned relative path: some \<^verbatim>\<open>..\<close> and then plain ones.\<close>

definition ups_plain :: "string list \<Rightarrow> bool" where
  "ups_plain cs \<longleftrightarrow> (\<exists>n ps. cs = replicate n ''..'' @ ps \<and> list_all plain ps)"

lemma plain_no_slash: "plain c \<Longrightarrow> slash \<notin> set c"
  by (simp add: plain_def)

lemma plain_not_Nil: "plain c \<Longrightarrow> c \<noteq> []"
  by (simp add: plain_def)

lemma plain_not_dotdot [simp]: "\<not> plain ''..''" "\<not> plain ''.''" "\<not> plain []"
  by (simp_all add: plain_def)

lemma ups_plain_plain: "list_all plain ps \<Longrightarrow> ups_plain ps"
  unfolding ups_plain_def by (metis append_Nil replicate_0)

lemma clean_stack_plain:
  "list_all plain cs \<Longrightarrow> clean_stack r cs acc = rev acc @ cs"
  by (induction cs arbitrary: acc) (auto simp: plain_def)

lemma clean_stack_rooted:
  "list_all plain acc \<Longrightarrow> \<forall>c \<in> set cs. slash \<notin> set c \<Longrightarrow> list_all plain (clean_stack True cs acc)"
proof (induction cs arbitrary: acc)
  case Nil
  then show ?case by simp
next
  case (Cons c cs)
  show ?case
  proof (cases "c = [] \<or> c = ''.'' \<or> c = ''..''")
    case True
    with Cons show ?thesis by (cases acc) auto
  next
    case False
    then have "plain c" using Cons.prems by (simp add: plain_def)
    with False Cons show ?thesis by simp
  qed
qed

text \<open>The stack of a relative path, read from the bottom, is always of the form above.\<close>

lemma ups_plain_snoc_plain: "ups_plain cs \<Longrightarrow> plain c \<Longrightarrow> ups_plain (cs @ [c])"
  unfolding ups_plain_def by (metis append.assoc list.pred_inject list_all_append)

lemma ups_plain_pop:
  assumes "ups_plain (cs @ [c])" "c \<noteq> ''..''"
  shows "ups_plain cs"
proof -
  obtain n ps where np: "cs @ [c] = replicate n ''..'' @ ps" "list_all plain ps"
    using assms(1) by (auto simp: ups_plain_def)
  show ?thesis
  proof (cases ps rule: rev_cases)
    case Nil
    with np have "cs @ [c] = replicate n ''..''" by simp
    then have "c \<in> set (replicate n ''..'')" by (metis in_set_conv_decomp)
    with assms(2) show ?thesis by simp
  next
    case (snoc qs q)
    with np have "cs = replicate n ''..'' @ qs" "list_all plain qs" by auto
    then show ?thesis by (auto simp: ups_plain_def)
  qed
qed

lemma ups_plain_push_up:
  assumes "ups_plain (cs @ [''..''])"
  shows "ups_plain (cs @ [''..'', ''..''])"
proof -
  obtain n ps where np: "cs @ [''..''] = replicate n ''..'' @ ps" "list_all plain ps"
    using assms by (auto simp: ups_plain_def)
  have "ps = []"
  proof (cases ps rule: rev_cases)
    case (snoc qs q)
    with np have "q = ''..''" "plain q" by auto
    then show ?thesis by simp
  qed simp
  with np have "cs @ [''..'', ''..''] = replicate (Suc n) ''..''"
    by (metis append.assoc append_Cons append_Nil append_Nil2 replicate_Suc replicate_append_same)
  then show ?thesis by (metis append_Nil2 list.pred_inject(1) ups_plain_def)
qed

lemma clean_stack_relative:
  "ups_plain (rev acc) \<Longrightarrow> \<forall>c \<in> set cs. slash \<notin> set c \<Longrightarrow> ups_plain (clean_stack False cs acc)"
proof (induction cs arbitrary: acc)
  case Nil
  then show ?case by simp
next
  case (Cons c cs)
  have sl: "\<forall>c \<in> set cs. slash \<notin> set c" using Cons.prems by simp
  show ?case
  proof (cases "c = [] \<or> c = ''.''")
    case True
    with Cons.IH[OF Cons.prems(1) sl] show ?thesis by auto
  next
    case empty: False
    show ?thesis
    proof (cases "c = ''..''")
      case up: True
      show ?thesis
      proof (cases acc)
        case Nil
        have "ups_plain (rev [''..''])"
          unfolding ups_plain_def by (rule exI[of _ 1]) simp
        from Cons.IH[OF this sl] Nil up show ?thesis by simp
      next
        case acc: (Cons a as)
        show ?thesis
        proof (cases "a = ''..''")
          case True
          with acc Cons.prems(1) have "ups_plain (rev (''..'' # acc))"
            using ups_plain_push_up by simp
          from Cons.IH[OF this sl] True up acc show ?thesis by simp
        next
          case False
          with acc Cons.prems(1) have "ups_plain (rev as)"
            using ups_plain_pop by simp
          from Cons.IH[OF this sl] False up acc show ?thesis by simp
        qed
      qed
    next
      case False
      with empty Cons.prems(2) have "plain c" by (simp add: plain_def)
      with Cons.prems(1) have "ups_plain (rev (c # acc))"
        using ups_plain_snoc_plain by simp
      from Cons.IH[OF this sl] False empty show ?thesis by simp
    qed
  qed
qed

lemma clean_comps_rooted: "has_prefix p [slash] \<Longrightarrow> list_all plain (clean_comps p)"
  unfolding clean_comps_def using clean_stack_rooted[of "[]"] by (simp add: split_on_elem)

lemma clean_comps_relative: "ups_plain (clean_comps p)"
proof (cases "has_prefix p [slash]")
  case True
  then show ?thesis by (simp add: clean_comps_rooted ups_plain_plain)
next
  case False
  then show ?thesis
    unfolding clean_comps_def
    using clean_stack_relative[of "[]" "split_on slash p"] ups_plain_plain[of "[]"]
    by (simp add: split_on_elem)
qed

subsection \<open>Paths made of plain components\<close>

lemma join_slash_not_Nil: "list_all plain cs \<Longrightarrow> cs \<noteq> [] \<Longrightarrow> join [slash] cs \<noteq> []"
  by (cases cs rule: remdups_adj.cases) (auto simp: plain_def)

lemma join_plain_no_prefix: "list_all plain cs \<Longrightarrow> \<not> has_prefix (join [slash] cs) [slash]"
  by (cases cs rule: remdups_adj.cases)
    (auto simp: plain_def has_prefix_single append_eq_Cons_conv)

lemma split_join_plain: "list_all plain cs \<Longrightarrow> cs \<noteq> [] \<Longrightarrow> split_on slash (join [slash] cs) = cs"
  by (rule split_on_join) (auto simp: list_all_iff plain_def)

lemma join_plain_inject:
  "list_all plain cs \<Longrightarrow> list_all plain ds \<Longrightarrow> join [slash] cs = join [slash] ds \<Longrightarrow> cs = ds"
  by (metis join.simps(1) join_slash_not_Nil split_join_plain)

lemma clean_comps_join [simp]: "list_all plain cs \<Longrightarrow> clean_comps (join [slash] cs) = cs"
proof (cases "cs = []")
  case True
  then show ?thesis by (simp add: clean_comps_def has_prefix_def)
next
  case False
  assume "list_all plain cs"
  with False show ?thesis
    by (simp add: clean_comps_def split_join_plain clean_stack_plain)
qed

lemma clean_comps_rooted_join [simp]:
  "list_all plain cs \<Longrightarrow> clean_comps (slash # join [slash] cs) = cs"
proof (cases "cs = []")
  case True
  then show ?thesis by (simp add: clean_comps_def has_prefix_def)
next
  case False
  assume "list_all plain cs"
  with False show ?thesis
    by (simp add: clean_comps_def split_join_plain clean_stack_plain)
qed

lemma path_clean_join [simp]:
  "list_all plain cs \<Longrightarrow> cs \<noteq> [] \<Longrightarrow> path_clean (join [slash] cs) = join [slash] cs"
  by (simp add: path_clean_def join_plain_no_prefix)

lemma path_clean_rooted_join [simp]:
  "list_all plain cs \<Longrightarrow> path_clean (slash # join [slash] cs) = slash # join [slash] cs"
  by (simp add: path_clean_def has_prefix_single)

lemma path_clean_rooted:
  "has_prefix p [slash] \<Longrightarrow> path_clean p = slash # join [slash] (clean_comps p)"
  by (simp add: path_clean_def)

lemma path_clean_Nil [simp]: "path_clean [] = ''.''"
  by (simp add: path_clean_def clean_comps_def has_prefix_def)

lemma path_clean_dot [simp]: "path_clean ''.'' = ''.''"
  by (simp add: path_clean_def clean_comps_def has_prefix_def)

text \<open>A relative path whose clean form does not walk out has plain components only.\<close>

lemma ups_plain_no_up:
  assumes "ups_plain cs" "cs \<noteq> [''..'']" "\<not> has_prefix (join [slash] cs) ''../''"
  shows "list_all plain cs"
proof -
  obtain n ps where np: "cs = replicate n ''..'' @ ps" "list_all plain ps"
    using assms(1) by (auto simp: ups_plain_def)
  show ?thesis
  proof (cases n)
    case 0
    with np show ?thesis by simp
  next
    case (Suc m)
    then have cs: "cs = ''..'' # (replicate m ''..'' @ ps)" using np by simp
    with assms(2) have "replicate m ''..'' @ ps \<noteq> []" by auto
    with cs have "join [slash] cs = ''../'' @ join [slash] (replicate m ''..'' @ ps)"
      by (simp add: join_Cons)
    with assms(3) show ?thesis by (metis has_prefix_append)
  qed
qed

lemma path_clean_no_escape:
  assumes "path_clean p \<noteq> ''..''" "\<not> has_prefix (path_clean p) ''../''"
  shows "list_all plain (clean_comps p)"
proof (cases "has_prefix p [slash]")
  case True
  then show ?thesis by (rule clean_comps_rooted)
next
  case False
  show ?thesis
  proof (cases "clean_comps p = []")
    case empty: False
    with False have c: "path_clean p = join [slash] (clean_comps p)"
      by (simp add: path_clean_def)
    show ?thesis
    proof (rule ups_plain_no_up[OF clean_comps_relative])
      show "clean_comps p \<noteq> [''..'']" using assms(1) c by auto
      show "\<not> has_prefix (join [slash] (clean_comps p)) ''../''" using assms(2) c by simp
    qed
  qed simp
qed

text \<open>The components of a joined pair of plain paths are the concatenation.\<close>

lemma path_join_plain:
  assumes "list_all plain cs" "list_all plain ds" "cs \<noteq> []" "ds \<noteq> []"
  shows "path_join (join [slash] cs) (join [slash] ds) = join [slash] (cs @ ds)"
proof -
  have "join [slash] cs @ [slash] @ join [slash] ds = join [slash] (cs @ ds)"
    using assms by (simp add: join_append)
  then show ?thesis
    using assms by (simp add: path_join_def join_slash_not_Nil)
qed

subsection \<open>Splitting off the last component\<close>

lemma path_split_join:
  assumes "list_all plain cs" "plain c"
  shows "path_split (join [slash] (cs @ [c])) =
    (if cs = [] then [] else join [slash] cs @ [slash], c)"
proof (cases "cs = []")
  case True
  with assms show ?thesis by (simp add: path_split_def last_index_None[THEN iffD2] plain_def)
next
  case False
  with assms have "join [slash] (cs @ [c]) = join [slash] cs @ slash # c"
    by (simp add: join_append)
  moreover have "last_index slash (join [slash] cs @ slash # c) = Some (length (join [slash] cs))"
    using assms(2) by (intro last_index_append) (simp add: plain_def)
  ultimately show ?thesis using False by (simp add: path_split_def)
qed

lemma split_on_snoc_sep: "split_on c (a @ [c]) = split_on c a @ [[]]"
proof (induction a)
  case (Cons x xs)
  obtain y ys where "split_on c xs = y # ys"
    using split_on_not_Nil by (metis neq_Nil_conv)
  with Cons show ?case by simp
qed simp

lemma clean_stack_append_Nil:
  "clean_stack r (cs @ [[]]) acc = clean_stack r cs acc"
  by (induction r cs acc rule: clean_stack.induct) (auto split: list.splits)

lemma clean_comps_trailing: "s \<noteq> [] \<Longrightarrow> clean_comps (s @ [slash]) = clean_comps s"
  by (cases s) (simp_all add: clean_comps_def has_prefix_single clean_stack_append_Nil
      split_on_snoc_sep[of _ "_ # _", simplified append_Cons] del: split_on.simps)

lemma path_clean_trailing: "s \<noteq> [] \<Longrightarrow> path_clean (s @ [slash]) = path_clean s"
  by (cases s) (simp_all add: path_clean_def clean_comps_trailing has_prefix_single
      clean_comps_trailing[of "_ # _", simplified append_Cons])

lemma path_dir_join:
  assumes "list_all plain cs" "plain c"
  shows "path_dir (join [slash] (cs @ [c])) = (if cs = [] then ''.'' else join [slash] cs)"
  using assms by (simp add: path_dir_def path_split_join path_clean_trailing join_slash_not_Nil)

lemma path_join_rooted_plain:
  assumes "list_all plain cs" "list_all plain ds" "ds \<noteq> []"
  shows "path_join (slash # join [slash] cs) (join [slash] ds) =
    slash # join [slash] (cs @ ds)"
proof (cases "cs = []")
  case True
  have "clean_comps (slash # slash # join [slash] ds) = clean_comps (slash # join [slash] ds)"
    by (simp add: clean_comps_def has_prefix_single)
  with True assms show ?thesis by (simp add: path_join_def path_clean_rooted has_prefix_single)
next
  case False
  then have "join [slash] cs @ slash # join [slash] ds = join [slash] (cs @ ds)"
    using assms by (simp add: join_append)
  moreover have "path_clean (slash # join [slash] (cs @ ds)) = slash # join [slash] (cs @ ds)"
    by (rule path_clean_rooted_join) (use assms in simp)
  ultimately show ?thesis by (simp add: path_join_def)
qed

lemma path_base_join:
  assumes "list_all plain cs" "plain c"
  shows "path_base (join [slash] (cs @ [c])) = c"
proof -
  have ne: "join [slash] (cs @ [c]) \<noteq> []"
    by (rule join_slash_not_Nil) (use assms in simp_all)
  obtain d ds where d: "rev c = d # ds" "d \<noteq> slash"
    using assms(2) by (cases "rev c") (auto simp: plain_def)
  have "\<exists>p. join [slash] (cs @ [c]) = p @ c"
    using assms by (cases "cs = []") (auto simp: join_append)
  then have "dropWhile (\<lambda>x. x = slash) (rev (join [slash] (cs @ [c]))) = rev (join [slash] (cs @ [c]))"
    using d by auto
  with ne assms show ?thesis
    by (simp add: path_base_def path_split_join plain_def Let_def)
qed

end
