(* ===== verification/Archive_Path.thy ===== *)
theory Archive_Path
  imports Go_Path
begin

section \<open>Where an archive entry lands\<close>

text \<open>
  \<^verbatim>\<open>internal/archive/path.go\<close>: the one path rule shared by the composer's assembler and the
  builder's context fetcher. \<^verbatim>\<open>Mapping.Map\<close> strips leading components and then selects a
  subpath; \<^verbatim>\<open>Walk\<close> adds the tally that refuses a selection which emptied the archive.
  \<open>place_spec\<close> is the same rule stated on lists of components, and the refinement lemma
  shows that the string processing of the code computes it.
\<close>

subsection \<open>Definitions\<close>

record placement =
  pl_dest :: string
  pl_selected :: bool
  pl_in_subpath :: bool
  pl_survived :: bool

record mapping =
  mp_strip :: int
  mp_prefix :: string

record walk =
  wk_mapping :: mapping
  wk_declared :: string
  wk_matched :: bool
  wk_survivors :: nat

definition no_placement :: placement where
  "no_placement = \<lparr>pl_dest = [], pl_selected = False, pl_in_subpath = False, pl_survived = False\<rparr>"

text \<open>\<^verbatim>\<open>strings.Trim(s, "/")\<close>\<close>

definition trim_slashes :: "string \<Rightarrow> string" where
  "trim_slashes s =
     rev (dropWhile (\<lambda>c. c = slash) (rev (dropWhile (\<lambda>c. c = slash) s)))"

definition new_mapping :: "int \<Rightarrow> string \<Rightarrow> mapping" where
  "new_mapping strip subpath =
     (let p = trim_slashes (path_clean (slash # subpath))
      in \<lparr>mp_strip = strip, mp_prefix = (if p = ''.'' then [] else p)\<rparr>)"

text \<open>The loop \<^verbatim>\<open>for range m.Strip\<close>: one \<^verbatim>\<open>strings.Cut\<close> per round, \<open>None\<close> when too shallow.\<close>

fun strip_components :: "nat \<Rightarrow> string \<Rightarrow> string option" where
  "strip_components 0 s = Some s"
| "strip_components (Suc n) s =
     (case cut slash s of None \<Rightarrow> None | Some (_, rest) \<Rightarrow> strip_components n rest)"

definition mapping_map :: "mapping \<Rightarrow> string \<Rightarrow> placement" where
  "mapping_map m name =
     (let clean = trim_prefix (path_clean name) ''./'' in
      if clean = ''.'' \<or> clean = ''/'' \<or> clean = [] then no_placement
      else (case strip_components (nat (mp_strip m)) clean of
          None \<Rightarrow> no_placement
        | Some c \<Rightarrow>
            if c = [] then no_placement
            else if mp_prefix m = [] then
              \<lparr>pl_dest = c, pl_selected = True, pl_in_subpath = True, pl_survived = True\<rparr>
            else if c = mp_prefix m then
              \<lparr>pl_dest = [], pl_selected = False, pl_in_subpath = True, pl_survived = True\<rparr>
            else (let pre = mp_prefix m @ ''/''; rest = drop (length pre) c in
              if \<not> has_prefix c pre \<or> rest = [] then
                \<lparr>pl_dest = [], pl_selected = False, pl_in_subpath = False, pl_survived = True\<rparr>
              else
                \<lparr>pl_dest = rest, pl_selected = True, pl_in_subpath = True, pl_survived = True\<rparr>)))"

definition new_walk :: "int \<Rightarrow> string \<Rightarrow> walk" where
  "new_walk strip subpath =
     \<lparr>wk_mapping = new_mapping strip subpath, wk_declared = subpath,
      wk_matched = False, wk_survivors = 0\<rparr>"

definition walk_map :: "walk \<Rightarrow> string \<Rightarrow> placement \<times> walk" where
  "walk_map w name =
     (let place = mapping_map (wk_mapping w) name;
          w1 = (if pl_survived place then w\<lparr>wk_survivors := Suc (wk_survivors w)\<rparr> else w);
          w2 = (if pl_in_subpath place then w1\<lparr>wk_matched := True\<rparr> else w1)
      in (place, w2))"

definition walk_err :: "walk \<Rightarrow> error option" where
  "walk_err w =
     (if mp_strip (wk_mapping w) > 0 \<and> wk_survivors w = 0
      then Some (Msg ''stripComponents removed every entry in the archive'')
      else if mp_prefix (wk_mapping w) \<noteq> [] \<and> \<not> wk_matched w
      then Some (Msg ''subpath is not present in the archive'')
      else None)"

subsection \<open>The rule on components\<close>

text \<open>
  What \<^verbatim>\<open>Mapping\<close> promises: drop \<open>n\<close> components, then take what lies below the components
  \<open>ps\<close>; the subpath directory itself proves that it exists and contributes nothing.
\<close>

definition place_spec :: "nat \<Rightarrow> string list \<Rightarrow> string list \<Rightarrow> placement" where
  "place_spec n ps cs =
     (let r = drop n cs in
      if r = [] then no_placement
      else if r = ps then
        \<lparr>pl_dest = [], pl_selected = False, pl_in_subpath = True, pl_survived = True\<rparr>
      else if take (length ps) r = ps then
        \<lparr>pl_dest = join [slash] (drop (length ps) r),
         pl_selected = True, pl_in_subpath = True, pl_survived = True\<rparr>
      else \<lparr>pl_dest = [], pl_selected = False, pl_in_subpath = False, pl_survived = True\<rparr>)"

lemma trim_slashes_rooted_join:
  "list_all plain ps \<Longrightarrow> trim_slashes (slash # join [slash] ps) = join [slash] ps"
proof (cases ps rule: rev_cases)
  case Nil
  then show ?thesis by (simp add: trim_slashes_def)
next
  case (snoc qs q)
  assume p: "list_all plain ps"
  have front: "dropWhile (\<lambda>c. c = slash) (join [slash] ps) = join [slash] ps"
    using join_plain_no_prefix[OF p] by (cases "join [slash] ps") (auto simp: has_prefix_single)
  obtain d ds where q: "rev q = d # ds" "d \<noteq> slash"
    using p snoc by (cases q rule: rev_cases) (auto simp: plain_def)
  have "join [slash] ps = (if qs = [] then q else join [slash] qs @ slash # q)"
    using snoc join_append[of qs "[q]" "[slash]"] by simp
  then have "rev (join [slash] ps) = rev q @ (if qs = [] then [] else slash # rev (join [slash] qs))"
    by simp
  then have "\<exists>t. rev (join [slash] ps) = d # t"
    unfolding q(1) by simp
  then obtain t where t: "rev (join [slash] ps) = d # t" by blast
  then have "rev (dropWhile (\<lambda>c. c = slash) (rev (join [slash] ps))) = join [slash] ps"
    using q(2) by (metis (mono_tags, lifting) dropWhile.simps(2) rev_rev_ident)
  then show ?thesis by (simp add: trim_slashes_def front)
qed

lemma join_plain_not_dot: "list_all plain ps \<Longrightarrow> join [slash] ps \<noteq> ''.''"
proof
  assume ps: "list_all plain ps" and eq: "join [slash] ps = ''.''"
  have "ps \<noteq> []" using eq by auto
  then have "ps = split_on slash ''.''" using split_join_plain[OF ps] eq by simp
  with ps show False by simp
qed

lemma mp_prefix_new_mapping [simp]:
  "mp_prefix (new_mapping n sp) = join [slash] (clean_comps (slash # sp))"
  "mp_strip (new_mapping n sp) = n"
proof -
  have p: "list_all plain (clean_comps (slash # sp))"
    by (rule clean_comps_rooted) (simp add: has_prefix_single)
  then have "trim_slashes (path_clean (slash # sp)) = join [slash] (clean_comps (slash # sp))"
    by (simp add: path_clean_rooted has_prefix_single trim_slashes_rooted_join)
  then show "mp_prefix (new_mapping n sp) = join [slash] (clean_comps (slash # sp))"
    using join_plain_not_dot[OF p] by (simp add: new_mapping_def Let_def)
qed (simp add: new_mapping_def Let_def)

lemma plain_prefix_comps:
  "list_all plain (clean_comps (slash # sp))"
  by (rule clean_comps_rooted) (simp add: has_prefix_single)

lemma trim_dot_slash_plain:
  assumes "list_all plain cs" "cs \<noteq> []"
  shows "trim_prefix (join [slash] cs) ''./'' = join [slash] cs"
proof (rule trim_prefix_none, rule notI)
  assume "has_prefix (join [slash] cs) ''./''"
  then obtain r where r: "join [slash] cs = ''.'' @ slash # r" by (auto simp: has_prefix_iff)
  have "split_on slash (''.'' @ slash # r) = ''.'' # split_on slash r"
    by (rule split_on_append_sep) simp
  then have "cs = ''.'' # split_on slash r" using split_join_plain[OF assms] r by simp
  with assms show False by simp
qed

lemma strip_components_join:
  "list_all plain cs \<Longrightarrow> cs \<noteq> [] \<Longrightarrow>
   strip_components n (join [slash] cs) =
     (if drop n cs = [] then None else Some (join [slash] (drop n cs)))"
proof (induction n arbitrary: cs)
  case 0
  then show ?case by simp
next
  case (Suc n)
  obtain d ds where cs: "cs = d # ds" using Suc.prems(2) by (cases cs) auto
  show ?case
  proof (cases "ds = []")
    case True
    with cs Suc.prems have "cut slash (join [slash] cs) = None"
      by (simp add: cut_None plain_def)
    with True cs show ?thesis by simp
  next
    case False
    with cs Suc.prems have "cut slash (join [slash] cs) = Some (d, join [slash] ds)"
      by (simp add: cut_Some join_Cons plain_def)
    with False cs Suc show ?thesis by simp
  qed
qed

lemma has_prefix_join_plain:
  assumes "list_all plain r" "list_all plain ps" "ps \<noteq> []" "r \<noteq> ps"
  shows "has_prefix (join [slash] r) (join [slash] ps @ ''/'') \<and>
           drop (length (join [slash] ps @ ''/'')) (join [slash] r) \<noteq> [] \<longleftrightarrow>
         take (length ps) r = ps"
    and "take (length ps) r = ps \<Longrightarrow>
         drop (length (join [slash] ps @ ''/'')) (join [slash] r) = join [slash] (drop (length ps) r)"
proof -
  have split: "take (length ps) r = ps \<Longrightarrow>
      join [slash] r = join [slash] ps @ ''/'' @ join [slash] (drop (length ps) r) \<and>
      drop (length ps) r \<noteq> []"
  proof -
    assume t: "take (length ps) r = ps"
    then have d: "drop (length ps) r \<noteq> []" using assms(4) by (metis append_Nil2 append_take_drop_id)
    have "join [slash] (take (length ps) r @ drop (length ps) r) =
        join [slash] ps @ ''/'' @ join [slash] (drop (length ps) r)"
      unfolding t using d assms(3) by (simp add: join_append)
    with d show ?thesis by simp
  qed
  then show "take (length ps) r = ps \<Longrightarrow>
      drop (length (join [slash] ps @ ''/'')) (join [slash] r) = join [slash] (drop (length ps) r)"
    by fastforce
  show "has_prefix (join [slash] r) (join [slash] ps @ ''/'') \<and>
           drop (length (join [slash] ps @ ''/'')) (join [slash] r) \<noteq> [] \<longleftrightarrow>
         take (length ps) r = ps"
  proof
    assume l: "has_prefix (join [slash] r) (join [slash] ps @ ''/'') \<and>
           drop (length (join [slash] ps @ ''/'')) (join [slash] r) \<noteq> []"
    then obtain t where t: "join [slash] r = join [slash] ps @ slash # t"
      by (auto simp: has_prefix_iff)
    have "r \<noteq> []" using l by auto
    have "split_on slash (join [slash] ps @ slash # t) = ps @ split_on slash t"
      using assms(2,3)
    proof (induction ps rule: induct_list012)
      case (3 x y zs)
      then show ?case by (simp add: split_on_append_sep plain_def)
    qed (simp_all add: split_on_append_sep plain_def)
    then have "r = ps @ split_on slash t"
      using split_join_plain[OF assms(1) \<open>r \<noteq> []\<close>] t by simp
    then show "take (length ps) r = ps" by simp
  next
    assume "take (length ps) r = ps"
    with split have s: "join [slash] r = (join [slash] ps @ ''/'') @ join [slash] (drop (length ps) r)"
      and d: "drop (length ps) r \<noteq> []" by auto
    have "list_all plain (drop (length ps) r)"
      using assms(1) by (auto simp: list_all_iff dest: in_set_dropD)
    then have n: "join [slash] (drop (length ps) r) \<noteq> []" using d by (rule join_slash_not_Nil)
    have "has_prefix (join [slash] r) (join [slash] ps @ ''/'')" using s by (metis has_prefix_append)
    moreover have "drop (length (join [slash] ps @ ''/'')) (join [slash] r) \<noteq> []"
      using s n by (metis append_eq_conv_conj)
    ultimately show "has_prefix (join [slash] r) (join [slash] ps @ ''/'') \<and>
           drop (length (join [slash] ps @ ''/'')) (join [slash] r) \<noteq> []" by blast
  qed
qed

lemma mapping_map_plain:
  assumes "path_clean name = join [slash] cs" "list_all plain cs" "cs \<noteq> []"
  shows "mapping_map (new_mapping n sp) name = place_spec (nat n) (clean_comps (slash # sp)) cs"
proof -
  let ?ps = "clean_comps (slash # sp)" and ?r = "drop (nat n) cs"
  have ps: "list_all plain ?ps" by (rule plain_prefix_comps)
  have pr: "list_all plain ?r" using assms(2) by (auto simp: list_all_iff dest: in_set_dropD)
  have clean: "trim_prefix (join [slash] cs) ''./'' = join [slash] cs"
    using assms by (simp add: trim_dot_slash_plain)
  have skip: "join [slash] cs \<noteq> ''.''" "join [slash] cs \<noteq> ''/''" "join [slash] cs \<noteq> []"
    using assms join_plain_not_dot join_slash_not_Nil join_plain_no_prefix[OF assms(2)]
    by (auto simp: has_prefix_single)
  show ?thesis
  proof (cases "?r = []")
    case True
    with skip assms show ?thesis
      by (simp add: mapping_map_def clean strip_components_join place_spec_def Let_def)
  next
    case r: False
    then have rn: "join [slash] ?r \<noteq> []" using pr by (intro join_slash_not_Nil)
    have eq: "join [slash] ?r = join [slash] ?ps \<longleftrightarrow> ?r = ?ps"
      using join_plain_inject[OF pr ps] by auto
    show ?thesis
    proof (cases "?ps = []")
      case True
      with skip r rn assms show ?thesis
        by (simp add: mapping_map_def clean strip_components_join place_spec_def Let_def)
    next
      case False
      then have psn: "join [slash] ?ps \<noteq> []" using ps by (intro join_slash_not_Nil)
      note hp = has_prefix_join_plain[OF pr ps False]
      show ?thesis
        using skip r rn psn eq hp assms
        by (auto simp: mapping_map_def clean strip_components_join place_spec_def Let_def)
    qed
  qed
qed

text \<open>An entry that names the archive root contributes nothing.\<close>

lemma mapping_map_root:
  "path_clean name = ''.'' \<or> path_clean name = ''/'' \<Longrightarrow> mapping_map m name = no_placement"
  by (auto simp: mapping_map_def trim_prefix_def has_prefix_def Let_def)

text \<open>A selected entry's destination is a non-empty chain of plain components.\<close>

lemma place_spec_dest:
  assumes "list_all plain cs" "pl_selected (place_spec n ps cs)"
  shows "\<exists>ds. pl_dest (place_spec n ps cs) = join [slash] ds \<and> ds \<noteq> [] \<and> list_all plain ds \<and>
    (\<exists>k. ds = drop k cs)"
proof -
  let ?r = "drop n cs"
  have r: "?r \<noteq> []" "?r \<noteq> ps" "take (length ps) ?r = ps"
    using assms(2) by (auto simp: place_spec_def no_placement_def Let_def split: if_splits)
  have dest: "pl_dest (place_spec n ps cs) = join [slash] (drop (length ps) ?r)"
    using r by (simp add: place_spec_def Let_def)
  have "drop (length ps) ?r \<noteq> []" using r by (metis append_Nil2 append_take_drop_id)
  moreover have "list_all plain (drop (length ps) ?r)"
    using assms(1) by (auto simp: list_all_iff dest: in_set_dropD)
  ultimately show ?thesis using dest by (metis drop_drop)
qed

subsection \<open>The tally\<close>

fun walk_all :: "walk \<Rightarrow> string list \<Rightarrow> walk" where
  "walk_all w [] = w"
| "walk_all w (n # ns) = walk_all (snd (walk_map w n)) ns"

lemma walk_map_fields [simp]:
  "wk_mapping (snd (walk_map w n)) = wk_mapping w"
  "wk_declared (snd (walk_map w n)) = wk_declared w"
  "fst (walk_map w n) = mapping_map (wk_mapping w) n"
  "wk_matched (snd (walk_map w n)) \<longleftrightarrow>
     wk_matched w \<or> pl_in_subpath (mapping_map (wk_mapping w) n)"
  "wk_survivors (snd (walk_map w n)) =
     wk_survivors w + (if pl_survived (mapping_map (wk_mapping w) n) then 1 else 0)"
  by (simp_all add: walk_map_def Let_def)

lemma walk_all_fields:
  "wk_mapping (walk_all w ns) = wk_mapping w"
  "wk_matched (walk_all w ns) \<longleftrightarrow>
     wk_matched w \<or> (\<exists>n \<in> set ns. pl_in_subpath (mapping_map (wk_mapping w) n))"
  "wk_survivors (walk_all w ns) =
     wk_survivors w + length (filter (\<lambda>n. pl_survived (mapping_map (wk_mapping w) n)) ns)"
  by (induction ns arbitrary: w) auto

lemma place_spec_flags:
  "pl_selected (place_spec n ps cs) \<Longrightarrow> pl_in_subpath (place_spec n ps cs)"
  "pl_in_subpath (place_spec n ps cs) \<Longrightarrow> pl_survived (place_spec n ps cs)"
  by (auto simp: place_spec_def no_placement_def Let_def split: if_splits)

lemma path_dir_rooted_join:
  assumes "list_all plain cs" "plain c"
  shows "path_dir (slash # join [slash] (cs @ [c])) = slash # join [slash] cs"
proof -
  have c: "slash \<notin> set c" using assms(2) by (simp add: plain_def)
  show ?thesis
  proof (cases "cs = []")
    case True
    with c have "path_split (slash # join [slash] (cs @ [c])) = ([slash], c)"
      using last_index_append[OF c, of "[]"] by (simp add: path_split_def)
    with True show ?thesis by (simp add: path_dir_def) code_simp
  next
    case False
    let ?d = "slash # join [slash] cs"
    have eq: "slash # join [slash] (cs @ [c]) = ?d @ slash # c" using False by (simp add: join_append)
    have "path_split (?d @ slash # c) = (?d @ [slash], c)"
      using last_index_append[OF c, of ?d] by (simp add: path_split_def del: append_Cons)
    then have "path_dir (slash # join [slash] (cs @ [c])) = path_clean (?d @ [slash])"
      unfolding eq path_dir_def by (simp del: append_Cons)
    then show ?thesis using assms(1) by (simp add: path_clean_trailing del: append_Cons)
  qed
qed

end
