(* ===== verification/Layer_Extract.thy ===== *)
theory Layer_Extract
  imports Archive_Path
begin

unbundle bit_operations_syntax

section \<open>Collecting the entries of one layer\<close>

text \<open>
  \<^verbatim>\<open>internal/oci/extract.go\<close>, \<^verbatim>\<open>tar.go\<close> and \<^verbatim>\<open>image.go\<close>: the collector every archive
  format feeds, and the tar reader's loop over it. A tar stream is the list of what
  \<^verbatim>\<open>archive/tar\<close>'s \<^verbatim>\<open>Next\<close> yields, a header with the content \<^verbatim>\<open>io.ReadAll\<close> returns for it
  (\<open>None\<close> where that read fails), up to end of file or a read error.
\<close>

subsection \<open>Definitions\<close>

record tar_entry =
  te_name :: string
  te_mode :: int
  te_body :: string
  te_dir :: bool
  te_link :: string

record collector =
  c_target :: string
  c_walk :: walk
  c_dirs :: "string set"
  c_entries :: "tar_entry list"

datatype typeflag = TypeReg | TypeDir | TypeSymlink | TypeOther

record tar_header =
  th_name :: string
  th_type :: typeflag
  th_mode :: int
  th_link :: string
  th_body :: "string option"

datatype tar_item = TarEntry tar_header | TarReadError

definition dir_entry :: "string \<Rightarrow> tar_entry" where
  "dir_entry n = \<lparr>te_name = n, te_mode = 493, te_body = [], te_dir = True, te_link = []\<rparr>"

definition file_entry :: "string \<Rightarrow> int \<Rightarrow> string \<Rightarrow> tar_entry" where
  "file_entry n m b = \<lparr>te_name = n, te_mode = m, te_body = b, te_dir = False, te_link = []\<rparr>"

definition symlink_entry :: "string \<Rightarrow> string \<Rightarrow> tar_entry" where
  "symlink_entry n l = \<lparr>te_name = n, te_mode = 511, te_body = [], te_dir = False, te_link = l\<rparr>"

definition new_collector :: "string \<Rightarrow> string \<Rightarrow> int \<Rightarrow> collector" where
  "new_collector target subpath strip =
     \<lparr>c_target = target, c_walk = new_walk strip subpath, c_dirs = {}, c_entries = []\<rparr>"

definition rebase :: "collector \<Rightarrow> string \<Rightarrow> (string option \<times> collector) res" where
  "rebase c name =
     (let clean = path_clean name in
      if clean = ''..'' \<or> has_prefix clean ''../''
      then Inl (Msg ''archive entry escapes the target directory'')
      else
        (let clean = trim_prefix clean ''/'';
             place = fst (walk_map (c_walk c) clean);
             c' = c\<lparr>c_walk := snd (walk_map (c_walk c) clean)\<rparr>
         in if \<not> pl_selected place then Inr (None, c')
            else if c_target c = [] then Inr (Some (pl_dest place), c')
            else Inr (Some (path_join (c_target c) (pl_dest place)), c')))"

definition add_dir :: "string \<Rightarrow> collector \<Rightarrow> collector" where
  "add_dir name c =
     (if name \<in> c_dirs c then c
      else c\<lparr>c_dirs := insert name (c_dirs c), c_entries := c_entries c @ [dir_entry name]\<rparr>)"

definition parent_dirs :: "string \<Rightarrow> tar_entry list" where
  "parent_dirs name =
     (let dir = path_dir name in
      if dir = ''.'' \<or> dir = ''/'' \<or> dir = [] then []
      else let parts = split_on slash dir in
        map (\<lambda>i. dir_entry (join [slash] (take (Suc i) parts))) [0..<length parts])"

text \<open>The loop of \<^verbatim>\<open>addFile\<close> over the parents: each is recorded unless it already is.\<close>

fun add_parents :: "tar_entry list \<Rightarrow> collector \<Rightarrow> collector" where
  "add_parents [] c = c"
| "add_parents (d # ds) c =
     add_parents ds
       (if te_name d \<in> c_dirs c then c
        else c\<lparr>c_dirs := insert (te_name d) (c_dirs c), c_entries := c_entries c @ [d]\<rparr>)"

definition add_file :: "string \<Rightarrow> int \<Rightarrow> string \<Rightarrow> collector \<Rightarrow> collector" where
  "add_file name mode body c =
     (let c' = add_parents (parent_dirs name) c
      in c'\<lparr>c_entries := c_entries c' @ [file_entry name mode body]\<rparr>)"

definition add_symlink :: "string \<Rightarrow> string \<Rightarrow> collector \<Rightarrow> collector" where
  "add_symlink name link c = c\<lparr>c_entries := c_entries c @ [symlink_entry name link]\<rparr>"

definition collector_done :: "collector \<Rightarrow> tar_entry list res" where
  "collector_done c =
     (case walk_err (c_walk c) of Some e \<Rightarrow> Inl e | None \<Rightarrow> Inr (c_entries c))"

text \<open>\<^verbatim>\<open>mode&0o111\<close>: the executable bits; \<^verbatim>\<open>0o755\<close> is 493 and \<^verbatim>\<open>0o644\<close> is 420.\<close>

definition normalise_mode :: "int \<Rightarrow> int" where
  "normalise_mode mode = (if mode AND 73 \<noteq> 0 then 493 else 420)"

definition tar_step :: "tar_header \<Rightarrow> collector \<Rightarrow> collector res" where
  "tar_step hdr c =
     (case rebase c (th_name hdr) of
        Inl e \<Rightarrow> Inl e
      | Inr (None, c') \<Rightarrow> Inr c'
      | Inr (Some name, c') \<Rightarrow>
          (case th_type hdr of
             TypeDir \<Rightarrow> Inr (add_dir name c')
           | TypeReg \<Rightarrow>
               (case th_body hdr of
                  None \<Rightarrow> Inl (Wrap ''reading'' (Msg (th_name hdr)))
                | Some body \<Rightarrow> Inr (add_file name (normalise_mode (th_mode hdr)) body c'))
           | TypeSymlink \<Rightarrow> Inr (add_symlink name (th_link hdr) c')
           | TypeOther \<Rightarrow> Inr c'))"

fun tar_loop :: "tar_item list \<Rightarrow> collector \<Rightarrow> collector res" where
  "tar_loop [] c = Inr c"
| "tar_loop (TarReadError # _) c = Inl (Wrap ''reading tar'' (Msg ''read error''))"
| "tar_loop (TarEntry hdr # items) c =
     (case tar_step hdr c of Inl e \<Rightarrow> Inl e | Inr c' \<Rightarrow> tar_loop items c')"

definition extract_tar ::
    "tar_item list \<Rightarrow> string \<Rightarrow> string \<Rightarrow> int \<Rightarrow> tar_entry list res" where
  "extract_tar items target subpath strip =
     (case tar_loop items (new_collector target subpath strip) of
        Inl e \<Rightarrow> Inl e
      | Inr c \<Rightarrow> collector_done c)"

text \<open>
  An image layer: the flattened filesystem (the third-party \<^verbatim>\<open>mutate.Extract\<close>, given here by
  the items it yields) goes through the same loop, and its error is wrapped.
\<close>

definition extract_image ::
    "tar_item list \<Rightarrow> string \<Rightarrow> string \<Rightarrow> int \<Rightarrow> tar_entry list res" where
  "extract_image items target subpath strip =
     (case extract_tar items target subpath strip of
        Inl e \<Rightarrow> Inl (Wrap ''reading image filesystem'' e)
      | Inr es \<Rightarrow> Inr es)"

subsection \<open>Names of entries\<close>

text \<open>
  A name is inside the target \<open>ts\<close> when it extends \<open>ts\<close> by at least one plain component, and
  leads to it when it is a non-empty initial part of the target's own components.
\<close>

definition inside :: "string list \<Rightarrow> string \<Rightarrow> bool" where
  "inside ts n \<longleftrightarrow> (\<exists>ds. list_all plain ds \<and> ds \<noteq> [] \<and> n = join [slash] (ts @ ds))"

definition leads_to :: "string list \<Rightarrow> string \<Rightarrow> bool" where
  "leads_to ts n \<longleftrightarrow> (\<exists>k. 0 < k \<and> k \<le> length ts \<and> n = join [slash] (take k ts))"

definition entry_ok :: "string list \<Rightarrow> tar_entry \<Rightarrow> bool" where
  "entry_ok ts e \<longleftrightarrow> inside ts (te_name e) \<or> (te_dir e \<and> leads_to ts (te_name e))"

lemma dir_entry_simps [simp]:
  "te_name (dir_entry n) = n" "te_dir (dir_entry n)" "te_link (dir_entry n) = []"
  "te_name (file_entry n m b) = n" "\<not> te_dir (file_entry n m b)" "te_link (file_entry n m b) = []"
  "te_name (symlink_entry n l) = n" "\<not> te_dir (symlink_entry n l)" "te_link (symlink_entry n l) = l"
  by (simp_all add: dir_entry_def file_entry_def symlink_entry_def)

lemma parent_dirs_join:
  assumes "list_all plain cs" "plain c"
  shows "parent_dirs (join [slash] (cs @ [c])) =
    map (\<lambda>k. dir_entry (join [slash] (take k cs))) [1..<Suc (length cs)]"
proof (cases "cs = []")
  case True
  with assms show ?thesis
    using path_dir_join[of "[]" c] by (simp add: parent_dirs_def)
next
  case False
  with assms have "join [slash] cs \<noteq> ''.''" "join [slash] cs \<noteq> ''/''" "join [slash] cs \<noteq> []"
    using join_plain_not_dot join_slash_not_Nil join_plain_no_prefix[of cs]
    by (auto simp: has_prefix_single)
  with assms False have "parent_dirs (join [slash] (cs @ [c])) =
      map (\<lambda>i. dir_entry (join [slash] (take (Suc i) cs))) [0..<length cs]"
    by (simp add: parent_dirs_def path_dir_join split_join_plain)
  also have "\<dots> = map (\<lambda>k. dir_entry (join [slash] (take k cs))) (map Suc [0..<length cs])"
    by (simp add: comp_def)
  finally show ?thesis by (simp only: map_Suc_upt One_nat_def)
qed

lemma parent_dirs_are_dirs: "d \<in> set (parent_dirs n) \<Longrightarrow> te_dir d"
  by (auto simp: parent_dirs_def Let_def split: if_splits)

lemma parent_dirs_entry_ok:
  assumes ts: "list_all plain ts" and "inside ts n" and d: "d \<in> set (parent_dirs n)"
  shows "entry_ok ts d"
proof -
  obtain ds where ds: "list_all plain ds" "ds \<noteq> []" "n = join [slash] (ts @ ds)"
    using assms(2) by (auto simp: inside_def)
  define cs where "cs = ts @ butlast ds"
  have cs: "list_all plain cs" "plain (last ds)" "n = join [slash] (cs @ [last ds])"
    using ts ds by (auto simp: cs_def list_all_iff in_set_butlastD)
  have "d \<in> set (map (\<lambda>k. dir_entry (join [slash] (take k cs))) [1..<Suc (length cs)])"
    using d unfolding cs(3) parent_dirs_join[OF cs(1,2)] .
  then obtain k where k: "0 < k" "k \<le> length cs" "d = dir_entry (join [slash] (take k cs))"
    by (auto simp del: upt_Suc simp: less_Suc_eq_le Suc_le_eq)
  show ?thesis
  proof (cases "k \<le> length ts")
    case True
    with k show ?thesis by (auto simp: entry_ok_def leads_to_def cs_def)
  next
    case False
    let ?e = "take (k - length ts) (butlast ds)"
    have "take k cs = ts @ ?e" using False by (simp add: cs_def)
    moreover have "0 < length ?e" using False k(2) by (simp add: cs_def)
    then have "?e \<noteq> []" by (metis length_0_conv less_irrefl)
    moreover have "list_all plain ?e"
      using ds(1) by (auto simp: list_all_iff dest!: in_set_takeD in_set_butlastD)
    ultimately have "inside ts (te_name d)" using k(3) by (auto simp: inside_def)
    then show ?thesis by (simp add: entry_ok_def)
  qed
qed

subsection \<open>Rebasing\<close>

text \<open>What a successful \<^verbatim>\<open>rebase\<close> returns is inside the target, whatever the archive says.\<close>

lemma trim_prefix_clean_plain:
  assumes "list_all plain (clean_comps p)"
  shows "trim_prefix (path_clean p) ''/'' =
    (if clean_comps p = [] then (if has_prefix p [slash] then [] else ''.'')
     else join [slash] (clean_comps p))"
proof (cases "has_prefix p [slash]")
  case True
  then show ?thesis by (simp add: path_clean_rooted trim_prefix_def has_prefix_def)
next
  case False
  show ?thesis
  proof (cases "clean_comps p = []")
    case True
    with False show ?thesis by (simp add: path_clean_def trim_prefix_def has_prefix_def)
  next
    case nonempty: False
    with False assms show ?thesis
      by (simp add: path_clean_def trim_prefix_none join_plain_no_prefix)
  qed
qed

definition walk_of :: "collector \<Rightarrow> int \<Rightarrow> string \<Rightarrow> bool" where
  "walk_of c n sp \<longleftrightarrow> wk_mapping (c_walk c) = new_mapping n sp"

lemma rebase_placement:
  assumes w: "walk_of c n sp" and ts: "c_target c = join [slash] ts" "list_all plain ts"
    and r: "rebase c name = Inr (Some d, c')"
  shows "\<exists>cs. clean_comps name = cs \<and> list_all plain cs \<and> cs \<noteq> [] \<and>
    pl_selected (place_spec (nat n) (clean_comps (slash # sp)) cs) \<and>
    (\<exists>ds. pl_dest (place_spec (nat n) (clean_comps (slash # sp)) cs) = join [slash] ds \<and>
       ds \<noteq> [] \<and> list_all plain ds \<and> d = join [slash] (ts @ ds))"
proof -
  let ?cs = "clean_comps name" and ?ps = "clean_comps (slash # sp)"
  let ?m = "mapping_map (new_mapping n sp) (trim_prefix (path_clean name) ''/'')"
  have esc: "path_clean name \<noteq> ''..''" "\<not> has_prefix (path_clean name) ''../''"
    using r by (auto simp: rebase_def Let_def split: if_splits)
  have cs: "list_all plain ?cs" by (rule path_clean_no_escape[OF esc])
  have sel: "pl_selected ?m"
    using r esc w by (auto simp: rebase_def Let_def walk_of_def split: if_splits)
  have ne: "?cs \<noteq> []"
  proof
    assume "?cs = []"
    then have "path_clean (trim_prefix (path_clean name) ''/'') = ''.''"
      using trim_prefix_clean_plain[OF cs] by simp
    then have "?m = no_placement" by (simp add: mapping_map_root)
    with sel show False by (simp add: no_placement_def)
  qed
  have t: "trim_prefix (path_clean name) ''/'' = join [slash] ?cs"
    using trim_prefix_clean_plain[OF cs] ne by simp
  have m: "?m = place_spec (nat n) ?ps ?cs"
    unfolding t by (rule mapping_map_plain) (use cs ne in auto)
  have sel': "pl_selected (place_spec (nat n) ?ps ?cs)" using sel m by simp
  obtain ds where ds: "pl_dest (place_spec (nat n) ?ps ?cs) = join [slash] ds" "ds \<noteq> []"
    "list_all plain ds"
    using place_spec_dest[OF cs sel'] by blast
  have "d = (if c_target c = [] then pl_dest ?m else path_join (c_target c) (pl_dest ?m))"
    using r esc sel w by (auto simp: rebase_def Let_def walk_of_def split: if_splits)
  then have "d = join [slash] (ts @ ds)"
    using ts ds m join_slash_not_Nil[OF ts(2)]
    by (cases "ts = []") (simp_all add: path_join_plain)
  with cs ne sel' ds show ?thesis by blast
qed

lemma rebase_inside:
  assumes "walk_of c n sp" "c_target c = join [slash] ts" "list_all plain ts"
    and "rebase c name = Inr (Some d, c')"
  shows "inside ts d"
  using rebase_placement[OF assms] by (auto simp: inside_def)

lemma rebase_state:
  assumes "rebase c name = Inr (d, c')"
  obtains w where "c' = c\<lparr>c_walk := w\<rparr>" "wk_mapping w = wk_mapping (c_walk c)"
  using assms by (auto simp: rebase_def Let_def split: if_splits)

lemma rebase_frame:
  assumes "rebase c name = Inr (d, c')"
  shows "c_target c' = c_target c" "c_dirs c' = c_dirs c" "c_entries c' = c_entries c"
    "wk_mapping (c_walk c') = wk_mapping (c_walk c)"
  using assms by (auto simp: rebase_def Let_def split: if_splits)

subsection \<open>The collector's invariant\<close>

text \<open>
  Every entry is inside the target or a directory leading to it; the set of known directories
  is exactly that of the directory entries, each recorded once; and every regular file has all
  its parents recorded. The last part speaks of entries without a link target and is asked for
  only where \<open>q\<close> says so.
\<close>

definition dirs_match :: "collector \<Rightarrow> bool" where
  "dirs_match c \<longleftrightarrow>
     c_dirs c = te_name ` set (filter te_dir (c_entries c)) \<and>
     distinct (map te_name (filter te_dir (c_entries c)))"

definition parents_known :: "collector \<Rightarrow> tar_entry \<Rightarrow> bool" where
  "parents_known c e \<longleftrightarrow>
     te_dir e \<or> te_link e \<noteq> [] \<or> (\<forall>d \<in> set (parent_dirs (te_name e)). te_name d \<in> c_dirs c)"

definition col_inv :: "bool \<Rightarrow> string list \<Rightarrow> int \<Rightarrow> string \<Rightarrow> collector \<Rightarrow> bool" where
  "col_inv q ts n sp c \<longleftrightarrow>
     list_all plain ts \<and> c_target c = join [slash] ts \<and> walk_of c n sp \<and> dirs_match c \<and>
     (\<forall>e \<in> set (c_entries c). entry_ok ts e \<and> (q \<longrightarrow> parents_known c e))"

lemma col_inv_new:
  assumes "list_all plain ts"
  shows "col_inv q ts n sp (new_collector (join [slash] ts) sp n)"
  using assms by (simp add: col_inv_def new_collector_def walk_of_def new_walk_def dirs_match_def)

lemma col_inv_rebase [inv_intros]:
  assumes "col_inv q ts n sp c" "rebase c name = Inr (d, c')"
  shows "col_inv q ts n sp c'"
proof -
  obtain w where "c' = c\<lparr>c_walk := w\<rparr>" "wk_mapping w = wk_mapping (c_walk c)"
    using assms(2) by (rule rebase_state)
  with assms(1) show ?thesis
    by (auto simp: col_inv_def walk_of_def dirs_match_def parents_known_def)
qed

lemma dirs_match_snoc:
  "dirs_match c \<Longrightarrow> te_dir d \<Longrightarrow> te_name d \<notin> c_dirs c \<Longrightarrow>
   dirs_match (c\<lparr>c_dirs := insert (te_name d) (c_dirs c), c_entries := c_entries c @ [d]\<rparr>)"
  "dirs_match c \<Longrightarrow> \<not> te_dir e \<Longrightarrow> dirs_match (c\<lparr>c_entries := c_entries c @ [e]\<rparr>)"
  by (auto simp: dirs_match_def)

lemma parents_known_mono:
  "parents_known c e \<Longrightarrow> c_dirs c \<subseteq> c_dirs c' \<Longrightarrow> parents_known c' e"
  by (auto simp: parents_known_def)

lemma col_inv_snoc_dir:
  assumes "col_inv q ts n sp c" "entry_ok ts d" "te_dir d" "te_name d \<notin> c_dirs c"
  shows "col_inv q ts n sp
    (c\<lparr>c_dirs := insert (te_name d) (c_dirs c), c_entries := c_entries c @ [d]\<rparr>)"
  using assms dirs_match_snoc(1)[of c d]
  by (auto simp: col_inv_def walk_of_def parents_known_def)

lemma col_inv_snoc_file:
  assumes "col_inv q ts n sp c" "entry_ok ts e" "\<not> te_dir e" "q \<Longrightarrow> parents_known c e"
  shows "col_inv q ts n sp (c\<lparr>c_entries := c_entries c @ [e]\<rparr>)"
  using assms dirs_match_snoc(2)[of c e]
  by (auto simp: col_inv_def walk_of_def parents_known_def)

lemma col_inv_add_dir [inv_intros]:
  assumes "col_inv q ts n sp c" "entry_ok ts (dir_entry name)"
  shows "col_inv q ts n sp (add_dir name c)"
  using assms col_inv_snoc_dir[of q ts n sp c "dir_entry name"] by (simp add: add_dir_def)

lemma col_inv_add_parents:
  assumes "col_inv q ts n sp c" "\<forall>d \<in> set ds. entry_ok ts d \<and> te_dir d"
  shows "col_inv q ts n sp (add_parents ds c) \<and> te_name ` set ds \<subseteq> c_dirs (add_parents ds c) \<and>
    c_dirs c \<subseteq> c_dirs (add_parents ds c)"
  using assms
proof (induction ds arbitrary: c)
  case Nil
  then show ?case by simp
next
  case (Cons d ds)
  let ?c = "if te_name d \<in> c_dirs c then c
        else c\<lparr>c_dirs := insert (te_name d) (c_dirs c), c_entries := c_entries c @ [d]\<rparr>"
  have "col_inv q ts n sp ?c"
    using Cons.prems by (auto intro!: col_inv_snoc_dir)
  from Cons.IH[OF this] Cons.prems(2) show ?case by (auto split: if_splits)
qed

lemma col_inv_add_file [inv_intros]:
  assumes "col_inv q ts n sp c" "inside ts name"
  shows "col_inv q ts n sp (add_file name m b c)"
proof -
  have "list_all plain ts" using assms(1) by (simp add: col_inv_def)
  then have "\<forall>d \<in> set (parent_dirs name). entry_ok ts d \<and> te_dir d"
    using parent_dirs_entry_ok[OF _ assms(2)] parent_dirs_are_dirs by blast
  from col_inv_add_parents[OF assms(1) this] assms(2) show ?thesis
    unfolding add_file_def Let_def
    by (intro col_inv_snoc_file) (auto simp: entry_ok_def parents_known_def)
qed

lemma col_inv_add_symlink [inv_intros]:
  assumes "col_inv q ts n sp c" "inside ts name" "q \<Longrightarrow> l \<noteq> []"
  shows "col_inv q ts n sp (add_symlink name l c)"
  unfolding add_symlink_def using assms
  by (intro col_inv_snoc_file) (auto simp: entry_ok_def parents_known_def)

text \<open>A link with a target, which is what a well-formed archive has.\<close>

fun item_ok :: "tar_item \<Rightarrow> bool" where
  "item_ok (TarEntry h) = (th_type h = TypeSymlink \<longrightarrow> th_link h \<noteq> [])"
| "item_ok TarReadError = True"

lemma tar_step_inv:
  assumes inv: "col_inv q ts n sp c" and ok: "q \<Longrightarrow> item_ok (TarEntry h)" and s: "tar_step h c = Inr c'"
  shows "col_inv q ts n sp c'"
proof -
  obtain d c1 where r: "rebase c (th_name h) = Inr (d, c1)"
    using s by (auto simp: tar_step_def split: sum.splits)
  have inv1: "col_inv q ts n sp c1" by (rule col_inv_rebase[OF inv r])
  show ?thesis
  proof (cases d)
    case None
    with s r inv1 show ?thesis by (simp add: tar_step_def)
  next
    case (Some name)
    have ins: "inside ts name"
      using inv r Some by (intro rebase_inside) (auto simp: col_inv_def)
    then have dir: "entry_ok ts (dir_entry name)" by (simp add: entry_ok_def)
    show ?thesis
    proof (cases "th_type h")
      case TypeReg
      then obtain b where "c' = add_file name (normalise_mode (th_mode h)) b c1"
        using s r Some by (auto simp: tar_step_def split: option.splits)
      with inv1 ins show ?thesis by (simp add: col_inv_add_file)
    next
      case TypeDir
      with s r Some inv1 dir show ?thesis by (auto simp: tar_step_def intro: col_inv_add_dir)
    next
      case TypeSymlink
      with s r Some have "c' = add_symlink name (th_link h) c1" by (simp add: tar_step_def)
      with inv1 ins ok TypeSymlink show ?thesis by (simp add: col_inv_add_symlink)
    next
      case TypeOther
      with s r Some inv1 show ?thesis by (simp add: tar_step_def)
    qed
  qed
qed

lemma tar_loop_inv:
  "tar_loop items c = Inr c' \<Longrightarrow> (q \<Longrightarrow> \<forall>i \<in> set items. item_ok i) \<Longrightarrow> col_inv q ts n sp c \<Longrightarrow>
   col_inv q ts n sp c'"
proof (induction items c rule: tar_loop.induct)
  case (3 hdr items c)
  then show ?case by (auto split: sum.splits dest: tar_step_inv)
qed simp_all

lemma extract_tar_inv:
  assumes "extract_tar items (join [slash] ts) sp n = Inr es" "list_all plain ts"
    and "q \<Longrightarrow> \<forall>i \<in> set items. item_ok i"
  shows "\<exists>c. col_inv q ts n sp c \<and> c_entries c = es"
proof -
  obtain c where c: "tar_loop items (new_collector (join [slash] ts) sp n) = Inr c"
    "collector_done c = Inr es"
    using assms(1) by (auto simp: extract_tar_def split: sum.splits)
  have "col_inv q ts n sp c"
    by (rule tar_loop_inv[OF c(1) assms(3) col_inv_new[OF assms(2)]])
  then show ?thesis using c(2) by (auto simp: collector_done_def split: option.splits)
qed

end
