(* ===== verification/Layer_Zip.thy ===== *)
theory Layer_Zip
  imports Layer_Extract Go_Utf8 "HOL-Library.Word"
begin

section \<open>Zip archives\<close>

text \<open>
  \<^verbatim>\<open>internal/oci/zip.go\<close>. What \<^verbatim>\<open>archive/zip\<close> yields is a list of entries: name, flags,
  \<^verbatim>\<open>fs.FileMode\<close>, and the outcome of opening and reading it. Encrypted entries, names that are
  not UTF-8 and duplicate destinations are refused, backslashes become separators before the
  traversal check, and the rest is the collector of the tar path.
\<close>

datatype zip_open = OpenOk | OpenUnknownAlgorithm | OpenFailed

record zip_file =
  z_name :: string
  z_flags :: "16 word"
  z_mode :: "32 word"
  z_open :: zip_open
  z_body :: "string option"

definition zip_encrypted_flag :: "16 word" where
  "zip_encrypted_flag = 1"

text \<open>The type bits of \<^verbatim>\<open>fs.FileMode\<close>: directory 31, symlink 27, device 26, named pipe 25,
  socket 24, character device 21, irregular 19.\<close>

definition mode_dir :: "32 word" where
  "mode_dir = 0x80000000"

definition mode_symlink :: "32 word" where
  "mode_symlink = 0x08000000"

definition mode_type :: "32 word" where
  "mode_type = 0x8F280000"

definition mode_perm :: "32 word" where
  "mode_perm = 0x1FF"

definition mode_is_dir :: "32 word \<Rightarrow> bool" where
  "mode_is_dir m \<longleftrightarrow> m AND mode_dir \<noteq> 0"

definition mode_is_regular :: "32 word \<Rightarrow> bool" where
  "mode_is_regular m \<longleftrightarrow> m AND mode_type = 0"

text \<open>\<^verbatim>\<open>strings.ReplaceAll(name, "\\", "/")\<close>; the backslash is the character of code 92.\<close>

definition backslash :: char where
  "backslash = CHR 0x5C"

definition zip_name :: "string \<Rightarrow> string" where
  "zip_name n = map (\<lambda>c. if c = backslash then slash else c) n"

definition read_zip_entry :: "zip_file \<Rightarrow> string res" where
  "read_zip_entry f =
     (case z_open f of
        OpenUnknownAlgorithm \<Rightarrow> Inl (Msg ''zip entry uses an unsupported compression method'')
      | OpenFailed \<Rightarrow> Inl (Wrap ''opening zip entry'' (Msg (z_name f)))
      | OpenOk \<Rightarrow>
          (case z_body f of
             None \<Rightarrow> Inl (Wrap ''reading zip entry'' (Msg (z_name f)))
           | Some b \<Rightarrow> Inr b))"

type_synonym zip_state = "collector \<times> string set"

definition zip_place :: "zip_file \<Rightarrow> string \<Rightarrow> zip_state \<Rightarrow> zip_state res" where
  "zip_place e dest st =
     (case st of (c, seen) \<Rightarrow>
        if has_suffix (zip_name (z_name e)) ''/'' \<or> mode_is_dir (z_mode e)
        then Inr (add_dir dest c, seen)
        else if dest \<in> seen then Inl (Msg ''zip contains an entry more than once'')
        else if z_mode e AND mode_symlink \<noteq> 0
        then (case read_zip_entry e of Inl x \<Rightarrow> Inl x
              | Inr link \<Rightarrow> Inr (add_symlink dest link c, insert dest seen))
        else if mode_is_regular (z_mode e)
        then (case read_zip_entry e of Inl x \<Rightarrow> Inl x
              | Inr body \<Rightarrow>
                  Inr (add_file dest (normalise_mode (uint (z_mode e AND mode_perm))) body c,
                       insert dest seen))
        else Inr (c, insert dest seen))"

definition zip_step :: "zip_file \<Rightarrow> zip_state \<Rightarrow> zip_state res" where
  "zip_step e st =
     (case st of (c, seen) \<Rightarrow>
        if z_flags e AND zip_encrypted_flag \<noteq> 0 then Inl (Msg ''zip entry is encrypted'')
        else if \<not> valid_utf8 (z_name e) then Inl (Msg ''zip entry name is not valid UTF-8'')
        else (case rebase c (zip_name (z_name e)) of
            Inl x \<Rightarrow> Inl x
          | Inr (None, c') \<Rightarrow> Inr (c', seen)
          | Inr (Some dest, c') \<Rightarrow> zip_place e dest (c', seen)))"

fun zip_loop :: "zip_file list \<Rightarrow> zip_state \<Rightarrow> zip_state res" where
  "zip_loop [] st = Inr st"
| "zip_loop (e # es) st = (case zip_step e st of Inl x \<Rightarrow> Inl x | Inr st' \<Rightarrow> zip_loop es st')"

text \<open>\<open>None\<close> is a file \<^verbatim>\<open>zip.NewReader\<close> cannot read.\<close>

definition extract_zip ::
    "zip_file list option \<Rightarrow> string \<Rightarrow> string \<Rightarrow> int \<Rightarrow> tar_entry list res" where
  "extract_zip files target subpath strip =
     (case files of
        None \<Rightarrow> Inl (Wrap ''reading zip'' (Msg ''not a zip file''))
      | Some es \<Rightarrow>
          (case zip_loop es (new_collector target subpath strip, {}) of
             Inl x \<Rightarrow> Inl x
           | Inr (c, _) \<Rightarrow> collector_done c))"

subsection \<open>A zip and a tar of the same content\<close>

text \<open>
  The content of an archive apart from its format: directories, files and links by name, each
  with what the two formats record of it.
\<close>

datatype node = NDir | NFile "32 word" string | NLink string

definition tar_of_node :: "string \<times> node \<Rightarrow> tar_item" where
  "tar_of_node x =
     (case x of (n, k) \<Rightarrow> TarEntry
        (case k of
           NDir \<Rightarrow> \<lparr>th_name = n @ ''/'', th_type = TypeDir, th_mode = 493, th_link = [], th_body = Some []\<rparr>
         | NFile m b \<Rightarrow> \<lparr>th_name = n, th_type = TypeReg, th_mode = uint (m AND mode_perm),
             th_link = [], th_body = Some b\<rparr>
         | NLink l \<Rightarrow> \<lparr>th_name = n, th_type = TypeSymlink, th_mode = 511, th_link = l,
             th_body = Some []\<rparr>))"

definition zip_of_node :: "string \<times> node \<Rightarrow> zip_file" where
  "zip_of_node x =
     (case x of (n, k) \<Rightarrow>
        (case k of
           NDir \<Rightarrow> \<lparr>z_name = n @ ''/'', z_flags = 0, z_mode = mode_dir OR 0x1ED, z_open = OpenOk,
             z_body = Some []\<rparr>
         | NFile m b \<Rightarrow> \<lparr>z_name = n, z_flags = 0, z_mode = m AND mode_perm, z_open = OpenOk,
             z_body = Some b\<rparr>
         | NLink l \<Rightarrow> \<lparr>z_name = n, z_flags = 0, z_mode = mode_symlink OR 0x1FF, z_open = OpenOk,
             z_body = Some l\<rparr>))"

definition name_ok :: "string \<Rightarrow> bool" where
  "name_ok n \<longleftrightarrow> n \<noteq> [] \<and> valid_utf8 n \<and> backslash \<notin> set n \<and> \<not> has_suffix n ''/''"

text \<open>Where an entry lands does not depend on the entries before it.\<close>

definition dest_of :: "string \<Rightarrow> string \<Rightarrow> int \<Rightarrow> string \<Rightarrow> string option res" where
  "dest_of target subpath strip name =
     map_res fst (rebase (new_collector target subpath strip) name)"

lemma rebase_dest_of:
  assumes "walk_of c n sp" "c_target c = t"
  shows "map_res fst (rebase c name) = dest_of t sp n name"
  using assms
  by (auto simp: dest_of_def rebase_def new_collector_def new_walk_def walk_of_def Let_def)

lemma zip_name_id: "backslash \<notin> set n \<Longrightarrow> zip_name n = n"
  unfolding zip_name_def by (induction n) auto

lemma mode_facts:
  "mode_is_dir (mode_dir OR 0x1ED)"
  "\<not> mode_is_dir (m AND mode_perm)" "mode_is_regular (m AND mode_perm)"
  "(m AND mode_perm) AND mode_symlink = 0" "(m AND mode_perm) AND mode_perm = m AND mode_perm"
  "\<not> mode_is_dir (mode_symlink OR 0x1FF)" "(mode_symlink OR 0x1FF) AND mode_symlink \<noteq> 0"
  by (simp_all add: mode_is_dir_def mode_is_regular_def mode_dir_def mode_perm_def
      mode_symlink_def mode_type_def and.assoc)

lemma zip_name_ok: "name_ok n \<Longrightarrow> zip_name n = n \<and> zip_name (n @ ''/'') = n @ ''/''"
  using zip_name_id[of n] zip_name_id[of "n @ ''/''"] by (simp add: name_ok_def backslash_def)

definition link_dest :: "string \<Rightarrow> string \<Rightarrow> int \<Rightarrow> string \<times> node \<Rightarrow> string option" where
  "link_dest t sp n x =
     (case x of (name, k) \<Rightarrow>
        if k = NDir then None
        else (case dest_of t sp n name of Inr (Some d) \<Rightarrow> Some d | _ \<Rightarrow> None))"

definition file_dests :: "string \<Rightarrow> string \<Rightarrow> int \<Rightarrow> (string \<times> node) list \<Rightarrow> string list" where
  "file_dests t sp n xs = List.map_filter (link_dest t sp n) xs"

lemma file_dests_Cons:
  "file_dests t sp n (x # xs) =
     (case link_dest t sp n x of None \<Rightarrow> file_dests t sp n xs | Some d \<Rightarrow> d # file_dests t sp n xs)"
  by (simp add: file_dests_def map_filter_simps split: option.splits)

lemma node_step:
  assumes w: "walk_of c n sp" "c_target c = t" and ok: "name_ok (fst x)"
    and fresh: "\<And>d. link_dest t sp n x = Some d \<Longrightarrow> d \<notin> seen"
    and t: "tar_of_node x = TarEntry h"
  shows "zip_step (zip_of_node x) (c, seen) =
    map_res (\<lambda>c'. (c', case link_dest t sp n x of None \<Rightarrow> seen | Some d \<Rightarrow> insert d seen)) (tar_step h c)"
proof -
  obtain name k where x: "x = (name, k)" by (cases x)
  note nm = zip_name_ok[OF ok[unfolded x fst_conv]]
  have v: "valid_utf8 name" "valid_utf8 (name @ ''/'')" "\<not> has_suffix name ''/''"
    using ok x valid_utf8_append[OF _ valid_utf8_ascii, of name "''/''"]
    by (simp_all add: name_ok_def byte_def)
  have suf: "has_suffix (name @ ''/'') ''/''" by (simp add: has_suffix_iff)
  note dst = rebase_dest_of[OF w, of name, symmetric]
  show ?thesis
  proof (cases k)
    case NDir
    then show ?thesis
      using x t nm v suf mode_facts
      by (auto simp: zip_step_def zip_place_def tar_step_def tar_of_node_def zip_of_node_def
          link_dest_def split: sum.splits option.splits)
  next
    case (NFile m b)
    then show ?thesis
      using x t nm v fresh dst mode_facts
      by (cases "rebase c name")
        (auto simp: zip_step_def zip_place_def tar_step_def tar_of_node_def zip_of_node_def
          read_zip_entry_def link_dest_def zip_encrypted_flag_def split: option.splits)
  next
    case (NLink l)
    then show ?thesis
      using x t nm v fresh dst mode_facts
      by (cases "rebase c name")
        (auto simp: zip_step_def zip_place_def tar_step_def tar_of_node_def zip_of_node_def
          read_zip_entry_def link_dest_def zip_encrypted_flag_def split: option.splits)
  qed
qed

lemma tar_step_frame:
  assumes "tar_step h c = Inr c'"
  shows "c_target c' = c_target c" "wk_mapping (c_walk c') = wk_mapping (c_walk c)"
proof -
  have p: "c_target (add_parents ds a) = c_target a \<and> c_walk (add_parents ds a) = c_walk a" for ds a
    by (induction ds arbitrary: a) auto
  obtain d c1 where r: "rebase c (th_name h) = Inr (d, c1)"
    using assms by (auto simp: tar_step_def split: sum.splits)
  have "c_target c' = c_target c1 \<and> c_walk c' = c_walk c1"
    using assms r p
    by (auto simp: tar_step_def add_dir_def add_file_def add_symlink_def Let_def
        split: option.splits typeflag.splits if_splits)
  then show "c_target c' = c_target c" "wk_mapping (c_walk c') = wk_mapping (c_walk c)"
    using rebase_frame[OF r] by simp_all
qed

lemma zip_loop_tar_loop:
  assumes "walk_of c n sp" "c_target c = t" "\<forall>x \<in> set xs. name_ok (fst x)"
    and "distinct (file_dests t sp n xs)" "seen \<inter> set (file_dests t sp n xs) = {}"
  shows "map_res fst (zip_loop (map zip_of_node xs) (c, seen)) = tar_loop (map tar_of_node xs) c"
  using assms
proof (induction xs arbitrary: c seen)
  case Nil
  then show ?case by simp
next
  case (Cons x xs)
  obtain h where h: "tar_of_node x = TarEntry h" by (cases x) (simp add: tar_of_node_def)
  let ?seen = "case link_dest t sp n x of None \<Rightarrow> seen | Some d \<Rightarrow> insert d seen"
  have step: "zip_step (zip_of_node x) (c, seen) = map_res (\<lambda>c'. (c', ?seen)) (tar_step h c)"
    by (rule node_step[OF Cons.prems(1,2) _ _ h])
      (use Cons.prems in \<open>auto simp: file_dests_Cons split: option.splits\<close>)
  show ?case
  proof (cases "tar_step h c")
    case (Inl e)
    with step h show ?thesis by simp
  next
    case (Inr c')
    have "map_res fst (zip_loop (map zip_of_node xs) (c', ?seen)) = tar_loop (map tar_of_node xs) c'"
      by (rule Cons.IH)
        (use Cons.prems tar_step_frame[OF Inr] in
          \<open>auto simp: walk_of_def file_dests_Cons split: option.splits\<close>)
    with step h Inr show ?thesis by simp
  qed
qed

end
