(* ===== verification/Layer_Deb.thy ===== *)
theory Layer_Deb
  imports Layer_Extract Go_Strings
begin

section \<open>Codecs and Debian packages\<close>

text \<open>
  \<^verbatim>\<open>internal/oci/compress.go\<close> and \<^verbatim>\<open>internal/oci/deb.go\<close>. A reader is a \<open>stream\<close>: the
  bytes it delivers and the error that ends it, if any. The codecs themselves are Go's standard
  library and two third-party packages, and are parameters: a record of functions on bytes.
\<close>

type_synonym stream = "string \<times> error option"

record codecs =
  cd_gunzip :: "string \<Rightarrow> stream res"
  cd_unxz :: "string \<Rightarrow> stream res"
  cd_unzstd :: "string \<Rightarrow> stream res"
  cd_bunzip2 :: "string \<Rightarrow> stream"

definition read_all :: "stream \<Rightarrow> string res" where
  "read_all s = (case snd s of None \<Rightarrow> Inr (fst s) | Some e \<Rightarrow> Inl e)"

type_synonym compression = string

abbreviation (input) comp_none :: compression where "comp_none \<equiv> []"
abbreviation (input) comp_gzip :: compression where "comp_gzip \<equiv> ''gz''"
abbreviation (input) comp_xz :: compression where "comp_xz \<equiv> ''xz''"
abbreviation (input) comp_zstd :: compression where "comp_zstd \<equiv> ''zst''"
abbreviation (input) comp_bzip2 :: compression where "comp_bzip2 \<equiv> ''bz2''"

definition wrap_err :: "string \<Rightarrow> 'a res \<Rightarrow> 'a res" where
  "wrap_err m r = (case r of Inl e \<Rightarrow> Inl (Wrap m e) | Inr x \<Rightarrow> Inr x)"

definition decompress :: "codecs \<Rightarrow> string \<Rightarrow> compression \<Rightarrow> stream res" where
  "decompress cd r c =
     (if c = comp_none then Inr (r, None)
      else if c = comp_gzip then wrap_err ''reading gzip'' (cd_gunzip cd r)
      else if c = comp_xz then wrap_err ''reading xz'' (cd_unxz cd r)
      else if c = comp_zstd then wrap_err ''reading zstd'' (cd_unzstd cd r)
      else if c = comp_bzip2 then Inr (cd_bunzip2 cd r)
      else Inl (Msg ''unsupported compression''))"

text \<open>The one table of unpack modes that are a tar under a codec.\<close>

definition tar_compressions :: "string \<rightharpoonup> compression" where
  "tar_compressions = Map.empty
     (''tar'' \<mapsto> comp_none, ''tar.gz'' \<mapsto> comp_gzip, ''tar.xz'' \<mapsto> comp_xz,
      ''tar.zst'' \<mapsto> comp_zstd, ''tar.bz2'' \<mapsto> comp_bzip2)"

subsection \<open>The ar container\<close>

definition ar_magic :: string where
  "ar_magic = ''!<arch>'' @ [CHR 0x0A]"

abbreviation (input) ar_header_len :: nat where "ar_header_len \<equiv> 60"
abbreviation (input) ar_name_end :: nat where "ar_name_end \<equiv> 16"
abbreviation (input) ar_size_start :: nat where "ar_size_start \<equiv> 48"
abbreviation (input) ar_size_end :: nat where "ar_size_end \<equiv> 58"

definition ar_trailer :: string where
  "ar_trailer = [CHR 0x60, CHR 0x0A]"

definition ar_name :: "string \<Rightarrow> string" where
  "ar_name hdr = trim_right_by (\<lambda>c. c = CHR ''/'') (trim_space (take ar_name_end hdr))"

definition ar_size :: "string \<Rightarrow> int option" where
  "ar_size hdr = parse_int 10 64 (trim_space (take (ar_size_end - ar_size_start) (drop ar_size_start hdr)))"

text \<open>
  The loop over the members: a header of 60 bytes, then the member. The input is what is left to
  read; every round consumes at least a header, which is why it ends.
\<close>

function deb_members :: "codecs \<Rightarrow> string \<Rightarrow> stream res" where
  "deb_members cd r =
     (if r = [] then Inl (Msg ''no data member in the Debian package'')
      else if length r < ar_header_len then Inl (Msg ''truncated ar header'')
      else
        (let hdr = take ar_header_len r; rest = drop ar_header_len r in
         if drop ar_size_end hdr \<noteq> ar_trailer then Inl (Msg ''malformed ar header'')
         else (case ar_size hdr of
             None \<Rightarrow> Inl (Msg ''unreadable size for ar member'')
           | Some sz \<Rightarrow>
               if sz < 0 then Inl (Msg ''unreadable size for ar member'')
               else if has_prefix (ar_name hdr) ''data.tar''
               then wrap_err ''data member''
                      (decompress cd (take (nat sz) rest)
                        (trim_prefix (drop 8 (ar_name hdr)) ''.''))
               else if length rest < nat (sz + sz mod 2)
               then Inl (Wrap ''skipping ar member'' (Msg ''EOF''))
               else deb_members cd (drop (nat (sz + sz mod 2)) rest))))"
  by pat_completeness auto
termination
  by (relation "measure (\<lambda>(cd, r). length r)") auto

declare deb_members.simps [simp del]

definition open_deb_data :: "codecs \<Rightarrow> string \<Rightarrow> stream res" where
  "open_deb_data cd r =
     (if length r < length ar_magic then Inl (Wrap ''reading ar magic'' (Msg ''EOF''))
      else if take (length ar_magic) r \<noteq> ar_magic
      then Inl (Msg ''not a Debian package: missing ar magic'')
      else deb_members cd (drop (length ar_magic) r))"

definition extract_deb ::
    "codecs \<Rightarrow> (stream \<Rightarrow> tar_item list) \<Rightarrow> string \<Rightarrow> string \<Rightarrow> string \<Rightarrow> int \<Rightarrow> tar_entry list res" where
  "extract_deb cd untar r target subpath strip =
     (case open_deb_data cd r of
        Inl e \<Rightarrow> Inl e
      | Inr dr \<Rightarrow> extract_tar (untar dr) target subpath strip)"

subsection \<open>Well-formed members\<close>

text \<open>
  A header that announces the member \<open>body\<close> under the name \<open>n\<close>, and a member as it lies in the
  file: header, content, and a padding byte after an odd length.
\<close>

definition ar_header :: "string \<Rightarrow> string \<Rightarrow> string \<Rightarrow> bool" where
  "ar_header hdr n body \<longleftrightarrow>
     length hdr = ar_header_len \<and> drop ar_size_end hdr = ar_trailer \<and>
     ar_name hdr = n \<and> ar_size hdr = Some (int (length body))"

definition ar_member :: "string \<times> string \<times> char \<Rightarrow> string" where
  "ar_member m = (case m of (hdr, body, pad) \<Rightarrow>
     hdr @ body @ (if odd (length body) then [pad] else []))"

definition other_member :: "string \<times> string \<times> char \<Rightarrow> bool" where
  "other_member m = (case m of (hdr, body, pad) \<Rightarrow>
     \<exists>n. ar_header hdr n body \<and> \<not> has_prefix n ''data.tar'')"

lemma deb_members_skip:
  assumes "other_member m"
  shows "deb_members cd (ar_member m @ r) = deb_members cd r"
proof -
  obtain hdr body pad n where m: "m = (hdr, body, pad)" "ar_header hdr n body"
    "\<not> has_prefix n ''data.tar''"
    using assms by (cases m) (auto simp: other_member_def)
  then have h: "length hdr = 60" "drop 58 hdr = ar_trailer" "ar_name hdr = n"
    "ar_size hdr = Some (int (length body))" by (simp_all add: ar_header_def)
  define pads where "pads = (if odd (length body) then [pad] else [])"
  have n: "nat (int (length body) + int (length body) mod 2) = length (body @ pads)"
    by (auto simp: pads_def nat_add_distrib nat_mod_distrib odd_iff_mod_2_eq_one
        even_iff_mod_2_eq_zero)
  have t: "take 60 (hdr @ s) = hdr" "drop 60 (hdr @ s) = s" for s
    using h(1) by simp_all
  have ne: "hdr \<noteq> []" using h(1) by auto
  have "deb_members cd (hdr @ (body @ pads) @ r) = deb_members cd (drop (length (body @ pads)) ((body @ pads) @ r))"
    using m(3) h ne n by (subst deb_members.simps) (simp add: t Let_def del: append_assoc)
  then show ?thesis by (simp add: m(1) ar_member_def pads_def)
qed

lemma deb_members_skip_all:
  "\<forall>m \<in> set ms. other_member m \<Longrightarrow>
   deb_members cd (concat (map ar_member ms) @ r) = deb_members cd r"
  by (induction ms) (simp_all add: deb_members_skip)

lemma deb_members_data:
  assumes "ar_header hdr (''data.tar'' @ suffix) body"
  shows "deb_members cd (hdr @ body @ r) =
    wrap_err ''data member'' (decompress cd body (trim_prefix suffix ''.''))"
proof -
  have h: "length hdr = 60" "drop 58 hdr = ar_trailer" "ar_name hdr = ''data.tar'' @ suffix"
    "ar_size hdr = Some (int (length body))" using assms by (simp_all add: ar_header_def)
  have ne: "hdr \<noteq> []" using h(1) by auto
  have p: "has_prefix (''data.tar'' @ suffix) ''data.tar''" by (rule has_prefix_append)
  show ?thesis
    using h ne p by (subst deb_members.simps) (simp add: Let_def)
qed

end
