(* ===== verification/Layer_Assemble.thy ===== *)
theory Layer_Assemble
  imports Layer_Zip Layer_Deb
begin

section \<open>Assembling layers and images\<close>

text \<open>
  \<^verbatim>\<open>internal/oci/assemble.go\<close> and \<^verbatim>\<open>provenance.go\<close>. A layer is the list of tar headers the
  assembler writes, in the order it writes them; the tar, gzip and image libraries that turn the
  list into a blob and stack blobs into an image are parameters (\<open>image_ops\<close>), as is what a
  path, a pulled image or a byte stream contains (\<open>content_env\<close>).
\<close>

subsection \<open>Platforms\<close>

record platform =
  p_os :: string
  p_arch :: string
  p_variant :: string

definition parse_platform :: "string \<Rightarrow> platform res" where
  "parse_platform s =
     (case split_on slash s of
        [os, arch] \<Rightarrow> Inr \<lparr>p_os = os, p_arch = arch, p_variant = []\<rparr>
      | [os, arch, variant] \<Rightarrow> Inr \<lparr>p_os = os, p_arch = arch, p_variant = variant\<rparr>
      | _ \<Rightarrow> Inl (Msg ''not a platform (want os/arch or os/arch/variant)''))"

definition platform_string :: "platform \<Rightarrow> string" where
  "platform_string p =
     (if p_variant p \<noteq> [] then p_os p @ ''/'' @ p_arch p @ ''/'' @ p_variant p
      else p_os p @ ''/'' @ p_arch p)"

text \<open>The architecture the binary was built for, \<^verbatim>\<open>runtime.GOARCH\<close>, is an argument.\<close>

definition runtime_platform :: "string \<Rightarrow> platform" where
  "runtime_platform goarch = \<lparr>p_os = ''linux'', p_arch = goarch, p_variant = []\<rparr>"

subsection \<open>Inputs and configuration\<close>

record 'img layer_input =
  in_name :: string
  in_identity :: string
  in_url :: string
  in_path :: string
  in_image :: "'img option"
  in_images :: "(platform \<rightharpoonup> 'img) option"
  in_digest :: string
  in_unpack :: string
  in_subpath :: string
  in_strip :: int
  in_target :: string
  in_remove :: "string list"
  in_uid :: int
  in_gid :: int
  in_file_mode :: int
  in_dir_mode :: int

text \<open>Labels are a Go map: an association list whose order carries no meaning.\<close>

record config =
  cfg_inherit :: bool
  cfg_labels :: "(string \<times> string) list"
  cfg_env :: "string list"
  cfg_entrypoint :: "string list"
  cfg_cmd :: "string list"
  cfg_user :: string
  cfg_workdir :: string
  cfg_ports :: "string list"
  cfg_volumes :: "string list"
  cfg_stop :: string

text \<open>
  The image library's config file and the runtime config in it. \<open>rc_other\<close> stands for the fields
  this program never sets.
\<close>

record run_config =
  rc_labels :: "(string \<times> string) list"
  rc_env :: "string list"
  rc_entrypoint :: "string list"
  rc_cmd :: "string list"
  rc_user :: string
  rc_workdir :: string
  rc_ports :: "string set"
  rc_volumes :: "string set"
  rc_stop :: string
  rc_other :: string

record config_file =
  cf_created :: int
  cf_author :: string
  cf_os :: string
  cf_arch :: string
  cf_variant :: string
  cf_rootfs :: "string list"
  cf_history :: "string list"
  cf_config :: run_config

definition empty_run_config :: run_config where
  "empty_run_config =
     \<lparr>rc_labels = [], rc_env = [], rc_entrypoint = [], rc_cmd = [], rc_user = [], rc_workdir = [],
      rc_ports = {}, rc_volumes = {}, rc_stop = [], rc_other = []\<rparr>"

text \<open>\<^verbatim>\<open>LayerInput.identity\<close>: what the hash and the annotations call the content.\<close>

definition identity :: "'img layer_input \<Rightarrow> string" where
  "identity i = (if in_identity i \<noteq> [] then in_identity i else in_digest i)"

subsection \<open>What an input contributes\<close>

record 'img content_env =
  ev_open :: "string \<Rightarrow> string option"
  ev_codecs :: codecs
  ev_untar :: "stream \<Rightarrow> tar_item list"
  ev_unzip :: "string \<Rightarrow> zip_file list option"
  ev_flatten :: "'img \<Rightarrow> tar_item list"

definition whiteout :: "string \<Rightarrow> tar_entry res" where
  "whiteout p =
     (let clean = trim_prefix (path_clean (slash # p)) ''/'' in
      if clean = [] \<or> clean = ''.'' then Inl (Msg ''cannot remove the root directory'')
      else (case path_split clean of (dir, base) \<Rightarrow>
        Inr (file_entry (dir @ ''.wh.'' @ base) 420 [])))"

definition single_file ::
    "codecs \<Rightarrow> string \<Rightarrow> 'img layer_input \<Rightarrow> string \<Rightarrow> compression \<Rightarrow> tar_entry list res" where
  "single_file cd content i target cc =
     (if target = [] \<or> has_suffix (in_target i) ''/''
      then Inl (Msg ''target must name a file'')
      else if cc \<noteq> comp_none \<and> in_subpath i \<noteq> []
      then Inl (Msg ''subpath is not valid: there is no archive to select from'')
      else (case decompress cd content cc of
          Inl e \<Rightarrow> Inl e
        | Inr r \<Rightarrow>
            (case read_all r of
               Inl e \<Rightarrow> Inl (Wrap ''reading content'' e)
             | Inr body \<Rightarrow> Inr (parent_dirs target @ [file_entry target 420 body]))))"

definition extract_tarball ::
    "'img content_env \<Rightarrow> string \<Rightarrow> compression \<Rightarrow> string \<Rightarrow> string \<Rightarrow> int \<Rightarrow> tar_entry list res" where
  "extract_tarball ev content cc target subpath strip =
     (case decompress (ev_codecs ev) content cc of
        Inl e \<Rightarrow> Inl e
      | Inr r \<Rightarrow> extract_tar (ev_untar ev r) target subpath strip)"

definition clean_target :: "string \<Rightarrow> string" where
  "clean_target t = trim_prefix (path_clean (slash # t)) ''/''"

definition collect_entries :: "'img content_env \<Rightarrow> 'img layer_input \<Rightarrow> tar_entry list res" where
  "collect_entries ev i =
     (if in_remove i \<noteq> [] then map_list_res whiteout (in_remove i)
      else
        (let target = clean_target (in_target i) in
         case in_image i of
           Some img \<Rightarrow> extract_image (ev_flatten ev img) target (in_subpath i) (in_strip i)
         | None \<Rightarrow>
             (case ev_open ev (in_path i) of
                None \<Rightarrow> Inl (Wrap ''opening content'' (Msg (in_path i)))
              | Some f \<Rightarrow>
                  (case tar_compressions (in_unpack i) of
                     Some cc \<Rightarrow> extract_tarball ev f cc target (in_subpath i) (in_strip i)
                   | None \<Rightarrow>
                       if in_unpack i = ''none'' \<or> in_unpack i = []
                       then single_file (ev_codecs ev) f i target comp_none
                       else if in_unpack i = ''gz''
                       then single_file (ev_codecs ev) f i target comp_gzip
                       else if in_unpack i = ''zip''
                       then extract_zip (ev_unzip ev f) target (in_subpath i) (in_strip i)
                       else if in_unpack i = ''deb''
                       then extract_deb (ev_codecs ev) (ev_untar ev) f target (in_subpath i) (in_strip i)
                       else Inl (UnsupportedUnpack (in_unpack i))))))"

subsection \<open>The layer that is written\<close>

record out_header =
  oh_name :: string
  oh_mode :: int
  oh_mtime :: int
  oh_uid :: int
  oh_gid :: int
  oh_type :: typeflag
  oh_link :: string
  oh_size :: nat
  oh_body :: string

definition epoch :: int where
  "epoch = 0"

definition out_mode :: "'img layer_input \<Rightarrow> tar_entry \<Rightarrow> int" where
  "out_mode i e =
     (if te_dir e \<and> in_dir_mode i \<noteq> 0 then in_dir_mode i
      else if \<not> te_dir e \<and> te_link e = [] \<and> in_file_mode i \<noteq> 0 then in_file_mode i
      else te_mode e)"

definition out_header_of :: "'img layer_input \<Rightarrow> tar_entry \<Rightarrow> out_header" where
  "out_header_of i e =
     (let hdr = \<lparr>oh_name = te_name e, oh_mode = out_mode i e, oh_mtime = epoch,
                 oh_uid = in_uid i, oh_gid = in_gid i, oh_type = TypeReg, oh_link = [],
                 oh_size = 0, oh_body = []\<rparr>
      in if te_dir e then hdr\<lparr>oh_type := TypeDir, oh_name := te_name e @ ''/''\<rparr>
         else if te_link e \<noteq> [] then hdr\<lparr>oh_type := TypeSymlink, oh_link := te_link e\<rparr>
         else hdr\<lparr>oh_size := length (te_body e), oh_body := te_body e\<rparr>)"

text \<open>The writing loop: \<open>seen\<close> holds the names already written, and a repeat is skipped.\<close>

fun first_by_name :: "string set \<Rightarrow> tar_entry list \<Rightarrow> tar_entry list" where
  "first_by_name seen [] = []"
| "first_by_name seen (e # es) =
     (if te_name e \<in> seen then first_by_name seen es
      else e # first_by_name (insert (te_name e) seen) es)"

definition layer_headers :: "'img layer_input \<Rightarrow> tar_entry list \<Rightarrow> out_header list" where
  "layer_headers i entries =
     map (out_header_of i) (first_by_name {} (sort_key te_name entries))"

subsection \<open>Images\<close>

record ('img, 'l) image_ops =
  io_empty :: 'img
  io_oci_types :: "'img \<Rightarrow> 'img"
  io_layer :: "out_header list \<Rightarrow> 'l res"
  io_append :: "'img \<Rightarrow> 'l \<Rightarrow> 'img res"
  io_config :: "'img \<Rightarrow> config_file res"
  io_set_config :: "'img \<Rightarrow> config_file \<Rightarrow> 'img res"
  io_digest :: "'img \<Rightarrow> string res"
  io_annotate :: "'img \<Rightarrow> (string \<times> string) list \<Rightarrow> 'img option"

definition platform_for ::
    "('img, 'l) image_ops \<Rightarrow> string \<Rightarrow> 'img option \<Rightarrow> platform res" where
  "platform_for ops goarch base =
     (case base of
        None \<Rightarrow> Inr (runtime_platform goarch)
      | Some img \<Rightarrow>
          (case io_config ops img of
             Inl e \<Rightarrow> Inl (Wrap ''reading the base config'' e)
           | Inr cf \<Rightarrow>
               (let p = runtime_platform goarch;
                    p1 = (if cf_os cf \<noteq> [] then p\<lparr>p_os := cf_os cf\<rparr> else p);
                    p2 = (if cf_arch cf \<noteq> [] then p1\<lparr>p_arch := cf_arch cf\<rparr> else p1)
                in Inr (p2\<lparr>p_variant := cf_variant cf\<rparr>))))"

definition build_layer ::
    "'img content_env \<Rightarrow> ('img, 'l) image_ops \<Rightarrow> 'img layer_input \<Rightarrow> 'l res" where
  "build_layer ev ops i =
     (case collect_entries ev i of
        Inl e \<Rightarrow> Inl (Wrap ''layer'' e)
      | Inr es \<Rightarrow> wrap_err ''layer'' (io_layer ops (layer_headers i es)))"

type_synonym 'l layer_map = "platform \<Rightarrow> 'l list"

fun add_to_platforms :: "'l \<Rightarrow> platform list \<Rightarrow> 'l layer_map \<Rightarrow> 'l layer_map" where
  "add_to_platforms l [] out = out"
| "add_to_platforms l (p # ps) out = add_to_platforms l ps (out(p := out p @ [l]))"

fun build_per_platform ::
    "'img content_env \<Rightarrow> ('img, 'l) image_ops \<Rightarrow> 'img layer_input \<Rightarrow> (platform \<rightharpoonup> 'img) \<Rightarrow>
     platform list \<Rightarrow> 'l layer_map \<Rightarrow> 'l layer_map res" where
  "build_per_platform ev ops i images [] out = Inr out"
| "build_per_platform ev ops i images (p # ps) out =
     (case images p of
        None \<Rightarrow> Inl (Msg ''no image for platform'')
      | Some img \<Rightarrow>
          (case build_layer ev ops (i\<lparr>in_image := Some img\<rparr>) of
             Inl e \<Rightarrow> Inl e
           | Inr l \<Rightarrow> build_per_platform ev ops i images ps (out(p := out p @ [l]))))"

fun build_layers ::
    "'img content_env \<Rightarrow> ('img, 'l) image_ops \<Rightarrow> platform list \<Rightarrow> 'img layer_input list \<Rightarrow>
     'l layer_map \<Rightarrow> 'l layer_map res" where
  "build_layers ev ops plats [] out = Inr out"
| "build_layers ev ops plats (i # is) out =
     (case in_images i of
        None \<Rightarrow>
          (case build_layer ev ops i of
             Inl e \<Rightarrow> Inl e
           | Inr l \<Rightarrow> build_layers ev ops plats is (add_to_platforms l plats out))
      | Some images \<Rightarrow>
          (case build_per_platform ev ops i images plats out of
             Inl e \<Rightarrow> Inl e
           | Inr out' \<Rightarrow> build_layers ev ops plats is out'))"

definition no_layers :: "'l layer_map" where
  "no_layers = (\<lambda>_. [])"

text \<open>The config stamped on the image, from the config \<open>cf\<close> of the stacked image.\<close>

definition override_config :: "config \<Rightarrow> run_config \<Rightarrow> run_config" where
  "override_config cfg rc =
     rc\<lparr>rc_labels := (if cfg_labels cfg \<noteq> [] then cfg_labels cfg else rc_labels rc),
        rc_env := (if cfg_env cfg \<noteq> [] then cfg_env cfg else rc_env rc),
        rc_entrypoint := (if cfg_entrypoint cfg \<noteq> [] then cfg_entrypoint cfg else rc_entrypoint rc),
        rc_cmd := (if cfg_cmd cfg \<noteq> [] then cfg_cmd cfg else rc_cmd rc),
        rc_user := (if cfg_user cfg \<noteq> [] then cfg_user cfg else rc_user rc),
        rc_workdir := (if cfg_workdir cfg \<noteq> [] then cfg_workdir cfg else rc_workdir rc),
        rc_stop := (if cfg_stop cfg \<noteq> [] then cfg_stop cfg else rc_stop rc),
        rc_ports := (if cfg_ports cfg \<noteq> [] then set (cfg_ports cfg) else rc_ports rc),
        rc_volumes := (if cfg_volumes cfg \<noteq> [] then set (cfg_volumes cfg) else rc_volumes rc)\<rparr>"

definition stamp_config :: "config \<Rightarrow> platform \<Rightarrow> config_file \<Rightarrow> config_file" where
  "stamp_config cfg plat cf =
     cf\<lparr>cf_created := epoch, cf_author := [], cf_os := p_os plat, cf_arch := p_arch plat,
        cf_variant := p_variant plat, cf_config := override_config cfg (cf_config cf),
        cf_history := []\<rparr>"

definition starting_config ::
    "('img, 'l) image_ops \<Rightarrow> 'img option \<Rightarrow> config \<Rightarrow> config_file \<Rightarrow> config_file res" where
  "starting_config ops base cfg cf =
     (if cfg_inherit cfg then
        (case base of
           None \<Rightarrow> Inl (Msg ''config.inherit is set but there is no base to inherit from'')
         | Some b \<Rightarrow>
             (case io_config ops b of
                Inl e \<Rightarrow> Inl (Wrap ''reading the base config'' e)
              | Inr bc \<Rightarrow> Inr (bc\<lparr>cf_rootfs := cf_rootfs cf\<rparr>)))
      else if base \<noteq> None then Inr (cf\<lparr>cf_config := empty_run_config\<rparr>)
      else Inr cf)"

fun append_all :: "('img, 'l) image_ops \<Rightarrow> 'l list \<Rightarrow> 'img \<Rightarrow> 'img res" where
  "append_all ops [] img = Inr img"
| "append_all ops (l # ls) img =
     (case io_append ops img l of
        Inl e \<Rightarrow> Inl (Wrap ''layer: appending'' e)
      | Inr img' \<Rightarrow> append_all ops ls img')"

subsection \<open>Provenance annotations\<close>

definition assembly_version :: nat where
  "assembly_version = 2"

definition annotation_sources :: string where
  "annotation_sources = ''de.lhns.oci-composer.sources''"

definition annotation_version :: string where
  "annotation_version = ''de.lhns.oci-composer.assembly-version''"

definition annotation_base :: string where
  "annotation_base = ''de.lhns.oci-composer.base''"

definition source_parts :: "'img layer_input list \<Rightarrow> string list" where
  "source_parts is =
     map (\<lambda>i. in_name i @ ''='' @ identity i) (filter (\<lambda>i. identity i \<noteq> []) is)"

definition provenance_annotations ::
    "('img, 'l) image_ops \<Rightarrow> 'img option \<Rightarrow> 'img layer_input list \<Rightarrow> (string \<times> string) list" where
  "provenance_annotations ops base is =
     [(annotation_version, show_nat assembly_version)] @
     (if source_parts is \<noteq> [] then [(annotation_sources, join '' '' (source_parts is))] else []) @
     (case base of
        None \<Rightarrow> []
      | Some b \<Rightarrow> (case io_digest ops b of Inl _ \<Rightarrow> [] | Inr d \<Rightarrow> [(annotation_base, d)]))"

definition with_provenance ::
    "('img, 'l) image_ops \<Rightarrow> 'img \<Rightarrow> 'img option \<Rightarrow> 'img layer_input list \<Rightarrow> 'img" where
  "with_provenance ops img base is =
     (let ann = provenance_annotations ops base is in
      if ann = [] then img
      else (case io_annotate ops img ann of None \<Rightarrow> img | Some out \<Rightarrow> out))"

subsection \<open>The assembly\<close>

definition assemble_for ::
    "('img, 'l) image_ops \<Rightarrow> 'img option \<Rightarrow> 'l list \<Rightarrow> 'img layer_input list \<Rightarrow> config \<Rightarrow> platform \<Rightarrow>
     'img res" where
  "assemble_for ops base layers is cfg plat =
     (case append_all ops layers
             (io_oci_types ops (case base of None \<Rightarrow> io_empty ops | Some b \<Rightarrow> b)) of
        Inl e \<Rightarrow> Inl e
      | Inr img \<Rightarrow>
          (case io_config ops img of
             Inl e \<Rightarrow> Inl (Wrap ''reading config'' e)
           | Inr cf \<Rightarrow>
               (case starting_config ops base cfg cf of
                  Inl e \<Rightarrow> Inl e
                | Inr cf1 \<Rightarrow>
                    (case io_set_config ops img (stamp_config cfg plat cf1) of
                       Inl e \<Rightarrow> Inl (Wrap ''setting config'' e)
                     | Inr img' \<Rightarrow> Inr (with_provenance ops img' base is)))))"

definition assemble_as ::
    "'img content_env \<Rightarrow> ('img, 'l) image_ops \<Rightarrow> 'img option \<Rightarrow> 'img layer_input list \<Rightarrow> config \<Rightarrow>
     platform \<Rightarrow> 'img res" where
  "assemble_as ev ops base is cfg plat =
     (case build_layers ev ops [plat] is no_layers of
        Inl e \<Rightarrow> Inl e
      | Inr layers \<Rightarrow> assemble_for ops base (layers plat) is cfg plat)"

definition assemble ::
    "'img content_env \<Rightarrow> ('img, 'l) image_ops \<Rightarrow> string \<Rightarrow> 'img option \<Rightarrow> 'img layer_input list \<Rightarrow>
     config \<Rightarrow> 'img res" where
  "assemble ev ops goarch base is cfg =
     (case platform_for ops goarch base of
        Inl e \<Rightarrow> Inl e
      | Inr plat \<Rightarrow> assemble_as ev ops base is cfg plat)"

fun assemble_children ::
    "('img, 'l) image_ops \<Rightarrow> (platform \<rightharpoonup> 'img) option \<Rightarrow> 'l layer_map \<Rightarrow> 'img layer_input list \<Rightarrow>
     config \<Rightarrow> platform list \<Rightarrow> (platform \<times> 'img) list res" where
  "assemble_children ops bases layers is cfg [] = Inr []"
| "assemble_children ops bases layers is cfg (p # ps) =
     (case bases of
        Some m \<Rightarrow>
          (case m p of
             None \<Rightarrow> Inl (Msg ''no base image for platform'')
           | Some b \<Rightarrow>
               (case assemble_for ops (Some b) (layers p) is cfg p of
                  Inl e \<Rightarrow> Inl (Wrap ''platform'' e)
                | Inr img \<Rightarrow>
                    map_res (\<lambda>r. (p, img) # r) (assemble_children ops bases layers is cfg ps)))
      | None \<Rightarrow>
          (case assemble_for ops None (layers p) is cfg p of
             Inl e \<Rightarrow> Inl (Wrap ''platform'' e)
           | Inr img \<Rightarrow>
               map_res (\<lambda>r. (p, img) # r) (assemble_children ops bases layers is cfg ps)))"

text \<open>The index is the list of its children, each with the platform of its descriptor.\<close>

definition assemble_index ::
    "'img content_env \<Rightarrow> ('img, 'l) image_ops \<Rightarrow> (platform \<rightharpoonup> 'img) option \<Rightarrow> 'img layer_input list \<Rightarrow>
     config \<Rightarrow> platform list \<Rightarrow> (platform \<times> 'img) list res" where
  "assemble_index ev ops bases is cfg plats =
     (if plats = [] then Inl (Msg ''no platforms given'')
      else (case build_layers ev ops plats is no_layers of
          Inl e \<Rightarrow> Inl e
        | Inr layers \<Rightarrow> assemble_children ops bases layers is cfg plats))"

end
