(* ===== verification/Sources.thy ===== *)
theory Sources
  imports Default_Registry Layer_Assemble Go_Utf8
begin

section \<open>Where layer content comes from\<close>

text \<open>
  \<^verbatim>\<open>internal/source\<close>: Flux sources, ConfigMaps and pinned images. What the API server and the
  registry answer is a parameter; the tar and gzip writers of the ConfigMap layer are one parameter,
  given the headers the code writes.
\<close>

subsection \<open>Flux sources\<close>

record flux_artifact =
  fa_url :: string
  fa_digest :: string
  fa_revision :: string

text \<open>
  The unstructured object: a field is \<open>None\<close> when the nested lookup does not find it or finds another
  type. A condition entry that is no map is \<open>None\<close>; a missing string in one is empty.
\<close>

record flux_condition =
  fc_type :: string
  fc_status :: string
  fc_reason :: string

record flux_object =
  fo_generation :: int
  fo_observed :: "int option"
  fo_conditions :: "flux_condition option list option"
  fo_url :: "string option"
  fo_digest :: "string option"
  fo_revision :: "string option"

datatype flux_get = FluxFound flux_object | NoKindMatch error | FluxMissing | FluxFailed error

definition flux_group_versions :: "string list" where
  "flux_group_versions = [''source.toolkit.fluxcd.io/v1'', ''source.toolkit.fluxcd.io/v1beta2'']"

fun ready_entry :: "flux_condition option list \<Rightarrow> (string \<times> string) option" where
  "ready_entry [] = None"
| "ready_entry (None # cs) = ready_entry cs"
| "ready_entry (Some c # cs) =
     (if fc_type c \<noteq> ''Ready'' then ready_entry cs
      else Some (fc_status c, if fc_reason c = [] then ''no reason given'' else fc_reason c))"

definition ready_of :: "flux_object \<Rightarrow> (string \<times> string) option" where
  "ready_of obj = (case fo_conditions obj of None \<Rightarrow> None | Some cs \<Rightarrow> ready_entry cs)"

definition check_current :: "flux_object \<Rightarrow> string \<Rightarrow> error option" where
  "check_current obj ref =
     (if fo_observed obj \<noteq> None \<and> fo_observed obj \<noteq> Some (fo_generation obj)
      then Some (NotReadyError ref (''status describes generation '' @ show_int (the (fo_observed obj)) @
        '' but the spec is at generation '' @ show_int (fo_generation obj) @
        '', so status.artifact still names the previous revision''))
      else (case ready_of obj of
          Some (s, reason) \<Rightarrow>
            if s \<noteq> ''True''
            then Some (NotReadyError ref (''Ready='' @ s @ '' ('' @ reason @
              ''), so status.artifact is whatever it last managed to fetch rather than what the spec asks for''))
            else None
        | None \<Rightarrow> None))"

text \<open>The versions are tried in order. Not found ends the search; any other failure goes on.\<close>

fun flux_lookup :: "(string \<Rightarrow> flux_get) \<Rightarrow> string \<Rightarrow> error \<Rightarrow> string list \<Rightarrow> flux_object res" where
  "flux_lookup get ref last_err [] = Inl (Wrap (''reading '' @ ref) last_err)"
| "flux_lookup get ref last_err (gv # gvs) =
     (case get gv of
        FluxFound obj \<Rightarrow> Inr obj
      | NoKindMatch e \<Rightarrow> flux_lookup get ref e gvs
      | FluxMissing \<Rightarrow> Inl (NotFoundError ref)
      | FluxFailed e \<Rightarrow> flux_lookup get ref e gvs)"

definition flux_source :: "(string \<Rightarrow> flux_get) \<Rightarrow> string \<Rightarrow> flux_artifact res" where
  "flux_source get ref =
     (case flux_lookup get ref (Msg []) flux_group_versions of
        Inl e \<Rightarrow> Inl e
      | Inr obj \<Rightarrow>
          (case check_current obj ref of
             Some e \<Rightarrow> Inl e
           | None \<Rightarrow>
               (case fo_url obj of
                  None \<Rightarrow> Inl (Msg (ref @ '' has no artifact yet''))
                | Some url \<Rightarrow>
                    if url = [] then Inl (Msg (ref @ '' has no artifact yet''))
                    else (case fo_digest obj of
                        None \<Rightarrow> Inl (Msg (ref @ '' published an artifact with no digest''))
                      | Some d \<Rightarrow>
                          if d = [] then Inl (Msg (ref @ '' published an artifact with no digest''))
                          else Inr \<lparr>fa_url = url, fa_digest = d,
                            fa_revision = (case fo_revision obj of None \<Rightarrow> [] | Some r \<Rightarrow> r)\<rparr>))))"

subsection \<open>ConfigMaps\<close>

text \<open>Text and binary data are Go maps: association lists whose order carries no meaning.\<close>

record cm_content =
  cc_data :: "(string \<times> string) list"
  cc_binary :: "(string \<times> string) list"

record cm_header =
  ch_name :: string
  ch_mode :: int
  ch_size :: int
  ch_time :: int
  ch_body :: string

datatype resolved = EmptyResolved | Resolved string string string

record config_map_env =
  cme_get :: "string \<Rightarrow> cm_content lookup"
  cme_pack :: "cm_header list \<Rightarrow> string res"
  cme_sha256 :: "string \<Rightarrow> string"
  cme_temp :: "string \<Rightarrow> string res"

definition merged :: "cm_content \<Rightarrow> string \<rightharpoonup> string" where
  "merged cm = map_of (cc_data cm) ++ map_of (cc_binary cm)"

definition merged_names :: "cm_content \<Rightarrow> string list" where
  "merged_names cm = sort (remdups (map fst (cc_data cm) @ map fst (cc_binary cm)))"

definition cm_headers :: "cm_content \<Rightarrow> cm_header list" where
  "cm_headers cm =
     map (\<lambda>n. let body = the (merged cm n) in
       \<lparr>ch_name = n, ch_mode = 420, ch_size = int (length body), ch_time = epoch, ch_body = body\<rparr>)
       (merged_names cm)"

definition has_separator :: "string \<Rightarrow> bool" where
  "has_separator k \<longleftrightarrow> CHR ''/'' \<in> set k \<or> CHR 0x5C \<in> set k"

definition config_map_layer :: "config_map_env \<Rightarrow> string \<Rightarrow> bool \<Rightarrow> resolved res" where
  "config_map_layer env key optional =
     (case cme_get env key of
        Missing \<Rightarrow> if optional then Inr EmptyResolved else Inl (NotFoundError (''ConfigMap '' @ key))
      | ReadFailed e \<Rightarrow> Inl (Wrap (''reading ConfigMap '' @ key) e)
      | Found cm \<Rightarrow>
          if merged_names cm = [] then Inr EmptyResolved
          else if list_ex has_separator (merged_names cm)
          then Inl (Msg (''ConfigMap '' @ key @ '': key '' @ quoted (hd (filter has_separator (merged_names cm))) @
            '' contains a path separator''))
          else (case cme_pack env (cm_headers cm) of
              Inl e \<Rightarrow> Inl e
            | Inr payload \<Rightarrow>
                (case cme_temp env payload of
                   Inl e \<Rightarrow> Inl e
                 | Inr path \<Rightarrow>
                     Inr (Resolved path (''sha256:'' @ cme_sha256 env payload) ''tar.gz''))))"

subsection \<open>Pinned images\<close>

text \<open>What a pinned reference resolves to; a manifest of an index names its platform or not.\<close>

record index_manifest =
  im_platform :: "platform option"
  im_digest :: string

datatype 'img descriptor =
    ImageDesc "'img res"
  | IndexDesc "index_manifest list res" "string \<Rightarrow> 'img res"

record 'img image_registry =
  ir_ref_ok :: "string \<Rightarrow> bool"
  ir_get :: "string \<Rightarrow> 'img descriptor res"
  ir_platform :: "'img \<Rightarrow> platform res"

definition get_pinned :: "'img image_registry \<Rightarrow> string \<Rightarrow> string \<Rightarrow> 'img descriptor res" where
  "get_pinned reg repository digest =
     (let ref = repository @ ''@'' @ digest in
      if \<not> ir_ref_ok reg ref then Inl (BadReference (''invalid image reference '' @ ref))
      else (case ir_get reg ref of Inl e \<Rightarrow> Inl (Wrap (''pulling '' @ ref) e) | Inr d \<Rightarrow> Inr d))"

definition platform_matches :: "platform \<Rightarrow> platform \<Rightarrow> bool" where
  "platform_matches have want =
     (if p_os have \<noteq> p_os want \<or> p_arch have \<noteq> p_arch want then False
      else p_variant want = [] \<or> p_variant have = p_variant want)"

text \<open>The first manifest that matches, and its image.\<close>

fun find_child ::
    "string \<Rightarrow> (string \<Rightarrow> 'img res) \<Rightarrow> platform \<Rightarrow> index_manifest list \<Rightarrow> 'img option res" where
  "find_child ref child_of want [] = Inr None"
| "find_child ref child_of want (m # ms) =
     (case im_platform m of
        None \<Rightarrow> find_child ref child_of want ms
      | Some p \<Rightarrow>
          if \<not> platform_matches p want then find_child ref child_of want ms
          else (case child_of (im_digest m) of
              Inl e \<Rightarrow> Inl (Wrap (''reading child '' @ im_digest m @ '' of '' @ ref) e)
            | Inr child \<Rightarrow> Inr (Some child)))"

fun select_from ::
    "string \<Rightarrow> (string \<Rightarrow> 'img res) \<Rightarrow> index_manifest list \<Rightarrow> platform list \<Rightarrow> (string \<rightharpoonup> 'img) \<Rightarrow> (string \<rightharpoonup> 'img) res" where
  "select_from ref child_of ms [] out = Inr out"
| "select_from ref child_of ms (want # ps) out =
     (case find_child ref child_of want ms of
        Inl e \<Rightarrow> Inl e
      | Inr None \<Rightarrow> Inl (BadReference (ref @ '' offers no '' @ platform_string want @ '' manifest''))
      | Inr (Some child) \<Rightarrow> select_from ref child_of ms ps (out(platform_string want \<mapsto> child)))"

definition select_children ::
    "string \<Rightarrow> index_manifest list res \<Rightarrow> (string \<Rightarrow> 'img res) \<Rightarrow> platform list \<Rightarrow> (string \<rightharpoonup> 'img) res" where
  "select_children ref manifest child_of plats =
     (case manifest of
        Inl e \<Rightarrow> Inl (Wrap (''reading index manifest '' @ ref) e)
      | Inr ms \<Rightarrow> select_from ref child_of ms plats Map.empty)"

text \<open>Either one image, or the children by platform.\<close>

definition pull_image_for ::
    "'img image_registry \<Rightarrow> string \<Rightarrow> string \<Rightarrow> platform list \<Rightarrow> ('img + (string \<rightharpoonup> 'img)) res" where
  "pull_image_for reg repository digest plats =
     (case get_pinned reg repository digest of
        Inl e \<Rightarrow> Inl e
      | Inr (IndexDesc manifest child_of) \<Rightarrow>
          if plats = [] then Inl (BadReference (repository @ ''@'' @ digest @
            '' is a multi-architecture index; either set spec.platforms to select from it, or pin a platform-specific digest (crane digest --platform linux/amd64 '' @ repository @ '')''))
          else (case select_children (repository @ ''@'' @ digest) manifest child_of plats of Inl e \<Rightarrow> Inl e | Inr m \<Rightarrow> Inr (Inr m))
      | Inr (ImageDesc img) \<Rightarrow>
          (case img of Inl e \<Rightarrow> Inl (Wrap (''reading image '' @ repository @ ''@'' @ digest) e) | Inr i \<Rightarrow> Inr (Inl i)))"

fun single_for ::
    "string \<Rightarrow> 'img \<Rightarrow> platform \<Rightarrow> platform list \<Rightarrow> (string \<rightharpoonup> 'img) \<Rightarrow> (string \<rightharpoonup> 'img) res" where
  "single_for ref img have [] out = Inr out"
| "single_for ref img have (want # ps) out =
     (if \<not> platform_matches have want
      then Inl (BadReference (ref @ '' is a single '' @ platform_string have @ '' manifest but '' @ platform_string want @
        '' was requested; pin a multi-architecture index as the base to build for several platforms''))
      else single_for ref img have ps (out(platform_string want \<mapsto> img)))"

definition pull_image_index ::
    "'img image_registry \<Rightarrow> string \<Rightarrow> string \<Rightarrow> platform list \<Rightarrow> (string \<rightharpoonup> 'img) res" where
  "pull_image_index reg repository digest plats =
     (case get_pinned reg repository digest of
        Inl e \<Rightarrow> Inl e
      | Inr (IndexDesc manifest child_of) \<Rightarrow> select_children (repository @ ''@'' @ digest) manifest child_of plats
      | Inr (ImageDesc img) \<Rightarrow>
          (case img of
             Inl e \<Rightarrow> Inl (Wrap (''reading image '' @ repository @ ''@'' @ digest) e)
           | Inr i \<Rightarrow>
               (case ir_platform reg i of
                  Inl e \<Rightarrow> Inl (Wrap (''reading config of '' @ repository @ ''@'' @ digest) e)
                | Inr have \<Rightarrow> single_for (repository @ ''@'' @ digest) i have plats Map.empty)))"

subsection \<open>What a source yields\<close>

lemma ready_entry_Some:
  "ready_entry cs = Some (s, r) \<Longrightarrow> \<exists>c. Some c \<in> set cs \<and> fc_type c = ''Ready'' \<and> fc_status c = s"
  by (induction cs rule: ready_entry.induct) (auto split: if_splits)

definition is_current :: "flux_object \<Rightarrow> bool" where
  "is_current obj \<longleftrightarrow>
     (case fo_observed obj of None \<Rightarrow> True | Some n \<Rightarrow> n = fo_generation obj) \<and>
     (case ready_of obj of None \<Rightarrow> True | Some (s, _) \<Rightarrow> s = ''True'')"

lemma check_current_None: "check_current obj ref = None \<longleftrightarrow> is_current obj"
  by (auto simp: check_current_def is_current_def split: option.splits)

lemma check_current_Some: "check_current obj ref = Some e \<Longrightarrow> \<exists>w. e = NotReadyError ref w"
  by (auto simp: check_current_def split: option.splits if_splits)

text \<open>
  A Flux source yields an artifact exactly when the first served version of the object
  is current, that is its status is of its own generation and it is not reported unready, and names
  a URL and a digest; a superseded status is reported as not ready and a missing object as not
  found, never as content.
\<close>

theorem flux_source_current:
  assumes "get ''source.toolkit.fluxcd.io/v1'' = FluxFound obj \<or>
    (\<exists>e. get ''source.toolkit.fluxcd.io/v1'' = NoKindMatch e) \<and>
     get ''source.toolkit.fluxcd.io/v1beta2'' = FluxFound obj"
  shows "(flux_source get ref = Inr a \<longleftrightarrow>
      is_current obj \<and> fo_url obj = Some (fa_url a) \<and> fa_url a \<noteq> [] \<and>
      fo_digest obj = Some (fa_digest a) \<and> fa_digest a \<noteq> [] \<and>
      fa_revision a = (case fo_revision obj of None \<Rightarrow> [] | Some r \<Rightarrow> r)) \<and>
    (\<not> is_current obj \<longrightarrow> (\<exists>w. flux_source get ref = Inl (NotReadyError ref w))) \<and>
    (get' ''source.toolkit.fluxcd.io/v1'' = FluxMissing \<longrightarrow> flux_source get' ref = Inl (NotFoundError ref))"
proof -
  have l: "flux_lookup get ref (Msg []) flux_group_versions = Inr obj"
    using assms by (auto simp: flux_group_versions_def)
  have m: "flux_lookup get' ref (Msg []) flux_group_versions = Inl (NotFoundError ref)"
    if "get' ''source.toolkit.fluxcd.io/v1'' = FluxMissing"
    using that by (simp add: flux_group_versions_def)
  show ?thesis
  proof (cases "check_current obj ref")
    case None
    then have "is_current obj" by (simp add: check_current_None)
    with None show ?thesis
      by (cases a) (auto simp: flux_source_def l m split: option.splits)
  next
    case (Some e)
    then have "\<not> is_current obj" by (metis check_current_None option.distinct(1))
    with Some check_current_Some[OF Some] show ?thesis
      by (auto simp: flux_source_def l m)
  qed
qed

definition sample_flux :: "int \<Rightarrow> flux_object" where
  "sample_flux n =
     \<lparr>fo_generation = 2, fo_observed = Some n,
      fo_conditions = Some [None, Some \<lparr>fc_type = ''Ready'', fc_status = ''True'', fc_reason = []\<rparr>],
      fo_url = Some ''http://x/a.tar.gz'', fo_digest = Some ''sha256:aa'', fo_revision = Some ''main@sha1:1''\<rparr>"

theorem flux_source_current_witness:
  "flux_source (\<lambda>gv. FluxFound (sample_flux 2)) ''Bucket a/b'' =
     Inr \<lparr>fa_url = ''http://x/a.tar.gz'', fa_digest = ''sha256:aa'', fa_revision = ''main@sha1:1''\<rparr> \<and>
   (\<exists>w. flux_source (\<lambda>gv. FluxFound (sample_flux 1)) ''Bucket a/b'' = Inl (NotReadyError ''Bucket a/b'' w))"
proof (rule conjI)
  have c: "is_current (sample_flux 2)" by code_simp
  show "flux_source (\<lambda>gv. FluxFound (sample_flux 2)) ''Bucket a/b'' =
     Inr \<lparr>fa_url = ''http://x/a.tar.gz'', fa_digest = ''sha256:aa'', fa_revision = ''main@sha1:1''\<rparr>"
    by (rule iffD2[OF conjunct1[OF flux_source_current[where obj = "sample_flux 2"]]])
      (use c in \<open>simp_all add: sample_flux_def\<close>)
  have "\<not> is_current (sample_flux 1)" by code_simp
  then show "\<exists>w. flux_source (\<lambda>gv. FluxFound (sample_flux 1)) ''Bucket a/b'' = Inl (NotReadyError ''Bucket a/b'' w)"
    using flux_source_current[of "\<lambda>gv. FluxFound (sample_flux 1)" "sample_flux 1" "''Bucket a/b''"] by blast
qed

lemma merged_names_spec:
  "set (merged_names cm) = dom (merged cm)" "sorted (merged_names cm)" "distinct (merged_names cm)"
  by (auto simp: merged_names_def merged_def dom_map_of_conv_image_fst)

lemma merged_names_cong:
  assumes "merged cm = merged cm'"
  shows "merged_names cm = merged_names cm'"
proof (rule sorted_distinct_set_unique)
  show "set (merged_names cm) = set (merged_names cm')" using assms by (simp only: merged_names_spec)
qed (simp_all add: merged_names_spec)

text \<open>
  The layer made from a ConfigMap depends on the merged content only, not on the order
  of the keys or on which of the two maps holds a value; its entries are the keys in ascending
  order, each a plain name with the binary value where there is one, at a fixed mode and time.
\<close>

theorem config_map_reproducible:
  assumes "cme_get env k = Found cm" "cme_get env k' = Found cm'" "merged cm = merged cm'"
  shows "(config_map_layer env k opt = Inr r \<longleftrightarrow> config_map_layer env k' opt' = Inr r) \<and>
    sorted (map ch_name (cm_headers cm)) \<and> distinct (map ch_name (cm_headers cm)) \<and>
    (config_map_layer env k opt = Inr (Resolved path dg u) \<longrightarrow>
      (\<forall>h \<in> set (cm_headers cm). \<not> has_separator (ch_name h) \<and> ch_mode h = 420 \<and> ch_time h = 0 \<and>
        Some (ch_body h) = (case map_of (cc_binary cm) (ch_name h) of
          Some v \<Rightarrow> Some v | None \<Rightarrow> map_of (cc_data cm) (ch_name h)) \<and>
        ch_size h = int (length (ch_body h))))"
proof (intro conjI ballI impI)
  have n: "merged_names cm = merged_names cm'" using assms(3) by (rule merged_names_cong)
  moreover have "cm_headers cm = cm_headers cm'" by (simp add: cm_headers_def n assms(3))
  ultimately show "config_map_layer env k opt = Inr r \<longleftrightarrow> config_map_layer env k' opt' = Inr r"
    by (simp add: config_map_layer_def assms(1,2))
  have names: "map ch_name (cm_headers cm) = merged_names cm"
    by (simp add: cm_headers_def Let_def comp_def)
  then show "sorted (map ch_name (cm_headers cm))" "distinct (map ch_name (cm_headers cm))"
    by (simp_all add: merged_names_spec)
  fix h assume r: "config_map_layer env k opt = Inr (Resolved path dg u)" and h: "h \<in> set (cm_headers cm)"
  then obtain x where x: "x \<in> set (merged_names cm)"
    "h = \<lparr>ch_name = x, ch_mode = 420, ch_size = int (length (the (merged cm x))), ch_time = epoch,
      ch_body = the (merged cm x)\<rparr>"
    by (auto simp: cm_headers_def Let_def)
  have "\<not> list_ex has_separator (merged_names cm)"
    using r assms(1) by (auto simp: config_map_layer_def split: if_splits)
  then show "\<not> has_separator (ch_name h)" using x by (auto simp: list_ex_iff)
  show "ch_mode h = 420" "ch_time h = 0" "ch_size h = int (length (ch_body h))"
    using x by (simp_all add: epoch_def)
  obtain v where "merged cm x = Some v" using x(1) by (auto simp: merged_names_spec(1))
  then show "Some (ch_body h) = (case map_of (cc_binary cm) (ch_name h) of
          Some v \<Rightarrow> Some v | None \<Rightarrow> map_of (cc_data cm) (ch_name h))"
    using x(2) by (auto simp: merged_def split: option.splits)
qed

definition sample_config_maps :: config_map_env where
  "sample_config_maps =
     \<lparr>cme_get = (\<lambda>k. if k = ''a'' then Found \<lparr>cc_data = [(''y'', ''2''), (''x'', ''1'')], cc_binary = []\<rparr>
         else Found \<lparr>cc_data = [(''x'', ''1'')], cc_binary = [(''y'', ''2'')]\<rparr>),
      cme_pack = (\<lambda>hs. Inr (concat (map (\<lambda>h. ch_name h @ ch_body h) hs))), cme_sha256 = rev, cme_temp = (\<lambda>p. Inr ''/tmp/1'')\<rparr>"

theorem config_map_reproducible_witness:
  "config_map_layer sample_config_maps ''b'' False = Inr (Resolved ''/tmp/1'' ''sha256:2y1x'' ''tar.gz'') \<and>
   config_map_layer sample_config_maps ''a'' False = Inr (Resolved ''/tmp/1'' ''sha256:2y1x'' ''tar.gz'')"
proof (rule conjI)
  have m: "merged \<lparr>cc_data = [(''y'', ''2''), (''x'', ''1'')], cc_binary = []\<rparr> =
      merged \<lparr>cc_data = [(''x'', ''1'')], cc_binary = [(''y'', ''2'')]\<rparr>"
    by (auto simp: merged_def)
  show a: "config_map_layer sample_config_maps ''a'' False = Inr (Resolved ''/tmp/1'' ''sha256:2y1x'' ''tar.gz'')"
    by (simp add: config_map_layer_def sample_config_maps_def merged_names_def cm_headers_def merged_def
        has_separator_def Let_def List_Lexorder.list_less_def)
  show "config_map_layer sample_config_maps ''b'' False = Inr (Resolved ''/tmp/1'' ''sha256:2y1x'' ''tar.gz'')"
    by (rule iffD1[OF conjunct1[OF config_map_reproducible[OF _ _ m]] a]) (simp_all add: sample_config_maps_def)
qed

subsection \<open>Which manifest of an index is taken\<close>

definition offers :: "platform \<Rightarrow> index_manifest \<Rightarrow> bool" where
  "offers want m = (case im_platform m of None \<Rightarrow> False | Some p \<Rightarrow> platform_matches p want)"

lemma find_child_find:
  "find_child ref child_of want ms =
     (case find (offers want) ms of
        None \<Rightarrow> Inr None
      | Some m \<Rightarrow> (case child_of (im_digest m) of Inl e \<Rightarrow> Inl (Wrap (''reading child '' @ im_digest m @ '' of '' @ ref) e) | Inr c \<Rightarrow> Inr (Some c)))"
  by (induction ms) (auto simp: offers_def split: option.splits)

lemma select_from_spec:
  assumes "select_from ref child_of ms ps out = Inr m" "distinct (map platform_string ps)"
  shows "(\<forall>want \<in> set ps. \<exists>x c. find (offers want) ms = Some x \<and> child_of (im_digest x) = Inr c \<and>
      m (platform_string want) = Some c) \<and>
    (\<forall>k. k \<notin> platform_string ` set ps \<longrightarrow> m k = out k)"
  using assms
proof (induction ps arbitrary: out)
  case (Cons want ps)
  obtain x c where x: "find (offers want) ms = Some x" "child_of (im_digest x) = Inr c"
    "select_from ref child_of ms ps (out(platform_string want \<mapsto> c)) = Inr m"
    using Cons.prems(1) by (auto simp: find_child_find split: option.splits sum.splits)
  have d: "distinct (map platform_string ps)" "platform_string want \<notin> platform_string ` set ps"
    using Cons.prems(2) by auto
  note ih = Cons.IH[OF x(3) d(1)]
  have "m (platform_string want) = Some c" using ih d(2) by simp
  with ih x(1,2) show ?case by auto
qed simp

lemma select_from_error:
  "select_from ref child_of ms ps out = Inl e \<Longrightarrow>
   \<exists>want \<in> set ps. (find (offers want) ms = None \<and> e = BadReference (ref @ '' offers no '' @ platform_string want @ '' manifest'')) \<or>
     (\<exists>x e'. find (offers want) ms = Some x \<and> child_of (im_digest x) = Inl e' \<and> e = Wrap (''reading child '' @ im_digest x @ '' of '' @ ref) e')"
proof (induction ps arbitrary: out)
  case (Cons want ps)
  then show ?case
    by (auto simp: find_child_find split: option.splits sum.splits)
qed simp

text \<open>
  From an index each requested platform gets the first manifest that declares its
  operating system and architecture, and its variant where one is requested, and nothing else; a
  platform the index does not offer is a bad reference and never a near match; and without
  platforms an index is refused instead of chosen from.
\<close>

theorem index_selection:
  assumes p: "get_pinned reg repo dg = Inr (IndexDesc (Inr ms) child_of)"
    and d: "distinct (map platform_string plats)"
  shows "(pull_image_for reg repo dg plats = Inr (Inr m) \<longrightarrow>
      dom m = platform_string ` set plats \<and>
      (\<forall>want \<in> set plats. \<exists>x p c. find (offers want) ms = Some x \<and> im_platform x = Some p \<and>
         p_os p = p_os want \<and> p_arch p = p_arch want \<and> (p_variant want = [] \<or> p_variant p = p_variant want) \<and>
         child_of (im_digest x) = Inr c \<and> m (platform_string want) = Some c)) \<and>
    ((\<exists>want \<in> set plats. find (offers want) ms = None) \<and> (\<forall>x \<in> set ms. \<not> isl (child_of (im_digest x))) \<longrightarrow>
      (\<exists>want \<in> set plats. find (offers want) ms = None \<and> pull_image_for reg repo dg plats =
        Inl (BadReference (repo @ ''@'' @ dg @ '' offers no '' @ platform_string want @ '' manifest'')))) \<and>
    (\<exists>e. pull_image_for reg repo dg [] = Inl (BadReference e))"
proof (intro conjI impI)
  assume a: "pull_image_for reg repo dg plats = Inr (Inr m)"
  then have "select_from (repo @ ''@'' @ dg) child_of ms plats Map.empty = Inr m"
    by (auto simp: pull_image_for_def p select_children_def split: if_splits sum.splits)
  note s = select_from_spec[OF this d]
  show "dom m = platform_string ` set plats"
  proof
    show "dom m \<subseteq> platform_string ` set plats" using conjunct2[OF s] by fastforce
    show "platform_string ` set plats \<subseteq> dom m" using conjunct1[OF s] by blast
  qed
  have o': "\<exists>p. im_platform x = Some p \<and> p_os p = p_os want \<and> p_arch p = p_arch want \<and>
      (p_variant want = [] \<or> p_variant p = p_variant want)" if "find (offers want) ms = Some x" for want x
    using that by (auto simp: find_Some_iff offers_def platform_matches_def split: option.splits if_splits)
  show "\<forall>want \<in> set plats. \<exists>x p c. find (offers want) ms = Some x \<and> im_platform x = Some p \<and>
         p_os p = p_os want \<and> p_arch p = p_arch want \<and> (p_variant want = [] \<or> p_variant p = p_variant want) \<and>
         child_of (im_digest x) = Inr c \<and> m (platform_string want) = Some c"
    using conjunct1[OF s] o' by meson
next
  assume a: "(\<exists>want \<in> set plats. find (offers want) ms = None) \<and> (\<forall>x \<in> set ms. \<not> isl (child_of (im_digest x)))"
  then have ne: "plats \<noteq> []" by auto
  show "\<exists>want \<in> set plats. find (offers want) ms = None \<and> pull_image_for reg repo dg plats =
        Inl (BadReference (repo @ ''@'' @ dg @ '' offers no '' @ platform_string want @ '' manifest''))"
  proof (cases "select_from (repo @ ''@'' @ dg) child_of ms plats Map.empty")
    case (Inr m)
    from select_from_spec[OF this d] a show ?thesis by auto
  next
    case (Inl e)
    have "\<not> isl (child_of (im_digest x))" if "find (offers want) ms = Some x" for want x
    proof -
      have "x \<in> set ms" using that by (auto simp: find_Some_iff)
      then show ?thesis using a by blast
    qed
    then have "\<exists>want \<in> set plats. find (offers want) ms = None \<and>
        e = BadReference ((repo @ ''@'' @ dg) @ '' offers no '' @ platform_string want @ '' manifest'')"
      using select_from_error[OF Inl] by (metis isl_def)
    with Inl ne show ?thesis by (simp add: pull_image_for_def p select_children_def)
  qed
next
  show "\<exists>e. pull_image_for reg repo dg [] = Inl (BadReference e)" by (simp add: pull_image_for_def p)
qed

definition sample_platform :: "string \<Rightarrow> string \<Rightarrow> platform" where
  "sample_platform a v = \<lparr>p_os = ''linux'', p_arch = a, p_variant = v\<rparr>"

definition sample_images :: "nat image_registry" where
  "sample_images =
     \<lparr>ir_ref_ok = (\<lambda>r. True),
      ir_get = (\<lambda>r. Inr (IndexDesc
        (Inr [\<lparr>im_platform = None, im_digest = ''d0''\<rparr>,
              \<lparr>im_platform = Some (sample_platform ''arm64'' ''v8''), im_digest = ''d1''\<rparr>,
              \<lparr>im_platform = Some (sample_platform ''amd64'' []), im_digest = ''d2''\<rparr>])
        (\<lambda>d. Inr (if d = ''d1'' then 1 else 2)))),
      ir_platform = (\<lambda>i. Inr (sample_platform ''amd64'' []))\<rparr>"

theorem index_selection_witness:
  "pull_image_for sample_images ''r'' ''sha256:aa'' [sample_platform ''s390x'' []] =
     Inl (BadReference ''r@sha256:aa offers no linux/s390x manifest'') \<and>
   (\<exists>e. pull_image_for sample_images ''r'' ''sha256:aa'' [] = Inl (BadReference e))"
proof -
  let ?ms = "[\<lparr>im_platform = None, im_digest = ''d0''\<rparr>,
      \<lparr>im_platform = Some (sample_platform ''arm64'' ''v8''), im_digest = ''d1''\<rparr>,
      \<lparr>im_platform = Some (sample_platform ''amd64'' []), im_digest = ''d2''\<rparr>]"
  have p: "get_pinned sample_images ''r'' ''sha256:aa'' =
      Inr (IndexDesc (Inr ?ms) (\<lambda>d. Inr (if d = ''d1'' then 1 else 2)))"
    by (simp add: get_pinned_def sample_images_def Let_def)
  have d: "distinct (map platform_string [sample_platform ''s390x'' []])" by simp
  have s: "platform_string (sample_platform ''s390x'' []) = ''linux/s390x''" by code_simp
  have "find (offers (sample_platform ''s390x'' [])) ?ms = None"
    by (simp add: offers_def platform_matches_def sample_platform_def)
  then have "(\<exists>want \<in> set [sample_platform ''s390x'' []]. find (offers want) ?ms = None) \<and>
      (\<forall>x \<in> set ?ms. \<not> isl (((\<lambda>d. Inr (if d = ''d1'' then 1 else 2)) :: string \<Rightarrow> nat res) (im_digest x)))"
    by simp
  with index_selection[OF p d] show ?thesis by (auto simp: s)
qed

end
