(* ===== verification/Effects.thy ===== *)
theory Effects
  imports Go_Base
begin

section \<open>Sequences of effects that may fail\<close>

text \<open>
  A Go function that performs side effects and returns a value and an error is a run: the effects it
  performed, in order, and its result. What follows an error is not performed, what precedes it is.
\<close>

type_synonym ('e, 'a) run = "'e list \<times> 'a res"

definition and_then :: "('e, 'a) run \<Rightarrow> ('a \<Rightarrow> ('e, 'b) run) \<Rightarrow> ('e, 'b) run" where
  "and_then m f =
     (case snd m of Inl e \<Rightarrow> (fst m, Inl e) | Inr x \<Rightarrow> (fst m @ fst (f x), snd (f x)))"

definition lift :: "'a res \<Rightarrow> ('e, 'a) run" where
  "lift r = ([], r)"

text \<open>One effect, and the error its attempt met.\<close>

definition attempt :: "'e \<Rightarrow> error option \<Rightarrow> ('e, unit) run" where
  "attempt e r = ([e], case r of None \<Rightarrow> Inr () | Some err \<Rightarrow> Inl err)"

definition emit :: "'e \<Rightarrow> ('e, unit) run" where
  "emit e = ([e], Inr ())"

definition map_run_err :: "(error \<Rightarrow> error) \<Rightarrow> ('e, 'a) run \<Rightarrow> ('e, 'a) run" where
  "map_run_err g m = (fst m, case snd m of Inl e \<Rightarrow> Inl (g e) | Inr x \<Rightarrow> Inr x)"

definition map_effects :: "('e \<Rightarrow> 'f) \<Rightarrow> ('e, 'a) run \<Rightarrow> ('f, 'a) run" where
  "map_effects g m = (map g (fst m), snd m)"

text \<open>Every effect of a run satisfies a predicate.\<close>

definition run_all :: "('e \<Rightarrow> bool) \<Rightarrow> ('e, 'a) run \<Rightarrow> bool" where
  "run_all P m = list_all P (fst m)"

lemma and_then_Inr [simp]: "and_then (es, Inr x) f = (es @ fst (f x), snd (f x))"
  and and_then_Inl [simp]: "and_then (es, Inl e) f = (es, Inl e)"
  by (simp_all add: and_then_def)

lemma fst_and_then:
  "fst (and_then m f) = fst m @ (case snd m of Inl _ \<Rightarrow> [] | Inr x \<Rightarrow> fst (f x))"
  by (simp add: and_then_def split: sum.splits)

lemma snd_and_then: "snd (and_then m f) = bind_res (snd m) (\<lambda>x. snd (f x))"
  by (simp add: and_then_def bind_res_def split: sum.splits)

lemma and_then_ok:
  "snd (and_then m f) = Inr y \<longleftrightarrow> (\<exists>x. snd m = Inr x \<and> snd (f x) = Inr y)"
  by (simp add: snd_and_then bind_res_Inr)

lemma and_then_trace:
  "snd m = Inr x \<Longrightarrow> fst (and_then m f) = fst m @ fst (f x)"
  by (simp add: fst_and_then)

lemma lift_simps [simp]: "fst (lift r) = []" "snd (lift r) = r"
  by (simp_all add: lift_def)

lemma and_then_lift [simp]: "and_then (lift (Inr x)) f = f x" "and_then (lift (Inl e)) f = lift (Inl e)"
  by (simp_all add: lift_def and_then_def)

lemma emit_simps [simp]: "fst (emit e) = [e]" "snd (emit e) = Inr ()"
  by (simp_all add: emit_def)

lemma attempt_simps [simp]:
  "fst (attempt e r) = [e]" "snd (attempt e r) = Inr u \<longleftrightarrow> r = None"
  "snd (attempt e r) = Inl err \<longleftrightarrow> r = Some err"
  by (auto simp: attempt_def split: option.splits)

lemma map_run_err_simps [simp]:
  "fst (map_run_err g m) = fst m" "snd (map_run_err g m) = Inr x \<longleftrightarrow> snd m = Inr x"
  "snd (map_run_err g m) = Inl e \<longleftrightarrow> (\<exists>e'. snd m = Inl e' \<and> e = g e')"
  by (auto simp: map_run_err_def split: sum.splits)

lemma map_effects_simps [simp]:
  "fst (map_effects g m) = map g (fst m)" "snd (map_effects g m) = snd m"
  by (simp_all add: map_effects_def)

lemma run_all_and_then [inv_intros]:
  "run_all P m \<Longrightarrow> (\<And>x. snd m = Inr x \<Longrightarrow> run_all P (f x)) \<Longrightarrow> run_all P (and_then m f)"
  by (auto simp: run_all_def fst_and_then split: sum.splits)

lemma run_all_lift [inv_intros]: "run_all P (lift r)"
  by (simp add: run_all_def)

lemma run_all_emit [simp]: "run_all P (emit e) = P e"
  by (simp add: run_all_def)

lemma run_all_attempt [simp]: "run_all P (attempt e r) = P e"
  by (simp add: run_all_def)

lemma run_all_map_run_err [simp]: "run_all P (map_run_err g m) = run_all P m"
  by (simp add: run_all_def)

lemma run_all_map_effects [simp]: "run_all P (map_effects g m) = run_all (\<lambda>x. P (g x)) m"
  by (simp add: run_all_def list.pred_map comp_def)

lemma run_all_True [simp]: "run_all (\<lambda>e. True) m"
  by (simp add: run_all_def list_all_iff)

lemma and_then_step:
  "snd m = Inr x \<Longrightarrow> fst (and_then m f) = fst m @ fst (f x)"
  "snd m = Inr x \<Longrightarrow> snd (and_then m f) = snd (f x)"
  by (simp_all add: fst_and_then snd_and_then)

lemma run_all_pair [simp]: "run_all P (es, r) = list_all P es"
  by (simp add: run_all_def)

lemma run_all_mono: "run_all P m \<Longrightarrow> (\<And>e. P e \<Longrightarrow> Q e) \<Longrightarrow> run_all Q m"
  unfolding run_all_def by (erule list.pred_mono_strong) blast

end
