(* ===== verification/Registry_State.thy ===== *)
theory Registry_State
  imports Default_Registry "HOL-Library.AList"
begin

section \<open>What the registry holds\<close>

text \<open>
  \<^verbatim>\<open>internal/reconciler/published.go\<close> and \<^verbatim>\<open>digesttag.go\<close>. The registry client is a record of
  the answers it gives during one pass, by reference; writes, accepted or not, are collected as a
  trace of tag and digest, in order. A reference is its text, and whether the client's parser accepts it is part of
  the record.
\<close>

record registry =
  rg_ref_ok :: "string \<Rightarrow> bool"
  rg_digest_ok :: "string \<Rightarrow> bool"
  rg_tag_ok :: "string \<Rightarrow> bool"
  rg_head :: "string \<Rightarrow> string res"
  rg_get :: "string \<Rightarrow> string res"
  rg_pull :: "string \<Rightarrow> error option"
  rg_put_tag :: "string \<Rightarrow> string \<Rightarrow> error option"
  rg_referrers :: "string \<Rightarrow> string list res res"

type_synonym writes = "(string \<times> string) list"

definition tag_ref :: "string \<Rightarrow> string \<Rightarrow> string" where
  "tag_ref repo t = repo @ '':'' @ t"

definition digest_ref_of :: "string \<Rightarrow> string \<Rightarrow> string" where
  "digest_ref_of repo d = repo @ ''@'' @ d"

subsection \<open>Published content\<close>

record published =
  pb_tags :: "(string \<times> string) list"
  pb_wanted :: nat
  pb_digest :: string

definition matches :: "published \<Rightarrow> string \<Rightarrow> bool" where
  "matches p digest =
     (if digest = [] \<or> pb_digest p \<noteq> digest then False
      else if list_ex (\<lambda>tc. snd tc \<noteq> digest) (pb_tags p) then False
      else length (pb_tags p) = pb_wanted p)"

text \<open>The first conflicting tag with what it holds; an empty tag is none.\<close>

fun conflicts :: "published \<Rightarrow> string list \<Rightarrow> string \<Rightarrow> string \<times> string" where
  "conflicts p [] digest = ([], [])"
| "conflicts p (t # ts) digest =
     (case map_of (pb_tags p) t of
        Some cur \<Rightarrow> if cur \<noteq> digest then (t, cur) else conflicts p ts digest
      | None \<Rightarrow> conflicts p ts digest)"

fun head_tags ::
    "registry \<Rightarrow> string \<Rightarrow> string list \<Rightarrow> (string \<times> string) list \<Rightarrow> (string \<times> string) list res" where
  "head_tags reg repo [] acc = Inr acc"
| "head_tags reg repo (t # ts) acc =
     (if \<not> rg_ref_ok reg (tag_ref repo t) then Inl (terminal (''invalid reference '' @ tag_ref repo t))
      else (case rg_head reg (tag_ref repo t) of
          Inr d \<Rightarrow> head_tags reg repo ts (AList.update t d acc)
        | Inl e \<Rightarrow> head_tags reg repo ts acc))"

definition resolve_published ::
    "registry \<Rightarrow> string \<Rightarrow> string list \<Rightarrow> artifact option \<Rightarrow> published res" where
  "resolve_published reg repo tags prev =
     (case head_tags reg repo tags [] of
        Inl e \<Rightarrow> Inl e
      | Inr m \<Rightarrow> Inr
          \<lparr>pb_tags = m, pb_wanted = length tags,
           pb_digest =
             (case prev of
                None \<Rightarrow> []
              | Some a \<Rightarrow>
                  if ar_digest a \<noteq> [] \<and> rg_ref_ok reg (digest_ref_of repo (ar_digest a)) \<and>
                     \<not> isl (rg_head reg (digest_ref_of repo (ar_digest a)))
                  then ar_digest a else [])\<rparr>)"

subsection \<open>The digest's own tag\<close>

definition digest_tag :: "string \<Rightarrow> string" where
  "digest_tag digest =
     ''digest-'' @ (case cut (CHR '':'') digest of None \<Rightarrow> digest | Some (_, hex) \<Rightarrow> hex)"

definition publish_tags :: "string list \<Rightarrow> string \<Rightarrow> string list" where
  "publish_tags tags digest = filter (\<lambda>t. t \<noteq> digest_tag digest) tags @ [digest_tag digest]"

definition has_digest_tag :: "string list \<Rightarrow> string \<Rightarrow> bool" where
  "has_digest_tag tags digest =
     list_ex (\<lambda>t. t = digest_tag digest \<or> has_suffix t ('':'' @ digest_tag digest)) tags"

definition apply_digest_tag :: "registry \<Rightarrow> string \<Rightarrow> string \<Rightarrow> writes \<times> error option" where
  "apply_digest_tag reg repo digest =
     (if \<not> rg_digest_ok reg (digest_ref_of repo digest) then ([], Some (terminal (''invalid reference '' @ digest_ref_of repo digest)))
      else (case rg_get reg (digest_ref_of repo digest) of
          Inl e \<Rightarrow> ([], Some e)
        | Inr desc \<Rightarrow>
            let t = tag_ref repo (digest_tag digest) in
            if \<not> rg_tag_ok reg t then ([], Some (terminal (''invalid tag for '' @ digest)))
            else (case rg_put_tag reg t desc of
                Some e \<Rightarrow> ([(t, desc)], Some (Wrap (''tagging '' @ digest @ '' as '' @ digest_tag digest) e))
              | None \<Rightarrow> ([(t, desc)], None))))"

fun apply_digest_tags :: "registry \<Rightarrow> string \<Rightarrow> string list \<Rightarrow> writes \<times> error option" where
  "apply_digest_tags reg repo [] = ([], None)"
| "apply_digest_tags reg repo (d # ds) =
     (case apply_digest_tag reg repo d of
        (w, Some e) \<Rightarrow>
          if \<not> is_not_found e then (w, Some e)
          else (case apply_digest_tags reg repo ds of (ws, r) \<Rightarrow> (w @ ws, r))
      | (w, None) \<Rightarrow> (case apply_digest_tags reg repo ds of (ws, r) \<Rightarrow> (w @ ws, r)))"

definition apply_digest_tag_with_referrers ::
    "registry \<Rightarrow> string \<Rightarrow> string \<Rightarrow> writes \<times> error option" where
  "apply_digest_tag_with_referrers reg repo digest =
     (case apply_digest_tag reg repo digest of
        (w, Some e) \<Rightarrow> (w, Some e)
      | (w, None) \<Rightarrow>
          (case rg_referrers reg (digest_ref_of repo digest) of
             Inl e \<Rightarrow> (w, Some (Wrap (''listing referrers of '' @ digest) e))
           | Inr (Inl e) \<Rightarrow> (w, Some (Wrap (''reading referrers of '' @ digest) e))
           | Inr (Inr ds) \<Rightarrow>
               (case apply_digest_tags reg repo ds of (ws, r) \<Rightarrow> (w @ ws, r))))"

definition needs_digest_tag :: "build_record \<Rightarrow> bool" where
  "needs_digest_tag rec \<longleftrightarrow>
     br_digest rec \<noteq> [] \<and> br_lost rec = None \<and> \<not> has_digest_tag (br_tags rec) (br_digest rec)"

type_synonym outcomes = "string \<rightharpoonup> bool"

definition record_outcome :: "outcomes \<Rightarrow> string \<Rightarrow> error option \<Rightarrow> outcomes" where
  "record_outcome out digest err =
     (case err of
        None \<Rightarrow> out(digest \<mapsto> True)
      | Some e \<Rightarrow> if is_not_found e then out(digest \<mapsto> False) else out)"

definition tagged_outcome :: "outcomes \<Rightarrow> string \<Rightarrow> bool" where
  "tagged_outcome out digest = (case out digest of Some b \<Rightarrow> b | None \<Rightarrow> False)"

definition mark_record ::
    "outcomes \<Rightarrow> artifact option \<Rightarrow> (string \<Rightarrow> string) \<Rightarrow> int \<Rightarrow> build_record \<Rightarrow> build_record" where
  "mark_record out current tag_for now rec =
     (case out (br_digest rec) of
        None \<Rightarrow> rec
      | Some tagged \<Rightarrow>
          if \<not> needs_digest_tag rec then rec
          else if tagged then rec\<lparr>br_tags := br_tags rec @ [tag_for (br_digest rec)]\<rparr>
          else (case current of
              None \<Rightarrow> rec\<lparr>br_lost := Some now\<rparr>
            | Some a \<Rightarrow>
                if ar_digest a \<noteq> br_digest rec then rec\<lparr>br_lost := Some now\<rparr> else rec))"

definition mark_history ::
    "outcomes \<Rightarrow> build_record list \<Rightarrow> artifact option \<Rightarrow> (string \<Rightarrow> string) \<Rightarrow> int \<Rightarrow> build_record list" where
  "mark_history out history current tag_for now = map (mark_record out current tag_for now) history"

subsection \<open>Published content against the registry\<close>

lemma head_tags_map:
  "head_tags reg repo ts acc = Inr m \<Longrightarrow>
   map_of m t = (case (if t \<in> set ts then rg_head reg (tag_ref repo t) else Inl (Msg [])) of
      Inr d \<Rightarrow> Some d | Inl e \<Rightarrow> map_of acc t)"
proof (induction ts arbitrary: acc)
  case (Cons x xs)
  show ?case
  proof (cases "rg_head reg (tag_ref repo x)")
    case (Inl e)
    then have "head_tags reg repo xs acc = Inr m" using Cons.prems by (auto split: if_splits)
    from Cons.IH[OF this] Inl show ?thesis by auto
  next
    case (Inr d)
    then have "head_tags reg repo xs (AList.update x d acc) = Inr m"
      using Cons.prems by (auto split: if_splits)
    from Cons.IH[OF this] Inr show ?thesis
      by (auto simp: AList.update_conv' split: sum.splits)
  qed
qed simp

lemma head_tags_distinct:
  "head_tags reg repo ts acc = Inr m \<Longrightarrow> distinct (map fst acc) \<Longrightarrow> distinct (map fst m)"
  by (induction ts arbitrary: acc) (auto split: if_splits sum.splits simp: AList.distinct_update)

lemma resolve_published_tags:
  assumes "resolve_published reg repo ts prev = Inr p"
  shows "map_of (pb_tags p) t = Some d \<longleftrightarrow> t \<in> set ts \<and> rg_head reg (tag_ref repo t) = Inr d"
    and "distinct (map fst (pb_tags p))" and "pb_wanted p = length ts"
proof -
  obtain m where m: "head_tags reg repo ts [] = Inr m" "pb_tags p = m" "pb_wanted p = length ts"
    using assms by (auto simp: resolve_published_def split: sum.splits)
  show "map_of (pb_tags p) t = Some d \<longleftrightarrow> t \<in> set ts \<and> rg_head reg (tag_ref repo t) = Inr d"
    using head_tags_map[OF m(1), of t] m(2) by (auto split: sum.splits if_splits)
  show "distinct (map fst (pb_tags p))" using head_tags_distinct[OF m(1)] m(2) by simp
  show "pb_wanted p = length ts" by (rule m(3))
qed

lemma conflicts_spec:
  "conflicts p ts d = (t, c) \<Longrightarrow> t \<noteq> [] \<Longrightarrow>
   t \<in> set ts \<and> map_of (pb_tags p) t = Some c \<and> c \<noteq> d"
  by (induction ts) (auto split: option.splits if_splits)

lemma no_conflict_spec:
  "fst (conflicts p ts d) = [] \<Longrightarrow> [] \<notin> set ts \<Longrightarrow>
   \<forall>t \<in> set ts. \<forall>c. map_of (pb_tags p) t = Some c \<longrightarrow> c = d"
  by (induction ts) (auto split: option.splits if_splits)

lemma all_tags_present:
  assumes "distinct (map fst m)" "distinct ts" "set (map fst m) \<subseteq> set ts"
  shows "length m = length ts \<longleftrightarrow> set (map fst m) = set ts"
proof -
  have "length m = card (set (map fst m))" "length ts = card (set ts)"
    using assms(1,2) distinct_card by fastforce+
  then show ?thesis using assms(3) by (metis List.finite_set card_subset_eq)
qed

lemma matches_all:
  assumes r: "resolve_published reg repo ts prev = Inr p" and ts: "distinct ts"
    and m: "matches p d" and t: "t \<in> set ts"
  shows "rg_head reg (tag_ref repo t) = Inr d"
proof -
  note tg = resolve_published_tags[OF r]
  have mem: "map_of (pb_tags p) (fst x) = Some (snd x)" if "x \<in> set (pb_tags p)" for x
    using that tg(2) by (simp add: map_of_eq_Some_iff)
  have "set (map fst (pb_tags p)) \<subseteq> set ts" using mem tg(1) by fastforce
  moreover have l: "\<not> list_ex (\<lambda>tc. snd tc \<noteq> d) (pb_tags p)" "length (pb_tags p) = length ts"
    using m tg(3) by (auto simp: matches_def split: if_splits)
  ultimately have "set (map fst (pb_tags p)) = set ts"
    using all_tags_present[OF tg(2) ts] by blast
  then have "t \<in> fst ` set (pb_tags p)" using t by simp
  then obtain x where x: "x \<in> set (pb_tags p)" "fst x = t" by blast
  moreover have "snd x = d" using l(1) x(1) by (auto simp: list_ex_iff)
  ultimately show ?thesis using mem[OF x(1)] tg(1) by simp
qed

text \<open>
  What is reported as published is what the registry answers: a digest matches only
  when status recorded it, its own reference still resolves and every wanted tag resolves to it; a
  reported conflict is a wanted tag that resolves to something else; and without one, every wanted
  tag that exists already has the digest.
\<close>

theorem published_spec:
  assumes r: "resolve_published reg repo ts prev = Inr p" and ts: "distinct ts" "[] \<notin> set ts"
  shows "(matches p d \<longleftrightarrow>
      d \<noteq> [] \<and> (\<exists>a. prev = Some a \<and> ar_digest a = d) \<and> rg_ref_ok reg (digest_ref_of repo d) \<and>
      \<not> isl (rg_head reg (digest_ref_of repo d)) \<and>
      (\<forall>t \<in> set ts. rg_head reg (tag_ref repo t) = Inr d)) \<and>
    (conflicts p ts d = (t, c) \<and> t \<noteq> [] \<longrightarrow>
      t \<in> set ts \<and> rg_head reg (tag_ref repo t) = Inr c \<and> c \<noteq> d) \<and>
    (fst (conflicts p ts d) = [] \<longrightarrow>
      (\<forall>t \<in> set ts. \<forall>c. rg_head reg (tag_ref repo t) = Inr c \<longrightarrow> c = d))"
proof (intro conjI)
  note tg = resolve_published_tags[OF r]
  have mem: "(t, c) \<in> set (pb_tags p) \<longleftrightarrow> t \<in> set ts \<and> rg_head reg (tag_ref repo t) = Inr c" for t c
    using tg(1)[of t c] tg(2) by (metis map_of_eq_Some_iff)
  have sub: "set (map fst (pb_tags p)) \<subseteq> set ts" using mem by auto
  have dg: "pb_digest p = d \<and> d \<noteq> [] \<longleftrightarrow>
      d \<noteq> [] \<and> (\<exists>a. prev = Some a \<and> ar_digest a = d) \<and> rg_ref_ok reg (digest_ref_of repo d) \<and>
      \<not> isl (rg_head reg (digest_ref_of repo d))"
    using r by (auto simp: resolve_published_def split: sum.splits option.splits if_splits)
  have all: "\<not> list_ex (\<lambda>tc. snd tc \<noteq> d) (pb_tags p) \<and> length (pb_tags p) = pb_wanted p \<longleftrightarrow>
      (\<forall>t \<in> set ts. rg_head reg (tag_ref repo t) = Inr d)"
  proof
    assume l: "\<not> list_ex (\<lambda>tc. snd tc \<noteq> d) (pb_tags p) \<and> length (pb_tags p) = pb_wanted p"
    then have s: "set (map fst (pb_tags p)) = set ts"
      using all_tags_present[OF tg(2) ts(1) sub] tg(3) by simp
    show "\<forall>t \<in> set ts. rg_head reg (tag_ref repo t) = Inr d"
    proof
      fix t assume "t \<in> set ts"
      then obtain c where c: "(t, c) \<in> set (pb_tags p)" using s by force
      moreover have "c = d" using l c by (fastforce simp: list_ex_iff)
      ultimately show "rg_head reg (tag_ref repo t) = Inr d" using mem by simp
    qed
  next
    assume a: "\<forall>t \<in> set ts. rg_head reg (tag_ref repo t) = Inr d"
    have "t \<in> set (map fst (pb_tags p))" if "t \<in> set ts" for t
    proof -
      have "(t, d) \<in> set (pb_tags p)" using that a mem by blast
      then show ?thesis by (simp add: rev_image_eqI)
    qed
    then have "set ts \<subseteq> set (map fst (pb_tags p))" by blast
    with sub have "length (pb_tags p) = pb_wanted p"
      using all_tags_present[OF tg(2) ts(1) sub] tg(3) by simp
    moreover have "snd tc = d" if "tc \<in> set (pb_tags p)" for tc
      using that mem[of "fst tc" "snd tc"] a by (metis prod.collapse sum.inject(2))
    ultimately show "\<not> list_ex (\<lambda>tc. snd tc \<noteq> d) (pb_tags p) \<and> length (pb_tags p) = pb_wanted p"
      by (simp add: list_ex_iff)
  qed
  show "matches p d \<longleftrightarrow>
      d \<noteq> [] \<and> (\<exists>a. prev = Some a \<and> ar_digest a = d) \<and> rg_ref_ok reg (digest_ref_of repo d) \<and>
      \<not> isl (rg_head reg (digest_ref_of repo d)) \<and>
      (\<forall>t \<in> set ts. rg_head reg (tag_ref repo t) = Inr d)"
  proof -
    have "matches p d \<longleftrightarrow> (pb_digest p = d \<and> d \<noteq> []) \<and>
        (\<not> list_ex (\<lambda>tc. snd tc \<noteq> d) (pb_tags p) \<and> length (pb_tags p) = pb_wanted p)"
      unfolding matches_def by (simp split: if_split)
    then show ?thesis unfolding dg all by blast
  qed
  show "conflicts p ts d = (t, c) \<and> t \<noteq> [] \<longrightarrow>
      t \<in> set ts \<and> rg_head reg (tag_ref repo t) = Inr c \<and> c \<noteq> d"
    using conflicts_spec[of p ts d t c] tg(1)[of t c] by blast
  show "fst (conflicts p ts d) = [] \<longrightarrow>
      (\<forall>t \<in> set ts. \<forall>c. rg_head reg (tag_ref repo t) = Inr c \<longrightarrow> c = d)"
    using no_conflict_spec[of p ts d] ts(2) tg(1) by blast
qed

text \<open>A registry for concrete inputs: it accepts every reference and holds the given tags.\<close>

definition tag_registry :: "(string \<times> string) list \<Rightarrow> registry" where
  "tag_registry tags =
     \<lparr>rg_ref_ok = (\<lambda>r. True), rg_digest_ok = (\<lambda>r. True), rg_tag_ok = (\<lambda>r. True),
      rg_head = (\<lambda>r. case map_of tags r of Some d \<Rightarrow> Inr d | None \<Rightarrow> Inl (HTTPStatus 404)),
      rg_get = (\<lambda>r. case map_of tags r of Some d \<Rightarrow> Inr d | None \<Rightarrow> Inl (HTTPStatus 404)),
      rg_pull = (\<lambda>r. case map_of tags r of Some d \<Rightarrow> None | None \<Rightarrow> Some (HTTPStatus 404)),
      rg_put_tag = (\<lambda>r d. None), rg_referrers = (\<lambda>r. Inr (Inr []))\<rparr>"

definition sample_artifact :: "string \<Rightarrow> string list \<Rightarrow> artifact" where
  "sample_artifact d tags =
     \<lparr>ar_digest = d, ar_revision = d, ar_ref = ''r@'' @ d, ar_tags = tags, ar_updated = None\<rparr>"

theorem published_spec_witness:
  "matches \<lparr>pb_tags = [(''v1'', ''sha256:aa'')], pb_wanted = 1, pb_digest = ''sha256:aa''\<rparr> ''sha256:aa'' \<and>
   rg_head (tag_registry [(''r:v1'', ''sha256:aa''), (''r@sha256:aa'', ''sha256:aa'')]) (tag_ref ''r'' ''v1'') \<noteq>
     Inr ''sha256:bb''"
proof -
  let ?reg = "tag_registry [(''r:v1'', ''sha256:aa''), (''r@sha256:aa'', ''sha256:aa'')]"
  let ?p = "\<lparr>pb_tags = [(''v1'', ''sha256:aa'')], pb_wanted = 1, pb_digest = ''sha256:aa''\<rparr>"
  have r: "resolve_published ?reg ''r'' [''v1''] (Some (sample_artifact ''sha256:aa'' [])) = Inr ?p"
    by code_simp
  have d: "distinct [''v1'']" "[] \<notin> set [''v1'']" by simp_all
  have "matches ?p ''sha256:aa''"
    by (rule iffD2[OF conjunct1[OF published_spec[OF r d]]])
      (simp add: sample_artifact_def tag_registry_def digest_ref_of_def tag_ref_def)
  moreover have "rg_head ?reg (tag_ref ''r'' ''v1'') \<noteq> Inr ''sha256:bb''"
    by (simp add: tag_registry_def tag_ref_def)
  ultimately show ?thesis by blast
qed

subsection \<open>The digest's own tag\<close>

lemma digest_tag_sha: "digest_tag (''sha256:'' @ h) = ''digest-'' @ h"
  by (simp add: digest_tag_def)

lemma has_publish_tags: "has_digest_tag (publish_tags tags d) d"
  by (simp add: has_digest_tag_def publish_tags_def)

lemma contains_Cons_other: "c \<noteq> d \<Longrightarrow> contains (c # s) (d # p) = contains s (d # p)"
  by (auto simp: has_prefix_iff)

lemma contains_free: "d \<notin> set s \<Longrightarrow> \<not> contains s (d # p)"
  by (induction s) (auto simp: has_prefix_iff)

text \<open>
  The tags of a publish are the spec's, in order and with the first one first, and
  then the digest's own tag once; a list so made is recognised as carrying it; different digests get
  different own tags; and an own tag is a valid tag that never contains the referrers' scheme.
\<close>

theorem publish_tags_spec:
  assumes hex: "list_all (\<lambda>c. is_digit c \<or> (97 \<le> (of_char c :: nat) \<and> of_char c \<le> (102 :: nat))) h"
    and d: "d = ''sha256:'' @ h"
  shows "publish_tags tags d = filter (\<lambda>t. t \<noteq> ''digest-'' @ h) tags @ [''digest-'' @ h] \<and>
    has_digest_tag (publish_tags tags d) d \<and>
    (tags \<noteq> [] \<and> hd tags \<noteq> digest_tag d \<longrightarrow> hd (publish_tags tags d) = hd tags) \<and>
    (digest_tag d = digest_tag (''sha256:'' @ h') \<longrightarrow> h = h') \<and>
    tag_pattern (digest_tag d) \<and> \<not> contains (digest_tag d) ''sha256-''"
proof (intro conjI impI)
  show "publish_tags tags d = filter (\<lambda>t. t \<noteq> ''digest-'' @ h) tags @ [''digest-'' @ h]"
    unfolding publish_tags_def d digest_tag_sha ..
  show "has_digest_tag (publish_tags tags d) d" by (rule has_publish_tags)
  assume "tags \<noteq> [] \<and> hd tags \<noteq> digest_tag d"
  then show "hd (publish_tags tags d) = hd tags" by (cases tags) (simp_all add: publish_tags_def)
next
  assume "digest_tag d = digest_tag (''sha256:'' @ h')"
  then show "h = h'" unfolding d digest_tag_sha by simp
next
  have "list_all tag_char h"
    using hex by (auto simp: list_all_iff tag_char_def tag_start_def is_digit_def Let_def)
  then show "tag_pattern (digest_tag d)"
    unfolding d digest_tag_sha by (simp add: tag_pattern_def tag_start_def tag_char_def)
  have "CHR ''s'' \<notin> set h" using hex by (auto simp: list_all_iff is_digit_def)
  then have "\<not> contains h (CHR ''s'' # ''ha256-'')" by (rule contains_free)
  then have "\<not> contains (''digest-'' @ h) ''sha256-''" by (simp add: has_prefix_def)
  then show "\<not> contains (digest_tag d) ''sha256-''" unfolding d digest_tag_sha .
qed

theorem publish_tags_spec_witness:
  "publish_tags [''v1'', ''main''] ''sha256:0af9'' = [''v1'', ''main'', ''digest-0af9''] \<and>
   hd (publish_tags [''v1'', ''main''] ''sha256:0af9'') = ''v1'' \<and> tag_pattern ''digest-0af9''"
proof -
  have h: "list_all (\<lambda>c. is_digit c \<or> (97 \<le> (of_char c :: nat) \<and> of_char c \<le> (102 :: nat))) ''0af9''"
    by (simp add: is_digit_def)
  have d: "''sha256:0af9'' = ''sha256:'' @ ''0af9''" by simp
  from publish_tags_spec[OF h d, of "[''v1'', ''main'']"] show ?thesis
    by (simp add: digest_tag_def)
qed

end
