(* ===== verification/Composition_Inputs.thy ===== *)
theory Composition_Inputs
  imports Recon Sources Effects Registry_State "HOL-Library.Sublist"
begin

section \<open>From a composition's spec to what is assembled\<close>

text \<open>
  \<^verbatim>\<open>internal/controller/resolve.go\<close> and \<^verbatim>\<open>platforms.go\<close>, with the composition's spec types of
  \<^verbatim>\<open>imagecomposition_types.go\<close>: layers become assembly inputs, platforms are parsed, images are
  pulled and the artifact is assembled. The recorder's events are the effects of a run.
\<close>

subsection \<open>The spec\<close>

record fetch_source =
  ft_url :: string
  ft_digest :: string
  ft_unpack :: string
  ft_subpath :: string
  ft_strip :: int

record image_source =
  is_ref :: string
  is_subpath :: string
  is_secret :: "string option"

record base_image =
  ba_ref :: string
  ba_image :: string
  ba_digest :: string
  ba_secret :: "string option"

record config_map_source =
  cs_name :: string
  cs_optional :: bool

record layer_spec =
  ly_name :: string
  ly_fetch :: "fetch_source option"
  ly_image :: "image_source option"
  ly_config_map :: "config_map_source option"
  ly_source_ref :: "source_ref option"
  ly_remove :: "string list"
  ly_to :: string
  ly_owner :: "(int \<times> int) option"
  ly_mode :: "(string \<times> string) option"

record image_config =
  ig_inherit :: bool
  ig_labels :: "(string \<times> string) list"
  ig_env :: "string list"
  ig_entrypoint :: "string list"
  ig_cmd :: "string list"
  ig_user :: string
  ig_workdir :: string
  ig_ports :: "string list"
  ig_volumes :: "string list"
  ig_stop :: string

record composition_spec =
  sc_interval :: "int option"
  sc_suspend :: bool
  sc_base :: "base_image option"
  sc_platforms :: "string list"
  sc_layers :: "layer_spec list"
  sc_config :: "image_config option"
  sc_push :: "push option"

definition base_repository :: "base_image \<Rightarrow> string \<times> string" where
  "base_repository b = (if ba_ref b \<noteq> [] then split_pinned_ref (ba_ref b) else (ba_image b, ba_digest b))"

definition image_repository :: "image_source \<Rightarrow> string \<times> string" where
  "image_repository i = split_pinned_ref (is_ref i)"

definition config_from :: "image_config option \<Rightarrow> config" where
  "config_from c =
     (case c of
        None \<Rightarrow> \<lparr>cfg_inherit = False, cfg_labels = [], cfg_env = [], cfg_entrypoint = [], cfg_cmd = [],
          cfg_user = [], cfg_workdir = [], cfg_ports = [], cfg_volumes = [], cfg_stop = []\<rparr>
      | Some g \<Rightarrow> \<lparr>cfg_inherit = ig_inherit g, cfg_labels = ig_labels g, cfg_env = ig_env g,
          cfg_entrypoint = ig_entrypoint g, cfg_cmd = ig_cmd g, cfg_user = ig_user g,
          cfg_workdir = ig_workdir g, cfg_ports = ig_ports g, cfg_volumes = ig_volumes g,
          cfg_stop = ig_stop g\<rparr>)"

definition or_default :: "string \<Rightarrow> string \<Rightarrow> string" where
  "or_default v def = (if v = [] then def else v)"

subsection \<open>Sources\<close>

record source_env =
  sv_flux :: "string \<Rightarrow> string \<Rightarrow> string \<Rightarrow> string \<Rightarrow> flux_get"
  sv_config_maps :: config_map_env
  sv_require_pinned :: bool

fun is_source_missing :: "error \<Rightarrow> bool" where
  "is_source_missing (NotFoundError w) = True"
| "is_source_missing e = False"

fun is_source_not_ready :: "error \<Rightarrow> bool" where
  "is_source_not_ready (NotReadyError w y) = True"
| "is_source_not_ready e = False"

definition warn_unpinned :: "push option \<Rightarrow> source_ref \<Rightarrow> event list" where
  "warn_unpinned p ref =
     (if conflict_policy p \<noteq> conflict_fail then []
      else (case effective_tags (get_tags p) (get_ref p) of
          Inl e \<Rightarrow> []
        | Inr tags \<Rightarrow>
            if tags = [] then []
            else [mk_event True reason_unpinned_source
              (''layer source '' @ sr_kind ref @ ''/'' @ sr_name ref @ '' names no revision while '' @ join '','' tags @
               '' publishes tags under onConflict: '' @ conflict_fail @
               ''. The tag is fixed and the source is not, so a build that starts before the source catches up publishes the previous revision under it and the tag cannot be corrected afterwards. Add `revision:` to this sourceRef, or use a conflict policy that tolerates a moving source.'')]))"

definition flux_ref :: "string \<Rightarrow> string \<Rightarrow> string \<Rightarrow> string" where
  "flux_ref kind ns name = kind @ '' '' @ ns @ ''/'' @ name"

definition triage_source :: "flux_artifact res \<Rightarrow> string \<Rightarrow> source_ref \<Rightarrow> flux_artifact res" where
  "triage_source r ns ref =
     (case r of
        Inl e \<Rightarrow>
          if err_any is_source_missing e then Inl (pending (''source '' @ flux_ref (sr_kind ref) ns (sr_name ref) @ '' not found yet''))
          else if err_any is_source_not_ready e then Inl (pending (err_text e))
          else Inl e
      | Inr art \<Rightarrow>
          if \<not> revision_matches (sr_revision ref) (fa_revision art)
          then Inl (pending (''source '' @ sr_kind ref @ ''/'' @ sr_name ref @ '' is at revision '' @ quoted (fa_revision art) @
            '', waiting for '' @ quoted (sr_revision ref)))
          else Inr art)"

definition unpinned_refused :: "source_ref \<Rightarrow> error" where
  "unpinned_refused ref =
     terminal (''layer source '' @ sr_kind ref @ ''/'' @ sr_name ref @
       '' names no revision, and this controller runs with --require-pinned-sources: add `revision:` to pin what this layer consumes'')"

definition foreign_refused :: "source_ref \<Rightarrow> error" where
  "foreign_refused ref =
     terminal (''layer source '' @ sr_kind ref @ ''/'' @ sr_name ref @ '' is in namespace '' @ quoted (sr_namespace ref) @
       '': a source must be in the same namespace as the ImageComposition that consumes it'')"

definition resolve_flux_source ::
    "source_env \<Rightarrow> push option \<Rightarrow> string \<Rightarrow> source_ref \<Rightarrow> (event, flux_artifact) run" where
  "resolve_flux_source env p ns ref =
     (if sr_revision ref = [] \<and> sv_require_pinned env
      then lift (Inl (unpinned_refused ref))
      else
        ((if sr_revision ref = [] then warn_unpinned p ref else []),
         (if sr_namespace ref \<noteq> [] \<and> sr_namespace ref \<noteq> ns
          then Inl (foreign_refused ref)
          else triage_source
            (flux_source (sv_flux env (sr_kind ref) ns (sr_name ref)) (flux_ref (sr_kind ref) ns (sr_name ref)))
            ns ref)))"

subsection \<open>Inputs\<close>

definition parse_mode :: "string \<Rightarrow> string \<Rightarrow> string \<Rightarrow> int res" where
  "parse_mode layer which value =
     (if value = [] then Inr 0
      else (case parse_int 8 32 value of
          None \<Rightarrow> Inl (terminal (''layer '' @ quoted layer @ '': '' @ which @ '' mode '' @ quoted value @ '' is not octal''))
        | Some m \<Rightarrow> Inr m))"

definition blank_input :: "layer_spec \<Rightarrow> 'img layer_input" where
  "blank_input l =
     \<lparr>in_name = ly_name l, in_identity = [], in_url = [], in_path = [], in_image = None,
      in_images = None, in_digest = [], in_unpack = [], in_subpath = [], in_strip = 0,
      in_target = ly_to l, in_remove = [],
      in_uid = (case ly_owner l of None \<Rightarrow> 0 | Some (u, g) \<Rightarrow> u),
      in_gid = (case ly_owner l of None \<Rightarrow> 0 | Some (u, g) \<Rightarrow> g),
      in_file_mode = 0, in_dir_mode = 0\<rparr>"

definition with_modes :: "layer_spec \<Rightarrow> 'img layer_input \<Rightarrow> 'img layer_input res" where
  "with_modes l i =
     (case ly_mode l of
        None \<Rightarrow> Inr i
      | Some (f, d) \<Rightarrow>
          (case parse_mode (ly_name l) ''file'' f of
             Inl e \<Rightarrow> Inl e
           | Inr fm \<Rightarrow>
               (case parse_mode (ly_name l) ''dir'' d of
                  Inl e \<Rightarrow> Inl e
                | Inr dm \<Rightarrow> Inr (i\<lparr>in_file_mode := fm, in_dir_mode := dm\<rparr>))))"

definition fetch_input :: "fetch_source \<Rightarrow> 'img layer_input \<Rightarrow> 'img layer_input" where
  "fetch_input f i =
     i\<lparr>in_url := ft_url f, in_digest := ft_digest f, in_unpack := or_default (ft_unpack f) ''none'',
       in_subpath := ft_subpath f, in_strip := ft_strip f\<rparr>"

definition flux_input :: "source_ref \<Rightarrow> flux_artifact \<Rightarrow> 'img layer_input \<Rightarrow> 'img layer_input" where
  "flux_input ref art i =
     i\<lparr>in_url := fa_url art, in_digest := fa_digest art, in_identity := fa_revision art,
       in_unpack := ''tar.gz'', in_subpath := sr_subpath ref\<rparr>"

definition image_input :: "image_source \<Rightarrow> 'img layer_input \<Rightarrow> 'img layer_input" where
  "image_input src i =
     i\<lparr>in_url := fst (image_repository src), in_digest := snd (image_repository src),
       in_unpack := ''image'', in_subpath := is_subpath src\<rparr>"

definition config_map_input ::
    "source_env \<Rightarrow> string \<Rightarrow> config_map_source \<Rightarrow> 'img layer_input \<Rightarrow> 'img layer_input option res" where
  "config_map_input env ns cm i =
     (case config_map_layer (sv_config_maps env) (ns @ ''/'' @ cs_name cm) (cs_optional cm) of
        Inl e \<Rightarrow>
          if err_any is_source_missing e then Inl (pending (''layer '' @ quoted (in_name i) @ '': '' @ err_text e))
          else Inl (Wrap (''layer '' @ quoted (in_name i)) e)
      | Inr EmptyResolved \<Rightarrow> Inr None
      | Inr (Resolved path dg u) \<Rightarrow>
          Inr (Some (i\<lparr>in_digest := dg, in_path := path, in_unpack := ''tar.gz''\<rparr>)))"

text \<open>
  One layer: nothing when it is skipped, otherwise its input and, for an image, what to pull. The
  first source that is set decides.
\<close>

definition resolve_layer ::
    "source_env \<Rightarrow> push option \<Rightarrow> string \<Rightarrow> layer_spec \<Rightarrow>
     (event, ('img layer_input \<times> image_source option) option) run" where
  "resolve_layer env p ns l =
     and_then (lift (with_modes l (blank_input l))) (\<lambda>i.
     case ly_fetch l of
       Some f \<Rightarrow> lift (Inr (Some (fetch_input f i, None)))
     | None \<Rightarrow>
     (case ly_source_ref l of
        Some ref \<Rightarrow>
          and_then (resolve_flux_source env p ns ref) (\<lambda>art.
          lift (Inr (Some (flux_input ref art i, None))))
      | None \<Rightarrow>
     (case ly_config_map l of
        Some cm \<Rightarrow>
          and_then (lift (config_map_input env ns cm i)) (\<lambda>r.
          lift (Inr (case r of None \<Rightarrow> None | Some j \<Rightarrow> Some (j, None))))
      | None \<Rightarrow>
     (case ly_image l of
        Some src \<Rightarrow> lift (Inr (Some (image_input src i, Some src)))
      | None \<Rightarrow>
          if ly_remove l \<noteq> [] then lift (Inr (Some (i\<lparr>in_remove := ly_remove l\<rparr>, None)))
          else lift (Inl (terminal (''layer '' @ quoted (ly_name l) @ '': no supported source is set'')))))))"

type_synonym image_pulls = "nat \<rightharpoonup> image_source"

fun resolve_layers ::
    "source_env \<Rightarrow> push option \<Rightarrow> string \<Rightarrow> layer_spec list \<Rightarrow> 'img layer_input list \<Rightarrow> image_pulls \<Rightarrow>
     (event, 'img layer_input list \<times> image_pulls) run" where
  "resolve_layers env p ns [] inputs pulls = lift (Inr (inputs, pulls))"
| "resolve_layers env p ns (l # ls) inputs pulls =
     and_then (resolve_layer env p ns l) (\<lambda>r.
     case r of
       None \<Rightarrow> resolve_layers env p ns ls inputs pulls
     | Some (i, src) \<Rightarrow>
         resolve_layers env p ns ls (inputs @ [i])
           (case src of None \<Rightarrow> pulls | Some s \<Rightarrow> pulls(length inputs \<mapsto> s)))"

definition resolve_inputs ::
    "source_env \<Rightarrow> push option \<Rightarrow> string \<Rightarrow> layer_spec list \<Rightarrow>
     (event, 'img layer_input list \<times> image_pulls) run" where
  "resolve_inputs env p ns ls =
     and_then (resolve_layers env p ns ls [] Map.empty) (\<lambda>r.
     if fst r = [] then lift (Inl (terminal ''every layer resolved to nothing; there is no content to compose'')) else lift (Inr r))"

subsection \<open>Platforms and images\<close>

fun parse_declared :: "string list \<Rightarrow> string set \<Rightarrow> platform list res" where
  "parse_declared [] seen = Inr []"
| "parse_declared (s # ss) seen =
     (case parse_platform s of
        Inl e \<Rightarrow> Inl (terminal (''spec.platforms: '' @ err_text e))
      | Inr p \<Rightarrow>
          if platform_string p \<in> seen then Inl (terminal (''spec.platforms: '' @ platform_string p @ '' is listed twice''))
          else map_res (\<lambda>ps. p # ps) (parse_declared ss (insert (platform_string p) seen)))"

definition declared_platforms :: "composition_spec \<Rightarrow> platform list res" where
  "declared_platforms spec = parse_declared (sc_platforms spec) {}"

fun children_for :: "platform list \<Rightarrow> (string \<rightharpoonup> 'img) \<Rightarrow> (platform \<rightharpoonup> 'img) res" where
  "children_for [] by_key = Inr Map.empty"
| "children_for (p # ps) by_key =
     (case by_key (platform_string p) of
        None \<Rightarrow> Inl (terminal (''no '' @ platform_string p @ '' manifest''))
      | Some img \<Rightarrow>
          map_res (\<lambda>m x. if x = p then Some img else m x) (children_for ps by_key))"

fun is_bad_reference :: "error \<Rightarrow> bool" where
  "is_bad_reference (BadReference r) = True"
| "is_bad_reference e = False"

definition pull_failure :: "string \<Rightarrow> error \<Rightarrow> error" where
  "pull_failure what e =
     (if err_any is_bad_reference e then terminal (what @ '': '' @ err_text e) else Wrap what e)"

record ('img, 'l) compose_env =
  ce_sources :: source_env
  ce_secrets :: secret_env
  ce_images :: "'img image_registry"
  ce_content :: "'img content_env"
  ce_ops :: "('img, 'l) image_ops"
  ce_goarch :: string

definition pull_image_layer ::
    "('img, 'l) compose_env \<Rightarrow> string \<Rightarrow> platform list \<Rightarrow> 'img layer_input \<Rightarrow> image_source \<Rightarrow>
     'img layer_input res" where
  "pull_image_layer env ns declared i src =
     (case pull_options (ce_secrets env) ns (is_secret src) of
        Inl e \<Rightarrow> Inl (Wrap (''layer '' @ quoted (in_name i)) e)
      | Inr auth \<Rightarrow>
          (case pull_image_for (ce_images env) (in_url i) (in_digest i) declared of
             Inl e \<Rightarrow> Inl (pull_failure (''layer '' @ quoted (in_name i)) e)
           | Inr (Inl img) \<Rightarrow> Inr (i\<lparr>in_image := Some img\<rparr>)
           | Inr (Inr by_key) \<Rightarrow>
               (case children_for declared by_key of
                  Inl e \<Rightarrow> Inl (Wrap (''layer '' @ quoted (in_name i)) e)
                | Inr m \<Rightarrow> Inr (i\<lparr>in_image := None, in_images := Some m\<rparr>))))"

definition resolve_base ::
    "('img, 'l) compose_env \<Rightarrow> string \<Rightarrow> base_image option \<Rightarrow> platform list \<Rightarrow> 'img option res" where
  "resolve_base env ns base declared =
     (case base of
        None \<Rightarrow> Inr None
      | Some b \<Rightarrow>
          (case pull_options (ce_secrets env) ns (ba_secret b) of
             Inl e \<Rightarrow> Inl e
           | Inr auth \<Rightarrow>
               (case pull_image_for (ce_images env) (fst (base_repository b)) (snd (base_repository b)) declared of
                  Inl e \<Rightarrow> Inl (pull_failure ''base image'' e)
                | Inr (Inl img) \<Rightarrow> Inr (Some img)
                | Inr (Inr by_key) \<Rightarrow>
                    (case children_for declared by_key of
                       Inl e \<Rightarrow> Inl (Wrap ''base image'' e)
                     | Inr m \<Rightarrow> Inr (m (hd declared))))))"

definition resolve_bases ::
    "('img, 'l) compose_env \<Rightarrow> string \<Rightarrow> base_image option \<Rightarrow> platform list \<Rightarrow> (platform \<rightharpoonup> 'img) option res" where
  "resolve_bases env ns base plats =
     (case base of
        None \<Rightarrow> Inr None
      | Some b \<Rightarrow>
          (case pull_options (ce_secrets env) ns (ba_secret b) of
             Inl e \<Rightarrow> Inl e
           | Inr auth \<Rightarrow>
               (case pull_image_index (ce_images env) (fst (base_repository b)) (snd (base_repository b)) plats of
                  Inl e \<Rightarrow> Inl (pull_failure ''base image'' e)
                | Inr by_key \<Rightarrow>
                    (case children_for plats by_key of
                       Inl e \<Rightarrow> Inl (Wrap ''base image'' e)
                     | Inr m \<Rightarrow> Inr (Some m)))))"

text \<open>\<^verbatim>\<open>builtArtifact\<close>: one image, or an index over one child per platform.\<close>

datatype 'img built = SingleArtifact 'img | IndexArtifact "(platform \<times> 'img) list"

definition assembling :: "'a res \<Rightarrow> 'a res" where
  "assembling r = (case r of Inl e \<Rightarrow> Inl (terminal (''assembling: '' @ err_text e)) | Inr x \<Rightarrow> Inr x)"

definition assemble_artifact ::
    "('img, 'l) compose_env \<Rightarrow> string \<Rightarrow> base_image option \<Rightarrow> platform list \<Rightarrow> 'img layer_input list \<Rightarrow>
     config \<Rightarrow> 'img built res" where
  "assemble_artifact env ns base declared inputs cfg =
     (if length declared > 1 then
        (case resolve_bases env ns base declared of
           Inl e \<Rightarrow> Inl e
         | Inr bases \<Rightarrow>
             map_res IndexArtifact
               (assembling (assemble_index (ce_content env) (ce_ops env) bases inputs cfg declared)))
      else (case resolve_base env ns base declared of
          Inl e \<Rightarrow> Inl e
        | Inr b \<Rightarrow>
            (case declared of
               [p] \<Rightarrow>
                 map_res SingleArtifact
                   (assembling (assemble_as (ce_content env) (ce_ops env) b inputs cfg p))
             | _ \<Rightarrow>
                 map_res SingleArtifact
                   (assembling (assemble (ce_content env) (ce_ops env) (ce_goarch env) b inputs cfg)))))"

subsection \<open>Which sources a composition may consume\<close>

lemma pending_simps [simp]: "is_pending (pending m)" "\<not> is_terminal (pending m)"
  by (simp_all add: pending_def is_pending_def is_terminal_def)

lemma terminal_simps [simp]: "is_terminal (terminal m)" "\<not> is_pending (terminal m)"
  by (simp_all add: terminal_def is_pending_def is_terminal_def)

text \<open>
  Property C33. A Flux source is consumed only from the composition's own namespace, at the pinned
  revision, with a pin where the operator demands one, and current; a foreign namespace or a missing
  pin is refused for good whatever the cluster holds; and a source that is missing, superseded or at
  another revision is waited for, never refused.
\<close>

theorem flux_source_guard:
  "(snd (resolve_flux_source env p ns ref) = Inr art \<longrightarrow>
      (sr_namespace ref = [] \<or> sr_namespace ref = ns) \<and> (sv_require_pinned env \<longrightarrow> sr_revision ref \<noteq> []) \<and>
      revision_matches (sr_revision ref) (fa_revision art) \<and>
      flux_source (sv_flux env (sr_kind ref) ns (sr_name ref)) (flux_ref (sr_kind ref) ns (sr_name ref)) = Inr art) \<and>
   (sr_namespace ref \<noteq> [] \<and> sr_namespace ref \<noteq> ns \<or> sv_require_pinned env \<and> sr_revision ref = [] \<longrightarrow>
      (\<exists>e. is_terminal e \<and> (\<forall>flux. snd (resolve_flux_source (env\<lparr>sv_flux := flux\<rparr>) p ns ref) = Inl e))) \<and>
   ((sr_namespace ref = [] \<or> sr_namespace ref = ns) \<and> (sv_require_pinned env \<longrightarrow> sr_revision ref \<noteq> []) \<and>
    (case flux_source (sv_flux env (sr_kind ref) ns (sr_name ref)) (flux_ref (sr_kind ref) ns (sr_name ref)) of
       Inl e \<Rightarrow> err_any is_source_missing e \<or> err_any is_source_not_ready e
     | Inr art \<Rightarrow> \<not> revision_matches (sr_revision ref) (fa_revision art)) \<longrightarrow>
      (\<exists>e. snd (resolve_flux_source env p ns ref) = Inl e \<and> is_pending e \<and> \<not> is_terminal e))"
proof (intro conjI)
  let ?src = "flux_source (sv_flux env (sr_kind ref) ns (sr_name ref)) (flux_ref (sr_kind ref) ns (sr_name ref))"
  show "snd (resolve_flux_source env p ns ref) = Inr art \<longrightarrow>
      (sr_namespace ref = [] \<or> sr_namespace ref = ns) \<and> (sv_require_pinned env \<longrightarrow> sr_revision ref \<noteq> []) \<and>
      revision_matches (sr_revision ref) (fa_revision art) \<and> ?src = Inr art"
    by (auto simp: resolve_flux_source_def triage_source_def split: if_splits sum.splits)
  show "sr_namespace ref \<noteq> [] \<and> sr_namespace ref \<noteq> ns \<or> sv_require_pinned env \<and> sr_revision ref = [] \<longrightarrow>
      (\<exists>e. is_terminal e \<and> (\<forall>flux. snd (resolve_flux_source (env\<lparr>sv_flux := flux\<rparr>) p ns ref) = Inl e))"
  proof
    assume a: "sr_namespace ref \<noteq> [] \<and> sr_namespace ref \<noteq> ns \<or> sv_require_pinned env \<and> sr_revision ref = []"
    let ?e = "if sr_revision ref = [] \<and> sv_require_pinned env
        then unpinned_refused ref else foreign_refused ref"
    have "is_terminal ?e" by (simp add: unpinned_refused_def foreign_refused_def)
    moreover have "snd (resolve_flux_source (env\<lparr>sv_flux := flux\<rparr>) p ns ref) = Inl ?e" for flux
      using a by (auto simp: resolve_flux_source_def)
    ultimately show "\<exists>e. is_terminal e \<and> (\<forall>flux. snd (resolve_flux_source (env\<lparr>sv_flux := flux\<rparr>) p ns ref) = Inl e)"
      by blast
  qed
  show "(sr_namespace ref = [] \<or> sr_namespace ref = ns) \<and> (sv_require_pinned env \<longrightarrow> sr_revision ref \<noteq> []) \<and>
    (case ?src of Inl e \<Rightarrow> err_any is_source_missing e \<or> err_any is_source_not_ready e
     | Inr art \<Rightarrow> \<not> revision_matches (sr_revision ref) (fa_revision art)) \<longrightarrow>
      (\<exists>e. snd (resolve_flux_source env p ns ref) = Inl e \<and> is_pending e \<and> \<not> is_terminal e)"
    by (cases ?src) (auto simp: resolve_flux_source_def triage_source_def)
qed

definition sample_source :: "string \<Rightarrow> string \<Rightarrow> source_ref" where
  "sample_source ns revision =
     \<lparr>sr_kind = ''GitRepository'', sr_name = ''app'', sr_namespace = ns, sr_revision = revision, sr_subpath = []\<rparr>"

definition sample_sources :: source_env where
  "sample_sources =
     \<lparr>sv_flux = (\<lambda>k ns n gv. FluxFound (sample_flux 2)), sv_config_maps = sample_config_maps,
      sv_require_pinned = True\<rparr>"

theorem flux_source_guard_witness:
  "(\<exists>e. is_terminal e \<and> snd (resolve_flux_source sample_sources None ''team'' (sample_source ''other'' ''main'')) = Inl e) \<and>
   (\<exists>e. snd (resolve_flux_source sample_sources None ''team'' (sample_source [] ''v2'')) = Inl e \<and> is_pending e) \<and>
   revision_matches ''main'' ''main@sha1:1''"
proof (intro conjI)
  have u: "sample_sources\<lparr>sv_flux := sv_flux sample_sources\<rparr> = sample_sources" by simp
  have "sr_namespace (sample_source ''other'' ''main'') \<noteq> [] \<and> sr_namespace (sample_source ''other'' ''main'') \<noteq> ''team''"
    by (simp add: sample_source_def)
  then have "\<exists>e. is_terminal e \<and> (\<forall>flux. snd (resolve_flux_source (sample_sources\<lparr>sv_flux := flux\<rparr>) None ''team''
      (sample_source ''other'' ''main'')) = Inl e)"
    by (intro mp[OF conjunct1[OF conjunct2[OF flux_source_guard]]] disjI1)
  then show "\<exists>e. is_terminal e \<and> snd (resolve_flux_source sample_sources None ''team'' (sample_source ''other'' ''main'')) = Inl e"
    using u by metis
  have s: "flux_source (sv_flux sample_sources ''GitRepository'' ''team'' ''app'') r =
      Inr \<lparr>fa_url = ''http://x/a.tar.gz'', fa_digest = ''sha256:aa'', fa_revision = ''main@sha1:1''\<rparr>" for r
    by (simp add: sample_sources_def flux_source_def flux_group_versions_def sample_flux_def check_current_def ready_of_def)
  have "\<not> revision_matches ''v2'' ''main@sha1:1''" by code_simp
  then have "\<exists>e. snd (resolve_flux_source sample_sources None ''team'' (sample_source [] ''v2'')) = Inl e \<and>
      is_pending e \<and> \<not> is_terminal e"
    by (intro mp[OF conjunct2[OF conjunct2[OF flux_source_guard]]]) (simp add: sample_source_def s)
  then show "\<exists>e. snd (resolve_flux_source sample_sources None ''team'' (sample_source [] ''v2'')) = Inl e \<and> is_pending e"
    by blast
  have "snd (resolve_flux_source sample_sources None ''team'' (sample_source [] ''main'')) =
      Inr \<lparr>fa_url = ''http://x/a.tar.gz'', fa_digest = ''sha256:aa'', fa_revision = ''main@sha1:1''\<rparr>"
  proof -
    have "revision_matches ''main'' ''main@sha1:1''" by code_simp
    then show ?thesis by (simp add: resolve_flux_source_def triage_source_def sample_source_def s)
  qed
  then show "revision_matches ''main'' ''main@sha1:1''"
    using mp[OF conjunct1[OF flux_source_guard], of sample_sources None "''team''" "sample_source [] ''main''"]
    by (simp add: sample_source_def)
qed

subsection \<open>The order of the inputs\<close>

text \<open>What a layer's input has to do with the layer.\<close>

definition input_of :: "layer_spec \<Rightarrow> 'img layer_input \<Rightarrow> bool" where
  "input_of l i \<longleftrightarrow>
     in_name i = ly_name l \<and> in_target i = ly_to l \<and> in_image i = None \<and> in_images i = None \<and>
     (in_path i \<noteq> [] \<longrightarrow> ly_config_map l \<noteq> None) \<and> (in_remove i \<noteq> [] \<longrightarrow> in_remove i = ly_remove l) \<and>
     (case ly_fetch l of Some f \<Rightarrow> in_url i = ft_url f \<and> in_digest i = ft_digest f | None \<Rightarrow> True)"

lemma with_modes_input:
  "with_modes l (blank_input l) = Inr i \<Longrightarrow>
   in_name i = ly_name l \<and> in_target i = ly_to l \<and> in_image i = None \<and> in_images i = None \<and>
   in_path i = [] \<and> in_remove i = [] \<and> in_unpack i = []"
  by (auto simp: with_modes_def blank_input_def split: option.splits sum.splits)

lemma resolve_layer_input:
  fixes i :: "'img layer_input"
  assumes "snd (resolve_layer env p ns l) = Inr (Some (i, src))"
  shows "input_of l i \<and> (src = None \<or> src = ly_image l \<and> in_unpack i = ''image'' \<and> in_path i = [])"
proof -
  obtain j :: "'img layer_input" where j: "with_modes l (blank_input l) = Inr j"
    using assms by (auto simp: resolve_layer_def and_then_ok)
  note w = with_modes_input[OF j] and r = assms[unfolded resolve_layer_def j lift_simps and_then_lift]
  consider (fetch) f where "ly_fetch l = Some f"
    | (flux) ref where "ly_fetch l = None" "ly_source_ref l = Some ref"
    | (config_map) cm where "ly_fetch l = None" "ly_source_ref l = None" "ly_config_map l = Some cm"
    | (image) s where "ly_fetch l = None" "ly_source_ref l = None" "ly_config_map l = None" "ly_image l = Some s"
    | (rest) "ly_fetch l = None" "ly_source_ref l = None" "ly_config_map l = None" "ly_image l = None"
    by (metis option.exhaust)
  then show ?thesis
  proof cases
    case fetch
    with r w show ?thesis by (auto simp: input_of_def fetch_input_def)
  next
    case flux
    with r w show ?thesis by (auto simp: input_of_def flux_input_def and_then_ok)
  next
    case config_map
    with r obtain k where k: "config_map_input env ns cm j = Inr (Some k)" "i = k" "src = None"
      by (auto simp: and_then_ok split: option.splits)
    then obtain path dg where "k = j\<lparr>in_digest := dg, in_path := path, in_unpack := ''tar.gz''\<rparr>"
      by (auto simp: config_map_input_def split: sum.splits resolved.splits if_splits)
    with k config_map w show ?thesis by (simp add: input_of_def)
  next
    case image
    with r w show ?thesis by (auto simp: input_of_def image_input_def)
  next
    case rest
    with r w show ?thesis by (auto simp: input_of_def split: if_splits)
  qed
qed

lemma resolve_layer_skip:
  "snd (resolve_layer env p ns l) = Inr None \<Longrightarrow> ly_config_map l \<noteq> None"
  by (auto simp: resolve_layer_def and_then_ok split: option.splits if_splits)

lemma resolve_layers_inputs:
  fixes out :: "'img layer_input list"
  assumes "snd (resolve_layers env p ns ls inputs pulls) = Inr (out, pulls')"
  shows "\<exists>kept new. out = inputs @ new \<and> subseq kept ls \<and> list_all2 input_of kept new \<and>
     (\<forall>l \<in> set ls. l \<notin> set kept \<longrightarrow> ly_config_map l \<noteq> None) \<and>
     (\<forall>n. n < length inputs \<longrightarrow> pulls' n = pulls n) \<and>
     (\<forall>n < length new. pulls' (length inputs + n) = pulls (length inputs + n) \<or>
        pulls' (length inputs + n) = ly_image (kept ! n) \<and> in_unpack (new ! n) = ''image'')"
  using assms
proof (induction ls arbitrary: inputs pulls)
  case (Cons l ls)
  obtain r :: "('img layer_input \<times> image_source option) option"
    where r: "snd (resolve_layer env p ns l) = Inr r"
    using Cons.prems by (auto simp: and_then_ok)
  show ?case
  proof (cases r)
    case None
    with r Cons.prems have "snd (resolve_layers env p ns ls inputs pulls) = Inr (out, pulls')"
      by (simp add: and_then_ok)
    from Cons.IH[OF this] obtain kept new where k: "out = inputs @ new" "subseq kept ls" "list_all2 input_of kept new"
      "\<forall>l \<in> set ls. l \<notin> set kept \<longrightarrow> ly_config_map l \<noteq> None"
      "\<forall>n. n < length inputs \<longrightarrow> pulls' n = pulls n"
      "\<forall>n < length new. pulls' (length inputs + n) = pulls (length inputs + n) \<or>
        pulls' (length inputs + n) = ly_image (kept ! n) \<and> in_unpack (new ! n) = ''image''" by blast
    with resolve_layer_skip[OF r[unfolded None]] show ?thesis
      by (intro exI[of _ kept] exI[of _ new]) (simp add: list_emb_Cons)
  next
    case (Some x)
    obtain i src where x: "x = (i, src)" by fastforce
    let ?pulls = "case src of None \<Rightarrow> pulls | Some s \<Rightarrow> pulls(length inputs \<mapsto> s)"
    from Some x r Cons.prems have "snd (resolve_layers env p ns ls (inputs @ [i]) ?pulls) = Inr (out, pulls')"
      by (simp add: and_then_ok)
    from Cons.IH[OF this] obtain kept new where k: "out = (inputs @ [i]) @ new" "subseq kept ls"
      "list_all2 input_of kept new" "\<forall>l \<in> set ls. l \<notin> set kept \<longrightarrow> ly_config_map l \<noteq> None"
      "\<forall>n. n < length (inputs @ [i]) \<longrightarrow> pulls' n = ?pulls n"
      "\<forall>n < length new. pulls' (length (inputs @ [i]) + n) = ?pulls (length (inputs @ [i]) + n) \<or>
        pulls' (length (inputs @ [i]) + n) = ly_image (kept ! n) \<and> in_unpack (new ! n) = ''image''" by blast
    note li = resolve_layer_input[OF r[unfolded Some x]]
    have first: "pulls' (length inputs) = pulls (length inputs) \<or>
        pulls' (length inputs) = ly_image l \<and> in_unpack i = ''image''"
      using k(5) li by (auto split: option.splits)
    have rest: "pulls' (length inputs + Suc n) = pulls (length inputs + Suc n) \<or>
        pulls' (length inputs + Suc n) = ly_image (kept ! n) \<and> in_unpack (new ! n) = ''image''" if "n < length new" for n
      using k(6) that by (auto split: option.splits)
    have "\<forall>n < length (i # new). pulls' (length inputs + n) = pulls (length inputs + n) \<or>
        pulls' (length inputs + n) = ly_image ((l # kept) ! n) \<and> in_unpack ((i # new) ! n) = ''image''"
    proof (intro allI impI)
      fix n assume "n < length (i # new)"
      then show "pulls' (length inputs + n) = pulls (length inputs + n) \<or>
          pulls' (length inputs + n) = ly_image ((l # kept) ! n) \<and> in_unpack ((i # new) ! n) = ''image''"
        using first rest by (cases n) simp_all
    qed
    moreover have "\<forall>n. n < length inputs \<longrightarrow> pulls' n = pulls n"
      using k(5) by (auto split: option.splits)
    ultimately show ?thesis
      using k(1-4) li by (intro exI[of _ "l # kept"] exI[of _ "i # new"]) simp
  qed
qed simp

text \<open>
  The inputs are the layers' in declaration order, each under its own name and target,
  with a fetched layer's URL and digest as declared; only ConfigMap layers are left out; nothing has
  been pulled yet, and what is to be pulled later are exactly image layers; a composition without
  any content is refused for good.
\<close>

theorem inputs_in_order:
  "(snd (resolve_inputs env p ns ls) = Inr (inputs, pulls) \<longrightarrow>
      inputs \<noteq> [] \<and>
      (\<exists>kept. subseq kept ls \<and> list_all2 input_of kept inputs \<and>
         (\<forall>l \<in> set ls. l \<notin> set kept \<longrightarrow> ly_config_map l \<noteq> None) \<and>
         (\<forall>n < length inputs. pulls n \<noteq> None \<longrightarrow> pulls n = ly_image (kept ! n) \<and> in_unpack (inputs ! n) = ''image''))) \<and>
   (snd (resolve_layers env p ns ls [] Map.empty) = Inr ([] :: 'img layer_input list, pulls') \<longrightarrow>
      (\<exists>e. (snd (resolve_inputs env p ns ls) :: ('img layer_input list \<times> image_pulls) res) = Inl e \<and> is_terminal e))"
proof (intro conjI impI)
  assume "snd (resolve_inputs env p ns ls) = Inr (inputs, pulls)"
  then have r: "snd (resolve_layers env p ns ls [] Map.empty) = Inr (inputs, pulls)" "inputs \<noteq> []"
    by (auto simp: resolve_inputs_def and_then_ok split: if_splits)
  show "inputs \<noteq> []" by (rule r(2))
  from resolve_layers_inputs[OF r(1)] obtain kept where k: "subseq kept ls" "list_all2 input_of kept inputs"
    "\<forall>l \<in> set ls. l \<notin> set kept \<longrightarrow> ly_config_map l \<noteq> None"
    "\<forall>n < length inputs. pulls n = None \<or> pulls n = ly_image (kept ! n) \<and> in_unpack (inputs ! n) = ''image''"
    by auto
  show "\<exists>kept. subseq kept ls \<and> list_all2 input_of kept inputs \<and>
         (\<forall>l \<in> set ls. l \<notin> set kept \<longrightarrow> ly_config_map l \<noteq> None) \<and>
         (\<forall>n < length inputs. pulls n \<noteq> None \<longrightarrow> pulls n = ly_image (kept ! n) \<and> in_unpack (inputs ! n) = ''image'')"
    by (intro exI[of _ kept] conjI) (use k in auto)
next
  assume "snd (resolve_layers env p ns ls [] Map.empty) = Inr ([] :: 'img layer_input list, pulls')"
  then show "\<exists>e. (snd (resolve_inputs env p ns ls) :: ('img layer_input list \<times> image_pulls) res) = Inl e \<and> is_terminal e"
    by (simp add: resolve_inputs_def snd_and_then)
qed

definition remove_layer :: "string \<Rightarrow> layer_spec" where
  "remove_layer n =
     \<lparr>ly_name = n, ly_fetch = None, ly_image = None, ly_config_map = None, ly_source_ref = None,
      ly_remove = [''etc/motd''], ly_to = [], ly_owner = None, ly_mode = None\<rparr>"

theorem inputs_in_order_witness:
  "\<exists>inputs pulls. snd (resolve_inputs sample_sources None ''team'' [remove_layer ''a'', remove_layer ''b'']) =
      Inr (inputs :: nat layer_input list, pulls) \<and> inputs \<noteq> []"
proof -
  let ?i = "\<lambda>n. blank_input (remove_layer n)\<lparr>in_remove := [''etc/motd'']\<rparr> :: nat layer_input"
  have r: "resolve_inputs sample_sources None ''team'' [remove_layer ''a'', remove_layer ''b''] =
      lift (Inr ([?i ''a'', ?i ''b''], Map.empty))"
    by (simp add: resolve_inputs_def resolve_layer_def with_modes_def remove_layer_def)
  then have "snd (resolve_inputs sample_sources None ''team'' [remove_layer ''a'', remove_layer ''b'']) =
      Inr ([?i ''a'', ?i ''b''], Map.empty)" by simp
  with inputs_in_order[of sample_sources None "''team''" "[remove_layer ''a'', remove_layer ''b'']"]
  show ?thesis by blast
qed

subsection \<open>Every declared platform gets its image\<close>

lemma parse_declared_keys:
  "parse_declared ss seen = Inr ps \<Longrightarrow>
   distinct (map platform_string ps) \<and> set (map platform_string ps) \<inter> seen = {} \<and>
   list_all2 (\<lambda>s p. parse_platform s = Inr p) ss ps"
proof (induction ss arbitrary: seen ps)
  case (Cons s ss)
  obtain p where p: "parse_platform s = Inr p" "platform_string p \<notin> seen"
    using Cons.prems by (auto split: sum.splits if_splits)
  with Cons.prems obtain qs where q: "parse_declared ss (insert (platform_string p) seen) = Inr qs" "ps = p # qs"
    by (cases "parse_declared ss (insert (platform_string p) seen)") auto
  from Cons.IH[OF q(1)] p q(2) show ?case by auto
qed simp

lemma children_for_total:
  assumes "platform_string ` set ps \<subseteq> dom by_key"
  shows "\<exists>m. children_for ps by_key = Inr m \<and> dom m = set ps \<and> (\<forall>p \<in> set ps. m p = by_key (platform_string p))"
  using assms
proof (induction ps)
  case (Cons p ps)
  then obtain m where m: "children_for ps by_key = Inr m" "dom m = set ps"
    "\<forall>q \<in> set ps. m q = by_key (platform_string q)" by auto
  obtain img where "by_key (platform_string p) = Some img" using Cons.prems by auto
  with m show ?case by (auto simp: dom_def)
qed simp

lemma pulled_covers_declared:
  assumes d: "declared_platforms spec = Inr declared"
    and g: "get_pinned (ce_images env) (in_url i) (in_digest i) = Inr (IndexDesc (Inr ms) child_of)"
    and r: "pull_image_layer env ns declared i src = Inr j"
  shows "\<exists>m. in_images j = Some m \<and> dom m = set declared"
proof -
  have k: "distinct (map platform_string declared)"
    using parse_declared_keys[of "sc_platforms spec" "{}"] d by (simp add: declared_platforms_def)
  obtain auth where a: "pull_options (ce_secrets env) ns (is_secret src) = Inr auth"
    using r by (auto simp: pull_image_layer_def split: sum.splits)
  obtain m where m: "pull_image_for (ce_images env) (in_url i) (in_digest i) declared = Inr (Inr m)"
  proof -
    have "pull_image_for (ce_images env) (in_url i) (in_digest i) declared \<noteq> Inr (Inl img)" for img
      by (auto simp: pull_image_for_def g split: sum.splits)
    then show ?thesis
      using r a that by (auto simp: pull_image_layer_def split: sum.splits)
  qed
  have "select_from (in_url i @ ''@'' @ in_digest i) child_of ms declared Map.empty = Inr m"
    using m by (auto simp: pull_image_for_def g select_children_def split: if_splits sum.splits)
  from select_from_spec[OF this k] have "platform_string ` set declared \<subseteq> dom m" by blast
  from children_for_total[OF this] show ?thesis
    using r a m by (auto simp: pull_image_layer_def)
qed


end
