(* ===== verification/Layer_Theorems.thy ===== *)
theory Layer_Theorems
  imports Layer_Assemble
begin

section \<open>What a layer promises\<close>

text \<open>
  The theorems about one layer: nothing a source contains lands outside the target the spec names,
  the written headers are a function of which entry comes first under each name, parents come
  before their children, and the archive formats agree.
\<close>

subsection \<open>Every source stays inside its target\<close>

lemma zip_step_inv:
  assumes inv: "col_inv False ts n sp c" and s: "zip_step e (c, seen) = Inr (c', seen')"
  shows "col_inv False ts n sp c'"
proof -
  obtain d c1 where r: "rebase c (zip_name (z_name e)) = Inr (d, c1)"
    using s by (auto simp: zip_step_def split: sum.splits if_splits)
  have inv1: "col_inv False ts n sp c1" by (rule col_inv_rebase[OF inv r])
  show ?thesis
  proof (cases d)
    case None
    with s r inv1 show ?thesis by (simp add: zip_step_def split: if_splits)
  next
    case (Some dest)
    have ins: "inside ts dest"
      using inv r Some by (intro rebase_inside) (auto simp: col_inv_def)
    have p: "zip_place e dest (c1, seen) = Inr (c', seen')"
      using s r Some by (simp add: zip_step_def split: if_splits)
    have "c' \<in> {add_dir dest c1, c1} \<union> range (\<lambda>l. add_symlink dest l c1) \<union>
        (\<Union>m. range (\<lambda>b. add_file dest m b c1))"
      using p by (auto simp: zip_place_def split: if_splits sum.splits)
    moreover have "entry_ok ts (dir_entry dest)" using ins by (simp add: entry_ok_def)
    ultimately show ?thesis
      using inv1 ins by (auto intro: col_inv_add_dir col_inv_add_file col_inv_add_symlink)
  qed
qed

lemma zip_loop_inv:
  "zip_loop es (c, seen) = Inr (c', seen') \<Longrightarrow> col_inv False ts n sp c \<Longrightarrow>
   col_inv False ts n sp c'"
proof (induction es arbitrary: c seen)
  case (Cons e es)
  then obtain c1 seen1 where "zip_step e (c, seen) = Inr (c1, seen1)"
    "zip_loop es (c1, seen1) = Inr (c', seen')"
    by (auto split: sum.splits)
  with Cons.IH Cons.prems(2) zip_step_inv show ?case by blast
qed simp

lemma extract_zip_inv:
  assumes "extract_zip files (join [slash] ts) sp n = Inr es" "list_all plain ts"
  shows "\<exists>c. col_inv False ts n sp c \<and> c_entries c = es"
proof -
  obtain fs c seen where c: "zip_loop fs (new_collector (join [slash] ts) sp n, {}) = Inr (c, seen)"
    "collector_done c = Inr es"
    using assms(1) by (auto simp: extract_zip_def split: option.splits sum.splits prod.splits)
  have "col_inv False ts n sp c"
    by (rule zip_loop_inv[OF c(1) col_inv_new[OF assms(2)]])
  then show ?thesis using c(2) by (auto simp: collector_done_def split: option.splits)
qed

text \<open>The components of the declared target, and an entry that stays within it.\<close>

definition target_comps :: "string \<Rightarrow> string list" where
  "target_comps t = clean_comps (slash # t)"

definition within_target :: "string \<Rightarrow> tar_entry \<Rightarrow> bool" where
  "within_target t e \<longleftrightarrow>
     (\<exists>ds. list_all plain ds \<and> target_comps t @ ds \<noteq> [] \<and>
        te_name e = join [slash] (target_comps t @ ds)) \<or>
     (te_dir e \<and> leads_to (target_comps t) (te_name e))"

lemma target_comps_plain: "list_all plain (target_comps t)"
  unfolding target_comps_def by (rule plain_prefix_comps)

lemma clean_target_join: "clean_target t = join [slash] (target_comps t)"
  unfolding clean_target_def target_comps_def
  by (simp add: path_clean_rooted has_prefix_single trim_prefix_def has_prefix_def)

lemma entry_ok_within: "entry_ok (target_comps t) e \<Longrightarrow> within_target t e"
  by (auto simp: entry_ok_def inside_def within_target_def)

lemma col_inv_within:
  "col_inv q (target_comps t) n sp c \<Longrightarrow> e \<in> set (c_entries c) \<Longrightarrow> within_target t e"
  by (auto simp: col_inv_def intro: entry_ok_within)

lemma extract_tar_within:
  "extract_tar items (clean_target t) sp n = Inr es \<Longrightarrow> e \<in> set es \<Longrightarrow> within_target t e"
  using extract_tar_inv[of items "target_comps t" sp n es False] target_comps_plain col_inv_within
  by (fastforce simp: clean_target_join)

lemma extract_zip_within:
  "extract_zip files (clean_target t) sp n = Inr es \<Longrightarrow> e \<in> set es \<Longrightarrow> within_target t e"
  using extract_zip_inv[of files "target_comps t" sp n es] target_comps_plain col_inv_within
  by (fastforce simp: clean_target_join)

lemma single_file_within:
  assumes "single_file cd f i (clean_target t) cc = Inr es" "e \<in> set es"
  shows "within_target t e"
proof -
  let ?ts = "target_comps t"
  have ne: "clean_target t \<noteq> []" using assms(1) by (auto simp: single_file_def)
  then have ts: "?ts \<noteq> []" by (auto simp: clean_target_join)
  obtain body where es: "es = parent_dirs (clean_target t) @ [file_entry (clean_target t) 420 body]"
    using assms(1) by (auto simp: single_file_def split: if_splits sum.splits)
  have split: "?ts = butlast ?ts @ [last ?ts]" "list_all plain (butlast ?ts)" "plain (last ?ts)"
    using ts target_comps_plain[of t] by (auto simp: list_all_iff in_set_butlastD)
  show ?thesis
  proof (cases "e = file_entry (clean_target t) 420 body")
    case True
    have "within_target t (file_entry (join [slash] (?ts @ [])) 420 body)"
      unfolding within_target_def using ts by (auto intro!: exI[of _ "[]"])
    with True show ?thesis by (simp add: clean_target_join)
  next
    case False
    then have "e \<in> set (parent_dirs (join [slash] (butlast ?ts @ [last ?ts])))"
      using assms(2) es split(1) by (auto simp: clean_target_join)
    then obtain k where k: "0 < k" "k \<le> length (butlast ?ts)"
      "e = dir_entry (join [slash] (take k (butlast ?ts)))"
      unfolding parent_dirs_join[OF split(2,3)]
      by (auto simp del: upt_Suc simp: less_Suc_eq_le Suc_le_eq)
    have "k \<le> length ?ts - 1" using k(2) by simp
    then have "take k (butlast ?ts) = take k ?ts" "k \<le> length ?ts"
      by (simp_all add: butlast_conv_take)
    with k show ?thesis by (auto simp: within_target_def leads_to_def)
  qed
qed

lemma extract_deb_within:
  "extract_deb cd ut f (clean_target t) sp n = Inr es \<Longrightarrow> e \<in> set es \<Longrightarrow> within_target t e"
  by (auto simp: extract_deb_def split: sum.splits intro: extract_tar_within)

lemma extract_image_within:
  "extract_image items (clean_target t) sp n = Inr es \<Longrightarrow> e \<in> set es \<Longrightarrow> within_target t e"
  by (auto simp: extract_image_def split: sum.splits intro: extract_tar_within)

lemmas source_within = extract_tar_within extract_zip_within single_file_within
  extract_deb_within extract_image_within

text \<open>
  Property C22. Whatever a source contains (a tar under any codec, a zip, a Debian package, another
  image, a single file), every entry it contributes is the declared target, lies below it, or is
  one of the directories leading to it, and no name holds an empty, ''.'' or ''..'' component.
\<close>

theorem collect_entries_confined:
  assumes "collect_entries ev i = Inr es" "in_remove i = []" "e \<in> set es"
  shows "within_target (in_target i) e"
  using assms
  by (auto simp: collect_entries_def extract_tarball_def Let_def
      split: option.splits sum.splits if_splits intro: source_within)

text \<open>A package-like tar below a target: a parent directory the archive never named is added.\<close>

definition sample_header :: "string \<Rightarrow> typeflag \<Rightarrow> string \<Rightarrow> tar_header" where
  "sample_header n t b = \<lparr>th_name = n, th_type = t, th_mode = 493, th_link = [], th_body = Some b\<rparr>"

definition sample_env :: "unit content_env" where
  "sample_env =
     \<lparr>ev_open = (\<lambda>p. Some ''bytes''),
      ev_codecs = \<lparr>cd_gunzip = (\<lambda>s. Inr (s, None)), cd_unxz = (\<lambda>s. Inr (s, None)),
                   cd_unzstd = (\<lambda>s. Inr (s, None)), cd_bunzip2 = (\<lambda>s. (s, None))\<rparr>,
      ev_untar = (\<lambda>s. [TarEntry (sample_header ''./pkg/bin/run'' TypeReg ''x'')]),
      ev_unzip = (\<lambda>s. None),
      ev_flatten = (\<lambda>u. [])\<rparr>"

definition sample_input :: "unit layer_input" where
  "sample_input =
     \<lparr>in_name = ''app'', in_identity = [], in_url = [], in_path = ''/tmp/f'', in_image = None,
      in_images = None, in_digest = ''sha256:aa'', in_unpack = ''tar.gz'', in_subpath = [],
      in_strip = 1, in_target = ''/opt'', in_remove = [], in_uid = 0, in_gid = 0,
      in_file_mode = 0, in_dir_mode = 0\<rparr>"

lemma sample_entries:
  "collect_entries sample_env sample_input =
     Inr [dir_entry ''opt'', dir_entry ''opt/bin'', file_entry ''opt/bin/run'' 493 ''x'']"
  by code_simp

theorem collect_entries_confined_witness:
  "within_target ''/opt'' (file_entry ''opt/bin/run'' 493 ''x'')"
  using collect_entries_confined[OF sample_entries, of "file_entry ''opt/bin/run'' 493 ''x''"]
  by (simp add: sample_input_def)

subsection \<open>The written headers\<close>

definition first_entry :: "tar_entry list \<Rightarrow> string \<Rightarrow> tar_entry option" where
  "first_entry es n = List.find (\<lambda>e. te_name e = n) es"

lemma first_by_name_spec:
  "distinct (map te_name (first_by_name seen es)) \<and>
   te_name ` set (first_by_name seen es) = te_name ` set es - seen \<and>
   set (first_by_name seen es) = {e. te_name e \<notin> seen \<and> first_entry es (te_name e) = Some e}"
proof (induction es arbitrary: seen)
  case Nil
  then show ?case by (simp add: first_entry_def)
next
  case (Cons e es)
  show ?case
    using Cons.IH[of seen] Cons.IH[of "insert (te_name e) seen"]
    by (auto simp: first_entry_def)
qed

lemma sorted_first_by_name:
  "sorted (map te_name es) \<Longrightarrow> sorted (map te_name (first_by_name seen es))"
proof (induction es arbitrary: seen)
  case (Cons e es)
  have sub: "te_name ` set (first_by_name s es) \<subseteq> te_name ` set es" for s
    using first_by_name_spec[of s es] by blast
  from Cons sub show ?case by fastforce
qed simp

lemma first_entry_sort: "first_entry (sort_key te_name es) n = first_entry es n"
proof -
  have "first_entry xs n = (case filter (\<lambda>e. te_name e = n) xs of [] \<Rightarrow> None | e # _ \<Rightarrow> Some e)" for xs
    unfolding first_entry_def by (induction xs) auto
  then show ?thesis by (simp add: sort_key_stable)
qed

definition winners :: "tar_entry list \<Rightarrow> tar_entry list" where
  "winners es = first_by_name {} (sort_key te_name es)"

lemma winners_spec:
  "sorted_wrt (<) (map te_name (winners es))"
  "te_name ` set (winners es) = te_name ` set es"
  "set (winners es) = {e. first_entry es (te_name e) = Some e}"
proof -
  note f = first_by_name_spec[of "{}" "sort_key te_name es"]
  note s = sorted_first_by_name[of "sort_key te_name es" "{}"]
  show "sorted_wrt (<) (map te_name (winners es))"
    using f s by (simp add: winners_def strict_sorted_iff)
  show "te_name ` set (winners es) = te_name ` set es"
    using conjunct1[OF conjunct2[OF f]] by (simp add: winners_def)
  show "set (winners es) = {e. first_entry es (te_name e) = Some e}"
    using conjunct2[OF conjunct2[OF f]] by (simp add: winners_def first_entry_sort)
qed

lemma first_entry_name: "first_entry es n = Some e \<Longrightarrow> te_name e = n \<and> e \<in> set es"
  by (auto simp: first_entry_def find_Some_iff)

lemma sorted_names_unique:
  assumes "sorted_wrt (<) (map te_name xs)" "sorted_wrt (<) (map te_name ys)" "set xs = set ys"
  shows "xs = ys"
proof -
  have d: "distinct (map te_name xs)" "distinct (map te_name ys)"
    and s: "sorted (map te_name xs)" "sorted (map te_name ys)"
    using assms(1,2) by (simp_all add: strict_sorted_iff)
  have "inj_on te_name (set xs)" using d(1) by (simp add: distinct_map)
  moreover have "map te_name xs = map te_name ys"
    by (rule sorted_distinct_set_unique[OF s(1) d(1) s(2) d(2)]) (simp add: assms(3))
  ultimately show ?thesis using assms(3) by (metis map_inj_on sup.idem)
qed

lemma layer_headers_winners: "layer_headers i es = map (out_header_of i) (winners es)"
  by (simp add: layer_headers_def winners_def)

text \<open>
  The headers written for a layer are a function of which entry an archive offers
  first under each name: two archives that agree on that produce the same headers in the same
  order, however their entries are ordered and whatever duplicates follow.
\<close>

theorem layer_headers_reproducible:
  assumes "first_entry es = first_entry es'"
  shows "layer_headers i es = layer_headers i es'"
proof -
  have "winners es = winners es'"
    by (rule sorted_names_unique) (simp_all add: winners_spec assms)
  then show ?thesis by (simp add: layer_headers_winners)
qed

theorem layer_headers_reproducible_witness:
  "layer_headers sample_input [file_entry ''b'' 420 ''1'', file_entry ''a'' 420 ''2'', file_entry ''b'' 420 ''3''] =
   layer_headers sample_input [file_entry ''a'' 420 ''2'', file_entry ''b'' 420 ''1'']"
  by (rule layer_headers_reproducible) (auto simp: first_entry_def file_entry_def)

text \<open>
  Property C37. A layer is written in strictly ascending order of the entries' names, one header per
  name, each stamped with the fixed time and the declared owner.
\<close>

theorem layer_headers_normalised:
  "\<exists>ws. layer_headers i es = map (out_header_of i) ws \<and> set ws \<subseteq> set es \<and>
     sorted_wrt (<) (map te_name ws) \<and> te_name ` set ws = te_name ` set es \<and>
     (\<forall>h \<in> set (layer_headers i es).
        oh_mtime h = 0 \<and> oh_uid h = in_uid i \<and> oh_gid h = in_gid i \<and> oh_size h = length (oh_body h))"
proof (intro exI conjI)
  show "layer_headers i es = map (out_header_of i) (winners es)" by (rule layer_headers_winners)
  show "set (winners es) \<subseteq> set es"
    unfolding winners_spec using first_entry_name by blast
  show "\<forall>h \<in> set (layer_headers i es).
        oh_mtime h = 0 \<and> oh_uid h = in_uid i \<and> oh_gid h = in_gid i \<and> oh_size h = length (oh_body h)"
    by (auto simp: layer_headers_winners out_header_of_def epoch_def Let_def)
qed (rule winners_spec)+

theorem layer_headers_normalised_witness:
  "sorted_wrt (<) (map te_name [file_entry ''a'' 420 ''2'', file_entry ''b'' 420 ''1'']) \<and>
   (\<exists>ws. layer_headers sample_input [file_entry ''b'' 420 ''1'', file_entry ''a'' 420 ''2''] =
      map (out_header_of sample_input) ws \<and> length ws = 2)"
proof (rule conjI)
  let ?es = "[file_entry ''b'' 420 ''1'', file_entry ''a'' 420 ''2'']"
  show "sorted_wrt (<) (map te_name [file_entry ''a'' 420 ''2'', file_entry ''b'' 420 ''1''])"
    by code_simp
  obtain ws where ws: "layer_headers sample_input ?es = map (out_header_of sample_input) ws"
    "sorted_wrt (<) (map te_name ws)" "te_name ` set ws = te_name ` set ?es"
    using layer_headers_normalised by metis
  have "length ws = card (te_name ` set ?es)"
    using ws(2,3) by (metis distinct_card length_map list.set_map strict_sorted_iff)
  also have "\<dots> = 2" by (simp add: file_entry_def)
  finally show "\<exists>ws. layer_headers sample_input ?es = map (out_header_of sample_input) ws \<and> length ws = 2"
    using ws(1) by blast
qed

text \<open>
  The parents of a regular file come before it: the collector records them, and a proper initial
  part of a path sorts below the path.
\<close>

lemma append_less: "y \<noteq> [] \<Longrightarrow> (x :: string) < x @ y"
proof (induction x)
  case Nil
  then show ?case by (cases y) simp_all
qed simp

lemma join_take_less:
  assumes "0 < k" "k < length cs"
  shows "join [slash] (take k cs) < join [slash] cs"
proof -
  have "take k cs \<noteq> []" "drop k cs \<noteq> []" using assms by auto
  then have "join [slash] cs = join [slash] (take k cs) @ slash # join [slash] (drop k cs)"
    using join_append[of "take k cs" "drop k cs" "[slash]"] by simp
  then show ?thesis using append_less by simp
qed

lemma parent_names_less:
  assumes "list_all plain ts" "inside ts n" "d \<in> set (parent_dirs n)"
  shows "te_name d < n"
proof -
  obtain ds where ds: "list_all plain ds" "ds \<noteq> []" "n = join [slash] (ts @ ds)"
    using assms(2) by (auto simp: inside_def)
  define cs where "cs = ts @ butlast ds"
  have cs: "list_all plain cs" "plain (last ds)" "n = join [slash] (cs @ [last ds])"
    using assms(1) ds by (auto simp: cs_def list_all_iff in_set_butlastD)
  have "d \<in> set (map (\<lambda>k. dir_entry (join [slash] (take k cs))) [1..<Suc (length cs)])"
    using assms(3) unfolding cs(3) parent_dirs_join[OF cs(1,2)] .
  then obtain k where k: "0 < k" "k \<le> length cs" "d = dir_entry (join [slash] (take k cs))"
    by (auto simp del: upt_Suc simp: less_Suc_eq_le Suc_le_eq)
  then show ?thesis using join_take_less[of k "cs @ [last ds]"] cs(3) by simp
qed

lemma sorted_split_less:
  "sorted_wrt (<) (map f (pre @ e # post)) \<Longrightarrow> x \<in> set (pre @ e # post) \<Longrightarrow>
   (f x :: 'a :: linorder) < f e \<Longrightarrow> x \<in> set pre"
  by (fastforce simp: sorted_wrt_append)

lemma winners_parents:
  assumes inv: "col_inv True ts n sp c" and w: "winners (c_entries c) = pre @ e # post"
    and e: "\<not> te_dir e" "te_link e = []" and d: "d \<in> set (parent_dirs (te_name e))"
  shows "te_name d \<in> te_name ` set pre"
proof -
  have "e \<in> set (winners (c_entries c))" using w by simp
  then have mem: "e \<in> set (c_entries c)" unfolding winners_spec using first_entry_name by blast
  have ts: "list_all plain ts" and ok: "entry_ok ts e" "parents_known c e"
    and dirs: "c_dirs c \<subseteq> te_name ` set (c_entries c)"
    using inv mem by (auto simp: col_inv_def dirs_match_def)
  have ins: "inside ts (te_name e)" using ok(1) e(1) by (simp add: entry_ok_def)
  have less: "te_name d < te_name e" by (rule parent_names_less[OF ts ins d])
  have "te_name d \<in> te_name ` set (winners (c_entries c))"
    using ok(2) e d dirs unfolding winners_spec(2) by (auto simp: parents_known_def)
  then obtain x where x: "x \<in> set (pre @ e # post)" "te_name x = te_name d"
    unfolding w by (metis imageE)
  have "sorted_wrt (<) (map te_name (pre @ e # post))"
    using winners_spec(1)[of "c_entries c"] w by simp
  then have "x \<in> set pre" by (rule sorted_split_less[OF _ x(1)]) (unfold x(2), rule less)
  then show ?thesis unfolding x(2)[symmetric] by (rule imageI)
qed

lemma out_header_name:
  "oh_name (out_header_of i e) = te_name e \<or> oh_name (out_header_of i e) = te_name e @ ''/''"
  by (simp add: out_header_of_def Let_def)

lemma out_header_reg:
  "oh_type (out_header_of i e) = TypeReg \<longleftrightarrow> \<not> te_dir e \<and> te_link e = []"
  "oh_type (out_header_of i e) = TypeReg \<Longrightarrow> oh_name (out_header_of i e) = te_name e"
  by (simp_all add: out_header_of_def Let_def split: if_splits)

text \<open>
  In the layer made from a tar whose links have targets, every regular file comes
  after a header for each directory on its path, from the target's first component down, also when
  the archive never names those directories.
\<close>

theorem layer_parents_first:
  assumes x: "extract_tar items (clean_target t) sp n = Inr es"
    and ok: "\<forall>it \<in> set items. item_ok it"
    and h: "layer_headers i es = hs @ h # hs'" "oh_type h = TypeReg"
    and d: "d \<in> set (parent_dirs (oh_name h))"
  shows "\<exists>p \<in> set hs. oh_name p = te_name d \<or> oh_name p = te_name d @ ''/''"
proof -
  obtain c where c: "col_inv True (target_comps t) n sp c" "c_entries c = es"
    using extract_tar_inv[of items "target_comps t" sp n es True] x ok target_comps_plain
    by (auto simp: clean_target_join)
  obtain pre e post where w: "winners es = pre @ e # post" "hs = map (out_header_of i) pre"
    "h = out_header_of i e"
    using h(1) unfolding layer_headers_winners by (auto simp: map_eq_append_conv map_eq_Cons_conv)
  have "te_name d \<in> te_name ` set pre"
    using winners_parents[OF c(1), of pre e post d] c(2) w h(2) d out_header_reg[of i e] by simp
  then obtain x where "x \<in> set pre" "te_name x = te_name d" by auto
  with w(2) out_header_name[of i x] show ?thesis by force
qed

theorem layer_parents_first_witness:
  "\<exists>p \<in> {out_header_of sample_input (dir_entry ''opt''),
          out_header_of sample_input (dir_entry ''opt/bin'')}.
     oh_name p = ''opt/bin'' \<or> oh_name p = ''opt/bin'' @ ''/''"
proof -
  let ?es = "[dir_entry ''opt'', dir_entry ''opt/bin'', file_entry ''opt/bin/run'' 493 ''x'']"
  have x: "extract_tar [TarEntry (sample_header ''./pkg/bin/run'' TypeReg ''x'')] (clean_target ''/opt'') [] 1 =
      Inr ?es" by code_simp
  have h: "layer_headers sample_input ?es =
      [out_header_of sample_input (dir_entry ''opt''), out_header_of sample_input (dir_entry ''opt/bin'')] @
      out_header_of sample_input (file_entry ''opt/bin/run'' 493 ''x'') # []" by code_simp
  have r: "oh_type (out_header_of sample_input (file_entry ''opt/bin/run'' 493 ''x'')) = TypeReg"
    by code_simp
  have d: "dir_entry ''opt/bin'' \<in>
      set (parent_dirs (oh_name (out_header_of sample_input (file_entry ''opt/bin/run'' 493 ''x''))))"
    by code_simp
  show ?thesis
    using layer_parents_first[OF x _ h r d] by (simp add: sample_header_def)
qed

subsection \<open>The formats agree\<close>

text \<open>
  Property C38. A zip and a tar that hold the same directories, files and links, under valid names
  and without two entries landing on one destination, give the same entries or the same error.
\<close>

theorem zip_agrees_with_tar:
  assumes "\<forall>x \<in> set xs. name_ok (fst x)" "distinct (file_dests t sp n xs)"
  shows "extract_zip (Some (map zip_of_node xs)) t sp n = extract_tar (map tar_of_node xs) t sp n"
proof -
  let ?c = "new_collector t sp n"
  have "map_res fst (zip_loop (map zip_of_node xs) (?c, {})) = tar_loop (map tar_of_node xs) ?c"
    by (rule zip_loop_tar_loop)
      (use assms in \<open>simp_all add: walk_of_def new_collector_def new_walk_def\<close>)
  then show ?thesis
    by (cases "zip_loop (map zip_of_node xs) (?c, {})")
      (auto simp: extract_zip_def extract_tar_def dest: sym split: sum.splits)
qed

theorem zip_agrees_with_tar_witness:
  "extract_zip (Some (map zip_of_node [(''d'', NDir), (''d/f'', NFile 420 ''x''), (''l'', NLink ''d/f'')]))
     ''opt'' [] 0 =
   extract_tar (map tar_of_node [(''d'', NDir), (''d/f'', NFile 420 ''x''), (''l'', NLink ''d/f'')])
     ''opt'' [] 0"
proof (rule zip_agrees_with_tar)
  show "\<forall>x \<in> set [(''d'', NDir), (''d/f'', NFile 420 ''x''), (''l'', NLink ''d/f'')]. name_ok (fst x)"
    by code_simp
  show "distinct (file_dests ''opt'' [] 0 [(''d'', NDir), (''d/f'', NFile 420 ''x''), (''l'', NLink ''d/f'')])"
    by code_simp
qed

text \<open>
  The data member of a Debian package is found behind any well-formed other members,
  padded to even length, and decompressed by the codec its name ends in; what follows is not read.
\<close>

theorem deb_data_found:
  assumes "\<forall>m \<in> set ms. other_member m" "ar_header hdr (''data.tar'' @ suffix) body"
  shows "open_deb_data cd (ar_magic @ concat (map ar_member ms) @ hdr @ body @ rest) =
    wrap_err ''data member'' (decompress cd body (trim_prefix suffix ''.''))"
proof -
  have "length ar_magic \<le> length (ar_magic @ concat (map ar_member ms) @ hdr @ body @ rest)" by simp
  then show ?thesis
    using assms by (simp add: open_deb_data_def deb_members_skip_all deb_members_data)
qed

definition control_header :: string where
  "control_header =
     ''debian-binary   '' @ replicate 32 (CHR '' '') @ ''3         '' @ ar_trailer"

definition data_header :: string where
  "data_header =
     ''data.tar.xz/    '' @ replicate 32 (CHR '' '') @ ''2         '' @ ar_trailer"

theorem deb_data_found_witness:
  "open_deb_data (ev_codecs sample_env)
     (ar_magic @ concat (map ar_member [(control_header, ''2.0'', CHR ''x'')]) @ data_header @ ''ab'' @ ''rest'') =
   Inr (''ab'', None)"
proof -
  have "ar_header control_header ''debian-binary'' ''2.0''" by code_simp
  moreover have "\<not> has_prefix ''debian-binary'' ''data.tar''" by code_simp
  ultimately have ms: "\<forall>m \<in> set [(control_header, ''2.0'', CHR ''x'')]. other_member m"
    by (auto simp: other_member_def)
  have d: "ar_header data_header (''data.tar'' @ ''.xz'') ''ab''" by code_simp
  have "wrap_err ''data member'' (decompress (ev_codecs sample_env) ''ab'' (trim_prefix ''.xz'' ''.'')) =
      Inr (''ab'', None)" by code_simp
  then show ?thesis using deb_data_found[OF ms d] by simp
qed

end
