(* ===== verification/Assemble_Theorems.thy ===== *)
theory Assemble_Theorems
  imports Layer_Theorems
begin

section \<open>What an assembled image promises\<close>

subsection \<open>Platforms\<close>

text \<open>
  Reading back a printed platform gives the platform, for parts without a slash; and
  whatever is accepted prints back to the text it was read from, unless it ends in an empty variant.
\<close>

theorem platform_roundtrip:
  "(slash \<notin> set (p_os p) \<and> slash \<notin> set (p_arch p) \<and> slash \<notin> set (p_variant p) \<longrightarrow>
     parse_platform (platform_string p) = Inr p) \<and>
   (parse_platform s = Inr q \<and> \<not> has_suffix s ''/'' \<longrightarrow> platform_string q = s)"
proof (intro conjI impI)
  assume p: "slash \<notin> set (p_os p) \<and> slash \<notin> set (p_arch p) \<and> slash \<notin> set (p_variant p)"
  then show "parse_platform (platform_string p) = Inr p"
    by (simp add: parse_platform_def platform_string_def split_on_append_sep split_on_no_sep)
next
  assume a: "parse_platform s = Inr q \<and> \<not> has_suffix s ''/''"
  have j: "s = join [slash] (split_on slash s)" by simp
  show "platform_string q = s"
  proof (cases "split_on slash s" rule: remdups_adj.cases)
    case (3 x y zs)
    then show ?thesis
    proof (cases zs)
      case Nil
      with a 3 j show ?thesis by (auto simp: parse_platform_def platform_string_def)
    next
      case (Cons v vs)
      with a 3 have "vs = []" by (auto simp: parse_platform_def split: list.splits)
      with Cons 3 have sp: "split_on slash s = [x, y, v]" by simp
      then have s: "s = x @ ''/'' @ y @ ''/'' @ v" using j by simp
      have "v \<noteq> []"
      proof
        assume "v = []"
        with s have "has_suffix s ''/''" by (auto simp: has_suffix_iff)
        with a show False by simp
      qed
      with a sp s show ?thesis by (auto simp: parse_platform_def platform_string_def)
    qed
  qed (use a in \<open>auto simp: parse_platform_def\<close>)
qed

theorem platform_roundtrip_witness:
  "parse_platform (platform_string \<lparr>p_os = ''linux'', p_arch = ''arm'', p_variant = ''v7''\<rparr>) =
     Inr \<lparr>p_os = ''linux'', p_arch = ''arm'', p_variant = ''v7''\<rparr> \<and>
   platform_string \<lparr>p_os = ''linux'', p_arch = ''amd64'', p_variant = []\<rparr> = ''linux/amd64''"
proof (rule conjI)
  let ?p = "\<lparr>p_os = ''linux'', p_arch = ''arm'', p_variant = ''v7''\<rparr>"
  let ?q = "\<lparr>p_os = ''linux'', p_arch = ''amd64'', p_variant = []\<rparr>"
  note r = platform_roundtrip[of ?p "''linux/amd64''" ?q]
  show "parse_platform (platform_string ?p) = Inr ?p" using conjunct1[OF r] by simp
  have "parse_platform ''linux/amd64'' = Inr ?q" by code_simp
  moreover have "\<not> has_suffix ''linux/amd64'' ''/''" by code_simp
  ultimately show "platform_string ?q = ''linux/amd64''" using conjunct2[OF r] by blast
qed

subsection \<open>Layers shared between platforms\<close>

text \<open>The input as one platform sees it: a multi-architecture source becomes that platform's image.\<close>

definition input_for :: "platform \<Rightarrow> 'img layer_input \<Rightarrow> 'img layer_input" where
  "input_for p i = (case in_images i of None \<Rightarrow> i | Some images \<Rightarrow> i\<lparr>in_image := images p\<rparr>)"

definition extends_by :: "platform list \<Rightarrow> 'l layer_map \<Rightarrow> 'l layer_map \<Rightarrow> (platform \<Rightarrow> 'l) \<Rightarrow> bool" where
  "extends_by plats out out' f \<longleftrightarrow> (\<forall>p. out' p = (if p \<in> set plats then out p @ [f p] else out p))"

lemma add_to_platforms_extends:
  "distinct plats \<Longrightarrow> extends_by plats out (add_to_platforms l plats out) (\<lambda>_. l)"
proof (induction plats arbitrary: out)
  case (Cons p ps)
  have "extends_by ps (out(p := out p @ [l])) (add_to_platforms l ps (out(p := out p @ [l]))) (\<lambda>_. l)"
    using Cons by simp
  then show ?case using Cons.prems by (auto simp: extends_by_def)
qed (simp add: extends_by_def)

lemma build_per_platform_extends:
  "build_per_platform ev ops i images plats out = Inr out' \<Longrightarrow> distinct plats \<Longrightarrow>
   \<exists>f. extends_by plats out out' f \<and>
     (\<forall>p \<in> set plats. images p \<noteq> None \<and> build_layer ev ops (i\<lparr>in_image := images p\<rparr>) = Inr (f p))"
proof (induction plats arbitrary: out)
  case Nil
  then show ?case by (simp add: extends_by_def)
next
  case (Cons p ps)
  obtain img l where pl: "images p = Some img" "build_layer ev ops (i\<lparr>in_image := Some img\<rparr>) = Inr l"
    "build_per_platform ev ops i images ps (out(p := out p @ [l])) = Inr out'"
    using Cons.prems(1) by (auto split: option.splits sum.splits)
  obtain f where f: "extends_by ps (out(p := out p @ [l])) out' f"
    "\<forall>q \<in> set ps. images q \<noteq> None \<and> build_layer ev ops (i\<lparr>in_image := images q\<rparr>) = Inr (f q)"
    using Cons.IH[OF pl(3)] Cons.prems(2) by (auto simp del: fun_upd_apply)
  have "extends_by (p # ps) out out' (f(p := l))"
    using f(1) Cons.prems(2) by (auto simp: extends_by_def)
  moreover have "\<forall>q \<in> set (p # ps). images q \<noteq> None \<and>
      build_layer ev ops (i\<lparr>in_image := images q\<rparr>) = Inr ((f(p := l)) q)"
    using f(2) pl by auto
  ultimately show ?case by blast
qed

lemma build_layers_extends:
  "build_layers ev ops plats is out = Inr out' \<Longrightarrow> distinct plats \<Longrightarrow> p \<in> set plats \<Longrightarrow>
   \<exists>ls. out' p = out p @ ls \<and> list_all2 (\<lambda>i l. build_layer ev ops (input_for p i) = Inr l) is ls"
proof (induction "is" arbitrary: out)
  case Nil
  then show ?case by simp
next
  case (Cons i "is")
  obtain out1 f where o1: "build_layers ev ops plats is out1 = Inr out'" "extends_by plats out out1 f"
    "build_layer ev ops (input_for p i) = Inr (f p)"
  proof (cases "in_images i")
    case None
    then obtain l where "build_layer ev ops i = Inr l"
      "build_layers ev ops plats is (add_to_platforms l plats out) = Inr out'"
      using Cons.prems(1) by (auto split: sum.splits)
    with None show ?thesis
      using that[OF _ add_to_platforms_extends[OF Cons.prems(2)]] by (simp add: input_for_def)
  next
    case (Some images)
    then obtain out1 where o1: "build_per_platform ev ops i images plats out = Inr out1"
      "build_layers ev ops plats is out1 = Inr out'"
      using Cons.prems(1) by (auto split: sum.splits)
    from build_per_platform_extends[OF o1(1) Cons.prems(2)] o1(2) Some Cons.prems(3)
    show ?thesis using that by (auto simp: input_for_def)
  qed
  obtain ls where ls: "out' p = out1 p @ ls"
    "list_all2 (\<lambda>i l. build_layer ev ops (input_for p i) = Inr l) is ls"
    using Cons.IH[OF o1(1) Cons.prems(2,3)] by blast
  then have "out' p = out p @ (f p # ls)"
    using o1(2) Cons.prems(3) by (simp add: extends_by_def)
  with ls(2) o1(3) show ?case by (intro exI[of _ "f p # ls"]) simp
qed

text \<open>
  Every platform of a build gets one layer per input, in the order of the spec, each
  the layer of that input as the platform sees it; so two platforms have the same layers wherever
  the input is not a multi-architecture image.
\<close>

theorem layers_per_platform:
  assumes "build_layers ev ops plats is no_layers = Inr out" "distinct plats" "p \<in> set plats"
  shows "list_all2 (\<lambda>i l. build_layer ev ops (input_for p i) = Inr l) is (out p) \<and>
    (\<forall>q \<in> set plats. length (out q) = length is \<and>
       (\<forall>k < length is. in_images (is ! k) = None \<longrightarrow> out p ! k = out q ! k))"
proof -
  have l: "list_all2 (\<lambda>i l. build_layer ev ops (input_for q i) = Inr l) is (out q)"
    if "q \<in> set plats" for q
    using build_layers_extends[OF assms(1,2) that] by (auto simp: no_layers_def)
  have "out p ! k = out q ! k"
    if "q \<in> set plats" "k < length is" "in_images (is ! k) = None" for q k
    using list_all2_nthD[OF l[OF that(1)] that(2)] list_all2_nthD[OF l[OF assms(3)] that(2)] that(3)
    by (simp add: input_for_def)
  moreover have "length (out q) = length is" if "q \<in> set plats" for q
    using list_all2_lengthD[OF l[OF that]] by simp
  ultimately show ?thesis using l[OF assms(3)] by blast
qed

definition two_platforms :: "platform list" where
  "two_platforms = [\<lparr>p_os = ''linux'', p_arch = ''amd64'', p_variant = []\<rparr>,
                    \<lparr>p_os = ''linux'', p_arch = ''arm64'', p_variant = []\<rparr>]"

text \<open>An image library for concrete inputs: an image is its config, a layer its headers.\<close>

definition plain_config :: config_file where
  "plain_config = \<lparr>cf_created = 7, cf_author = ''me'', cf_os = ''linux'', cf_arch = ''arm64'',
     cf_variant = [], cf_rootfs = [], cf_history = [''h''],
     cf_config = empty_run_config\<lparr>rc_user := ''root'', rc_cmd := [''sh'']\<rparr>\<rparr>"

definition config_images :: "(config_file, out_header list) image_ops" where
  "config_images =
     \<lparr>io_empty = plain_config\<lparr>cf_config := empty_run_config\<rparr>, io_oci_types = (\<lambda>i. i),
      io_layer = Inr, io_append = (\<lambda>i l. Inr (i\<lparr>cf_rootfs := cf_rootfs i @ [''layer'']\<rparr>)),
      io_config = Inr, io_set_config = (\<lambda>i cf. Inr cf), io_digest = (\<lambda>i. Inr ''sha256:bb''),
      io_annotate = (\<lambda>i ann. Some i)\<rparr>"

definition sample_removal :: "config_file layer_input" where
  "sample_removal =
     \<lparr>in_name = ''rm'', in_identity = [], in_url = [], in_path = [], in_image = None,
      in_images = None, in_digest = [], in_unpack = [], in_subpath = [], in_strip = 0,
      in_target = [], in_remove = [''/etc/passwd''], in_uid = 0, in_gid = 0, in_file_mode = 0,
      in_dir_mode = 0\<rparr>"

definition empty_env :: "'img content_env" where
  "empty_env =
     \<lparr>ev_open = (\<lambda>p. None),
      ev_codecs = \<lparr>cd_gunzip = (\<lambda>s. Inr (s, None)), cd_unxz = (\<lambda>s. Inr (s, None)),
                   cd_unzstd = (\<lambda>s. Inr (s, None)), cd_bunzip2 = (\<lambda>s. (s, None))\<rparr>,
      ev_untar = (\<lambda>s. []), ev_unzip = (\<lambda>s. None), ev_flatten = (\<lambda>u. [])\<rparr>"

lemma sample_removal_layer:
  "build_layer empty_env config_images sample_removal =
     Inr [out_header_of sample_removal (file_entry ''etc/.wh.passwd'' 420 [])]"
  by code_simp

theorem layers_per_platform_witness:
  "list_all2 (\<lambda>i l. build_layer empty_env config_images (input_for (hd two_platforms) i) = Inr l)
     [sample_removal]
     (add_to_platforms [out_header_of sample_removal (file_entry ''etc/.wh.passwd'' 420 [])]
        two_platforms no_layers (hd two_platforms))"
proof -
  let ?out = "add_to_platforms [out_header_of sample_removal (file_entry ''etc/.wh.passwd'' 420 [])]
        two_platforms no_layers"
  have "build_layers empty_env config_images two_platforms [sample_removal] no_layers = Inr ?out"
    using sample_removal_layer by (simp add: sample_removal_def)
  moreover have "distinct two_platforms" "hd two_platforms \<in> set two_platforms"
    by (simp_all add: two_platforms_def)
  ultimately show ?thesis using layers_per_platform by blast
qed

subsection \<open>The stamped config\<close>

lemma append_all_Inr:
  "append_all ops ls img = Inr img' \<Longrightarrow> (\<And>i l i'. io_append ops i l = Inr i' \<Longrightarrow> P i \<Longrightarrow> P i') \<Longrightarrow>
   P img \<Longrightarrow> P img'"
  by (induction ls arbitrary: img) (auto split: sum.splits)

text \<open>
  A successful build stamps the fixed creation time, the platform asked for, no author
  and no history; its runtime config is the spec's settings over an empty config, or over the base's
  own config when the spec asks to inherit. Nothing of the base's config is acquired otherwise. The
  hypotheses are the image library's documented behaviour: a config that was set is read back, also
  after annotating.
\<close>

theorem stamped_config:
  assumes lib: "\<And>i cf i'. io_set_config ops i cf = Inr i' \<Longrightarrow> io_config ops i' = Inr cf"
    "\<And>i ann i'. io_annotate ops i ann = Some i' \<Longrightarrow> io_config ops i' = io_config ops i"
    and ok: "assemble_for ops (Some b) layers is cfg plat = Inr img"
  shows "\<exists>cf bc. io_config ops img = Inr cf \<and> (cfg_inherit cfg \<longrightarrow> io_config ops b = Inr bc) \<and>
    cf_created cf = 0 \<and> cf_author cf = [] \<and> cf_history cf = [] \<and>
    cf_os cf = p_os plat \<and> cf_arch cf = p_arch plat \<and> cf_variant cf = p_variant plat \<and>
    cf_config cf = override_config cfg (if cfg_inherit cfg then cf_config bc else empty_run_config)"
proof -
  obtain img1 cf cf1 img2 where
    s: "starting_config ops (Some b) cfg cf = Inr cf1"
      "io_set_config ops img1 (stamp_config cfg plat cf1) = Inr img2"
      "img = with_provenance ops img2 (Some b) is"
    using ok by (auto simp: assemble_for_def split: sum.splits)
  have "io_config ops img = Inr (stamp_config cfg plat cf1)"
    using lib(1)[OF s(2)] lib(2) s(3)
    by (auto simp: with_provenance_def Let_def split: option.splits)
  moreover have "\<exists>bc. (cfg_inherit cfg \<longrightarrow> io_config ops b = Inr bc) \<and>
      cf_config cf1 = (if cfg_inherit cfg then cf_config bc else empty_run_config)"
    using s(1) by (auto simp: starting_config_def split: if_splits sum.splits)
  ultimately show ?thesis by (auto simp: stamp_config_def epoch_def)
qed

definition sample_config :: config where
  "sample_config =
     \<lparr>cfg_inherit = False, cfg_labels = [(''a'', ''b'')], cfg_env = [], cfg_entrypoint = [''/run''],
      cfg_cmd = [], cfg_user = [], cfg_workdir = [], cfg_ports = [], cfg_volumes = [], cfg_stop = []\<rparr>"

theorem stamped_config_witness:
  "\<exists>img cf. assemble_for config_images (Some plain_config) [] [sample_removal] sample_config
       (hd two_platforms) = Inr img \<and> io_config config_images img = Inr cf \<and>
     cf_created cf = 0 \<and> rc_user (cf_config cf) = []"
proof -
  let ?r = "assemble_for config_images (Some plain_config) [] [sample_removal] sample_config
       (hd two_platforms)"
  obtain img where i: "?r = Inr img"
    by (simp add: assemble_for_def config_images_def starting_config_def sample_config_def)
  obtain cf where "io_config config_images img = Inr cf" "cf_created cf = 0"
    "cf_config cf = override_config sample_config empty_run_config"
    using stamped_config[OF _ _ i] by (auto simp: config_images_def sample_config_def)
  with i show ?thesis
    by (auto simp: override_config_def sample_config_def empty_run_config_def)
qed

subsection \<open>Deletions\<close>

text \<open>
  An entry that removes paths contributes exactly one whiteout per path, in the
  cleaned path's own directory and named after its last component, never the root's.
\<close>

theorem removal_whiteouts:
  assumes "in_remove i \<noteq> []" "collect_entries ev i = Inr es"
  shows "list_all2 (\<lambda>p e. \<exists>cs c. target_comps p = cs @ [c] \<and>
      te_name e = join [slash] (cs @ [''.wh.'' @ c]) \<and> te_body e = [] \<and> \<not> te_dir e)
    (in_remove i) es"
proof -
  have one: "\<exists>cs c. target_comps p = cs @ [c] \<and>
      te_name e = join [slash] (cs @ [''.wh.'' @ c]) \<and> te_body e = [] \<and> \<not> te_dir e"
    if w: "whiteout p = Inr e" for p e
  proof -
    have ct: "trim_prefix (path_clean (slash # p)) ''/'' = join [slash] (target_comps p)"
      using clean_target_join[of p] by (simp add: clean_target_def)
    have ne: "target_comps p \<noteq> []" using w ct by (auto simp: whiteout_def Let_def)
    then obtain cs c where cs: "target_comps p = cs @ [c]" by (metis rev_exhaust)
    then have pl: "list_all plain cs" "plain c" using target_comps_plain[of p] by simp_all
    have e: "e = (case path_split (join [slash] (cs @ [c])) of (dir, base) \<Rightarrow>
        file_entry (dir @ ''.wh.'' @ base) 420 [])"
      using w ct cs by (auto simp: whiteout_def Let_def split: if_splits prod.splits)
    show ?thesis
      using e cs path_split_join[OF pl]
      by (cases "cs = []") (auto simp: join_append file_entry_def)
  qed
  have "list_all2 (\<lambda>p e. whiteout p = Inr e) (in_remove i) es"
    using assms by (simp add: collect_entries_def map_list_res_Inr)
  then show ?thesis by (rule list_all2_mono) (rule one)
qed

theorem removal_whiteouts_witness:
  "list_all2 (\<lambda>p e. \<exists>cs c. target_comps p = cs @ [c] \<and>
      te_name e = join [slash] (cs @ [''.wh.'' @ c]) \<and> te_body e = [] \<and> \<not> te_dir e)
    (in_remove sample_removal) [file_entry ''etc/.wh.passwd'' 420 []]"
proof (rule removal_whiteouts)
  show "in_remove sample_removal \<noteq> []" by (simp add: sample_removal_def)
  show "collect_entries empty_env sample_removal = Inr [file_entry ''etc/.wh.passwd'' 420 []]"
    by code_simp
qed

end
