(* ===== verification/Input_Hash.thy ===== *)
theory Input_Hash
  imports Assemble_Theorems "HOL-Library.Multiset"
begin

section \<open>What the input hashes cover\<close>

text \<open>
  \<^verbatim>\<open>oci.InputHash\<close> (\<^verbatim>\<open>internal/oci/assemble.go\<close>) and \<^verbatim>\<open>Inputs.Hash\<close>
  (\<^verbatim>\<open>internal/build/inputhash.go\<close>). Both feed a byte stream to SHA-256; the stream is modelled
  as the code writes it and the digest function is an argument. The locale states what makes such a
  stream collision-free: what one writer emits determines what it wrote and where it stopped.
\<close>

subsection \<open>The stream of the composer\<close>

definition write_field :: "string \<Rightarrow> string" where
  "write_field s = show_nat (length s) @ '':'' @ s"

text \<open>\<^verbatim>\<open>fmt.Fprintf(h, "tag=%d;", n)\<close>\<close>

definition write_num :: "string \<Rightarrow> int \<Rightarrow> string" where
  "write_num tag n = tag @ ''='' @ show_int n @ '';''"

definition write_bool :: "string \<Rightarrow> bool \<Rightarrow> string" where
  "write_bool tag b = tag @ ''='' @ (if b then ''true'' else ''false'') @ '';''"

definition write_all :: "('a \<Rightarrow> string) \<Rightarrow> 'a list \<Rightarrow> string" where
  "write_all f xs = concat (map f xs)"

definition write_list :: "string \<Rightarrow> ('a \<Rightarrow> string) \<Rightarrow> 'a list \<Rightarrow> string" where
  "write_list tag f xs = write_num tag (int (length xs)) @ write_all f xs"

text \<open>A Go map: its keys sorted, then each key with its value.\<close>

definition sorted_keys :: "(string \<times> string) list \<Rightarrow> string list" where
  "sorted_keys m = sort (remdups (map fst m))"

definition write_entry :: "string \<times> string \<Rightarrow> string" where
  "write_entry kv = (case kv of (k, v) \<Rightarrow> write_field k @ write_field v)"

definition map_entries :: "(string \<times> string) list \<Rightarrow> (string \<times> string) list" where
  "map_entries m = map (\<lambda>k. (k, the (map_of m k))) (sorted_keys m)"

definition hash_layer :: "'img layer_input \<Rightarrow> string" where
  "hash_layer i =
     write_field (identity i) @ write_field (in_unpack i) @ write_field (in_subpath i) @
     write_num ''strip'' (in_strip i) @ write_field (in_target i) @
     write_num ''u'' (in_uid i) @ write_num ''g'' (in_gid i) @
     write_num ''fm'' (in_file_mode i) @ write_num ''dm'' (in_dir_mode i) @
     write_list ''rm'' write_field (in_remove i)"

definition hash_config :: "config \<Rightarrow> string" where
  "hash_config cfg =
     write_bool ''inherit'' (cfg_inherit cfg) @ write_field (cfg_user cfg) @
     write_field (cfg_workdir cfg) @ write_field (cfg_stop cfg) @
     write_list ''labels'' write_entry (map_entries (cfg_labels cfg)) @
     write_all (write_list ''n'' write_field)
       [cfg_env cfg, cfg_entrypoint cfg, cfg_cmd cfg, cfg_ports cfg, cfg_volumes cfg]"

definition input_preimage ::
    "'img layer_input list \<Rightarrow> config \<Rightarrow> string \<Rightarrow> platform list \<Rightarrow> string" where
  "input_preimage is cfg base plats =
     write_field (''assembly-v'' @ show_nat assembly_version) @ write_field base @
     write_list ''platforms'' (\<lambda>p. write_field (platform_string p)) plats @
     write_list ''layers'' hash_layer is @ hash_config cfg"

definition hex_encode :: "string \<Rightarrow> string" where
  "hex_encode bs = concat (map (\<lambda>c. let n = of_char c :: nat in [hex_digit (n div 16), hex_digit (n mod 16)]) bs)"

definition input_hash ::
    "(string \<Rightarrow> string) \<Rightarrow> 'img layer_input list \<Rightarrow> config \<Rightarrow> string \<Rightarrow> platform list \<Rightarrow> string" where
  "input_hash sha256 is cfg base plats = ''sha256:'' @ hex_encode (sha256 (input_preimage is cfg base plats))"

subsection \<open>The stream of the builder\<close>

record build_inputs =
  bi_builder :: string
  bi_frontend :: string
  bi_fetcher :: string
  bi_context_kind :: string
  bi_context_digest :: string
  bi_context_revision :: string
  bi_context_subpath :: string
  bi_context_strip :: int
  bi_context_unpack :: string
  bi_dockerfile_kind :: string
  bi_dockerfile :: string
  bi_dockerfile_digest :: string
  bi_target :: string
  bi_network :: string
  bi_cache_mode :: string
  bi_cache_ref :: string
  bi_attestations :: string
  bi_epoch :: string
  bi_platforms :: "string list"
  bi_args :: "(string \<times> string) list"
  bi_secrets :: "string list"

definition recipe_version :: nat where
  "recipe_version = 2"

definition build_preimage :: "build_inputs \<Rightarrow> string" where
  "build_preimage b =
     write_field (''recipe-v'' @ show_nat recipe_version) @ write_field (bi_builder b) @
     write_field (bi_frontend b) @ write_field (bi_fetcher b) @ write_field (bi_context_kind b) @
     write_field (bi_context_digest b) @ write_field (bi_context_subpath b) @
     write_num ''strip'' (bi_context_strip b) @ write_field (bi_context_unpack b) @
     write_field (bi_dockerfile_kind b) @ write_field (bi_dockerfile b) @
     write_field (bi_dockerfile_digest b) @ write_field (bi_target b) @
     write_field (bi_network b) @ write_field (bi_cache_mode b) @ write_field (bi_cache_ref b) @
     write_field (bi_epoch b) @ write_field (bi_attestations b) @
     write_list ''platforms'' write_field (bi_platforms b) @
     write_list ''args'' write_entry (map_entries (bi_args b)) @
     write_list ''secrets'' write_field (sort (bi_secrets b))"

definition build_hash :: "(string \<Rightarrow> string) \<Rightarrow> build_inputs \<Rightarrow> string" where
  "build_hash sha256 b = ''sha256:'' @ hex_encode (sha256 (build_preimage b))"

subsection \<open>Writers that can be read back\<close>

text \<open>
  The contract of a writer: what it emits, followed by anything, determines the part \<open>key\<close> of its
  argument that matters and where its output ended, and is determined by that part.
\<close>

locale stream_writer =
  fixes enc :: "'a \<Rightarrow> string" and key :: "'a \<Rightarrow> 'k"
  assumes enc_cancel: "enc x @ r = enc y @ s \<Longrightarrow> key x = key y \<and> r = s"
    and enc_cong: "key x = key y \<Longrightarrow> enc x = enc y"
begin

lemma cancel_iff: "enc x @ r = enc y @ s \<longleftrightarrow> key x = key y \<and> r = s"
  using enc_cancel enc_cong by blast

lemma enc_iff: "enc x = enc y \<longleftrightarrow> key x = key y"
  using cancel_iff[of x "[]" y "[]"] by simp

lemma all_cancel:
  "length xs = length ys \<Longrightarrow>
   write_all enc xs @ r = write_all enc ys @ s \<longleftrightarrow> map key xs = map key ys \<and> r = s"
  by (induction xs ys rule: list_induct2) (auto simp: write_all_def cancel_iff)

end

lemma show_chars:
  "CHR '':'' \<notin> set (show_nat n)" "CHR '';'' \<notin> set (show_int i)"
  using show_nat_digits[of n] show_int_chars[of "CHR '';''" i]
  by (auto simp: list_all_iff is_digit_def)

interpretation field_writer: stream_writer write_field "\<lambda>s. s"
proof
  fix x r y s assume "write_field x @ r = write_field y @ s"
  then have "show_nat (length x) @ CHR '':'' # x @ r = show_nat (length y) @ CHR '':'' # y @ s"
    by (simp add: write_field_def)
  then have "length x = length y" "x @ r = y @ s"
    using until_sep_cancel[OF show_chars(1) show_chars(1)] by auto
  then show "x = y \<and> r = s" by simp
qed simp

interpretation num_writer: stream_writer "write_num tag" "\<lambda>n. n"
proof
  fix x r y s assume "write_num tag x @ r = write_num tag y @ s"
  then have "show_int x @ CHR '';'' # r = show_int y @ CHR '';'' # s"
    by (simp add: write_num_def)
  then show "x = y \<and> r = s"
    using until_sep_cancel[OF show_chars(2) show_chars(2)] by auto
qed simp

interpretation bool_writer: stream_writer "write_bool tag" "\<lambda>b. b"
  by unfold_locales (auto simp: write_bool_def split: if_splits)

interpretation entry_writer: stream_writer write_entry "\<lambda>kv. kv"
  by unfold_locales (auto simp: write_entry_def field_writer.cancel_iff split: prod.splits)

text \<open>A counted list of what a writer can write is written by a writer.\<close>

lemma write_list_cancel:
  assumes "stream_writer enc key"
  shows "write_list tag enc xs @ r = write_list tag enc ys @ s \<longleftrightarrow> map key xs = map key ys \<and> r = s"
proof -
  have "write_list tag enc xs @ r = write_list tag enc ys @ s \<longleftrightarrow>
      length xs = length ys \<and> write_all enc xs @ r = write_all enc ys @ s"
    by (simp add: write_list_def num_writer.cancel_iff)
  also have "\<dots> \<longleftrightarrow> map key xs = map key ys \<and> r = s"
    using stream_writer.all_cancel[OF assms] by (metis length_map)
  finally show ?thesis .
qed

lemma write_list_writer:
  assumes "stream_writer enc key"
  shows "stream_writer (write_list tag enc) (map key)"
proof
  fix xs r ys s assume "write_list tag enc xs @ r = write_list tag enc ys @ s"
  then show "map key xs = map key ys \<and> r = s" by (simp add: write_list_cancel[OF assms])
next
  fix xs ys :: "'a list" assume "map key xs = map key ys"
  then show "write_list tag enc xs = write_list tag enc ys"
    using write_list_cancel[OF assms, of tag xs "[]" ys "[]"] by simp
qed

interpretation fields_writer: stream_writer "write_list tag write_field" "\<lambda>xs. xs"
  using write_list_writer[OF field_writer.stream_writer_axioms] by simp

interpretation entries_writer: stream_writer "write_list tag write_entry" "\<lambda>xs. xs"
  using write_list_writer[OF entry_writer.stream_writer_axioms] by simp

interpretation platform_writer:
  stream_writer "write_list tag (\<lambda>p. write_field (platform_string p))" "map platform_string"
  by (rule write_list_writer) (unfold_locales, auto simp: field_writer.cancel_iff)

subsection \<open>What determines the stream\<close>

lemma sorted_keys_set [simp]: "set (sorted_keys m) = dom (map_of m)"
  by (simp add: sorted_keys_def dom_map_of_conv_image_fst)

lemma map_entries_iff: "map_entries m = map_entries m' \<longleftrightarrow> map_of m = map_of m'"
proof
  assume e: "map_entries m = map_entries m'"
  have "map fst (map_entries m) = map fst (map_entries m')" using e by simp
  then have k: "sorted_keys m = sorted_keys m'" by (simp add: map_entries_def comp_def)
  show "map_of m = map_of m'"
  proof
    fix x
    show "map_of m x = map_of m' x"
    proof (cases "x \<in> dom (map_of m)")
      case True
      have d: "x \<in> dom (map_of m')" using True k by (metis sorted_keys_set)
      have "the (map_of m x) = the (map_of m' x)"
        using e k True sorted_keys_set[of m] by (simp add: map_entries_def)
      with True d show ?thesis by (metis domIff option.expand)
    next
      case False
      moreover have "x \<notin> dom (map_of m')" using False k by (metis sorted_keys_set)
      ultimately show ?thesis by (auto simp: dom_def)
    qed
  qed
next
  assume m: "map_of m = map_of m'"
  have "sorted_keys m = sorted_keys m'"
    unfolding sorted_keys_def
    by (rule sorted_distinct_set_unique) (use m in \<open>simp_all flip: dom_map_of_conv_image_fst\<close>)
  then show "map_entries m = map_entries m'" using m by (simp add: map_entries_def)
qed

text \<open>The fields of an input that matter to the hash; its name, URL and content handles do not.\<close>

definition layer_key ::
    "'img layer_input \<Rightarrow> string \<times> string \<times> string \<times> int \<times> string \<times>
     (int \<times> int \<times> int \<times> int) \<times> string list" where
  "layer_key i = (identity i, in_unpack i, in_subpath i, in_strip i, in_target i,
     (in_uid i, in_gid i, in_file_mode i, in_dir_mode i), in_remove i)"

definition config_key ::
    "config \<Rightarrow> bool \<times> string \<times> string \<times> string \<times> (string \<rightharpoonup> string) \<times> string list list" where
  "config_key cfg = (cfg_inherit cfg, cfg_user cfg, cfg_workdir cfg, cfg_stop cfg,
     map_of (cfg_labels cfg),
     [cfg_env cfg, cfg_entrypoint cfg, cfg_cmd cfg, cfg_ports cfg, cfg_volumes cfg])"

interpretation layer_writer: stream_writer hash_layer layer_key
  by unfold_locales
    (auto simp: hash_layer_def layer_key_def field_writer.cancel_iff num_writer.cancel_iff
      fields_writer.cancel_iff)

interpretation layers_writer: stream_writer "write_list tag hash_layer" "map layer_key"
  by (rule write_list_writer[OF layer_writer.stream_writer_axioms])

interpretation config_writer: stream_writer hash_config config_key
proof
  fix x r y s assume "hash_config x @ r = hash_config y @ s"
  then show "config_key x = config_key y \<and> r = s"
    by (simp add: hash_config_def config_key_def bool_writer.cancel_iff field_writer.cancel_iff
        entries_writer.cancel_iff map_entries_iff fields_writer.all_cancel)
next
  fix x y assume "config_key x = config_key y"
  then show "hash_config x = hash_config y"
    by (simp add: hash_config_def config_key_def map_entries_iff[symmetric])
qed

lemma input_preimage_iff:
  fixes "is" is' :: "'img layer_input list"
  shows "input_preimage is cfg base plats = input_preimage is' cfg' base' plats' \<longleftrightarrow>
     map layer_key is = map layer_key is' \<and> config_key cfg = config_key cfg' \<and> base = base' \<and>
     map platform_string plats = map platform_string plats'"
  by (auto simp: input_preimage_def field_writer.cancel_iff platform_writer.cancel_iff
      layers_writer.cancel_iff config_writer.enc_iff)

lemma hex_digit_inject: "a < 16 \<Longrightarrow> b < 16 \<Longrightarrow> hex_digit a = hex_digit b \<longleftrightarrow> a = b"
proof -
  have c: "(of_char (hex_digit d) :: nat) = (if d < 10 then 48 + d else 87 + d)" if "d < 16" for d
    using that by (simp add: hex_digit_def)
  assume a: "a < 16" and b: "b < 16"
  show ?thesis
  proof
    assume "hex_digit a = hex_digit b"
    then have "(if a < 10 then 48 + a else 87 + a) = (if b < 10 then 48 + b else 87 + b)"
      using c[OF a] c[OF b] by metis
    then show "a = b" by (simp split: if_splits)
  qed simp
qed

lemma hex_encode_inject: "hex_encode a = hex_encode b \<longleftrightarrow> a = b"
proof (induction a arbitrary: b)
  case Nil
  then show ?case by (cases b) (simp_all add: hex_encode_def Let_def)
next
  case (Cons x xs)
  show ?case
  proof (cases b)
    case Nil
    then show ?thesis by (simp add: hex_encode_def Let_def)
  next
    case (Cons y ys)
    let ?x = "of_char x :: nat" and ?y = "of_char y :: nat"
    have "?x < 256" "?y < 256" by simp_all
    then have "?x div 16 < 16" "?y div 16 < 16" by (auto intro!: less_mult_imp_div_less)
    then have "hex_encode (x # xs) = hex_encode (y # ys) \<longleftrightarrow>
        ?x div 16 = ?y div 16 \<and> ?x mod 16 = ?y mod 16 \<and> hex_encode xs = hex_encode ys"
      by (simp add: hex_encode_def Let_def hex_digit_inject)
    also have "\<dots> \<longleftrightarrow> ?x = ?y \<and> hex_encode xs = hex_encode ys"
      by (metis div_mult_mod_eq)
    finally show ?thesis using Cons Cons.IH by simp
  qed
qed

text \<open>
  Property C6. The composer's input hash is complete and sound up to a collision of SHA-256: two
  specs get one hash only if they agree on every hashed field (labels compared as a map), and then
  they do. No combination of values shifts from one field into the next.
\<close>

theorem input_hash_exact:
  fixes "is" is' :: "'img layer_input list"
  shows "(map layer_key is = map layer_key is' \<and> config_key cfg = config_key cfg' \<and> base = base' \<and>
      map platform_string plats = map platform_string plats' \<longrightarrow>
      input_hash h is cfg base plats = input_hash h is' cfg' base' plats') \<and>
    (input_hash h is cfg base plats = input_hash h is' cfg' base' plats' \<longrightarrow>
      map layer_key is = map layer_key is' \<and> config_key cfg = config_key cfg' \<and> base = base' \<and>
      map platform_string plats = map platform_string plats' \<or>
      (\<exists>x y. x \<noteq> y \<and> h x = h y))"
  unfolding input_preimage_iff[symmetric] input_hash_def
  by (auto simp: hex_encode_inject)

theorem input_hash_exact_witness:
  "input_hash (\<lambda>s. s) [sample_input] sample_config [] two_platforms =
     input_hash (\<lambda>s. s) [sample_input\<lparr>in_name := ''other'', in_url := ''http://b''\<rparr>] sample_config [] two_platforms \<and>
   input_hash (\<lambda>s. s) [sample_input] sample_config [] two_platforms \<noteq>
     input_hash (\<lambda>s. s) [sample_input\<lparr>in_strip := 0\<rparr>] sample_config [] two_platforms"
proof (rule conjI)
  note e = input_hash_exact[of "[sample_input]"]
  let ?j = "sample_input\<lparr>in_name := ''other'', in_url := ''http://b''\<rparr>"
  have "map layer_key [sample_input] = map layer_key [?j]"
    by (simp add: layer_key_def identity_def sample_input_def)
  then show "input_hash (\<lambda>s. s) [sample_input] sample_config [] two_platforms =
     input_hash (\<lambda>s. s) [?j] sample_config [] two_platforms"
    using conjunct1[OF e] by blast
  have "map layer_key [sample_input] \<noteq> map layer_key [sample_input\<lparr>in_strip := 0\<rparr>]"
    by (simp add: layer_key_def sample_input_def)
  then show "input_hash (\<lambda>s. s) [sample_input] sample_config [] two_platforms \<noteq>
     input_hash (\<lambda>s. s) [sample_input\<lparr>in_strip := 0\<rparr>] sample_config [] two_platforms"
    using conjunct2[OF e] by blast
qed

definition build_key ::
    "build_inputs \<Rightarrow>
     (string \<times> string \<times> string \<times> string \<times> string \<times> string \<times> int \<times> string) \<times>
     (string \<times> string \<times> string \<times> string \<times> string \<times> string \<times> string \<times> string \<times> string) \<times>
     string list \<times> (string \<rightharpoonup> string) \<times> string multiset" where
  "build_key b =
     ((bi_builder b, bi_frontend b, bi_fetcher b, bi_context_kind b, bi_context_digest b,
       bi_context_subpath b, bi_context_strip b, bi_context_unpack b),
      (bi_dockerfile_kind b, bi_dockerfile b, bi_dockerfile_digest b, bi_target b, bi_network b,
       bi_cache_mode b, bi_cache_ref b, bi_attestations b, bi_epoch b),
      bi_platforms b, map_of (bi_args b), mset (bi_secrets b))"

lemma sort_eq_iff: "sort xs = sort ys \<longleftrightarrow> mset xs = mset (ys :: 'a :: linorder list)"
  by (metis mset_sort properties_for_sort sorted_sort)

lemma build_preimage_iff: "build_preimage a = build_preimage b \<longleftrightarrow> build_key a = build_key b"
  by (auto simp: build_preimage_def build_key_def field_writer.cancel_iff num_writer.cancel_iff
      fields_writer.cancel_iff fields_writer.enc_iff entries_writer.cancel_iff map_entries_iff
      sort_eq_iff)

text \<open>
  Property C30. The builder's input hash separates builds that differ in any field that determines
  the output, up to a collision of SHA-256. The order of build arguments and of secrets does not
  reach it, the order of platforms does, and the context revision does not.
\<close>

theorem build_hash_exact:
  "(build_key a = build_key b \<longrightarrow> build_hash h a = build_hash h b) \<and>
   (build_hash h a = build_hash h b \<longrightarrow> build_key a = build_key b \<or> (\<exists>x y. x \<noteq> y \<and> h x = h y))"
  unfolding build_preimage_iff[symmetric] build_hash_def
  by (auto simp: hex_encode_inject)

definition sample_build :: build_inputs where
  "sample_build =
     \<lparr>bi_builder = ''b'', bi_frontend = ''f'', bi_fetcher = ''x'', bi_context_kind = ''fetch'',
      bi_context_digest = ''sha256:cc'', bi_context_revision = ''v1'', bi_context_subpath = [],
      bi_context_strip = 1, bi_context_unpack = ''tar.gz'', bi_dockerfile_kind = ''path'',
      bi_dockerfile = ''Dockerfile'', bi_dockerfile_digest = [], bi_target = [], bi_network = [],
      bi_cache_mode = [], bi_cache_ref = [], bi_attestations = [], bi_epoch = ''0'',
      bi_platforms = [''linux/amd64'', ''linux/arm64''], bi_args = [(''A'', ''1''), (''B'', ''2'')],
      bi_secrets = [''s/1'', ''t/2'']\<rparr>"

theorem build_hash_exact_witness:
  "build_hash (\<lambda>s. s) sample_build =
     build_hash (\<lambda>s. s) (sample_build\<lparr>bi_args := [(''B'', ''2''), (''A'', ''1'')],
        bi_secrets := [''t/2'', ''s/1''], bi_context_revision := ''v2''\<rparr>) \<and>
   build_hash (\<lambda>s. s) sample_build \<noteq>
     build_hash (\<lambda>s. s) (sample_build\<lparr>bi_platforms := [''linux/arm64'', ''linux/amd64'']\<rparr>)"
proof (rule conjI)
  let ?b = "sample_build\<lparr>bi_args := [(''B'', ''2''), (''A'', ''1'')],
        bi_secrets := [''t/2'', ''s/1''], bi_context_revision := ''v2''\<rparr>"
  have "build_key sample_build = build_key ?b"
    by (auto simp: build_key_def sample_build_def)
  then show "build_hash (\<lambda>s. s) sample_build = build_hash (\<lambda>s. s) ?b"
    using conjunct1[OF build_hash_exact] by blast
  let ?c = "sample_build\<lparr>bi_platforms := [''linux/arm64'', ''linux/amd64'']\<rparr>"
  have "build_key sample_build \<noteq> build_key ?c"
    by (simp add: build_key_def sample_build_def)
  then show "build_hash (\<lambda>s. s) sample_build \<noteq> build_hash (\<lambda>s. s) ?c"
    using conjunct2[OF build_hash_exact, of "\<lambda>s. s" sample_build ?c] by blast
qed

subsection \<open>Hash and output\<close>

text \<open>
  Whatever of an input besides its content reaches the layer is hashed: inputs that
  agree on the hashed fields and carry the same content build the same layer or the same error.
\<close>

theorem hash_covers_layer:
  assumes "layer_key i = layer_key j" "in_path i = in_path j" "in_image i = in_image j"
  shows "build_layer ev ops i = build_layer ev ops j"
proof -
  have f: "in_unpack i = in_unpack j" "in_subpath i = in_subpath j" "in_strip i = in_strip j"
    "in_target i = in_target j" "in_uid i = in_uid j" "in_gid i = in_gid j"
    "in_file_mode i = in_file_mode j" "in_dir_mode i = in_dir_mode j" "in_remove i = in_remove j"
    using assms(1) by (simp_all add: layer_key_def)
  have "out_header_of i = out_header_of j"
    by (rule ext) (simp add: out_header_of_def out_mode_def f)
  then have "layer_headers i es = layer_headers j es" for es
    by (simp add: layer_headers_def)
  moreover have sf: "single_file cd c i = single_file cd c j" for cd c
    by (intro ext) (simp add: single_file_def f)
  have "collect_entries ev i = collect_entries ev j"
    unfolding collect_entries_def f assms(2,3) sf ..
  ultimately show ?thesis by (simp add: build_layer_def split: sum.split)
qed

theorem hash_covers_layer_witness:
  "build_layer empty_env config_images sample_removal =
   build_layer empty_env config_images (sample_removal\<lparr>in_name := ''other''\<rparr>)"
  by (rule hash_covers_layer) (simp_all add: layer_key_def identity_def sample_removal_def)

text \<open>
  The name of an entry is not hashed but is written into the provenance annotation:
  renaming an entry that has an identity leaves the input hash as it is and changes the annotations,
  and with them the manifest.
\<close>

theorem renaming_escapes_hash:
  assumes "identity i \<noteq> []" "n \<noteq> in_name i"
  shows "input_hash h [i] cfg base plats = input_hash h [i\<lparr>in_name := n\<rparr>] cfg base plats \<and>
    provenance_annotations ops b [i] \<noteq> provenance_annotations ops b [i\<lparr>in_name := n\<rparr>]"
proof
  have "layer_key i = layer_key (i\<lparr>in_name := n\<rparr>)" by (simp add: layer_key_def identity_def)
  then show "input_hash h [i] cfg base plats = input_hash h [i\<lparr>in_name := n\<rparr>] cfg base plats"
    using input_preimage_iff[of "[i]" cfg base plats "[i\<lparr>in_name := n\<rparr>]" cfg base plats]
    by (simp add: input_hash_def)
  have "source_parts [i] \<noteq> source_parts [i\<lparr>in_name := n\<rparr>]"
    using assms by (simp add: source_parts_def identity_def)
  moreover have "source_parts [i] \<noteq> []" "source_parts [i\<lparr>in_name := n\<rparr>] \<noteq> []"
    using assms(1) by (auto simp: source_parts_def identity_def)
  ultimately show "provenance_annotations ops b [i] \<noteq> provenance_annotations ops b [i\<lparr>in_name := n\<rparr>]"
    using assms by (simp add: provenance_annotations_def source_parts_def identity_def)
qed

theorem renaming_escapes_hash_witness:
  "provenance_annotations config_images None [sample_removal\<lparr>in_digest := ''sha256:aa''\<rparr>] \<noteq>
   provenance_annotations config_images None
     [sample_removal\<lparr>in_digest := ''sha256:aa''\<rparr>\<lparr>in_name := ''other''\<rparr>]"
proof -
  let ?i = "sample_removal\<lparr>in_digest := ''sha256:aa''\<rparr>"
  have "identity ?i \<noteq> []" "''other'' \<noteq> in_name ?i"
    by (simp_all add: identity_def sample_removal_def)
  then show ?thesis by (rule conjunct2[OF renaming_escapes_hash])
qed

end
