(* ===== verification/Attest.thy ===== *)
theory Attest
  imports Registry_State Input_Hash Effects
begin

section \<open>Supply-chain material\<close>

text \<open>
  \<^verbatim>\<open>internal/attest\<close>: the SBOM and provenance statements, their envelope, the referrer
  manifests that carry them, the signature, and \<^verbatim>\<open>Attestor.Ensure\<close>, which attaches what is
  missing. JSON and base64 encoders, the digest, the signing key and the registry are parameters;
  what is written is a trace.
\<close>

subsection \<open>Statements\<close>

record att_source =
  as_name :: string
  as_uri :: string
  as_digest :: string
  as_version :: string
  as_target :: string

abbreviation (input) predicate_spdx :: string where "predicate_spdx \<equiv> ''https://spdx.dev/Document''"
abbreviation (input) predicate_slsa :: string where "predicate_slsa \<equiv> ''https://slsa.dev/provenance/v1''"
abbreviation (input) media_intoto :: string where "media_intoto \<equiv> ''application/vnd.in-toto+json''"
abbreviation (input) media_dsse :: string where "media_dsse \<equiv> ''application/vnd.dsse.envelope.v1+json''"
abbreviation (input) annotation_predicate :: string where
  "annotation_predicate \<equiv> ''in-toto.io/predicate-type''"

record spdx_package =
  sp_id :: string
  sp_name :: string
  sp_version :: string
  sp_location :: string
  sp_checksum :: "string option"
  sp_comment :: string

record spdx_relationship =
  sx_element :: string
  sx_type :: string
  sx_related :: string

record spdx_document =
  sd_name :: string
  sd_namespace :: string
  sd_created :: string
  sd_packages :: "spdx_package list"
  sd_relations :: "spdx_relationship list"

definition checksum_of :: "string \<Rightarrow> string option" where
  "checksum_of digest =
     (if \<not> has_prefix digest ''sha256:'' then None else Some (trim_prefix digest ''sha256:''))"

definition or_no_assertion :: "string \<Rightarrow> string" where
  "or_no_assertion uri = (if uri = [] then ''NOASSERTION'' else uri)"

definition target_comment :: "string \<Rightarrow> string" where
  "target_comment t = (if t = [] then [] else ''unpacked at '' @ t)"

definition id_char :: "char \<Rightarrow> bool" where
  "id_char c \<longleftrightarrow>
     (97 \<le> byte c \<and> byte c \<le> 122) \<or> (65 \<le> byte c \<and> byte c \<le> 90) \<or> (48 \<le> byte c \<and> byte c \<le> 57) \<or>
     c = CHR ''-'' \<or> c = CHR ''.''"

text \<open>\<^verbatim>\<open>strings.Map\<close> goes rune by rune; an invalid byte is one rune.\<close>

function sanitise :: "string \<Rightarrow> string" where
  "sanitise s =
     (if s = [] then []
      else (let w = max 1 (rune_width s) in
        (if w = 1 \<and> id_char (hd s) then hd s else CHR ''-'') # sanitise (drop w s)))"
  by pat_completeness auto
termination by (relation "measure length") auto

declare sanitise.simps [simp del]

definition layer_id :: "nat \<Rightarrow> att_source \<Rightarrow> string" where
  "layer_id i s = ''SPDXRef-Layer-'' @ show_nat i @ ''-'' @ sanitise (as_name s)"

definition source_package :: "nat \<Rightarrow> att_source \<Rightarrow> spdx_package" where
  "source_package i s =
     \<lparr>sp_id = layer_id i s, sp_name = as_name s, sp_version = as_version s,
      sp_location = or_no_assertion (as_uri s), sp_checksum = checksum_of (as_digest s),
      sp_comment = target_comment (as_target s)\<rparr>"

definition image_package :: "string \<Rightarrow> string \<Rightarrow> spdx_package" where
  "image_package repository digest =
     \<lparr>sp_id = ''SPDXRef-Image'', sp_name = repository, sp_version = [], sp_location = ''NOASSERTION'',
      sp_checksum = Some (trim_prefix digest ''sha256:''), sp_comment = []\<rparr>"

definition base_package :: "att_source \<Rightarrow> spdx_package" where
  "base_package b =
     \<lparr>sp_id = ''SPDXRef-Base'', sp_name = as_name b, sp_version = as_version b,
      sp_location = or_no_assertion (as_uri b), sp_checksum = checksum_of (as_digest b),
      sp_comment = []\<rparr>"

definition relates :: "string \<Rightarrow> string \<Rightarrow> string \<Rightarrow> spdx_relationship" where
  "relates a t b = \<lparr>sx_element = a, sx_type = t, sx_related = b\<rparr>"

fun layer_packages :: "nat \<Rightarrow> att_source list \<Rightarrow> spdx_package list" where
  "layer_packages i [] = []"
| "layer_packages i (s # ss) = source_package i s # layer_packages (Suc i) ss"

fun layer_relations :: "nat \<Rightarrow> att_source list \<Rightarrow> spdx_relationship list" where
  "layer_relations i [] = []"
| "layer_relations i (s # ss) =
     relates ''SPDXRef-Image'' ''CONTAINS'' (layer_id i s) # layer_relations (Suc i) ss"

definition spdx_document_of ::
    "string \<Rightarrow> string \<Rightarrow> att_source option \<Rightarrow> att_source list \<Rightarrow> spdx_document" where
  "spdx_document_of repository digest base sources =
     \<lparr>sd_name = repository,
      sd_namespace = ''https://oci.lhns.de/spdx/'' @ repository @ ''@'' @ digest,
      sd_created = ''1970-01-01T00:00:00Z'',
      sd_packages = image_package repository digest #
        (case base of None \<Rightarrow> [] | Some b \<Rightarrow> [base_package b]) @ layer_packages 0 sources,
      sd_relations = relates ''SPDXRef-DOCUMENT'' ''DESCRIBES'' ''SPDXRef-Image'' #
        (case base of None \<Rightarrow> []
         | Some b \<Rightarrow> [relates ''SPDXRef-Image'' ''GENERATED_FROM'' ''SPDXRef-Base'']) @
        layer_relations 0 sources\<rparr>"

text \<open>The two parameter blocks of the provenance are JSON values the caller made.\<close>

datatype json = JString string | JNumber int | JList "json list" | JObject "(string \<times> json) list"

record slsa_dependency =
  sl_name :: string
  sl_uri :: string
  sl_sha256 :: "string option"
  sl_target :: "string option"

record slsa_predicate =
  sl_build_type :: string
  sl_external :: json
  sl_internal :: json
  sl_deps :: "slsa_dependency list"
  sl_builder :: string

datatype predicate = SpdxPredicate spdx_document | SlsaPredicate slsa_predicate

record statement =
  st_type :: string
  st_subject_name :: string
  st_subject_sha256 :: "string option"
  st_predicate_type :: string
  st_predicate :: predicate

definition sha256_hex :: "string \<Rightarrow> string option" where
  "sha256_hex digest =
     (if length digest > length ''sha256:'' \<and> take 7 digest = ''sha256:''
      then Some (drop 7 digest) else None)"

definition make_statement :: "string \<Rightarrow> string \<Rightarrow> string \<Rightarrow> predicate \<Rightarrow> statement" where
  "make_statement repository digest ptype p =
     \<lparr>st_type = ''https://in-toto.io/Statement/v1'', st_subject_name = repository,
      st_subject_sha256 = sha256_hex digest, st_predicate_type = ptype, st_predicate = p\<rparr>"

definition spdx_statement ::
    "string \<Rightarrow> string \<Rightarrow> att_source option \<Rightarrow> att_source list \<Rightarrow> statement" where
  "spdx_statement repository digest base sources =
     make_statement repository digest predicate_spdx
       (SpdxPredicate (spdx_document_of repository digest base sources))"

definition slsa_dependency_of :: "att_source \<Rightarrow> slsa_dependency" where
  "slsa_dependency_of s =
     \<lparr>sl_name = as_name s, sl_uri = as_uri s, sl_sha256 = sha256_hex (as_digest s),
      sl_target = (if as_target s \<noteq> [] then Some (as_target s) else None)\<rparr>"

definition slsa_statement ::
    "string \<Rightarrow> string \<Rightarrow> string \<Rightarrow> json \<Rightarrow> json \<Rightarrow> att_source list \<Rightarrow> statement" where
  "slsa_statement repository digest build_type external internal sources =
     make_statement repository digest predicate_slsa
       (SlsaPredicate
          \<lparr>sl_build_type = build_type, sl_external = external, sl_internal = internal,
           sl_deps = map slsa_dependency_of sources,
           sl_builder = ''https://github.com/lhns/kube-oci-composer''\<rparr>)"

subsection \<open>Envelopes and manifests\<close>

definition pae :: "string \<Rightarrow> string \<Rightarrow> string" where
  "pae payload_type payload =
     ''DSSEv1 '' @ show_nat (length payload_type) @ '' '' @ payload_type @ '' '' @
     show_nat (length payload) @ '' '' @ payload"

record signing_key =
  sk_sign :: "string \<Rightarrow> string res"
  sk_verify :: "string \<Rightarrow> string \<Rightarrow> bool"

record att_layer =
  al_media :: string
  al_digest :: string
  al_size :: int
  al_annotations :: "string \<rightharpoonup> string"

record att_manifest =
  am_artifact_type :: string
  am_layer :: att_layer
  am_subject :: "string option"
  am_annotations :: "string \<rightharpoonup> string"

datatype att_op = PutBlob string string | PutManifest string att_manifest

text \<open>What the listing of referrers says of one, and what fetching one yields.\<close>

record referrer =
  rf_digest :: string
  rf_artifact_type :: string
  rf_annotation :: string

record att_env =
  ax_put :: "att_op \<Rightarrow> error option"
  ax_referrers :: "string \<Rightarrow> referrer list res res"
  ax_get :: "string \<Rightarrow> (string \<rightharpoonup> string) res res"
  ax_signature :: "string \<Rightarrow> (string \<times> (string \<rightharpoonup> string) list res) option"
  ax_statement_json :: "statement \<Rightarrow> string res"
  ax_manifest_json :: "att_manifest \<Rightarrow> string res"
  ax_envelope_json :: "string \<Rightarrow> string \<Rightarrow> string \<Rightarrow> string res"
  ax_cosign_payload :: "string \<Rightarrow> string \<Rightarrow> string res"
  ax_base64 :: "string \<Rightarrow> string"
  ax_unbase64 :: "string \<Rightarrow> string option"
  ax_sha256 :: "string \<Rightarrow> string"

definition envelope :: "att_env \<Rightarrow> signing_key \<Rightarrow> string \<Rightarrow> string res" where
  "envelope env key statement =
     (case sk_sign key (pae media_intoto statement) of
        Inl e \<Rightarrow> Inl (Wrap ''signing the attestation'' e)
      | Inr sig \<Rightarrow>
          ax_envelope_json env (ax_base64 env statement) media_intoto (ax_base64 env sig))"

definition content_digest :: "att_env \<Rightarrow> string \<Rightarrow> string" where
  "content_digest env content = ''sha256:'' @ ax_sha256 env content"

text \<open>\<^verbatim>\<open>OwnTag\<close> of a digest, whose hex is the part behind the algorithm.\<close>

definition own_tag :: "string \<Rightarrow> string" where
  "own_tag hex = ''digest-'' @ hex"

fun replace_first :: "char \<Rightarrow> char \<Rightarrow> string \<Rightarrow> string" where
  "replace_first a b [] = []"
| "replace_first a b (c # cs) = (if c = a then b # cs else c # replace_first a b cs)"

definition signature_tag :: "string \<Rightarrow> string" where
  "signature_tag digest = replace_first (CHR '':'') (CHR ''-'') digest @ ''.sig''"

definition put :: "att_env \<Rightarrow> att_op \<Rightarrow> string \<Rightarrow> (att_op, unit) run" where
  "put env oper what = map_run_err (Wrap what) (attempt oper (ax_put env oper))"

definition write_empty_config :: "att_env \<Rightarrow> (att_op, unit) run" where
  "write_empty_config env =
     put env (PutBlob ''application/vnd.oci.empty.v1+json'' ''{}'') ''pushing the empty config''"

definition push_manifest_of :: "att_env \<Rightarrow> string \<Rightarrow> string \<Rightarrow> string \<Rightarrow> bool \<Rightarrow> att_manifest" where
  "push_manifest_of env subject ptype payload is_signed =
     \<lparr>am_artifact_type = media_intoto,
      am_layer = \<lparr>al_media = (if is_signed then media_dsse else media_intoto),
        al_digest = content_digest env payload, al_size = int (length payload),
        al_annotations = [annotation_predicate \<mapsto> ptype]\<rparr>,
      am_subject = Some subject, am_annotations = [annotation_predicate \<mapsto> ptype]\<rparr>"

definition push_referrer ::
    "att_env \<Rightarrow> string \<Rightarrow> string \<Rightarrow> string \<Rightarrow> string \<Rightarrow> bool \<Rightarrow> (att_op, string) run" where
  "push_referrer env repo subject ptype payload is_signed =
     (let mf = push_manifest_of env subject ptype payload is_signed in
      and_then (lift (ax_manifest_json env mf)) (\<lambda>raw.
      and_then (put env (PutBlob (al_media (am_layer mf)) payload) ''pushing the attestation payload'') (\<lambda>_.
      and_then (write_empty_config env) (\<lambda>_.
      and_then (put env (PutManifest (digest_ref_of repo (content_digest env raw)) mf)
        ''pushing the attestation manifest'') (\<lambda>_.
      and_then (put env (PutManifest (tag_ref repo (own_tag (ax_sha256 env raw))) mf)
        ''naming the attestation manifest'') (\<lambda>_.
      lift (Inr (content_digest env raw))))))))"

text \<open>The predicate types already attached; a later entry of the listing wins.\<close>

fun existing_from ::
    "att_env \<Rightarrow> string \<Rightarrow> referrer list \<Rightarrow> (string \<rightharpoonup> string) \<Rightarrow> (string \<rightharpoonup> string) res" where
  "existing_from env repo [] out = Inr out"
| "existing_from env repo (d # ds) out =
     (if rf_annotation d \<noteq> [] then existing_from env repo ds (out(rf_annotation d \<mapsto> rf_digest d))
      else if rf_artifact_type d \<noteq> media_intoto then existing_from env repo ds out
      else (case ax_get env (digest_ref_of repo (rf_digest d)) of
          Inl e \<Rightarrow> Inl (Wrap ''reading referrer'' e)
        | Inr (Inl e) \<Rightarrow> Inl (Wrap ''parsing referrer'' e)
        | Inr (Inr ann) \<Rightarrow>
            (case ann annotation_predicate of
               None \<Rightarrow> existing_from env repo ds out
             | Some pt \<Rightarrow>
                 if pt \<noteq> [] then existing_from env repo ds (out(pt \<mapsto> rf_digest d))
                 else existing_from env repo ds out)))"

definition existing :: "att_env \<Rightarrow> string \<Rightarrow> string \<Rightarrow> (string \<rightharpoonup> string) res" where
  "existing env repo subject =
     (case ax_referrers env (digest_ref_of repo subject) of
        Inl e \<Rightarrow> Inl (Wrap ''listing referrers'' e)
      | Inr (Inl e) \<Rightarrow> Inl (Wrap ''reading the referrers index'' e)
      | Inr (Inr ds) \<Rightarrow> existing_from env repo ds Map.empty)"

subsection \<open>Signatures\<close>

abbreviation (input) signature_annotation :: string where
  "signature_annotation \<equiv> ''dev.cosignproject.cosign/signature''"

definition sign_manifest :: "att_env \<Rightarrow> string \<Rightarrow> string \<Rightarrow> att_manifest" where
  "sign_manifest env body sig =
     \<lparr>am_artifact_type = [],
      am_layer = \<lparr>al_media = ''application/vnd.dev.cosign.simplesigning.v1+json'',
        al_digest = content_digest env body, al_size = int (length body),
        al_annotations = [signature_annotation \<mapsto> ax_base64 env sig]\<rparr>,
      am_subject = None, am_annotations = Map.empty\<rparr>"

definition sign_artifact :: "att_env \<Rightarrow> signing_key \<Rightarrow> string \<Rightarrow> string \<Rightarrow> (att_op, string) run" where
  "sign_artifact env key repo digest =
     and_then (lift (ax_cosign_payload env repo digest)) (\<lambda>body.
     and_then (lift (wrap_err ''signing'' (sk_sign key body))) (\<lambda>sig.
     let mf = sign_manifest env body sig in
     and_then (lift (ax_manifest_json env mf)) (\<lambda>raw.
     and_then (put env (PutBlob (al_media (am_layer mf)) body) ''pushing the signature payload'') (\<lambda>_.
     and_then (write_empty_config env) (\<lambda>_.
     and_then (put env (PutManifest (tag_ref repo (signature_tag digest)) mf) ''pushing the signature'') (\<lambda>_.
     lift (Inr (content_digest env raw))))))))"

fun any_verifies :: "att_env \<Rightarrow> signing_key \<Rightarrow> string \<Rightarrow> (string \<rightharpoonup> string) list \<Rightarrow> bool" where
  "any_verifies env key want [] = False"
| "any_verifies env key want (ann # anns) =
     (case ann signature_annotation of
        None \<Rightarrow> any_verifies env key want anns
      | Some raw \<Rightarrow>
          (case ax_unbase64 env raw of
             None \<Rightarrow> any_verifies env key want anns
           | Some sig \<Rightarrow> if sk_verify key sig want then True else any_verifies env key want anns))"

definition verified_signature_exists ::
    "att_env \<Rightarrow> signing_key \<Rightarrow> string \<Rightarrow> string \<Rightarrow> (bool \<times> string) res" where
  "verified_signature_exists env key repo digest =
     (case ax_signature env (tag_ref repo (signature_tag digest)) of
        None \<Rightarrow> Inr (False, [])
      | Some (d, layers) \<Rightarrow>
          (case layers of
             Inl e \<Rightarrow> Inl (Wrap ''parsing the existing signature'' e)
           | Inr anns \<Rightarrow>
               (case ax_cosign_payload env repo digest of
                  Inl e \<Rightarrow> Inl e
                | Inr want \<Rightarrow> Inr (any_verifies env key want anns, d))))"

subsection \<open>The attestor\<close>

record attestor =
  at_sbom :: bool
  at_provenance :: bool
  at_key :: "signing_key option"

record att_record =
  ac_subject :: string
  ac_sbom :: string
  ac_provenance :: string
  ac_signature :: string

record payloads =
  pl_build_type :: string
  pl_external :: json
  pl_internal :: json
  pl_base :: "att_source option"
  pl_sources :: "att_source list"

definition attestor_enabled :: "attestor option \<Rightarrow> bool" where
  "attestor_enabled a =
     (case a of None \<Rightarrow> False | Some t \<Rightarrow> at_sbom t \<or> at_provenance t \<or> at_key t \<noteq> None)"

definition attestor_complete :: "attestor option \<Rightarrow> att_record option \<Rightarrow> string \<Rightarrow> bool" where
  "attestor_complete a rec subject =
     (if \<not> attestor_enabled a then True
      else (case rec of
          None \<Rightarrow> False
        | Some r \<Rightarrow>
            if ac_subject r \<noteq> subject then False
            else if at_sbom (the a) \<and> ac_sbom r = [] then False
            else if at_provenance (the a) \<and> ac_provenance r = [] then False
            else if at_key (the a) \<noteq> None \<and> ac_signature r = [] then False
            else True))"

definition attestor_push ::
    "att_env \<Rightarrow> attestor \<Rightarrow> string \<Rightarrow> string \<Rightarrow> string \<Rightarrow> statement \<Rightarrow> (att_op, string) run" where
  "attestor_push env a repo subject ptype stmt =
     and_then (lift (ax_statement_json env stmt)) (\<lambda>body.
     case at_key a of
       None \<Rightarrow> push_referrer env repo subject ptype body False
     | Some key \<Rightarrow>
         and_then (lift (envelope env key body)) (\<lambda>enveloped.
         push_referrer env repo subject ptype enveloped True))"

text \<open>One predicate: what is there stays, what is missing is pushed.\<close>

definition ensure_predicate ::
    "att_env \<Rightarrow> attestor \<Rightarrow> string \<Rightarrow> string \<Rightarrow> (string \<rightharpoonup> string) \<Rightarrow> bool \<Rightarrow> string \<Rightarrow> statement \<Rightarrow>
     (att_op, string) run" where
  "ensure_predicate env a repo subject have_already wanted ptype stmt =
     (if \<not> wanted then lift (Inr [])
      else (case have_already ptype of
          Some d \<Rightarrow> lift (Inr d)
        | None \<Rightarrow> map_run_err (Wrap ''attaching'') (attestor_push env a repo subject ptype stmt)))"

definition ensure_signature :: "att_env \<Rightarrow> attestor \<Rightarrow> string \<Rightarrow> string \<Rightarrow> (att_op, string) run" where
  "ensure_signature env a repo subject =
     (case at_key a of
        None \<Rightarrow> lift (Inr [])
      | Some key \<Rightarrow>
          (case verified_signature_exists env key repo subject of
             Inl e \<Rightarrow> lift (Inl (Wrap ''checking the signature'' e))
           | Inr (True, d) \<Rightarrow> lift (Inr d)
           | Inr (False, d) \<Rightarrow> map_run_err (Wrap ''signing'') (sign_artifact env key repo subject)))"

definition ensure ::
    "att_env \<Rightarrow> attestor option \<Rightarrow> string \<Rightarrow> string \<Rightarrow> payloads \<Rightarrow> (att_op, att_record option) run" where
  "ensure env a repo subject p =
     (if \<not> attestor_enabled a then lift (Inr None)
      else
        (let t = the a in
         and_then (lift (existing env repo subject)) (\<lambda>ex.
         and_then (ensure_predicate env t repo subject ex (at_sbom t) predicate_spdx
           (spdx_statement repo subject (pl_base p) (pl_sources p))) (\<lambda>sbom.
         and_then (ensure_predicate env t repo subject ex (at_provenance t) predicate_slsa
           (slsa_statement repo subject (pl_build_type p) (pl_external p) (pl_internal p) (pl_sources p))) (\<lambda>prov.
         and_then (ensure_signature env t repo subject) (\<lambda>sig.
         lift (Inr (Some \<lparr>ac_subject = subject, ac_sbom = sbom, ac_provenance = prov,
           ac_signature = sig\<rparr>))))))))"

subsection \<open>First writer wins\<close>

lemma wrap_err_Inr [simp]: "wrap_err m r = Inr x \<longleftrightarrow> r = Inr x"
  by (simp add: wrap_err_def split: sum.splits)

lemma wrap_err_simps [simp]: "wrap_err m (Inr x) = Inr x" "wrap_err m (Inl e) = Inl (Wrap m e)"
  by (simp_all add: wrap_err_def)

text \<open>The predicate type a written manifest attaches.\<close>

definition attaches :: "att_op \<Rightarrow> string option" where
  "attaches oper =
     (case oper of PutBlob _ _ \<Rightarrow> None | PutManifest r mf \<Rightarrow> am_annotations mf annotation_predicate)"

definition attaches_only :: "string \<Rightarrow> att_op \<Rightarrow> bool" where
  "attaches_only t oper \<longleftrightarrow> attaches oper = None \<or> attaches oper = Some t"

lemma run_all_put [simp]: "run_all P (put env oper what) = P oper"
  by (simp add: put_def)

lemma fst_put [simp]: "fst (put env oper what) = [oper]"
  by (simp add: put_def)

lemma attaches_only_ops [simp]:
  "attaches_only t (PutBlob m c)"
  "attaches_only t (PutManifest ref (push_manifest_of env subject t payload b))"
  "attaches_only t (PutManifest ref (sign_manifest env body sig))"
  by (simp_all add: attaches_only_def attaches_def push_manifest_of_def sign_manifest_def)

lemma empty_config_attaches [simp]: "run_all (attaches_only t) (write_empty_config env)"
  by (simp add: write_empty_config_def)

lemma push_referrer_attaches:
  "run_all (attaches_only ptype) (push_referrer env repo subject ptype payload is_signed)"
  unfolding push_referrer_def Let_def by (intro inv_intros) simp_all

lemma attestor_push_attaches:
  "run_all (attaches_only ptype) (attestor_push env a repo subject ptype stmt)"
  unfolding attestor_push_def
  by (cases "at_key a") (auto intro!: inv_intros push_referrer_attaches)

lemma ensure_predicate_attaches:
  "run_all (\<lambda>oper. attaches oper = None \<or> (attaches oper = Some ptype \<and> wanted \<and> ex ptype = None))
     (ensure_predicate env a repo subject ex wanted ptype stmt)"
proof (cases "wanted \<and> ex ptype = None")
  case True
  then show ?thesis
    using attestor_push_attaches[of ptype env a repo subject stmt]
    by (simp add: ensure_predicate_def attaches_only_def[abs_def])
qed (auto simp: ensure_predicate_def intro!: inv_intros split: option.splits)

lemma sign_artifact_attaches: "run_all (attaches_only t) (sign_artifact env key repo subject)"
  unfolding sign_artifact_def Let_def by (intro inv_intros) simp_all

lemma ensure_signature_attaches:
  "run_all (attaches_only t) (ensure_signature env a repo subject)"
  unfolding ensure_signature_def
  by (auto simp: sign_artifact_attaches intro!: inv_intros split: option.splits sum.splits bool.splits)

lemma push_referrer_digest:
  "snd (push_referrer env repo subject ptype payload is_signed) = Inr d \<Longrightarrow> d \<noteq> []"
  by (auto simp: push_referrer_def Let_def and_then_ok content_digest_def)

lemma sign_artifact_digest: "snd (sign_artifact env key repo subject) = Inr d \<Longrightarrow> d \<noteq> []"
  by (auto simp: sign_artifact_def Let_def and_then_ok content_digest_def)

lemma ensure_predicate_digest:
  assumes "snd (ensure_predicate env a repo subject ex wanted ptype stmt) = Inr d" "wanted" "ex ptype \<noteq> Some []"
  shows "d \<noteq> []" "ex ptype = Some x \<Longrightarrow> d = x"
  using assms
  by (auto simp: ensure_predicate_def attestor_push_def and_then_ok split: option.splits dest: push_referrer_digest)

lemma ensure_signature_digest:
  assumes "snd (ensure_signature env a repo subject) = Inr d" "at_key a = Some key"
    and "\<And>x. ax_signature env (tag_ref repo (signature_tag subject)) = Some x \<Longrightarrow> fst x \<noteq> []"
  shows "d \<noteq> []"
  using assms
  by (auto simp: ensure_signature_def verified_signature_exists_def
      split: sum.splits bool.splits option.splits prod.splits if_splits dest: sign_artifact_digest)

text \<open>
  Property C27. Attaching supply-chain material never replaces any: a predicate type that the
  subject already carries, or that is not configured, is not attached; when everything configured is
  there nothing is written at all; and a record that is returned covers everything configured and
  names what was already attached, so that the next pass has nothing to do.
\<close>

theorem ensure_first_writer:
  assumes ex: "existing env repo subject = Inr ex" and t: "attestor_enabled (Some t)"
    and digests: "\<forall>pt. ex pt \<noteq> Some []"
      "\<forall>x. ax_signature env (tag_ref repo (signature_tag subject)) = Some x \<longrightarrow> fst x \<noteq> []"
  shows "(\<forall>oper \<in> set (fst (ensure env (Some t) repo subject p)). \<forall>pt. attaches oper = Some pt \<longrightarrow>
      ex pt = None \<and> (pt = predicate_spdx \<and> at_sbom t \<or> pt = predicate_slsa \<and> at_provenance t)) \<and>
    ((at_sbom t \<longrightarrow> ex predicate_spdx \<noteq> None) \<and> (at_provenance t \<longrightarrow> ex predicate_slsa \<noteq> None) \<and>
     (\<forall>key. at_key t = Some key \<longrightarrow> (\<exists>d. verified_signature_exists env key repo subject = Inr (True, d))) \<longrightarrow>
      fst (ensure env (Some t) repo subject p) = []) \<and>
    (snd (ensure env (Some t) repo subject p) = Inr r \<longrightarrow>
      attestor_complete (Some t) r subject \<and>
      (\<exists>c. r = Some c \<and> (at_sbom t \<longrightarrow> ex predicate_spdx \<in> {None, Some (ac_sbom c)}) \<and>
        (at_provenance t \<longrightarrow> ex predicate_slsa \<in> {None, Some (ac_provenance c)})))"
proof (intro conjI)
  let ?a = "ensure_predicate env t repo subject ex (at_sbom t) predicate_spdx
      (spdx_statement repo subject (pl_base p) (pl_sources p))"
  let ?b = "ensure_predicate env t repo subject ex (at_provenance t) predicate_slsa
      (slsa_statement repo subject (pl_build_type p) (pl_external p) (pl_internal p) (pl_sources p))"
  let ?c = "ensure_signature env t repo subject"
  have e: "ensure env (Some t) repo subject p =
      and_then ?a (\<lambda>sbom. and_then ?b (\<lambda>prov. and_then ?c (\<lambda>sig.
        lift (Inr (Some \<lparr>ac_subject = subject, ac_sbom = sbom, ac_provenance = prov, ac_signature = sig\<rparr>)))))"
    using t by (simp add: ensure_def ex Let_def)
  let ?P = "\<lambda>oper. \<forall>pt. attaches oper = Some pt \<longrightarrow>
      ex pt = None \<and> (pt = predicate_spdx \<and> at_sbom t \<or> pt = predicate_slsa \<and> at_provenance t)"
  have "run_all ?P ?a" by (rule run_all_mono[OF ensure_predicate_attaches]) auto
  moreover have "run_all ?P ?b" by (rule run_all_mono[OF ensure_predicate_attaches]) auto
  moreover have "run_all ?P ?c"
  proof -
    have "list_all (attaches_only []) (fst ?c)" "list_all (attaches_only ''x'') (fst ?c)"
      using ensure_signature_attaches by (simp_all add: run_all_def)
    then show ?thesis by (fastforce simp: run_all_def list_all_iff attaches_only_def)
  qed
  ultimately have "run_all ?P (ensure env (Some t) repo subject p)"
    unfolding e by (intro inv_intros)
  then show "\<forall>oper \<in> set (fst (ensure env (Some t) repo subject p)). \<forall>pt. attaches oper = Some pt \<longrightarrow>
      ex pt = None \<and> (pt = predicate_spdx \<and> at_sbom t \<or> pt = predicate_slsa \<and> at_provenance t)"
    by (simp add: run_all_def list_all_iff)
  show "(at_sbom t \<longrightarrow> ex predicate_spdx \<noteq> None) \<and> (at_provenance t \<longrightarrow> ex predicate_slsa \<noteq> None) \<and>
     (\<forall>key. at_key t = Some key \<longrightarrow> (\<exists>d. verified_signature_exists env key repo subject = Inr (True, d))) \<longrightarrow>
      fst (ensure env (Some t) repo subject p) = []"
    unfolding e
    by (auto simp: fst_and_then ensure_predicate_def ensure_signature_def split: sum.splits option.splits)
  show "snd (ensure env (Some t) repo subject p) = Inr r \<longrightarrow>
      attestor_complete (Some t) r subject \<and>
      (\<exists>c. r = Some c \<and> (at_sbom t \<longrightarrow> ex predicate_spdx \<in> {None, Some (ac_sbom c)}) \<and>
        (at_provenance t \<longrightarrow> ex predicate_slsa \<in> {None, Some (ac_provenance c)}))"
  proof
    assume "snd (ensure env (Some t) repo subject p) = Inr r"
    then obtain sbom prov sig where s: "snd ?a = Inr sbom" "snd ?b = Inr prov" "snd ?c = Inr sig"
      "r = Some \<lparr>ac_subject = subject, ac_sbom = sbom, ac_provenance = prov, ac_signature = sig\<rparr>"
      unfolding e by (auto simp: and_then_ok)
    note d = ensure_predicate_digest[OF s(1)] ensure_predicate_digest[OF s(2)]
    have k: "at_key t \<noteq> None \<longrightarrow> sig \<noteq> []" using ensure_signature_digest[OF s(3)] digests(2) by auto
    have ab: "at_sbom t \<longrightarrow> sbom \<noteq> [] \<and> ex predicate_spdx \<in> {None, Some sbom}"
      using d(1,2) digests(1) by (metis insertCI option.exhaust)
    have pb: "at_provenance t \<longrightarrow> prov \<noteq> [] \<and> ex predicate_slsa \<in> {None, Some prov}"
      using d(3,4) digests(1) by (metis insertCI option.exhaust)
    have "attestor_complete (Some t) r subject"
      using k ab pb unfolding s(4) by (auto simp: attestor_complete_def)
    with ab pb show "attestor_complete (Some t) r subject \<and>
      (\<exists>c. r = Some c \<and> (at_sbom t \<longrightarrow> ex predicate_spdx \<in> {None, Some (ac_sbom c)}) \<and>
        (at_provenance t \<longrightarrow> ex predicate_slsa \<in> {None, Some (ac_provenance c)}))"
      unfolding s(4) by auto
  qed
qed

definition plain_env :: "(string \<Rightarrow> referrer list) \<Rightarrow> att_env" where
  "plain_env listing =
     \<lparr>ax_put = (\<lambda>oper. None), ax_referrers = (\<lambda>s. Inr (Inr (listing s))), ax_get = (\<lambda>r. Inr (Inr Map.empty)),
      ax_signature = (\<lambda>r. None), ax_statement_json = (\<lambda>st. Inr (st_predicate_type st)),
      ax_manifest_json = (\<lambda>mf. Inr (al_digest (am_layer mf))), ax_envelope_json = (\<lambda>a b c. Inr (a @ b @ c)),
      ax_cosign_payload = (\<lambda>r d. Inr (digest_ref_of r d)), ax_base64 = id, ax_unbase64 = Some,
      ax_sha256 = (\<lambda>s. ''0a'')\<rparr>"

definition sample_payloads :: payloads where
  "sample_payloads =
     \<lparr>pl_build_type = ''t'', pl_external = JObject [], pl_internal = JObject [], pl_base = None,
      pl_sources = []\<rparr>"

theorem ensure_first_writer_witness:
  "fst (ensure (plain_env (\<lambda>s. [\<lparr>rf_digest = ''sha256:b1'', rf_artifact_type = media_intoto,
        rf_annotation = predicate_spdx\<rparr>]))
      (Some \<lparr>at_sbom = True, at_provenance = False, at_key = None\<rparr>) ''r'' ''sha256:aa'' sample_payloads) = []"
proof -
  let ?env = "plain_env (\<lambda>s. [\<lparr>rf_digest = ''sha256:b1'', rf_artifact_type = media_intoto,
        rf_annotation = predicate_spdx\<rparr>])"
  let ?t = "\<lparr>at_sbom = True, at_provenance = False, at_key = None\<rparr> :: attestor"
  have ex: "existing ?env ''r'' ''sha256:aa'' = Inr [predicate_spdx \<mapsto> ''sha256:b1'']"
    by (simp add: existing_def plain_env_def)
  have t: "attestor_enabled (Some ?t)" by (simp add: attestor_enabled_def)
  have n: "\<forall>pt. [predicate_spdx \<mapsto> ''sha256:b1''] pt \<noteq> Some []" by simp
  have g: "\<forall>x. ax_signature ?env (tag_ref ''r'' (signature_tag ''sha256:aa'')) = Some x \<longrightarrow> fst x \<noteq> []"
    by (simp add: plain_env_def)
  show ?thesis
    by (rule mp[OF conjunct1[OF conjunct2[OF ensure_first_writer[OF ex t n g]]]]) simp
qed

subsection \<open>What a signature is accepted for\<close>

lemma any_verifies_iff:
  "any_verifies env key want anns \<longleftrightarrow>
     (\<exists>ann \<in> set anns. \<exists>raw sig. ann signature_annotation = Some raw \<and> ax_unbase64 env raw = Some sig \<and>
        sk_verify key sig want)"
  by (induction anns) (auto split: option.splits)

lemma replace_first_free: "a \<notin> set s \<Longrightarrow> replace_first a b (s @ a # r) = s @ b # r"
  by (induction s) auto

lemma signature_tag_sha: "signature_tag (''sha256:'' @ h) = ''sha256-'' @ h @ ''.sig''"
  using replace_first_free[of "CHR '':''" "''sha256''" "CHR ''-''" h] by (simp add: signature_tag_def)

text \<open>
  Property C31. A signature counts as present only when it verifies, under the configured key, over
  the payload of this repository and this digest; with a key that verifies what it signs, what
  \<^verbatim>\<open>SignArtifact\<close> writes is accepted by that test, so it is not signed again; and it is written
  under the tag the test reads, which is never a digest's own tag.
\<close>

theorem signature_checked:
  assumes key: "\<forall>m s. sk_sign key m = Inr s \<longrightarrow> sk_verify key s m"
    and b64: "\<forall>s. ax_unbase64 env (ax_base64 env s) = Some s"
  shows "(verified_signature_exists env key repo digest = Inr (True, d) \<longrightarrow>
      (\<exists>anns ann raw sig want. ax_signature env (tag_ref repo (signature_tag digest)) = Some (d, Inr anns) \<and>
        ann \<in> set anns \<and> ann signature_annotation = Some raw \<and> ax_unbase64 env raw = Some sig \<and>
        ax_cosign_payload env repo digest = Inr want \<and> sk_verify key sig want)) \<and>
    (snd (sign_artifact env key repo digest) = Inr dg \<longrightarrow>
      (\<exists>mf. PutManifest (tag_ref repo (signature_tag digest)) mf \<in> set (fst (sign_artifact env key repo digest)) \<and>
        verified_signature_exists
          (env\<lparr>ax_signature := \<lambda>r. if r = tag_ref repo (signature_tag digest)
             then Some (dg, Inr [al_annotations (am_layer mf)]) else None\<rparr>) key repo digest = Inr (True, dg))) \<and>
    signature_tag (''sha256:'' @ h) \<noteq> digest_tag (''sha256:'' @ h')"
proof (intro conjI impI)
  assume "verified_signature_exists env key repo digest = Inr (True, d)"
  then obtain anns want where "ax_signature env (tag_ref repo (signature_tag digest)) = Some (d, Inr anns)"
    "ax_cosign_payload env repo digest = Inr want" "any_verifies env key want anns"
    by (auto simp: verified_signature_exists_def split: option.splits sum.splits)
  then show "\<exists>anns ann raw sig want. ax_signature env (tag_ref repo (signature_tag digest)) = Some (d, Inr anns) \<and>
        ann \<in> set anns \<and> ann signature_annotation = Some raw \<and> ax_unbase64 env raw = Some sig \<and>
        ax_cosign_payload env repo digest = Inr want \<and> sk_verify key sig want"
    unfolding any_verifies_iff by blast
next
  assume "snd (sign_artifact env key repo digest) = Inr dg"
  then obtain body sig raw where o': "ax_cosign_payload env repo digest = Inr body" "sk_sign key body = Inr sig"
    "ax_manifest_json env (sign_manifest env body sig) = Inr raw"
    "snd (put env (PutBlob (al_media (am_layer (sign_manifest env body sig))) body) ''pushing the signature payload'') = Inr ()"
    "snd (write_empty_config env) = Inr ()"
    by (auto simp: sign_artifact_def Let_def and_then_ok wrap_err_Inr)
  let ?mf = "sign_manifest env body sig"
  have "PutManifest (tag_ref repo (signature_tag digest)) ?mf \<in> set (fst (sign_artifact env key repo digest))"
    using o' by (simp add: sign_artifact_def Let_def fst_and_then)
  moreover have "verified_signature_exists
          (env\<lparr>ax_signature := \<lambda>r. if r = tag_ref repo (signature_tag digest)
             then Some (dg, Inr [al_annotations (am_layer ?mf)]) else None\<rparr>) key repo digest = Inr (True, dg)"
    using o' key b64 by (simp add: verified_signature_exists_def sign_manifest_def)
  ultimately show "\<exists>mf. PutManifest (tag_ref repo (signature_tag digest)) mf \<in> set (fst (sign_artifact env key repo digest)) \<and>
        verified_signature_exists
          (env\<lparr>ax_signature := \<lambda>r. if r = tag_ref repo (signature_tag digest)
             then Some (dg, Inr [al_annotations (am_layer mf)]) else None\<rparr>) key repo digest = Inr (True, dg)"
    by blast
next
  show "signature_tag (''sha256:'' @ h) \<noteq> digest_tag (''sha256:'' @ h')"
    unfolding signature_tag_sha digest_tag_sha by simp
qed

definition toy_key :: signing_key where
  "toy_key = \<lparr>sk_sign = (\<lambda>m. Inr (rev m)), sk_verify = (\<lambda>s m. s = rev m)\<rparr>"

theorem signature_checked_witness:
  "\<exists>mf. PutManifest ''r:sha256-aa.sig'' mf \<in> set (fst (sign_artifact (plain_env (\<lambda>s. [])) toy_key ''r'' ''sha256:aa''))"
proof -
  have k: "\<forall>m s. sk_sign toy_key m = Inr s \<longrightarrow> sk_verify toy_key s m" by (simp add: toy_key_def)
  have b: "\<forall>s. ax_unbase64 (plain_env (\<lambda>s. [])) (ax_base64 (plain_env (\<lambda>s. [])) s) = Some s"
    by (simp add: plain_env_def)
  have t: "tag_ref ''r'' (signature_tag ''sha256:aa'') = ''r:sha256-aa.sig''" by code_simp
  have "snd (sign_artifact (plain_env (\<lambda>s. [])) toy_key ''r'' ''sha256:aa'') = Inr ''sha256:0a''"
    by (simp add: sign_artifact_def plain_env_def toy_key_def Let_def put_def write_empty_config_def
        content_digest_def attempt_def map_run_err_def and_then_def lift_def)
  with signature_checked[OF k b, of "''r''" "''sha256:aa''"] show ?thesis
    unfolding t by blast
qed

subsection \<open>The SBOM is well-formed\<close>

lemma sanitise_chars: "list_all id_char (sanitise s)"
proof (induction s rule: sanitise.induct)
  case (1 s)
  show ?case
  proof (cases "s = []")
    case True
    then show ?thesis by (simp add: sanitise.simps)
  next
    case False
    then have "list_all id_char (sanitise (drop (max 1 (rune_width s)) s))" using 1 by simp
    with False show ?thesis by (subst sanitise.simps) (simp add: Let_def id_char_def)
  qed
qed

lemma id_chars_digits: "list_all id_char (show_nat n)"
  using show_nat_digits[of n] by (auto simp: list_all_iff is_digit_def id_char_def byte_def)

lemma layer_id_chars: "list_all id_char (layer_id i s)"
  using id_chars_digits[of i] sanitise_chars[of "as_name s"]
  by (simp add: layer_id_def id_char_def byte_def)

lemma layer_id_inject: "layer_id i s = layer_id j t \<Longrightarrow> i = j"
  using until_sep_cancel[OF show_nat_no_minus show_nat_no_minus, of i "sanitise (as_name s)" j "sanitise (as_name t)"]
  by (simp add: layer_id_def)

lemma layer_ids:
  "map sp_id (layer_packages i ss) = map2 layer_id [i..<i + length ss] ss"
  "map sx_related (layer_relations i ss) = map2 layer_id [i..<i + length ss] ss"
  by (induction ss arbitrary: i) (auto simp: source_package_def relates_def upt_conv_Cons simp del: upt_Suc)

lemma layer_elements: "sr \<in> set (layer_relations i ss) \<Longrightarrow> sx_element sr = ''SPDXRef-Image''"
  by (induction ss arbitrary: i) (auto simp: relates_def)

lemma distinct_layer_ids: "distinct (map2 layer_id [i..<i + length ss] ss)"
  by (auto simp: distinct_conv_nth dest: layer_id_inject)

text \<open>
  Property C40. The SBOM names every package once, with identifiers of the characters SPDX allows
  whatever the layers are called; every relationship joins elements the document has; the layers
  appear in spec order behind the image and its base; and nothing in it depends on the time.
\<close>

theorem spdx_wellformed:
  "let d = spdx_document_of repository digest base sources;
       ids = map sp_id (sd_packages d)
   in distinct ids \<and> (\<forall>x \<in> set ids. list_all id_char x) \<and>
      (\<forall>r \<in> set (sd_relations d). sx_element r \<in> {''SPDXRef-DOCUMENT'', ''SPDXRef-Image''} \<and> sx_related r \<in> set ids) \<and>
      map sx_related (sd_relations d) = ids \<and>
      map sp_name (drop (length ids - length sources) (sd_packages d)) = map as_name sources"
proof -
  have n: "map sp_name (layer_packages i sources) = map as_name sources" for i
    by (induction sources arbitrary: i) (auto simp: source_package_def)
  let ?d = "spdx_document_of repository digest base sources"
  define L where "L = map2 layer_id [0..<length sources] sources"
  define B where "B = (case base of None \<Rightarrow> [] | Some b \<Rightarrow> [''SPDXRef-Base''])"
  have ids: "map sp_id (sd_packages ?d) = ''SPDXRef-Image'' # B @ L"
    using layer_ids(1)[of 0 sources]
    by (simp add: spdx_document_of_def image_package_def base_package_def L_def B_def split: option.splits)
  have rel: "map sx_related (sd_relations ?d) = ''SPDXRef-Image'' # B @ L"
    using layer_ids(2)[of 0 sources]
    by (simp add: spdx_document_of_def relates_def L_def B_def split: option.splits)
  have L: "x \<notin> {''SPDXRef-Image'', ''SPDXRef-Base''} \<and> list_all id_char x" if "x \<in> set L" for x
    using that layer_id_chars by (auto simp: L_def layer_id_def)
  have B: "set B \<subseteq> {''SPDXRef-Base''}" "distinct B" by (auto simp: B_def split: option.splits)
  have c: "list_all id_char ''SPDXRef-Image''" "list_all id_char ''SPDXRef-Base''"
    by (simp_all add: id_char_def byte_def)
  have "distinct L" unfolding L_def using distinct_layer_ids[of 0 sources] by simp
  moreover have "''SPDXRef-Image'' \<notin> set (B @ L)" using L B(1) by auto
  moreover have "set B \<inter> set L = {}" using L B(1) by blast
  ultimately have 1: "distinct (''SPDXRef-Image'' # B @ L)" using B(2) by simp
  have 2: "\<forall>x \<in> set (''SPDXRef-Image'' # B @ L). list_all id_char x" using c L B(1) by auto
  have 3: "\<forall>r \<in> set (sd_relations ?d). sx_element r \<in> {''SPDXRef-DOCUMENT'', ''SPDXRef-Image''}"
    using layer_elements[of _ 0 sources]
    by (auto simp: spdx_document_of_def relates_def split: option.splits)
  have 4: "\<forall>r \<in> set (sd_relations ?d). sx_related r \<in> set (''SPDXRef-Image'' # B @ L)"
    unfolding rel[symmetric] by simp
  have "length (map sp_id (sd_packages ?d)) - length sources = Suc (length B)"
    unfolding ids by (simp add: L_def)
  then have 5: "map sp_name (drop (length (map sp_id (sd_packages ?d)) - length sources) (sd_packages ?d)) =
      map as_name sources"
    using n by (simp add: spdx_document_of_def B_def split: option.splits)
  show ?thesis
    unfolding Let_def using 1 2 3 4 5 unfolding ids rel by blast
qed

theorem spdx_wellformed_witness:
  "distinct (map sp_id (sd_packages (spdx_document_of ''r'' ''sha256:aa'' None
     [\<lparr>as_name = ''a b'', as_uri = [], as_digest = [], as_version = [], as_target = []\<rparr>,
      \<lparr>as_name = ''a_b'', as_uri = [], as_digest = [], as_version = [], as_target = []\<rparr>])))"
  using spdx_wellformed[of "''r''" "''sha256:aa''" None
     "[\<lparr>as_name = ''a b'', as_uri = [], as_digest = [], as_version = [], as_target = []\<rparr>,
      \<lparr>as_name = ''a_b'', as_uri = [], as_digest = [], as_version = [], as_target = []\<rparr>]"]
  by (simp only: Let_def)

subsection \<open>The envelope is unambiguous\<close>

interpretation pae_writer: stream_writer "\<lambda>p. pae (fst p) (snd p)" "\<lambda>p. p"
proof
  fix x r y s assume "pae (fst x) (snd x) @ r = pae (fst y) (snd y) @ s"
  moreover have f: "CHR '' '' \<notin> set (show_nat n)" for n
    using show_nat_digits[of n] by (auto simp: list_all_iff is_digit_def)
  ultimately have "length (fst x) = length (fst y)"
    "fst x @ '' '' @ show_nat (length (snd x)) @ '' '' @ snd x @ r =
     fst y @ '' '' @ show_nat (length (snd y)) @ '' '' @ snd y @ s"
    using until_sep_cancel[OF f f] by (auto simp: pae_def)
  then have t: "fst x = fst y" and "show_nat (length (snd x)) @ CHR '' '' # snd x @ r =
      show_nat (length (snd y)) @ CHR '' '' # snd y @ s" by simp_all
  then have "length (snd x) = length (snd y)" "snd x @ r = snd y @ s"
    using until_sep_cancel[OF f f] by auto
  with t show "x = y \<and> r = s" by (simp add: prod_eq_iff)
qed simp

text \<open>What is signed determines the type and the payload it is signed for.\<close>

lemma pae_inject: "pae t p = pae t' p' \<longleftrightarrow> t = t' \<and> p = p'"
  using pae_writer.enc_iff[of "(t, p)" "(t', p')"] by simp

end
