(* ===== verification/Ref_Export.thy ===== *)
theory Ref_Export
  imports Default_Registry
begin

section \<open>Exporting the published reference\<close>

text \<open>
  \<^verbatim>\<open>internal/reconciler/refexport.go\<close>: the ConfigMap an object writes its reference into. The API
  server is a record of answers; what the code asks it to write is a trace of operations. Whether a
  string is a DNS subdomain is the API machinery's decision, and an argument.
\<close>

subsection \<open>Objects and operations\<close>

record obj_key =
  ok_namespace :: string
  ok_name :: string

record config_map =
  cm_namespace :: string
  cm_name :: string
  cm_labels :: "string \<rightharpoonup> string"
  cm_annotations :: "string \<rightharpoonup> string"
  cm_data :: "string \<rightharpoonup> string"
  cm_owner :: "obj_key option"

datatype cm_op = CreateCM config_map | UpdateCM config_map | DeleteCM config_map

record cm_server =
  cs_get :: "string \<Rightarrow> string \<Rightarrow> config_map lookup"
  cs_write :: "cm_op \<Rightarrow> error option"
  cs_own :: "obj_key \<Rightarrow> config_map \<Rightarrow> error option"
  cs_name_ok :: "string \<Rightarrow> bool"

record export_options =
  eo_namespaces :: "string list"
  eo_watch_labels :: "(string \<times> string) list"
  eo_allowed_labels :: "string list"
  eo_allowed_annotations :: "string list"

definition managed_by_label :: string where
  "managed_by_label = ''app.kubernetes.io/managed-by''"

definition managed_by :: string where
  "managed_by = ''kube-oci-composer''"

definition owner_namespace_label :: string where
  "owner_namespace_label = ''oci.lhns.de/owner-namespace''"

definition owner_name_label :: string where
  "owner_name_label = ''oci.lhns.de/owner-name''"

definition export_name :: "string \<Rightarrow> obj_key \<Rightarrow> string" where
  "export_name kind obj = to_lower kind @ ''-'' @ ok_namespace obj @ ''-'' @ ok_name obj"

text \<open>The kind is the scheme's answer for the object, which may be an error.\<close>

definition export_name_of :: "string res \<Rightarrow> obj_key \<Rightarrow> string res" where
  "export_name_of kind obj =
     (case kind of Inl e \<Rightarrow> Inl (Wrap ''determining the kind'' e) | Inr k \<Rightarrow> Inr (export_name k obj))"

definition owned_by :: "config_map \<Rightarrow> obj_key \<Rightarrow> bool" where
  "owned_by cm obj \<longleftrightarrow>
     cm_labels cm managed_by_label = Some managed_by \<and>
     cm_labels cm owner_namespace_label = Some (ok_namespace obj) \<and>
     cm_labels cm owner_name_label = Some (ok_name obj)"

fun put_all :: "(string \<times> string) list \<Rightarrow> (string \<rightharpoonup> string) \<Rightarrow> (string \<rightharpoonup> string)" where
  "put_all [] m = m"
| "put_all ((k, v) # kvs) m = put_all kvs (m(k \<mapsto> v))"

definition decorate ::
    "obj_key \<Rightarrow> ref_export \<Rightarrow> (string \<times> string) list \<Rightarrow> config_map \<Rightarrow> config_map" where
  "decorate obj spec watch cm =
     cm\<lparr>cm_labels := (put_all watch (put_all (rx_labels spec) (cm_labels cm)))
          (managed_by_label \<mapsto> managed_by, owner_namespace_label \<mapsto> ok_namespace obj,
           owner_name_label \<mapsto> ok_name obj),
        cm_annotations := put_all (rx_annotations spec) (cm_annotations cm)\<rparr>"

fun key_allowed :: "string \<Rightarrow> string list \<Rightarrow> bool" where
  "key_allowed key [] = False"
| "key_allowed key (a # as) =
     (if has_suffix a ''*'' then
        (if has_prefix key (trim_suffix a ''*'') then True else key_allowed key as)
      else if a = key then True else key_allowed key as)"

definition check_keys :: "(string \<times> string) list \<Rightarrow> string list \<Rightarrow> string \<Rightarrow> error option" where
  "check_keys kvs allowed what =
     (if list_all (\<lambda>kv. key_allowed (fst kv) allowed) kvs then None
      else Some (terminal (''push.writeRefTo.'' @ what @ '' sets a key the controller does not permit'')))"

definition export_data :: "ref_export \<Rightarrow> string \<Rightarrow> string \<Rightarrow> (string \<rightharpoonup> string)" where
  "export_data spec digest ref =
     (let keys = rx_keys spec;
          m = (if rk_ref keys \<noteq> [] then Map.empty(rk_ref keys \<mapsto> ref) else Map.empty)
      in (if rk_digest keys \<noteq> [] then m(rk_digest keys \<mapsto> digest) else m))"

text \<open>A write and what the server answers.\<close>

definition write_cm :: "cm_server \<Rightarrow> cm_op \<Rightarrow> 'a \<Rightarrow> cm_op list \<times> 'a res" where
  "write_cm srv oper r =
     ([oper], (case cs_write srv oper of None \<Rightarrow> Inr r | Some e \<Rightarrow> Inl e))"

definition export_into ::
    "cm_server \<Rightarrow> obj_key \<Rightarrow> ref_export \<Rightarrow> export_options \<Rightarrow> string \<Rightarrow> (string \<rightharpoonup> string) \<Rightarrow>
     cm_op list \<times> ref_export_status option res" where
  "export_into srv obj sp opts name data =
     (let ns = rx_namespace sp; written = Some \<lparr>rs_name = name, rs_namespace = ns\<rparr>
      in (case cs_get srv ns name of
            Missing \<Rightarrow>
              (let cm = (decorate obj sp (eo_watch_labels opts)
                   \<lparr>cm_namespace = ns, cm_name = name, cm_labels = Map.empty,
                    cm_annotations = Map.empty, cm_data = Map.empty, cm_owner = None\<rparr>)
                   \<lparr>cm_data := data\<rparr>
               in if ns = ok_namespace obj then
                    (case cs_own srv obj cm of
                       Some e \<Rightarrow> ([], Inl (Wrap ''owning the ConfigMap'' e))
                     | None \<Rightarrow> write_cm srv (CreateCM (cm\<lparr>cm_owner := Some obj\<rparr>)) written)
                  else write_cm srv (CreateCM cm) written)
          | ReadFailed e \<Rightarrow> ([], Inl (Wrap ''reading the ConfigMap'' e))
          | Found cm \<Rightarrow>
              if \<not> owned_by cm obj
              then ([], Inl (terminal ''the ConfigMap exists and is not this object's export''))
              else write_cm srv
                (UpdateCM ((decorate obj sp (eo_watch_labels opts) cm)\<lparr>cm_data := data\<rparr>)) written))"

definition export_ref ::
    "cm_server \<Rightarrow> string res \<Rightarrow> obj_key \<Rightarrow> ref_export option \<Rightarrow> export_options \<Rightarrow> string \<Rightarrow> string \<Rightarrow>
     cm_op list \<times> ref_export_status option res" where
  "export_ref srv kind obj spec opts digest ref =
     (case spec of
        None \<Rightarrow> ([], Inr None)
      | Some sp \<Rightarrow>
          if digest = [] \<or> ref = [] then ([], Inl (Msg ''refusing to export an incomplete reference''))
          else if rx_namespace sp \<noteq> ok_namespace obj \<and> rx_namespace sp \<notin> set (eo_namespaces opts)
          then ([], Inl (terminal ''push.writeRefTo names a namespace that is not permitted''))
          else (case export_name_of kind obj of
              Inl e \<Rightarrow> ([], Inl e)
            | Inr name \<Rightarrow>
                if \<not> cs_name_ok srv name
                then ([], Inl (terminal ''the exported ConfigMap would not have a valid name''))
                else (case check_keys (rx_labels sp) (eo_allowed_labels opts) ''labels'' of
                    Some e \<Rightarrow> ([], Inl e)
                  | None \<Rightarrow>
                      (case check_keys (rx_annotations sp) (eo_allowed_annotations opts) ''annotations'' of
                         Some e \<Rightarrow> ([], Inl e)
                       | None \<Rightarrow> export_into srv obj sp opts name (export_data sp digest ref)))))"

text \<open>\<^verbatim>\<open>client.IgnoreNotFound\<close>: the API server's own not-found, which is not an error here.\<close>

fun ignore_not_found :: "error option \<Rightarrow> error option" where
  "ignore_not_found (Some (NotFoundError n)) = None"
| "ignore_not_found e = e"

definition delete_exported_ref ::
    "cm_server \<Rightarrow> obj_key \<Rightarrow> ref_export_status option \<Rightarrow> cm_op list \<times> error option" where
  "delete_exported_ref srv obj written =
     (case written of
        None \<Rightarrow> ([], None)
      | Some w \<Rightarrow>
          (case cs_get srv (rs_namespace w) (rs_name w) of
             Missing \<Rightarrow> ([], None)
           | ReadFailed e \<Rightarrow> ([], Some (Wrap ''reading the ConfigMap'' e))
           | Found cm \<Rightarrow>
               if \<not> owned_by cm obj then ([], None)
               else ([DeleteCM cm], ignore_not_found (cs_write srv (DeleteCM cm)))))"

definition record_export ::
    "cm_server \<Rightarrow> obj_key \<Rightarrow> ref_export_status option \<Rightarrow> ref_export_status option \<Rightarrow>
     cm_op list \<times> bool res" where
  "record_export srv obj prev written =
     (if prev \<noteq> None \<and> written \<noteq> None \<and> prev = written then ([], Inr False)
      else (case delete_exported_ref srv obj prev of
          (ops, Some e) \<Rightarrow> (ops, Inl e)
        | (ops, None) \<Rightarrow> (ops, Inr True)))"

text \<open>The comma-separated flag; a malformed pair is dropped.\<close>

fun parse_pairs :: "string list \<Rightarrow> (string \<rightharpoonup> string) \<Rightarrow> (string \<rightharpoonup> string)" where
  "parse_pairs [] m = m"
| "parse_pairs (pair # ps) m =
     (case cut (CHR ''='') (trim_space pair) of
        None \<Rightarrow> parse_pairs ps m
      | Some (k, v) \<Rightarrow> if k = [] then parse_pairs ps m else parse_pairs ps (m(k \<mapsto> v)))"

definition parse_labels :: "string \<Rightarrow> (string \<rightharpoonup> string)" where
  "parse_labels v = parse_pairs (split_on (CHR '','') v) Map.empty"

subsection \<open>What may be written\<close>

lemma owned_by_decorate: "owned_by (decorate obj spec watch cm) obj"
  by (simp add: owned_by_def decorate_def managed_by_label_def owner_namespace_label_def owner_name_label_def)

lemma owned_by_unique: "owned_by cm a \<Longrightarrow> owned_by cm b \<Longrightarrow> a = (b :: obj_key)"
  by (simp add: owned_by_def)

lemma key_allowed_spec:
  "key_allowed key allowed \<longleftrightarrow>
     (\<exists>a \<in> set allowed. (\<not> has_suffix a ''*'' \<and> a = key) \<or> (\<exists>p. a = p @ ''*'' \<and> has_prefix key p))"
proof (induction allowed)
  case (Cons a as)
  show ?case
  proof (cases "has_suffix a ''*''")
    case True
    then obtain p where "a = p @ ''*''" by (auto simp: has_suffix_iff)
    with True Cons show ?thesis by auto
  next
    case False
    then have "a \<noteq> p @ ''*''" for p by (auto simp: has_suffix_iff)
    with False Cons show ?thesis by auto
  qed
qed simp

definition op_cm :: "cm_op \<Rightarrow> config_map" where
  "op_cm oper = (case oper of CreateCM c \<Rightarrow> c | UpdateCM c \<Rightarrow> c | DeleteCM c \<Rightarrow> c)"

text \<open>
  Property C39. An export writes at most one ConfigMap, of the name derived from the object, in the
  object's own namespace or one the operator listed; an existing one is replaced only if it is this
  object's export; what is written carries the object's ownership labels whatever the spec's labels
  say, exactly the requested keys with the full values, and no label the operator did not permit or
  add. An own-namespace export is owned by the object.
\<close>

theorem export_confined:
  assumes "oper \<in> set (fst (export_ref srv (Inr kind) obj (Some sp) opts digest ref))"
  shows "(rx_namespace sp = ok_namespace obj \<or> rx_namespace sp \<in> set (eo_namespaces opts)) \<and>
    fst (export_ref srv (Inr kind) obj (Some sp) opts digest ref) = [oper] \<and>
    owned_by (op_cm oper) obj \<and> cm_data (op_cm oper) = export_data sp digest ref \<and>
    digest \<noteq> [] \<and> ref \<noteq> [] \<and>
    list_all (\<lambda>kv. key_allowed (fst kv) (eo_allowed_labels opts)) (rx_labels sp) \<and>
    ((\<exists>cm. oper = CreateCM cm \<and> cs_get srv (rx_namespace sp) (export_name kind obj) = Missing \<and>
        cm_namespace cm = rx_namespace sp \<and> cm_name cm = export_name kind obj \<and>
        (rx_namespace sp = ok_namespace obj \<longrightarrow> cm_owner cm = Some obj)) \<or>
     (\<exists>cm old. oper = UpdateCM cm \<and>
        cs_get srv (rx_namespace sp) (export_name kind obj) = Found old \<and> owned_by old obj \<and>
        cm_namespace cm = cm_namespace old \<and> cm_name cm = cm_name old))"
proof -
  let ?name = "export_name kind obj" and ?ns = "rx_namespace sp" and ?d = "export_data sp digest ref"
  have e: "export_ref srv (Inr kind) obj (Some sp) opts digest ref = export_into srv obj sp opts ?name ?d"
    and guards: "digest \<noteq> []" "ref \<noteq> []"
    "?ns = ok_namespace obj \<or> ?ns \<in> set (eo_namespaces opts)"
    "check_keys (rx_labels sp) (eo_allowed_labels opts) ''labels'' = None"
    using assms by (auto simp: export_ref_def export_name_of_def split: if_splits option.splits)
  let ?new = "decorate obj sp (eo_watch_labels opts)
        \<lparr>cm_namespace = ?ns, cm_name = ?name, cm_labels = Map.empty, cm_annotations = Map.empty,
         cm_data = Map.empty, cm_owner = None\<rparr>"
  have ex: "fst (export_into srv obj sp opts ?name ?d) = [oper] \<and>
    ((cs_get srv ?ns ?name = Missing \<and>
        (?ns = ok_namespace obj \<and> oper = CreateCM (?new\<lparr>cm_data := ?d, cm_owner := Some obj\<rparr>) \<or>
         ?ns \<noteq> ok_namespace obj \<and> oper = CreateCM (?new\<lparr>cm_data := ?d\<rparr>))) \<or>
     (\<exists>old. cs_get srv ?ns ?name = Found old \<and> owned_by old obj \<and>
        oper = UpdateCM ((decorate obj sp (eo_watch_labels opts) old)\<lparr>cm_data := ?d\<rparr>)))"
    using assms unfolding e
    by (auto simp: export_into_def write_cm_def Let_def split: if_splits option.splits lookup.splits)
  have own: "owned_by (c\<lparr>cm_data := d\<rparr>) obj = owned_by c obj"
    "owned_by (c\<lparr>cm_data := d, cm_owner := w\<rparr>) obj = owned_by c obj" for c d w
    by (simp_all add: owned_by_def)
  have lab: "list_all (\<lambda>kv. key_allowed (fst kv) (eo_allowed_labels opts)) (rx_labels sp)"
    using guards(4) by (simp add: check_keys_def split: if_splits)
  have frame: "cm_namespace (decorate obj sp w c) = cm_namespace c" "cm_name (decorate obj sp w c) = cm_name c"
    for w c by (simp_all add: decorate_def)
  show ?thesis
    unfolding e using ex guards lab owned_by_decorate by (auto simp: op_cm_def own frame)
qed

text \<open>An empty server that accepts every write, and one that already holds a ConfigMap.\<close>

definition plain_server :: "config_map lookup \<Rightarrow> cm_server" where
  "plain_server r =
     \<lparr>cs_get = (\<lambda>ns n. r), cs_write = (\<lambda>oper. None), cs_own = (\<lambda>o' cm. None), cs_name_ok = (\<lambda>n. True)\<rparr>"

definition sample_export :: ref_export where
  "sample_export =
     \<lparr>rx_namespace = ''team'', rx_keys = \<lparr>rk_ref = ''IMAGE'', rk_digest = []\<rparr>,
      rx_labels = [(managed_by_label, ''me'')], rx_annotations = []\<rparr>"

definition sample_options :: export_options where
  "sample_options =
     \<lparr>eo_namespaces = [], eo_watch_labels = [], eo_allowed_labels = [''app.*''],
      eo_allowed_annotations = []\<rparr>"

definition sample_cm :: config_map where
  "sample_cm =
     (decorate \<lparr>ok_namespace = ''team'', ok_name = ''a-app''\<rparr> sample_export []
       \<lparr>cm_namespace = ''team'', cm_name = ''imagebuild-team-a-app'', cm_labels = Map.empty,
        cm_annotations = Map.empty, cm_data = Map.empty, cm_owner = None\<rparr>)"

theorem export_confined_witness:
  "\<exists>oper. fst (export_ref (plain_server Missing) (Inr ''ImageBuild'') \<lparr>ok_namespace = ''team'', ok_name = ''app''\<rparr>
      (Some sample_export) sample_options ''sha256:aa'' ''r@sha256:aa'') = [oper] \<and>
    owned_by (op_cm oper) \<lparr>ok_namespace = ''team'', ok_name = ''app''\<rparr>"
proof -
  let ?r = "export_ref (plain_server Missing) (Inr ''ImageBuild'') \<lparr>ok_namespace = ''team'', ok_name = ''app''\<rparr>
      (Some sample_export) sample_options ''sha256:aa'' ''r@sha256:aa''"
  have "fst ?r \<noteq> []"
    by (simp add: export_ref_def export_name_of_def plain_server_def sample_export_def
        sample_options_def check_keys_def key_allowed_spec has_suffix_def has_prefix_def
        managed_by_label_def export_into_def write_cm_def Let_def)
  then obtain oper where "oper \<in> set (fst ?r)" by (meson ex_in_conv set_empty)
  from export_confined[OF this] show ?thesis by blast
qed

text \<open>
  Cleaning up deletes at most the ConfigMap on record, and only while it still is this
  object's export; nothing is deleted when the record did not change.
\<close>

theorem export_cleanup_confined:
  assumes "oper \<in> set (fst (record_export srv obj prev written))"
  shows "\<exists>w cm. prev = Some w \<and> written \<noteq> prev \<and> oper = DeleteCM cm \<and>
    cs_get srv (rs_namespace w) (rs_name w) = Found cm \<and> owned_by cm obj"
proof -
  have "oper \<in> set (fst (delete_exported_ref srv obj prev))" and ne: "prev = None \<or> written \<noteq> prev"
    using assms by (auto simp: record_export_def split: if_splits prod.splits option.splits)
  then show ?thesis
    by (auto simp: delete_exported_ref_def split: option.splits lookup.splits if_splits)
qed

text \<open>
  The derived name does not determine the object: a dash in a namespace can make the
  names of two objects coincide. The second writer is refused for good and writes nothing.
\<close>

theorem export_name_collision:
  assumes "owned_by cm a" "a \<noteq> b" "cs_get srv (rx_namespace sp) (export_name kind a) = Found cm"
    and "export_name kind a = export_name kind b"
  shows "fst (export_ref srv (Inr kind) b (Some sp) opts digest ref) = [] \<and>
    (\<exists>e. snd (export_ref srv (Inr kind) b (Some sp) opts digest ref) = Inl e)"
  using assms owned_by_unique[of cm a b]
  by (auto simp: export_ref_def export_into_def export_name_of_def Let_def split: option.splits)

theorem export_name_collision_witness:
  "fst (export_ref (plain_server (Found sample_cm)) (Inr ''ImageBuild'')
      \<lparr>ok_namespace = ''team-a'', ok_name = ''app''\<rparr> (Some sample_export) sample_options ''sha256:aa'' ''r'') = []"
proof -
  let ?a = "\<lparr>ok_namespace = ''team'', ok_name = ''a-app''\<rparr>" and ?b = "\<lparr>ok_namespace = ''team-a'', ok_name = ''app''\<rparr>"
  have "owned_by sample_cm ?a" unfolding sample_cm_def by (rule owned_by_decorate)
  moreover have "?a \<noteq> ?b" by simp
  moreover have "cs_get (plain_server (Found sample_cm)) (rx_namespace sample_export)
      (export_name ''ImageBuild'' ?a) = Found sample_cm" by (simp add: plain_server_def)
  moreover have "export_name ''ImageBuild'' ?a = export_name ''ImageBuild'' ?b"
    by (simp add: export_name_def)
  ultimately show ?thesis by (rule conjunct1[OF export_name_collision])
qed

theorem export_cleanup_confined_witness:
  "owned_by sample_cm \<lparr>ok_namespace = ''team'', ok_name = ''a-app''\<rparr> \<and>
   DeleteCM sample_cm \<in> set (fst (record_export (plain_server (Found sample_cm))
     \<lparr>ok_namespace = ''team'', ok_name = ''a-app''\<rparr> (Some \<lparr>rs_name = ''n'', rs_namespace = ''team''\<rparr>) None))"
proof -
  let ?a = "\<lparr>ok_namespace = ''team'', ok_name = ''a-app''\<rparr>"
  have o: "owned_by sample_cm ?a" unfolding sample_cm_def by (rule owned_by_decorate)
  then have m: "DeleteCM sample_cm \<in> set (fst (record_export (plain_server (Found sample_cm)) ?a
      (Some \<lparr>rs_name = ''n'', rs_namespace = ''team''\<rparr>) None))"
    by (simp add: record_export_def delete_exported_ref_def plain_server_def)
  from export_cleanup_confined[OF m] m show ?thesis by blast
qed

end
