(* ===== verification/Build_Types.thy ===== *)
theory Build_Types
  imports Composition_Inputs Attest Ref_Export "HOL-Library.Word"
begin

section \<open>The API types of a build\<close>

text \<open>
  \<^verbatim>\<open>api/v1alpha1/imagebuild_types.go\<close>: the spec and status of an \<^verbatim>\<open>ImageBuild\<close>. The
  failure counter is an \<^verbatim>\<open>int32\<close> and is kept at that width; resource requirements are opaque
  and copied through.
\<close>

record build_context =
  bc_source_ref :: "source_ref option"
  bc_fetch :: "fetch_source option"
  bc_image :: "image_source option"

record config_map_key =
  ck_name :: string
  ck_key :: string

record dockerfile_source =
  df_path :: string
  df_inline :: string
  df_config_map :: "config_map_key option"

record build_secret =
  bx_id :: string
  bx_secret :: string
  bx_key :: string

record build_cache =
  bk_mode :: string
  bk_ref :: string

record build_attempt =
  la_input_hash :: string
  la_pod :: string
  la_started :: "int option"
  la_finished :: "int option"
  la_succeeded :: bool
  la_message :: string

record build_spec =
  xs_interval :: "int option"
  xs_suspend :: bool
  xs_context :: "build_context option"
  xs_dockerfile :: "dockerfile_source option"
  xs_target :: string
  xs_platforms :: "string list"
  xs_args :: "(string \<times> string) list"
  xs_secrets :: "build_secret list"
  xs_network :: string
  xs_cache :: "build_cache option"
  xs_resources :: "string option"
  xs_timeout :: "int option"
  xs_service_account :: string
  xs_push :: "push option"

record image_build = conditioned +
  ib_namespace :: string
  ib_name :: string
  ib_requested :: string
  ib_finalizers :: "string list"
  ib_deleting :: bool
  ib_spec :: build_spec
  ib_observed :: int
  ib_input_hash :: string
  ib_artifact :: "artifact option"
  ib_attestations :: "att_record option"
  ib_history :: "build_record list"
  ib_conflict :: "tag_conflict option"
  ib_build_ref :: "string option"
  ib_ref_export :: "ref_export_status option"
  ib_attempt :: "build_attempt option"
  ib_failures :: "32 word"
  ib_handled :: string

text \<open>The accessors take a nil context or Dockerfile.\<close>

definition get_source_ref :: "build_context option \<Rightarrow> source_ref option" where
  "get_source_ref c = (case c of None \<Rightarrow> None | Some b \<Rightarrow> bc_source_ref b)"

definition get_fetch :: "build_context option \<Rightarrow> fetch_source option" where
  "get_fetch c = (case c of None \<Rightarrow> None | Some b \<Rightarrow> bc_fetch b)"

definition get_image :: "build_context option \<Rightarrow> image_source option" where
  "get_image c = (case c of None \<Rightarrow> None | Some b \<Rightarrow> bc_image b)"

definition effective_dockerfile :: "dockerfile_source option \<Rightarrow> string" where
  "effective_dockerfile s =
     (case s of None \<Rightarrow> ''Dockerfile''
      | Some d \<Rightarrow> if df_path d = [] then ''Dockerfile'' else df_path d)"

end
