(* ===== verification/Build_Job.thy ===== *)
theory Build_Job
  imports Build_Types
begin

section \<open>Rendering a build as a Job\<close>

text \<open>
  \<^verbatim>\<open>internal/buildcontroller/job.go\<close>: names, the arguments of the context fetcher and of
  \<^verbatim>\<open>buildctl\<close>, the volumes and their mounts, and the Job itself. Pointers the code leaves nil are
  absent options; a \<open>None\<close> result of \<open>fetch_context_args\<close> is the nil dereference.
\<close>

subsection \<open>The pieces of a pod\<close>

datatype volume_source = EmptyDir | SecretVolume string "(string \<times> string) list"

record volume =
  vo_name :: string
  vo_source :: volume_source

record mount =
  mo_name :: string
  mo_path :: string
  mo_sub :: string
  mo_read_only :: bool

record security_context =
  se_user :: int
  se_group :: int
  se_non_root :: bool
  se_privileged :: bool
  se_escalation :: bool
  se_seccomp :: string
  se_apparmor :: string
  se_drop :: "string list"
  se_add :: "string list"

record container =
  ct_name :: string
  ct_image :: string
  ct_command :: "string list"
  ct_args :: "string list"
  ct_env :: "(string \<times> string) list"
  ct_mounts :: "mount list"
  ct_message_policy :: string
  ct_security :: security_context
  ct_resources :: "string option"

record job =
  jb_name :: string
  jb_namespace :: string
  jb_labels :: "(string \<times> string) list"
  jb_backoff_limit :: int
  jb_deadline :: "int option"
  jb_ttl :: int
  jb_pod_labels :: "(string \<times> string) list"
  jb_restart :: string
  jb_service_account :: string
  jb_automount :: "bool option"
  jb_init :: "container list"
  jb_containers :: "container list"
  jb_volumes :: "volume list"

record job_config =
  jc_builder :: string
  jc_frontend :: string
  jc_fetcher :: string
  jc_sbom :: bool
  jc_provenance :: bool
  jc_registry_ca :: string
  jc_insecure :: "string list"
  jc_context_base :: string
  jc_epoch :: string

subsection \<open>Names and paths\<close>

definition context_volume :: string where "context_volume = ''context''"
definition result_volume :: string where "result_volume = ''result''"
definition secret_volume :: string where "secret_volume = ''build-secrets''"
definition docker_volume :: string where "docker_volume = ''docker-config''"
definition dockerfile_volume :: string where "dockerfile_volume = ''dockerfile''"
definition token_volume :: string where "token_volume = ''context-token''"
definition ca_volume :: string where "ca_volume = ''registry-ca''"
definition bundle_volume :: string where "bundle_volume = ''ca-bundle''"

definition context_path :: string where "context_path = ''/workspace''"
definition result_path :: string where "result_path = ''/result''"
definition dockerfile_path :: string where "dockerfile_path = ''/dockerfile''"
definition dockerfile_name :: string where "dockerfile_name = ''Dockerfile''"
definition dockerfile_key :: string where "dockerfile_key = ''Dockerfile''"
definition secret_path :: string where "secret_path = ''/secrets''"
definition context_token_path :: string where "context_token_path = ''/context-token''"
definition context_token_file :: string where "context_token_file = ''token''"
definition registry_ca_path :: string where "registry_ca_path = ''/registry-ca''"
definition ca_bundle_path :: string where "ca_bundle_path = ''/certs/ca-bundle.crt''"
definition docker_path :: string where "docker_path = ''/docker''"
definition metadata_file :: string where "metadata_file = ''metadata.json''"

definition input_hash_label :: string where "input_hash_label = ''oci.lhns.de/input-hash''"
definition builder_manager :: string where "builder_manager = ''kube-oci-builder''"

definition short_hash :: "string \<Rightarrow> string" where
  "short_hash ih =
     (let short = trim_prefix ih ''sha256:'' in
      if length short > 12 then take 12 short else short)"

definition job_name :: "string \<Rightarrow> string \<Rightarrow> string" where
  "job_name name ih =
     (let full = name @ ''-'' @ short_hash ih in
      if length full > 63 then drop (length full - 63) full else full)"

definition context_secret_name :: "string \<Rightarrow> string" where
  "context_secret_name job = job @ ''-context''"

definition rootless_security_context :: security_context where
  "rootless_security_context =
     \<lparr>se_user = 1000, se_group = 1000, se_non_root = True, se_privileged = False, se_escalation = True,
      se_seccomp = ''Unconfined'', se_apparmor = ''Unconfined'', se_drop = [''ALL''],
      se_add = [''SETUID'', ''SETGID'']\<rparr>"

definition projected_dockerfile :: "build_spec \<Rightarrow> bool" where
  "projected_dockerfile spec =
     (case xs_dockerfile spec of
        None \<Rightarrow> False
      | Some d \<Rightarrow> df_inline d \<noteq> [] \<or> df_config_map d \<noteq> None)"

definition insecure_attr :: "string \<Rightarrow> string list \<Rightarrow> string" where
  "insecure_attr repository insecure =
     (if repository = [] \<or> \<not> insecure_host repository insecure then []
      else '',registry.insecure=true'')"

definition cache_ref_for :: "build_spec \<Rightarrow> string \<Rightarrow> string \<Rightarrow> string \<Rightarrow> string" where
  "cache_ref_for spec namespace name repo =
     (let per_object =
        (if repo = [] then [] else repo @ ''-buildcache-'' @ namespace @ ''-'' @ name)
      in case xs_cache spec of
           None \<Rightarrow> per_object
         | Some c \<Rightarrow>
             if bk_mode c = ''Disabled'' then []
             else if bk_ref c \<noteq> [] then bk_ref c
             else per_object)"

subsection \<open>Arguments\<close>

definition fetch_context_args ::
    "image_build \<Rightarrow> job_config \<Rightarrow> string \<Rightarrow> string \<Rightarrow> string \<Rightarrow> string list option" where
  "fetch_context_args obj cfg ih context_url context_digest =
     (let spec = ib_spec obj;
          args = [''fetch-context'', ''--dest='' @ context_path, ''--url='' @ context_url,
                  ''--digest='' @ context_digest] @
            (if projected_dockerfile spec then []
             else [''--dockerfile='' @ effective_dockerfile (xs_dockerfile spec)])
      in case get_source_ref (xs_context spec) of
           Some ref \<Rightarrow>
             (let args' =
                (if jc_context_base cfg = [] then args
                 else args[2 := ''--url='' @ trim_suffix (jc_context_base cfg) ''/'' @ ''/contexts/'' @
                        ib_namespace obj @ ''/'' @ ib_name obj @ ''/'' @ ih] @
                      [''--token-file='' @ path_join context_token_path context_token_file])
              in Some (args' @ [''--kind=sourceRef'', ''--unpack=tar.gz'', ''--subpath='' @ sr_subpath ref]))
         | None \<Rightarrow>
             (case get_image (xs_context spec) of
                Some img \<Rightarrow> Some (args @ [''--kind=image'', ''--subpath='' @ is_subpath img])
              | None \<Rightarrow>
                  (case get_fetch (xs_context spec) of
                     None \<Rightarrow> None
                   | Some f \<Rightarrow> Some (args @ [''--kind=fetch'', ''--unpack='' @ ft_unpack f,
                       ''--subpath='' @ ft_subpath f, ''--strip-components='' @ show_int (ft_strip f)]))))"

text \<open>The local directory and the file name \<^verbatim>\<open>buildctl\<close> is told the Dockerfile is at.\<close>

definition dockerfile_local :: "build_spec \<Rightarrow> string \<times> string" where
  "dockerfile_local spec =
     (if projected_dockerfile spec then (dockerfile_path, dockerfile_name)
      else (path_join context_path (path_dir (effective_dockerfile (xs_dockerfile spec))),
            path_base (effective_dockerfile (xs_dockerfile spec))))"

definition arg_flags :: "string \<times> string \<Rightarrow> string list" where
  "arg_flags a = [''--opt'', ''build-arg:'' @ fst a @ ''='' @ snd a]"

definition secret_flags :: "build_secret \<Rightarrow> string list" where
  "secret_flags s =
     (let key = (if bx_key s = [] then bx_id s else bx_key s) in
      [''--secret'', ''id='' @ bx_id s @ '',src='' @ path_join (path_join secret_path (bx_secret s)) key])"

definition cache_flags :: "string \<Rightarrow> string \<Rightarrow> bool \<Rightarrow> string list" where
  "cache_flags cache_ref insecure available =
     (if cache_ref = [] then []
      else (if available then [''--import-cache'', ''type=registry,ref='' @ cache_ref @ insecure] else []) @
        [''--export-cache'', ''type=registry,ref='' @ cache_ref @
           '',mode=max,oci-mediatypes=true,image-manifest=true'' @ insecure])"

definition buildctl_args :: "image_build \<Rightarrow> job_config \<Rightarrow> string \<Rightarrow> bool \<Rightarrow> string list" where
  "buildctl_args obj cfg repo cache_available =
     (let spec = ib_spec obj; loc = dockerfile_local spec in
      [''build'', ''--frontend'', ''dockerfile.v0'', ''--local'', ''context='' @ context_path,
       ''--local'', ''dockerfile='' @ fst loc, ''--opt'', ''filename='' @ snd loc,
       ''--opt'', ''build-arg:BUILDKIT_SYNTAX='' @ jc_frontend cfg,
       ''--metadata-file'', path_join result_path metadata_file] @
      (if xs_target spec = [] then [] else [''--opt'', ''target='' @ xs_target spec]) @
      [''--opt'', ''platform='' @ join '','' (xs_platforms spec)] @
      concat (map arg_flags (xs_args spec)) @
      concat (map secret_flags (xs_secrets spec)) @
      (if xs_network spec = ''None'' then [''--opt'', ''no-network=true''] else []) @
      [''--output'', ''type=image,name='' @ repo @
         '',push=true,push-by-digest=true,rewrite-timestamp=true,oci-mediatypes=true'' @
         insecure_attr repo (jc_insecure cfg),
       ''--opt'', ''build-arg:SOURCE_DATE_EPOCH='' @ jc_epoch cfg] @
      (if jc_sbom cfg then [''--opt'', ''attest:sbom=''] else []) @
      (if jc_provenance cfg then [''--opt'', ''attest:provenance=mode=min''] else []) @
      cache_flags (cache_ref_for spec (ib_namespace obj) (ib_name obj) repo)
        (insecure_attr repo (jc_insecure cfg)) cache_available)"

subsection \<open>Volumes and mounts\<close>

definition add_volume ::
    "string \<Rightarrow> volume_source \<Rightarrow> string \<Rightarrow> bool \<Rightarrow> volume \<times> mount" where
  "add_volume name src at ro =
     (\<lparr>vo_name = name, vo_source = src\<rparr>, \<lparr>mo_name = name, mo_path = at, mo_sub = [], mo_read_only = ro\<rparr>)"

definition secret_volume_name :: "string \<Rightarrow> string" where
  "secret_volume_name secret = secret_volume @ ''-'' @ secret"

definition secret_volume_of :: "build_secret \<Rightarrow> volume \<times> mount" where
  "secret_volume_of s =
     add_volume (secret_volume_name (bx_secret s)) (SecretVolume (bx_secret s) [])
       (path_join secret_path (bx_secret s)) True"

definition build_volumes ::
    "build_spec \<Rightarrow> string \<Rightarrow> string \<Rightarrow> volume list \<times> mount list" where
  "build_volumes spec push_secret dockerfile_secret =
     (let pairs =
        [add_volume context_volume EmptyDir context_path False,
         add_volume result_volume EmptyDir result_path False] @
        (if projected_dockerfile spec
         then [(\<lparr>vo_name = dockerfile_volume,
                 vo_source = SecretVolume dockerfile_secret [(dockerfile_key, dockerfile_name)]\<rparr>,
                \<lparr>mo_name = dockerfile_volume, mo_path = path_join dockerfile_path dockerfile_name,
                 mo_sub = dockerfile_name, mo_read_only = True\<rparr>)]
         else []) @
        (if push_secret = [] then []
         else [add_volume docker_volume
           (SecretVolume push_secret [(''.dockerconfigjson'', ''config.json'')]) docker_path True]) @
        map secret_volume_of (xs_secrets spec)
      in (map fst pairs, map snd pairs))"

definition registry_ca_volumes :: "string \<Rightarrow> volume list \<times> mount list" where
  "registry_ca_volumes ca_secret =
     (if ca_secret = [] then ([], [])
      else ([\<lparr>vo_name = ca_volume, vo_source = SecretVolume ca_secret []\<rparr>,
             \<lparr>vo_name = bundle_volume, vo_source = EmptyDir\<rparr>],
            [\<lparr>mo_name = ca_volume, mo_path = registry_ca_path, mo_sub = [], mo_read_only = True\<rparr>,
             \<lparr>mo_name = bundle_volume, mo_path = path_dir ca_bundle_path, mo_sub = [],
              mo_read_only = False\<rparr>]))"

definition token_projection :: "string \<Rightarrow> volume \<times> mount" where
  "token_projection secret =
     (\<lparr>vo_name = token_volume, vo_source = SecretVolume secret [(''token'', context_token_file)]\<rparr>,
      \<lparr>mo_name = token_volume, mo_path = path_join context_token_path context_token_file,
       mo_sub = context_token_file, mo_read_only = True\<rparr>)"

definition fetch_mounts :: "string \<Rightarrow> mount list" where
  "fetch_mounts context_secret =
     \<lparr>mo_name = context_volume, mo_path = context_path, mo_sub = [], mo_read_only = False\<rparr> #
     (if context_secret = [] then [] else [snd (token_projection context_secret)])"

subsection \<open>The Job\<close>

definition automount :: "string \<Rightarrow> bool option" where
  "automount service_account = (if service_account = [] then Some False else None)"

definition newline :: string where
  "newline = [CHR 0x0A]"

definition build_script :: "string \<Rightarrow> string" where
  "build_script ca_secret =
     ''set -e'' @ newline @
     (if ca_secret = [] then []
      else ''{ cat /etc/ssl/certs/ca-certificates.crt 2>/dev/null || true; cat '' @ registry_ca_path @
        ''/ca.crt; } > '' @ ca_bundle_path @ newline) @
     ''buildctl-daemonless.sh \"$@\"'' @ newline @
     ''cat '' @ path_join result_path metadata_file @ '' > /dev/termination-log'' @ newline"

definition build_env :: "job_config \<Rightarrow> string \<Rightarrow> string \<Rightarrow> (string \<times> string) list" where
  "build_env cfg push_secret ca_secret =
     [(''BUILDKITD_FLAGS'', ''--oci-worker-no-process-sandbox''), (''SOURCE_DATE_EPOCH'', jc_epoch cfg)] @
     (if push_secret = [] then [] else [(''DOCKER_CONFIG'', docker_path)]) @
     (if ca_secret = [] then [] else [(''SSL_CERT_FILE'', ca_bundle_path)])"

definition job_labels :: "string \<Rightarrow> (string \<times> string) list" where
  "job_labels ih =
     [(managed_by_label, builder_manager), (input_hash_label, short_hash ih)]"

definition fetch_container ::
    "image_build \<Rightarrow> job_config \<Rightarrow> string \<Rightarrow> string list \<Rightarrow> container" where
  "fetch_container obj cfg context_secret args =
     \<lparr>ct_name = ''fetch-context'', ct_image = jc_fetcher cfg, ct_command = [], ct_args = args,
      ct_env = [], ct_mounts = fetch_mounts context_secret,
      ct_message_policy = ''FallbackToLogsOnError'', ct_security = rootless_security_context,
      ct_resources = xs_resources (ib_spec obj)\<rparr>"

definition build_container ::
    "image_build \<Rightarrow> job_config \<Rightarrow> string \<Rightarrow> string \<Rightarrow> string \<Rightarrow> mount list \<Rightarrow> bool \<Rightarrow> container" where
  "build_container obj cfg repo push_secret ca_secret mounts cache_available =
     \<lparr>ct_name = ''build'', ct_image = jc_builder cfg,
      ct_command = [''sh'', ''-c'', build_script ca_secret, ''sh''],
      ct_args = buildctl_args obj cfg repo cache_available,
      ct_env = build_env cfg push_secret ca_secret, ct_mounts = mounts,
      ct_message_policy = ''FallbackToLogsOnError'', ct_security = rootless_security_context,
      ct_resources = xs_resources (ib_spec obj)\<rparr>"

definition deadline_of :: "int option \<Rightarrow> int option" where
  "deadline_of timeout =
     (case timeout of None \<Rightarrow> None | Some d \<Rightarrow> if d > 0 then Some (d div second) else None)"

definition init_containers ::
    "image_build \<Rightarrow> string \<Rightarrow> string \<Rightarrow> string \<Rightarrow> job_config \<Rightarrow> string \<Rightarrow> container list option" where
  "init_containers obj ih context_url context_digest cfg context_secret =
     (if xs_context (ib_spec obj) = None then Some []
      else (case fetch_context_args obj cfg ih context_url context_digest of
          None \<Rightarrow> None
        | Some args \<Rightarrow> Some [fetch_container obj cfg context_secret args]))"

definition build_job ::
    "image_build \<Rightarrow> string \<Rightarrow> string \<Rightarrow> string \<Rightarrow> job_config \<Rightarrow> string \<Rightarrow> string \<Rightarrow> string \<Rightarrow> string \<Rightarrow>
     string \<Rightarrow> bool \<Rightarrow> job option" where
  "build_job obj ih context_url context_digest cfg repo push_secret ca_secret dockerfile_secret
      context_secret cache_available =
     (case init_containers obj ih context_url context_digest cfg context_secret of
        None \<Rightarrow> None
      | Some inits \<Rightarrow>
          (let spec = ib_spec obj;
               bv = build_volumes spec push_secret dockerfile_secret;
               cv = registry_ca_volumes ca_secret
           in Some
             \<lparr>jb_name = job_name (ib_name obj) ih, jb_namespace = ib_namespace obj,
              jb_labels = job_labels ih, jb_backoff_limit = 0,
              jb_deadline = deadline_of (xs_timeout spec), jb_ttl = 3600,
              jb_pod_labels = job_labels ih, jb_restart = ''Never'',
              jb_service_account = xs_service_account spec,
              jb_automount = automount (xs_service_account spec), jb_init = inits,
              jb_containers = [build_container obj cfg repo push_secret ca_secret (snd bv @ snd cv)
                cache_available],
              jb_volumes = fst bv @ fst cv @
                (if context_secret = [] then [] else [fst (token_projection context_secret)])\<rparr>))"

end
