(* ===== verification/Dockerfile_Check.thy ===== *)
theory Dockerfile_Check
  imports Archive_Path Go_Strings
begin

section \<open>The pinned-base check\<close>

text \<open>
  \<^verbatim>\<open>internal/build/dockerfile.go\<close>, the scanner that refuses a \<^verbatim>\<open>FROM\<close> which is not pinned by
  digest, and \<^verbatim>\<open>internal/build/context.go\<close>, which reads the Dockerfile out of a context archive.
  Downloading and the gzip and tar readers are parameters: an archive is the sequence of its entries
  and what ended it. The rule is stated on the logical lines of a file, the images they start from and
  the stages they name, and the loop of the scanner is shown to compute it.
\<close>

subsection \<open>Scanning lines\<close>

text \<open>\<^verbatim>\<open>bufio.ScanLines\<close>, and the longest line a one-megabyte buffer can hold.\<close>

definition drop_cr :: "string \<Rightarrow> string" where
  "drop_cr l = trim_suffix l [CHR 0x0D]"

definition raw_lines :: "string \<Rightarrow> string list" where
  "raw_lines s = (let ls = split_on (CHR 0x0A) s in if last ls = [] then butlast ls else ls)"

definition max_line :: int where
  "max_line = 1024 * 1024"

subsection \<open>The check\<close>

record scan_state =
  ss_stages :: "string set"
  ss_continued :: string
  ss_unpinned :: "string list"

definition from_ok :: "string set \<Rightarrow> string \<Rightarrow> bool" where
  "from_ok stages ref =
     (if to_lower ref \<in> stages then True
      else if equal_fold ref ''scratch'' then True
      else if CHR ''$'' \<in> set ref then False
      else contains ref ''@sha256:'')"

definition stage_of :: "string list \<Rightarrow> string option" where
  "stage_of fs =
     (if 4 \<le> length fs \<and> equal_fold (fs ! (length fs - 2)) ''AS'' then Some (to_lower (fs ! (length fs - 1)))
      else None)"

text \<open>The body of the loop once continuations are joined.\<close>

definition scan_instruction :: "string \<Rightarrow> scan_state \<Rightarrow> scan_state" where
  "scan_instruction line st =
     (if line = [] \<or> has_prefix line ''#'' then st
      else (let fs = Go_Strings.fields line in
        if length fs < 2 \<or> \<not> equal_fold (fs ! 0) ''FROM'' then st
        else (let ref = fs ! 1;
                  stages = (case stage_of fs of None \<Rightarrow> ss_stages st | Some a \<Rightarrow> insert a (ss_stages st))
          in if from_ok stages ref then st\<lparr>ss_stages := stages\<rparr>
             else st\<lparr>ss_stages := stages, ss_unpinned := ss_unpinned st @ [ref]\<rparr>)))"

definition scan_line :: "string \<Rightarrow> scan_state \<Rightarrow> scan_state" where
  "scan_line text st =
     (let line = (if ss_continued st \<noteq> [] then ss_continued st @ '' '' @ trim_space text else trim_space text);
          st1 = st\<lparr>ss_continued := []\<rparr>
      in if has_suffix line [CHR 0x5C] then st1\<lparr>ss_continued := trim_space (trim_suffix line [CHR 0x5C])\<rparr>
         else scan_instruction line st1)"

definition start_scan :: scan_state where
  "start_scan = \<lparr>ss_stages = {}, ss_continued = [], ss_unpinned = []\<rparr>"

definition unpinned_message :: "string list \<Rightarrow> string" where
  "unpinned_message refs = ''every FROM must be pinned by digest; these are not: '' @ join '' '' refs"

definition check_pinned_bases :: "string \<Rightarrow> unit res" where
  "check_pinned_bases content =
     (if list_ex (\<lambda>l. max_line \<le> int (length l)) (raw_lines content)
      then Inl (Wrap ''reading the Dockerfile'' (Msg ''bufio.Scanner: token too long''))
      else (let st = fold scan_line (map drop_cr (raw_lines content)) start_scan in
        if ss_unpinned st \<noteq> []
        then Inl (Msg (unpinned_message (ss_unpinned st)))
        else Inr ()))"

subsection \<open>The rule on logical lines\<close>

text \<open>
  The lines of a text, one character at a time: a last line without its end counts unless it is
  empty. Carriage returns need no rule of their own, for the lines are trimmed before they are read.
\<close>

fun text_lines :: "string \<Rightarrow> string \<Rightarrow> string list" where
  "text_lines line [] = (if line = [] then [] else [line])"
| "text_lines line (c # cs) = (if c = CHR 0x0A then line # text_lines [] cs else text_lines (line @ [c]) cs)"

lemma text_lines_split:
  "text_lines line s =
     (let ls = (line @ hd (split_on (CHR 0x0A) s)) # tl (split_on (CHR 0x0A) s) in if last ls = [] then butlast ls else ls)"
proof (induction s arbitrary: line)
  case (Cons c cs)
  obtain y ys where y: "split_on (CHR 0x0A) cs = y # ys" by (cases "split_on (CHR 0x0A) cs") auto
  with Cons.IH[of "[]"] Cons.IH[of "line @ [c]"] show ?case by (simp add: Let_def)
qed simp

lemma raw_lines_text: "raw_lines s = text_lines [] s"
  unfolding text_lines_split raw_lines_def
  by (cases "split_on (CHR 0x0A) s") (simp_all add: Let_def)

lemma trim_space_drop_cr: "trim_space (drop_cr l) = trim_space l"
proof (cases "has_suffix l [CHR 0x0D]")
  case True
  then obtain s where s: "l = s @ [CHR 0x0D]" by (auto simp: has_suffix_iff)
  have "is_space CHR 0x0D" by (simp add: is_space_def)
  then have "trim_space (s @ [CHR 0x0D]) = trim_space s"
    by (cases "\<forall>x \<in> set s. is_space x") (auto simp: trim_space_def trim_right_by_def dropWhile_append dest: set_dropWhileD)
  then show ?thesis by (simp add: s drop_cr_def)
qed (simp add: drop_cr_def trim_suffix_def)

fun logical_lines :: "string \<Rightarrow> string list \<Rightarrow> string list" where
  "logical_lines open_line [] = []"
| "logical_lines open_line (text # rest) =
     (let line = (if open_line \<noteq> [] then open_line @ '' '' @ trim_space text else trim_space text)
      in if has_suffix line [CHR 0x5C] then logical_lines (trim_space (trim_suffix line [CHR 0x5C])) rest
         else line # logical_lines [] rest)"

lemma logical_lines_drop_cr: "logical_lines line (map drop_cr ls) = logical_lines line ls"
  by (induction ls arbitrary: line) (simp_all add: trim_space_drop_cr Let_def)

text \<open>A line that starts from an image: the image and the stage it names.\<close>

fun stage_named :: "string list \<Rightarrow> string option" where
  "stage_named (name # as # earlier) = (if equal_fold as ''AS'' then Some (to_lower name) else None)"
| "stage_named fs = None"

definition from_line :: "string \<Rightarrow> (string \<times> string option) option" where
  "from_line line =
     (if has_prefix line ''#'' then None
      else (case Go_Strings.fields line of
          from # ref # rest \<Rightarrow> if equal_fold from ''FROM'' then Some (ref, stage_named (rev rest)) else None
        | fs \<Rightarrow> None))"

definition from_lines :: "string list \<Rightarrow> (string \<times> string option) list" where
  "from_lines ls = List.map_filter from_line ls"

fun offending :: "string set \<Rightarrow> (string \<times> string option) list \<Rightarrow> string list" where
  "offending stages [] = []"
| "offending stages ((ref, stage) # fs) =
     (let stages' = stages \<union> set_option stage in
      (if from_ok stages' ref then [] else [ref]) @ offending stages' fs)"

lemma fields_Nil: "Go_Strings.fields [] = []"
  by code_simp

lemma stage_of_named: "stage_of (from # ref # rest) = stage_named (rev rest)"
proof (cases "2 \<le> length rest")
  case True
  then obtain name as earlier where r: "rev rest = name # as # earlier"
    by (cases "rev rest"; cases "tl (rev rest)") (auto dest: arg_cong[where f = length])
  then have "rest = rev earlier @ [as, name]" by (simp add: rev_swap)
  then show ?thesis by (simp add: stage_of_def nth_append)
next
  case False
  then have "rest = [] \<or> (\<exists>x. rest = [x])" by (cases rest; cases "tl rest") auto
  then show ?thesis by (auto simp: stage_of_def)
qed

lemma scan_instruction_spec:
  "scan_instruction line st =
     (case from_line line of
        None \<Rightarrow> st
      | Some (ref, stage) \<Rightarrow>
          (let stages' = ss_stages st \<union> set_option stage in
           st\<lparr>ss_stages := stages',
              ss_unpinned := ss_unpinned st @ (if from_ok stages' ref then [] else [ref])\<rparr>))"
proof (cases "line = [] \<or> has_prefix line ''#''")
  case True
  then show ?thesis by (auto simp: scan_instruction_def from_line_def fields_Nil)
next
  case False
  show ?thesis
  proof (cases "Go_Strings.fields line" rule: remdups_adj.cases)
    case (3 head ref rest)
    then show ?thesis using False stage_of_named[of head ref rest]
      by (auto simp: scan_instruction_def from_line_def Let_def split: option.splits)
  qed (use False in \<open>auto simp: scan_instruction_def from_line_def\<close>)
qed

lemma from_lines_Cons:
  "from_lines (l # ls) = (case from_line l of None \<Rightarrow> from_lines ls | Some f \<Rightarrow> f # from_lines ls)"
  by (simp add: from_lines_def map_filter_def split: option.splits)

lemma scan_lines_unpinned:
  "ss_unpinned (fold scan_line ls st) =
     ss_unpinned st @ offending (ss_stages st) (from_lines (logical_lines (ss_continued st) ls))"
proof (induction ls arbitrary: st)
  case Nil
  then show ?case by (simp add: from_lines_def map_filter_def)
next
  case (Cons t rest)
  show ?case
    by (simp only: fold_simps Cons.IH)
      (simp add: scan_line_def Let_def scan_instruction_spec from_lines_Cons split: option.splits prod.splits)
qed

lemma map_filter_comprehension: "map f (filter P xs) = concat (map (\<lambda>x. if P x then [f x] else []) xs)"
  by (induction xs) auto

lemma offending_upt:
  "offending stages fs =
     map (\<lambda>i. fst (fs ! i))
       (filter (\<lambda>i. \<not> from_ok (stages \<union> (\<Union>f \<in> set (take (Suc i) fs). set_option (snd f))) (fst (fs ! i))) [0..<length fs])"
proof (induction fs arbitrary: stages)
  case (Cons f fs)
  obtain ref stage where f: "f = (ref, stage)" by (cases f)
  have upt: "[0..<length (f # fs)] = 0 # map Suc [0..<length fs]" by (simp add: upt_conv_Cons map_Suc_upt del: upt_Suc)
  show ?case unfolding upt by (simp add: f Cons.IH Let_def Un_assoc filter_map comp_def)
qed simp

lemma from_ok_at:
  assumes "i < length fs"
  shows "from_ok ({} \<union> (\<Union>f \<in> set (take (Suc i) fs). set_option (snd f))) ref \<longleftrightarrow>
    (\<exists>j \<le> i. snd (fs ! j) = Some (to_lower ref)) \<or> equal_fold ref ''scratch'' \<or>
      CHR ''$'' \<notin> set ref \<and> contains ref ''@sha256:''"
proof -
  have "to_lower ref \<in> (\<Union>f \<in> set (take (Suc i) fs). set_option (snd f)) \<longleftrightarrow> (\<exists>j \<le> i. snd (fs ! j) = Some (to_lower ref))"
    using assms by (fastforce simp: in_set_conv_nth less_Suc_eq_le)
  then show ?thesis by (auto simp: from_ok_def)
qed

lemma offending_subset: "ref \<in> set (offending stages fs) \<Longrightarrow> ref \<in> fst ` set fs"
  by (induction stages fs rule: offending.induct) (auto simp: Let_def split: if_splits)

text \<open>
  Property C18. The check, exactly. A file with a line of a megabyte is not read. Otherwise it is accepted when every
  image its logical lines start from is the name of a stage (of an earlier line, or of this very
  line: the scanner records a stage before it judges the image), or the empty base, or carries a
  digest and no variable; and the error lists the images that are none of these, all of them, in the
  order of the file.
\<close>

theorem pinned_bases_exact:
  "check_pinned_bases content =
     (let fs = from_lines (logical_lines [] (text_lines [] content));
          pinned = (\<lambda>i. (\<exists>j \<le> i. snd (fs ! j) = Some (to_lower (fst (fs ! i)))) \<or>
            equal_fold (fst (fs ! i)) ''scratch'' \<or>
            CHR ''$'' \<notin> set (fst (fs ! i)) \<and> contains (fst (fs ! i)) ''@sha256:'');
          refused = [fst (fs ! i). i \<leftarrow> [0..<length fs], \<not> pinned i]
      in if \<exists>l \<in> set (text_lines [] content). 1048576 \<le> int (length l)
         then Inl (Wrap ''reading the Dockerfile'' (Msg ''bufio.Scanner: token too long''))
         else if refused = [] then Inr ()
         else Inl (Msg (''every FROM must be pinned by digest; these are not: '' @ join '' '' refused)))"
proof -
  let ?fs = "from_lines (logical_lines [] (text_lines [] content))"
  let ?pinned = "\<lambda>i. (\<exists>j \<le> i. snd (?fs ! j) = Some (to_lower (fst (?fs ! i)))) \<or>
    equal_fold (fst (?fs ! i)) ''scratch'' \<or> CHR ''$'' \<notin> set (fst (?fs ! i)) \<and> contains (fst (?fs ! i)) ''@sha256:''"
  have u: "ss_unpinned (fold scan_line (map drop_cr (raw_lines content)) start_scan) = offending {} ?fs"
    by (simp add: scan_lines_unpinned start_scan_def logical_lines_drop_cr raw_lines_text)
  have "filter (\<lambda>i. \<not> from_ok ({} \<union> (\<Union>f \<in> set (take (Suc i) ?fs). set_option (snd f))) (fst (?fs ! i))) [0..<length ?fs] =
      filter (\<lambda>i. \<not> ?pinned i) [0..<length ?fs]"
    by (rule filter_cong[OF refl]) (subst from_ok_at, simp_all)
  then have o': "offending {} ?fs = [fst (?fs ! i). i \<leftarrow> [0..<length ?fs], \<not> ?pinned i]"
    unfolding offending_upt by (simp only: map_filter_comprehension)
  have long: "list_ex (\<lambda>l. max_line \<le> int (length l)) (raw_lines content) \<longleftrightarrow>
      (\<exists>l \<in> set (text_lines [] content). 1048576 \<le> int (length l))"
    by (auto simp: list_ex_iff max_line_def raw_lines_text)
  show ?thesis unfolding check_pinned_bases_def Let_def u o' long unpinned_message_def by simp
qed

definition sample_dockerfile :: string where
  "sample_dockerfile =
     ''FROM golang@sha256:aa AS build'' @ [CHR 0x0A] @ ''RUN make'' @ [CHR 0x0A] @
     ''from Build'' @ [CHR 0x0A] @ ''FROM $BASE@sha256:bb'' @ [CHR 0x0A] @ ''FROM alpine:3 AS out'' @ [CHR 0x0A]"

theorem pinned_bases_exact_witness:
  "check_pinned_bases ''FROM scratch'' = Inr () \<and>
   check_pinned_bases sample_dockerfile =
     Inl (Msg ''every FROM must be pinned by digest; these are not: $BASE@sha256:bb alpine:3'')"
  unfolding pinned_bases_exact by code_simp

text \<open>
  What the scanner does not see: a line that names itself as its stage, an instruction below a comment
  that ends in a backslash, and a last line whose continuation never comes.
\<close>

lemma unseen_bases:
  "check_pinned_bases ''FROM alpine AS alpine'' = Inr ()"
  "check_pinned_bases (''# base '' @ [CHR 0x5C, CHR 0x0A] @ ''FROM alpine'') = Inr ()"
  "check_pinned_bases (''FROM alpine '' @ [CHR 0x5C]) = Inr ()"
  by code_simp+

subsection \<open>Reading the Dockerfile from a context\<close>

record archive_entry =
  xe_name :: string
  xe_regular :: bool
  xe_body :: "string res"

record context_archive =
  xa_entries :: "archive_entry list"
  xa_end :: "error option"

record context_client =
  xc_request :: "string \<Rightarrow> error option"
  xc_get :: "string \<Rightarrow> (nat \<times> context_archive res) res"

definition max_dockerfile_bytes :: int where
  "max_dockerfile_bytes = 1024 * 1024"

text \<open>Reading through an \<^verbatim>\<open>io.LimitReader\<close>.\<close>

definition limited :: "int \<Rightarrow> string \<Rightarrow> string" where
  "limited n s = (if int (length s) \<le> n then s else take (nat n) s)"

definition matches_context_path :: "string \<Rightarrow> string \<Rightarrow> int \<Rightarrow> bool" where
  "matches_context_path entry want strip =
     (let place = mapping_map (new_mapping strip []) entry in pl_selected place \<and> pl_dest place = want)"

fun find_dockerfile :: "string \<Rightarrow> int \<Rightarrow> archive_entry list \<Rightarrow> error option \<Rightarrow> string res" where
  "find_dockerfile want strip [] ended =
     (case ended of
        None \<Rightarrow> Inl (Msg (want @ '' is not present in the build context''))
      | Some e \<Rightarrow> Inl (Wrap ''reading the build context'' e))"
| "find_dockerfile want strip (x # xs) ended =
     (if \<not> xe_regular x then find_dockerfile want strip xs ended
      else if \<not> matches_context_path (xe_name x) want strip then find_dockerfile want strip xs ended
      else (case xe_body x of
          Inl e \<Rightarrow> Inl (Wrap (''reading '' @ want) e)
        | Inr body \<Rightarrow> Inr (limited max_dockerfile_bytes body)))"

definition fetch_dockerfile ::
    "context_client \<Rightarrow> string \<Rightarrow> string \<Rightarrow> string \<Rightarrow> int \<Rightarrow> string res" where
  "fetch_dockerfile client url subpath dockerfile strip =
     (case xc_request client url of
        Some e \<Rightarrow> Inl (Wrap (''building request for '' @ url) e)
      | None \<Rightarrow>
          (case xc_get client url of
             Inl e \<Rightarrow> Inl (Wrap ''fetching the build context'' e)
           | Inr (status, body) \<Rightarrow>
               if status \<noteq> 200
               then Inl (Msg (''fetching the build context: '' @ url @ '' returned '' @ show_nat status))
               else (case body of
                   Inl e \<Rightarrow> Inl (Wrap ''reading the build context'' e)
                 | Inr a \<Rightarrow> find_dockerfile (path_join subpath dockerfile) strip (xa_entries a) (xa_end a))))"

lemma find_dockerfile_first:
  "find_dockerfile want strip xs ended = Inr body \<Longrightarrow>
     \<exists>pre x post b. xs = pre @ x # post \<and> xe_regular x \<and> matches_context_path (xe_name x) want strip \<and>
       xe_body x = Inr b \<and> body = limited max_dockerfile_bytes b \<and>
       (\<forall>y \<in> set pre. xe_regular y \<longrightarrow> \<not> matches_context_path (xe_name y) want strip)"
proof (induction xs)
  case Nil
  then show ?case by (simp split: option.splits)
next
  case (Cons x xs)
  show ?case
  proof (cases "xe_regular x \<and> matches_context_path (xe_name x) want strip")
    case True
    with Cons.prems obtain b where "xe_body x = Inr b" "body = limited max_dockerfile_bytes b"
      by (auto split: sum.splits)
    with True show ?thesis by (intro exI[of _ "[]"] exI[of _ x] exI[of _ xs] exI[of _ b]) simp
  next
    case False
    with Cons.prems have "find_dockerfile want strip xs ended = Inr body" by (auto split: if_splits)
    from Cons.IH[OF this] obtain pre y post b where y: "xs = pre @ y # post" "xe_regular y"
      "matches_context_path (xe_name y) want strip" "xe_body y = Inr b" "body = limited max_dockerfile_bytes b"
      "\<forall>z \<in> set pre. xe_regular z \<longrightarrow> \<not> matches_context_path (xe_name z) want strip" by blast
    with False show ?thesis by (intro exI[of _ "x # pre"] exI[of _ y] exI[of _ post] exI[of _ b]) auto
  qed
qed

lemma matches_context_plain:
  assumes "path_clean entry = join [slash] es" "list_all plain es" "es \<noteq> []"
    and "list_all plain ss" "list_all plain ds" "ds \<noteq> []"
  shows "matches_context_path entry (path_join (join [slash] ss) (join [slash] ds)) n \<longleftrightarrow>
    drop (nat n) es = ss @ ds"
proof -
  have want: "path_join (join [slash] ss) (join [slash] ds) = join [slash] (ss @ ds)"
  proof (cases "ss = []")
    case True
    with assms show ?thesis by (simp add: path_join_def join_slash_not_Nil)
  next
    case False
    with path_join_plain[OF assms(4,5)] assms(6) show ?thesis by simp
  qed
  have none: "clean_comps (slash # []) = []" by code_simp
  have pr: "list_all plain (drop (nat n) es)" using assms(2) by (auto simp: list_all_iff dest: in_set_dropD)
  have "join [slash] (drop (nat n) es) = join [slash] (ss @ ds) \<longleftrightarrow> drop (nat n) es = ss @ ds"
    using join_plain_inject[OF pr, of "ss @ ds"] assms(4,5) by auto
  then show ?thesis
    using assms(6) unfolding matches_context_path_def want mapping_map_plain[OF assms(1-3)] none
    by (auto simp: place_spec_def no_placement_def Let_def)
qed

text \<open>
  Property C24. The file that is checked is the file that is built: with a relative subpath and
  Dockerfile path, an entry of the archive is taken for the Dockerfile exactly when the extractor,
  stripping the same components and selecting the same subpath, places it there; and what is read is
  the first such regular file, up to one megabyte of it.
\<close>

theorem checked_file_is_built:
  assumes "path_clean entry = join [slash] es" "list_all plain es" "es \<noteq> []"
    and "list_all plain ss" "list_all plain ds" "ds \<noteq> []"
  shows "(matches_context_path entry (path_join (join [slash] ss) (join [slash] ds)) n \<longleftrightarrow>
      (let place = mapping_map (new_mapping n (join [slash] ss)) entry in
       pl_selected place \<and> pl_dest place = join [slash] ds)) \<and>
    (fetch_dockerfile client url (join [slash] ss) (join [slash] ds) n = Inr body \<longrightarrow>
      (\<exists>a pre x post b. xc_get client url = Inr (200, Inr a) \<and> xa_entries a = pre @ x # post \<and>
        xe_regular x \<and> xe_body x = Inr b \<and> body = limited max_dockerfile_bytes b \<and>
        matches_context_path (xe_name x) (path_join (join [slash] ss) (join [slash] ds)) n \<and>
        (\<forall>y \<in> set pre. xe_regular y \<longrightarrow>
          \<not> matches_context_path (xe_name y) (path_join (join [slash] ss) (join [slash] ds)) n)))"
proof -
  have ps: "clean_comps (slash # join [slash] ss) = ss" using assms(4) by simp
  let ?r = "drop (nat n) es"
  have pr: "list_all plain (drop k ?r)" for k
    using assms(2) by (auto simp: list_all_iff dest: in_set_dropD)
  have dest: "join [slash] (drop k ?r) = join [slash] ds \<longleftrightarrow> drop k ?r = ds" for k
    using join_plain_inject[OF pr assms(5)] by auto
  have "pl_selected (place_spec (nat n) ss es) \<and> pl_dest (place_spec (nat n) ss es) = join [slash] ds \<longleftrightarrow>
      ?r \<noteq> [] \<and> ?r \<noteq> ss \<and> take (length ss) ?r = ss \<and> drop (length ss) ?r = ds"
    using dest[of "length ss"] by (simp add: place_spec_def no_placement_def Let_def)
  also have "\<dots> \<longleftrightarrow> ?r = ss @ ds"
    using assms(6) append_take_drop_id[of "length ss" ?r] by (metis append_eq_conv_conj append_self_conv Nil_is_append_conv)
  finally have "matches_context_path entry (path_join (join [slash] ss) (join [slash] ds)) n \<longleftrightarrow>
      (let place = mapping_map (new_mapping n (join [slash] ss)) entry in
       pl_selected place \<and> pl_dest place = join [slash] ds)"
    using matches_context_plain[OF assms] mapping_map_plain[OF assms(1-3), of n "join [slash] ss"]
    by (simp add: ps Let_def)
  moreover have "\<exists>a. xc_get client url = Inr (200, Inr a) \<and>
      find_dockerfile (path_join (join [slash] ss) (join [slash] ds)) n (xa_entries a) (xa_end a) = Inr body"
    if "fetch_dockerfile client url (join [slash] ss) (join [slash] ds) n = Inr body"
    using that by (auto simp: fetch_dockerfile_def split: option.splits sum.splits prod.splits if_splits)
  ultimately show ?thesis using find_dockerfile_first by blast
qed

definition sample_context :: context_client where
  "sample_context =
     \<lparr>xc_request = (\<lambda>u. None),
      xc_get = (\<lambda>u. Inr (200, Inr
        \<lparr>xa_entries = [\<lparr>xe_name = ''repo/README'', xe_regular = True, xe_body = Inr ''hi''\<rparr>,
           \<lparr>xe_name = ''repo/app/Dockerfile'', xe_regular = True, xe_body = Inr ''FROM scratch''\<rparr>],
         xa_end = None\<rparr>))\<rparr>"

theorem checked_file_is_built_witness:
  "matches_context_path ''repo/app/Dockerfile'' (path_join ''app'' ''Dockerfile'') 1 \<and>
   pl_dest (mapping_map (new_mapping 1 ''app'') ''repo/app/Dockerfile'') = ''Dockerfile'' \<and>
   fetch_dockerfile sample_context ''u'' ''app'' ''Dockerfile'' 1 = Inr ''FROM scratch''"
proof -
  have p: "path_clean ''repo/app/Dockerfile'' = join [slash] [''repo'', ''app'', ''Dockerfile'']"
    "list_all plain [''repo'', ''app'', ''Dockerfile'']" "list_all plain [''app'']" "list_all plain [''Dockerfile'']"
    by code_simp+
  have m: "matches_context_path ''repo/app/Dockerfile'' (path_join ''app'' ''Dockerfile'') 1"
    "fetch_dockerfile sample_context ''u'' ''app'' ''Dockerfile'' 1 = Inr ''FROM scratch''" by code_simp+
  have j: "join [slash] [''app''] = ''app''" "join [slash] [''Dockerfile''] = ''Dockerfile''" by simp_all
  have ne: "[''repo'', ''app'', ''Dockerfile''] \<noteq> []" "[''Dockerfile''] \<noteq> []" by simp_all
  have "let place = mapping_map (new_mapping 1 ''app'') ''repo/app/Dockerfile'' in
      pl_selected place \<and> pl_dest place = ''Dockerfile''"
    by (rule iffD1[OF conjunct1[OF checked_file_is_built[OF p(1,2) ne(1) p(3,4) ne(2), of 1, unfolded j]] m(1)])
  with m show ?thesis by (simp only: Let_def simp_thms)
qed

end
