(* ===== verification/Actions.thy ===== *)
theory Actions
  imports Effects
begin

section \<open>Operations on an object in memory\<close>

text \<open>
  The build controller edits the object it was given and writes it back at the end of the pass,
  whatever the pass ended with. An operation takes the object to its effects, the object as it left
  it and its result: what precedes an error stays, in the trace and in the object.
\<close>

type_synonym ('s, 'e, 'a) act = "'s \<Rightarrow> 'e list \<times> 's \<times> 'a res"

definition trace_of :: "('s, 'e, 'a) act \<Rightarrow> 's \<Rightarrow> 'e list" where
  "trace_of m s = fst (m s)"

definition left_by :: "('s, 'e, 'a) act \<Rightarrow> 's \<Rightarrow> 's" where
  "left_by m s = fst (snd (m s))"

definition result_of :: "('s, 'e, 'a) act \<Rightarrow> 's \<Rightarrow> 'a res" where
  "result_of m s = snd (snd (m s))"

definition ret :: "'a \<Rightarrow> ('s, 'e, 'a) act" where
  "ret x = (\<lambda>s. ([], s, Inr x))"

definition answer :: "'a res \<Rightarrow> ('s, 'e, 'a) act" where
  "answer r = (\<lambda>s. ([], s, r))"

definition perform :: "('e, 'a) run \<Rightarrow> ('s, 'e, 'a) act" where
  "perform m = (\<lambda>s. (fst m, s, snd m))"

definition edit :: "('s \<Rightarrow> 's) \<Rightarrow> ('s, 'e, unit) act" where
  "edit f = (\<lambda>s. ([], f s, Inr ()))"

definition on_object :: "('s \<Rightarrow> ('s, 'e, 'a) act) \<Rightarrow> ('s, 'e, 'a) act" where
  "on_object f = (\<lambda>s. f s s)"

definition seq :: "('s, 'e, 'a) act \<Rightarrow> ('a \<Rightarrow> ('s, 'e, 'b) act) \<Rightarrow> ('s, 'e, 'b) act" where
  "seq m f = (\<lambda>s.
     case m s of (es, s1, r) \<Rightarrow>
       (case r of
          Inl e \<Rightarrow> (es, s1, Inl e)
        | Inr x \<Rightarrow> (case f x s1 of (fs, s2, r2) \<Rightarrow> (es @ fs, s2, r2))))"

lemma act_parts: "m s = (trace_of m s, left_by m s, result_of m s)"
  by (simp add: trace_of_def left_by_def result_of_def)

lemma basic_acts [simp]:
  "trace_of (ret x) s = []" "left_by (ret x) s = s" "result_of (ret x) s = Inr x"
  "trace_of (answer r) s = []" "left_by (answer r) s = s" "result_of (answer r) s = r"
  "trace_of (perform m) s = fst m" "left_by (perform m) s = s" "result_of (perform m) s = snd m"
  "trace_of (edit f) s = []" "left_by (edit f) s = f s" "result_of (edit f) s = Inr ()"
  by (simp_all add: trace_of_def left_by_def result_of_def ret_def answer_def perform_def edit_def)

lemma on_object_acts [simp]:
  "trace_of (on_object g) s = trace_of (g s) s" "left_by (on_object g) s = left_by (g s) s"
  "result_of (on_object g) s = result_of (g s) s"
  by (simp_all add: trace_of_def left_by_def result_of_def on_object_def)

lemma trace_of_seq:
  "trace_of (seq m f) s =
     trace_of m s @ (case result_of m s of Inl e \<Rightarrow> [] | Inr x \<Rightarrow> trace_of (f x) (left_by m s))"
  by (simp add: seq_def trace_of_def left_by_def result_of_def split: prod.splits sum.splits)

lemma left_by_seq:
  "left_by (seq m f) s =
     (case result_of m s of Inl e \<Rightarrow> left_by m s | Inr x \<Rightarrow> left_by (f x) (left_by m s))"
  by (simp add: seq_def trace_of_def left_by_def result_of_def split: prod.splits sum.splits)

lemma result_of_seq:
  "result_of (seq m f) s =
     (case result_of m s of Inl e \<Rightarrow> Inl e | Inr x \<Rightarrow> result_of (f x) (left_by m s))"
  by (simp add: seq_def trace_of_def left_by_def result_of_def split: prod.splits sum.splits)

lemmas act_simps = trace_of_seq left_by_seq result_of_seq

text \<open>Every effect of an operation, and a property the object keeps through it.\<close>

definition act_all :: "('e \<Rightarrow> bool) \<Rightarrow> ('s, 'e, 'a) act \<Rightarrow> bool" where
  "act_all P m \<longleftrightarrow> (\<forall>s. list_all P (trace_of m s))"

definition act_keeps :: "('s \<Rightarrow> bool) \<Rightarrow> ('s, 'e, 'a) act \<Rightarrow> bool" where
  "act_keeps I m \<longleftrightarrow> (\<forall>s. I s \<longrightarrow> I (left_by m s))"

lemma act_all_basic [inv_intros]:
  "act_all P (ret x)" "act_all P (answer r)" "act_all P (edit f)"
  by (simp_all add: act_all_def)

lemma act_all_perform [inv_intros]: "run_all P m \<Longrightarrow> act_all P (perform m)"
  by (simp add: act_all_def run_all_def)

lemma act_all_on_object [inv_intros]: "(\<And>s. act_all P (f s)) \<Longrightarrow> act_all P (on_object f)"
  by (simp add: act_all_def)

lemma act_all_seq [inv_intros]:
  "act_all P m \<Longrightarrow> (\<And>x. act_all P (f x)) \<Longrightarrow> act_all P (seq m f)"
  by (auto simp: act_all_def act_simps split: sum.splits)

lemma act_keeps_basic [inv_intros]:
  "act_keeps I (ret x)" "act_keeps I (answer r)" "act_keeps I (perform n)"
  by (simp_all add: act_keeps_def)

lemma act_keeps_edit [inv_intros]: "(\<And>s. I s \<Longrightarrow> I (f s)) \<Longrightarrow> act_keeps I (edit f)"
  by (simp add: act_keeps_def)

lemma act_keeps_on_object [inv_intros]: "(\<And>s. act_keeps I (f s)) \<Longrightarrow> act_keeps I (on_object f)"
  by (simp add: act_keeps_def)

lemma act_keeps_seq [inv_intros]:
  "act_keeps I m \<Longrightarrow> (\<And>x. act_keeps I (f x)) \<Longrightarrow> act_keeps I (seq m f)"
  by (auto simp: act_keeps_def act_simps split: sum.splits)

end
