(* ===== verification/Build_Inputs.thy ===== *)
theory Build_Inputs
  imports Build_Job Dockerfile_Check Actions
begin

section \<open>From a build's spec to its input hash\<close>

text \<open>
  The reading half of \<^verbatim>\<open>internal/buildcontroller/imagebuild_controller.go\<close>: the context, the
  Dockerfile and the identities of the build secrets become the inputs that are hashed. The API
  server's answers and the digest are fields of \<open>build_reader\<close>; nothing here writes.
\<close>

record build_reader =
  bn_default :: default_registry
  bn_job_config :: job_config
  bn_require_pinned :: bool
  bn_flux :: "string \<Rightarrow> string \<Rightarrow> string \<Rightarrow> string \<Rightarrow> flux_get"
  bn_secret :: "string \<Rightarrow> string \<Rightarrow> string lookup"
  bn_config_map :: "string \<Rightarrow> string \<Rightarrow> ((string \<rightharpoonup> string) \<times> (string \<rightharpoonup> string)) lookup"
  bn_sha256 :: "string \<Rightarrow> string"
  bn_client :: context_client

subsection \<open>Where a build publishes\<close>

definition uses_default_repository :: "push option \<Rightarrow> bool" where
  "uses_default_repository p \<longleftrightarrow> (case p of None \<Rightarrow> True | Some q \<Rightarrow> ps_repository q = [])"

definition build_repository :: "default_registry \<Rightarrow> string \<Rightarrow> string \<Rightarrow> push option \<Rightarrow> string" where
  "build_repository d ns name p =
     (if \<not> uses_default_repository p then ps_repository (the p)
      else if \<not> configured d then []
      else repository_for d ns name)"

definition repository_of :: "('z) build_reader_scheme \<Rightarrow> image_build \<Rightarrow> string" where
  "repository_of env obj =
     build_repository (bn_default env) (ib_namespace obj) (ib_name obj) (xs_push (ib_spec obj))"

definition attestation_mode :: "job_config \<Rightarrow> string" where
  "attestation_mode cfg =
     (if jc_sbom cfg \<and> jc_provenance cfg then ''sbom+provenance''
      else if jc_sbom cfg then ''sbom''
      else if jc_provenance cfg then ''provenance''
      else [])"

definition sha256_sum :: "('z) build_reader_scheme \<Rightarrow> string \<Rightarrow> string" where
  "sha256_sum env b = ''sha256:'' @ hex_encode (bn_sha256 env b)"

subsection \<open>The context\<close>

record context_inputs =
  ci_kind :: string
  ci_subpath :: string
  ci_strip :: int
  ci_unpack :: string
  ci_art :: flux_artifact

definition no_artifact :: flux_artifact where
  "no_artifact = \<lparr>fa_url = [], fa_digest = [], fa_revision = []\<rparr>"

definition resolve_source_ref ::
    "('z) build_reader_scheme \<Rightarrow> string \<Rightarrow> source_ref \<Rightarrow> context_inputs res" where
  "resolve_source_ref env ns ref =
     (if sr_namespace ref \<noteq> [] \<and> sr_namespace ref \<noteq> ns
      then Inl (terminal (''build context '' @ sr_kind ref @ ''/'' @ sr_name ref @ '' is in another namespace''))
      else if bn_require_pinned env \<and> sr_revision ref = []
      then Inl (terminal (''build context '' @ sr_kind ref @ ''/'' @ sr_name ref @ '' names no revision''))
      else (case flux_source (bn_flux env (sr_kind ref) ns (sr_name ref)) (flux_ref (sr_kind ref) ns (sr_name ref)) of
          Inl e \<Rightarrow>
            if err_any is_source_missing e then Inl (pending (''build context: '' @ err_text e))
            else Inl (Wrap ''build context'' e)
        | Inr art \<Rightarrow>
            if \<not> revision_matches (sr_revision ref) (fa_revision art)
            then Inl (pending (''build context '' @ sr_kind ref @ ''/'' @ sr_name ref @ '' is at revision '' @
              fa_revision art @ '', waiting for '' @ sr_revision ref))
            else Inr \<lparr>ci_kind = ''sourceRef'', ci_subpath = sr_subpath ref, ci_strip = 0, ci_unpack = [],
              ci_art = art\<rparr>))"

definition resolve_context :: "('z) build_reader_scheme \<Rightarrow> image_build \<Rightarrow> context_inputs res" where
  "resolve_context env obj =
     (let c = xs_context (ib_spec obj) in
      case get_image c of
        Some img \<Rightarrow> Inr \<lparr>ci_kind = ''image'', ci_subpath = is_subpath img, ci_strip = 0, ci_unpack = [],
          ci_art = no_artifact\<lparr>fa_url := is_ref img,
            fa_digest := (case cut (CHR ''@'') (is_ref img) of None \<Rightarrow> [] | Some (_, d) \<Rightarrow> d)\<rparr>\<rparr>
      | None \<Rightarrow>
          (case get_fetch c of
             Some f \<Rightarrow> Inr \<lparr>ci_kind = ''fetch'', ci_subpath = ft_subpath f, ci_strip = ft_strip f,
               ci_unpack = ft_unpack f, ci_art = no_artifact\<lparr>fa_url := ft_url f, fa_digest := ft_digest f\<rparr>\<rparr>
           | None \<Rightarrow>
               (case get_source_ref c of
                  Some ref \<Rightarrow> resolve_source_ref env (ib_namespace obj) ref
                | None \<Rightarrow> Inr \<lparr>ci_kind = [], ci_subpath = [], ci_strip = 0, ci_unpack = [],
                    ci_art = no_artifact\<rparr>)))"

subsection \<open>The Dockerfile\<close>

definition bounded_dockerfile :: "string \<Rightarrow> string \<Rightarrow> string \<Rightarrow> string res" where
  "bounded_dockerfile content name key =
     (if int (length content) > max_dockerfile_bytes
      then Inl (pending (''ConfigMap '' @ name @ '' key '' @ key @ '' is over the limit for a Dockerfile''))
      else Inr content)"

definition dockerfile_from_config_map ::
    "('z) build_reader_scheme \<Rightarrow> string \<Rightarrow> config_map_key \<Rightarrow> string res" where
  "dockerfile_from_config_map env ns ref =
     (let key = (if ck_key ref = [] then ''Dockerfile'' else ck_key ref) in
      case bn_config_map env ns (ck_name ref) of
        Missing \<Rightarrow> Inl (pending (''ConfigMap '' @ ns @ ''/'' @ ck_name ref @ '' not found''))
      | ReadFailed e \<Rightarrow> Inl (Wrap (''reading ConfigMap '' @ ns @ ''/'' @ ck_name ref) e)
      | Found (data, binary) \<Rightarrow>
          (case data key of
             Some content \<Rightarrow> bounded_dockerfile content (ck_name ref) key
           | None \<Rightarrow>
               (case binary key of
                  Some raw \<Rightarrow> bounded_dockerfile raw (ck_name ref) key
                | None \<Rightarrow> Inl (pending (''ConfigMap '' @ ns @ ''/'' @ ck_name ref @ '' has no key '' @ key)))))"

record dockerfile_inputs =
  di_kind :: string
  di_path :: string
  di_digest :: string

definition resolve_dockerfile :: "('z) build_reader_scheme \<Rightarrow> image_build \<Rightarrow> dockerfile_inputs res" where
  "resolve_dockerfile env obj =
     (let df = xs_dockerfile (ib_spec obj);
          by_path = Inr \<lparr>di_kind = ''path'', di_path = effective_dockerfile df, di_digest = []\<rparr>
      in case df of
           None \<Rightarrow> by_path
         | Some d \<Rightarrow>
             if df_inline d \<noteq> []
             then Inr \<lparr>di_kind = ''inline'', di_path = [], di_digest = sha256_sum env (df_inline d)\<rparr>
             else (case df_config_map d of
                 None \<Rightarrow> by_path
               | Some ref \<Rightarrow>
                   if bn_require_pinned env
                   then Inl (terminal ''spec.dockerfile.configMapRef cannot be pinned'')
                   else (case dockerfile_from_config_map env (ib_namespace obj) ref of
                       Inl e \<Rightarrow> Inl e
                     | Inr content \<Rightarrow>
                         Inr \<lparr>di_kind = ''configMap'', di_path = [], di_digest = sha256_sum env content\<rparr>)))"

text \<open>
  What a new build runs: the bytes, unless the fetcher reads them from an image, and whether they are
  inline in the spec.
\<close>

definition dockerfile_bytes ::
    "('z) build_reader_scheme \<Rightarrow> image_build \<Rightarrow> string \<Rightarrow> (string option \<times> bool) res" where
  "dockerfile_bytes env obj context_url =
     (let spec = ib_spec obj; df = xs_dockerfile spec; c = xs_context spec;
          from_context =
            (if get_image c \<noteq> None then Inr (None, False)
             else (let place =
                 (case get_fetch c of
                    Some f \<Rightarrow> (ft_subpath f, ft_strip f)
                  | None \<Rightarrow> (case get_source_ref c of Some ref \<Rightarrow> (sr_subpath ref, 0) | None \<Rightarrow> ([], 0)))
               in (case fetch_dockerfile (bn_client env) context_url (fst place) (effective_dockerfile df) (snd place) of
                     Inl e \<Rightarrow> Inl (Wrap ''reading the Dockerfile'' e)
                   | Inr content \<Rightarrow> Inr (Some content, False))))
      in case df of
           None \<Rightarrow> from_context
         | Some d \<Rightarrow>
             if df_inline d \<noteq> [] then Inr (Some (df_inline d), True)
             else (case df_config_map d of
                 None \<Rightarrow> from_context
               | Some ref \<Rightarrow>
                   (case dockerfile_from_config_map env (ib_namespace obj) ref of
                      Inl e \<Rightarrow> Inl e | Inr content \<Rightarrow> Inr (Some content, False))))"

subsection \<open>The inputs\<close>

fun secret_identities :: "('z) build_reader_scheme \<Rightarrow> string \<Rightarrow> build_secret list \<Rightarrow> string list res" where
  "secret_identities env ns [] = Inr []"
| "secret_identities env ns (s # ss) =
     (case bn_secret env ns (bx_secret s) of
        Missing \<Rightarrow> Inl (pending (''build secret '' @ bx_secret s @ '' does not exist yet''))
      | ReadFailed e \<Rightarrow> Inl (Wrap (''reading build secret '' @ bx_secret s) e)
      | Found version \<Rightarrow>
          (case secret_identities env ns ss of
             Inl e \<Rightarrow> Inl e
           | Inr ids \<Rightarrow> Inr ((bx_secret s @ ''/'' @ version) # ids)))"

definition cache_mode :: "build_cache option \<Rightarrow> string" where
  "cache_mode c = (case c of None \<Rightarrow> ''Auto'' | Some k \<Rightarrow> if bk_mode k \<noteq> [] then bk_mode k else ''Auto'')"

text \<open>A map literal filled in a loop: the last value of a name wins.\<close>

definition args_map :: "(string \<times> string) list \<Rightarrow> (string \<times> string) list" where
  "args_map as = rev as"

definition resolve_build_inputs ::
    "('z) build_reader_scheme \<Rightarrow> image_build \<Rightarrow> (build_inputs \<times> string) res" where
  "resolve_build_inputs env obj =
     (let spec = ib_spec obj; cfg = bn_job_config env in
      if xs_push spec = None then Inl (terminal ''spec.push is required'')
      else
        bind_res (effective_tags (get_tags (xs_push spec)) (get_ref (xs_push spec))) (\<lambda>_.
        bind_res (resolve_context env obj) (\<lambda>resolved.
        bind_res (secret_identities env (ib_namespace obj) (xs_secrets spec)) (\<lambda>ids.
        bind_res (resolve_dockerfile env obj) (\<lambda>dockerfile.
        Inr
          (\<lparr>bi_builder = jc_builder cfg, bi_frontend = jc_frontend cfg, bi_fetcher = jc_fetcher cfg,
            bi_context_kind = ci_kind resolved, bi_context_digest = fa_digest (ci_art resolved),
            bi_context_revision = fa_revision (ci_art resolved), bi_context_subpath = ci_subpath resolved,
            bi_context_strip = ci_strip resolved, bi_context_unpack = ci_unpack resolved,
            bi_dockerfile_kind = di_kind dockerfile, bi_dockerfile = di_path dockerfile,
            bi_dockerfile_digest = di_digest dockerfile, bi_target = xs_target spec,
            bi_network = xs_network spec, bi_cache_mode = cache_mode (xs_cache spec),
            bi_cache_ref = cache_ref_for spec (ib_namespace obj) (ib_name obj) (repository_of env obj),
            bi_attestations = attestation_mode cfg, bi_epoch = jc_epoch cfg,
            bi_platforms = xs_platforms spec, bi_args = args_map (xs_args spec), bi_secrets = ids\<rparr>,
           fa_url (ci_art resolved)))))))"

subsection \<open>What a build may read\<close>

lemma resolve_source_ref_Inr:
  "resolve_source_ref env ns ref = Inr c \<Longrightarrow>
   (sr_namespace ref = [] \<or> sr_namespace ref = ns) \<and> (bn_require_pinned env \<longrightarrow> sr_revision ref \<noteq> []) \<and>
   flux_source (bn_flux env (sr_kind ref) ns (sr_name ref)) (flux_ref (sr_kind ref) ns (sr_name ref)) = Inr (ci_art c) \<and>
   revision_matches (sr_revision ref) (fa_revision (ci_art c)) \<and> ci_kind c = ''sourceRef'' \<and>
   ci_subpath c = sr_subpath ref"
  by (auto simp: resolve_source_ref_def split: sum.splits if_splits)

end
