(* ===== verification/Retention.thy ===== *)
theory Retention
  imports Registry_State
begin

section \<open>Keeping published images alive\<close>

text \<open>
  \<^verbatim>\<open>internal/retention/refresher.go\<close> and \<^verbatim>\<open>internal/controller/readiness.go\<close>. A cycle pulls
  every reference a live object still names; the trace of pulls is part of the result. The state
  that survives a cycle is the count of consecutive failures by object and of consecutive skipped
  cycles. An operation that reads the API server is given its answer.
\<close>

subsection \<open>References\<close>

record target =
  tg_namespace :: string
  tg_name :: string
  tg_push :: "push option"
  tg_artifact :: "artifact option"
  tg_history :: "build_record list"

definition digest_ref :: "string \<Rightarrow> string \<Rightarrow> string" where
  "digest_ref repo digest = (if digest = [] then [] else digest_ref_of repo digest)"

definition bare_tag :: "string \<Rightarrow> string" where
  "bare_tag tag =
     (if tag = [] then []
      else if CHR ''@'' \<in> set tag then []
      else (let colon = last_index (CHR '':'') tag; sl = last_index (CHR ''/'') tag in
        if after_slash colon sl then drop (Suc (the colon)) tag
        else if sl \<noteq> None then []
        else tag))"

definition qualify :: "string \<Rightarrow> string \<Rightarrow> string" where
  "qualify repo tag = (if bare_tag tag = [] then [] else tag_ref repo (bare_tag tag))"

definition refs_of :: "string \<Rightarrow> artifact option \<Rightarrow> build_record list \<Rightarrow> string list" where
  "refs_of repo art history =
     unique_tags {}
       ((case art of None \<Rightarrow> []
         | Some a \<Rightarrow> digest_ref repo (ar_digest a) # map (qualify repo) (ar_tags a)) @
        concat (map (\<lambda>r. digest_ref repo (br_digest r) # map (qualify repo) (br_tags r)) history))"

subsection \<open>One object\<close>

record refresh_result =
  rr_skipped :: bool
  rr_objects :: nat
  rr_references :: nat
  rr_refreshed :: nat
  rr_failed :: nat
  rr_not_found :: nat
  rr_unsupported :: nat

definition no_result :: refresh_result where
  "no_result =
     \<lparr>rr_skipped = False, rr_objects = 0, rr_references = 0, rr_refreshed = 0, rr_failed = 0,
      rr_not_found = 0, rr_unsupported = 0\<rparr>"

record tally =
  ta_failed :: nat
  ta_gone :: nat
  ta_lost :: nat
  ta_last_err :: "error option"
  ta_last_gone :: "error option"
  ta_last_current :: "error option"

definition no_tally :: tally where
  "no_tally =
     \<lparr>ta_failed = 0, ta_gone = 0, ta_lost = 0, ta_last_err = None, ta_last_gone = None,
      ta_last_current = None\<rparr>"

type_synonym failures = "string \<rightharpoonup> nat"

record refresher =
  rf_default :: default_registry
  rf_env :: secret_env
  rf_registry :: registry

text \<open>A reference is to a digest when it carries one: a tag never holds an at sign.\<close>

definition is_digest_ref :: "string \<Rightarrow> bool" where
  "is_digest_ref ref \<longleftrightarrow> CHR ''@'' \<in> set ref"

fun pull_attached ::
    "registry \<Rightarrow> string \<Rightarrow> string list \<Rightarrow> refresh_result \<Rightarrow> string list \<times> refresh_result" where
  "pull_attached reg repo [] out = ([], out)"
| "pull_attached reg repo (d # ds) out =
     (let out1 = (if isl (rg_get reg (digest_ref_of repo d))
                  then out\<lparr>rr_failed := rr_failed out + 1\<rparr>
                  else out\<lparr>rr_refreshed := rr_refreshed out + 1\<rparr>)
      in (case pull_attached reg repo ds out1 of
            (ps, out2) \<Rightarrow> (digest_ref_of repo d # ps, out2)))"

definition refresh_referrers ::
    "registry \<Rightarrow> string \<Rightarrow> string \<Rightarrow> refresh_result \<Rightarrow> string list \<times> refresh_result" where
  "refresh_referrers reg repo ref out =
     (if \<not> is_digest_ref ref then ([], out)
      else (case rg_referrers reg ref of
          Inr (Inr ds) \<Rightarrow> pull_attached reg repo ds out
        | _ \<Rightarrow> ([], out)))"

type_synonym pull_state = "string list \<times> tally \<times> refresh_result"

definition pull_ref :: "registry \<Rightarrow> string \<Rightarrow> string set \<Rightarrow> string \<Rightarrow> pull_state \<Rightarrow> pull_state" where
  "pull_ref reg repo current ref st =
     (case st of (pulls, t, out) \<Rightarrow>
        if \<not> rg_ref_ok reg ref then
          (pulls, t\<lparr>ta_failed := ta_failed t + 1, ta_last_err := Some (Msg ''could not parse reference'')\<rparr>, out)
        else (case rg_pull reg ref of
            None \<Rightarrow>
              (case refresh_referrers reg repo ref (out\<lparr>rr_refreshed := rr_refreshed out + 1\<rparr>) of
                 (ps, out') \<Rightarrow> (pulls @ [ref] @ ps, t, out'))
          | Some e \<Rightarrow>
              if is_not_found e then
                (let out' = out\<lparr>rr_not_found := rr_not_found out + 1\<rparr>;
                     lost = Some (Wrap (ref @ '' is gone'') e)
                 in if ref \<in> current
                    then (pulls @ [ref], t\<lparr>ta_lost := ta_lost t + 1, ta_last_current := lost\<rparr>, out')
                    else (pulls @ [ref], t\<lparr>ta_gone := ta_gone t + 1, ta_last_gone := lost\<rparr>, out'))
              else (pulls @ [ref], t\<lparr>ta_failed := ta_failed t + 1, ta_last_err := Some e\<rparr>,
                    out\<lparr>rr_failed := rr_failed out + 1\<rparr>)))"

fun pull_refs :: "registry \<Rightarrow> string \<Rightarrow> string set \<Rightarrow> string list \<Rightarrow> pull_state \<Rightarrow> pull_state" where
  "pull_refs reg repo current [] st = st"
| "pull_refs reg repo current (r # rs) st = pull_refs reg repo current rs (pull_ref reg repo current r st)"

definition degraded_after :: nat where
  "degraded_after = 3"

definition target_key :: "target \<Rightarrow> string" where
  "target_key t = tg_namespace t @ ''/'' @ tg_name t"

definition note_failure :: "string \<Rightarrow> string \<Rightarrow> failures \<Rightarrow> failures \<times> event list" where
  "note_failure key detail fs =
     (let n = (case fs key of None \<Rightarrow> 1 | Some k \<Rightarrow> Suc k)
      in (fs(key \<mapsto> n),
          if n < degraded_after then []
          else [mk_event True reason_retention_degraded
                 (''Retention refresh has failed '' @ show_nat n @ '' times in a row ('' @ detail @ '')'')]))"

definition clear_failure :: "string \<Rightarrow> failures \<Rightarrow> failures" where
  "clear_failure key fs = fs(key := None)"

definition target_repo :: "default_registry \<Rightarrow> target \<Rightarrow> string" where
  "target_repo d t =
     (case tg_push t of
        Some p \<Rightarrow>
          if ps_repository p \<noteq> [] then ps_repository p
          else if configured d then repository_for d (tg_namespace t) (tg_name t) else []
      | None \<Rightarrow> if configured d then repository_for d (tg_namespace t) (tg_name t) else [])"

text \<open>After the pulls: the summary events and the failure count.\<close>

definition settle_refresh :: "string \<Rightarrow> nat \<Rightarrow> tally \<Rightarrow> failures \<Rightarrow> failures \<times> event list" where
  "settle_refresh key n t fs =
     (let gone_ev = (if ta_gone t > 0
            then [mk_event True reason_retention_lost
                   (show_nat (ta_gone t) @ '' of '' @ show_nat n @ '' references are already gone'')] else []);
          lost_ev = (if ta_lost t > 0
            then [mk_event True reason_artifact_lost ''The artifact this object currently reports is gone''] else []);
          failed = ta_failed t + ta_lost t
      in if failed > 0 then
           (case note_failure key (show_nat failed @ '' of '' @ show_nat n @ '' references'') fs of
              (fs', evs) \<Rightarrow> (fs', gone_ev @ lost_ev @ evs))
         else (clear_failure key fs, gone_ev @ lost_ev))"

record refresh_state =
  st_result :: refresh_result
  st_failures :: failures
  st_events :: "event list"
  st_pulls :: "string list"

definition refresh_object :: "refresher \<Rightarrow> target \<Rightarrow> refresh_state \<Rightarrow> refresh_state" where
  "refresh_object r t st =
     (let repo = target_repo (rf_default r) t; out = st_result st in
      if repo = [] then st\<lparr>st_result := out\<lparr>rr_unsupported := rr_unsupported out + 1\<rparr>\<rparr>
      else (let refs = refs_of repo (tg_artifact t) (tg_history t) in
        if refs = [] then st
        else (let out1 = out\<lparr>rr_objects := rr_objects out + 1,
                            rr_references := rr_references out + length refs\<rparr> in
          (case remote_auth (rf_env r) (rf_default r) Msg (tg_namespace t) repo (tg_push t) of
             Inl e \<Rightarrow>
               (case note_failure (target_key t) (''registry credentials: '' @ err_text e) (st_failures st) of
                  (fs, evs) \<Rightarrow>
                    st\<lparr>st_result := out1\<lparr>rr_failed := rr_failed out1 + length refs\<rparr>,
                       st_failures := fs, st_events := st_events st @ evs\<rparr>)
           | Inr auth \<Rightarrow>
               (case pull_refs (rf_registry r) repo (set (refs_of repo (tg_artifact t) [])) refs
                       ([], no_tally, out1) of
                  (pulls, ta, out2) \<Rightarrow>
                    (case settle_refresh (target_key t) (length refs) ta (st_failures st) of
                       (fs, evs) \<Rightarrow>
                         st\<lparr>st_result := out2, st_failures := fs, st_events := st_events st @ evs,
                            st_pulls := st_pulls st @ pulls\<rparr>))))))"

subsection \<open>One cycle\<close>

definition start_state :: "failures \<Rightarrow> refresh_state" where
  "start_state fs = \<lparr>st_result = no_result, st_failures = fs, st_events = [], st_pulls = []\<rparr>"

fun refresh_all :: "refresher \<Rightarrow> target list \<Rightarrow> refresh_state \<Rightarrow> refresh_state" where
  "refresh_all r [] st = st"
| "refresh_all r (t # ts) st = refresh_all r ts (refresh_object r t st)"

definition refresh_once ::
    "refresher \<Rightarrow> (string list res) option \<Rightarrow> (target list res) option \<Rightarrow> failures \<Rightarrow>
     refresh_state \<times> error option" where
  "refresh_once r pending_lister source fs =
     (let st = start_state fs in
      case pending_lister of
        None \<Rightarrow> (st, Some (Msg ''no pending lister configured''))
      | Some lister \<Rightarrow>
          (case source of
             None \<Rightarrow> (st, Some (Msg ''no source configured''))
           | Some src \<Rightarrow>
               (case lister of
                  Inl e \<Rightarrow> (st, Some (Wrap ''checking for unreconciled objects'' e))
                | Inr ps \<Rightarrow>
                    if ps \<noteq> [] then (st\<lparr>st_result := no_result\<lparr>rr_skipped := True\<rparr>\<rparr>, None)
                    else (case src of
                        Inl e \<Rightarrow> (st, Some e)
                      | Inr ts \<Rightarrow> (refresh_all r ts st, None)))))"

definition refresh_now :: "refresher \<Rightarrow> target \<Rightarrow> failures \<Rightarrow> refresh_state" where
  "refresh_now r t fs = refresh_object r t (start_state fs)"

datatype log_level = LogInfo | LogError

definition refresh_cycle :: "refresh_state \<times> error option \<Rightarrow> nat \<Rightarrow> nat \<times> log_level" where
  "refresh_cycle outcome skips =
     (case outcome of
        (st, Some e) \<Rightarrow> (0, LogError)
      | (st, None) \<Rightarrow>
          if rr_skipped (st_result st)
          then (Suc skips, if Suc skips < degraded_after then LogInfo else LogError)
          else (0, LogInfo))"

subsection \<open>Which objects are still pending\<close>

record listed_object =
  lo_namespace :: string
  lo_name :: string
  lo_deleting :: bool
  lo_generation :: int
  lo_observed :: int

definition listed_key :: "listed_object \<Rightarrow> string" where
  "listed_key o' = lo_namespace o' @ ''/'' @ lo_name o'"

text \<open>\<^verbatim>\<open>BuildSource.Pending\<close>, and the composer's \<^verbatim>\<open>Readiness\<close> with the set it has observed.\<close>

definition builds_pending :: "listed_object list res \<Rightarrow> string list res" where
  "builds_pending list =
     (case list of
        Inl e \<Rightarrow> Inl (Wrap ''listing builds'' e)
      | Inr os \<Rightarrow> Inr (map listed_key (filter (\<lambda>o'. lo_observed o' \<noteq> lo_generation o') os)))"

type_synonym readiness = "(string \<times> string) set"

definition observe :: "string \<times> string \<Rightarrow> readiness \<Rightarrow> readiness" where
  "observe k seen = insert k seen"

definition forget :: "string \<times> string \<Rightarrow> readiness \<Rightarrow> readiness" where
  "forget k seen = seen - {k}"

definition compositions_pending :: "readiness \<Rightarrow> listed_object list res \<Rightarrow> string list res" where
  "compositions_pending seen list =
     (case list of
        Inl e \<Rightarrow> Inl (Wrap ''listing ImageCompositions'' e)
      | Inr os \<Rightarrow> Inr (sort (map listed_key
          (filter (\<lambda>o'. \<not> lo_deleting o' \<and> (lo_namespace o', lo_name o') \<notin> seen) os))))"

subsection \<open>The gate\<close>

text \<open>
  The contract of \<^verbatim>\<open>PendingLister\<close>: an empty list is returned only for a listing in which every
  object is settled, and what it names is an object that is not.
\<close>

locale pending_lister =
  fixes lister :: "'w \<Rightarrow> string list res"
    and listing :: "'w \<Rightarrow> listed_object list res"
    and settled :: "'w \<Rightarrow> listed_object \<Rightarrow> bool"
  assumes complete: "lister w = Inr [] \<Longrightarrow> \<exists>os. listing w = Inr os \<and> (\<forall>x \<in> set os. settled w x)"
    and named: "lister w = Inr ps \<Longrightarrow> k \<in> set ps \<Longrightarrow>
      \<exists>os x. listing w = Inr os \<and> x \<in> set os \<and> \<not> settled w x \<and> listed_key x = k"
begin

lemma refresh_gate:
  assumes "refresh_once r (Some (lister w)) (Some src) fs = (st, None)" "\<not> rr_skipped (st_result st)"
  shows "\<exists>os ts. listing w = Inr os \<and> (\<forall>x \<in> set os. settled w x) \<and> src = Inr ts \<and>
    st = refresh_all r ts (start_state fs)"
proof -
  have "lister w = Inr []" "\<exists>ts. src = Inr ts \<and> st = refresh_all r ts (start_state fs)"
    using assms by (auto simp: refresh_once_def Let_def split: sum.splits if_splits)
  with complete show ?thesis by blast
qed

lemma unsettled_blocks:
  assumes "listing w = Inr os" "x \<in> set os" "\<not> settled w x"
    and "refresh_once r (Some (lister w)) (Some src) fs = (st, err)"
  shows "st_pulls st = [] \<and> st_failures st = fs \<and> (err \<noteq> None \<or> rr_skipped (st_result st))"
proof -
  have "lister w \<noteq> Inr []" using complete assms(1-3) by fastforce
  with assms(4) show ?thesis
    by (auto simp: refresh_once_def start_state_def Let_def split: sum.splits if_splits)
qed

end

interpretation builds_lister:
  pending_lister builds_pending "\<lambda>l. l" "\<lambda>l x. lo_observed x = lo_generation x"
  by unfold_locales (auto simp: builds_pending_def filter_empty_conv split: sum.splits)

lemma compositions_pending_Nil:
  "compositions_pending seen l = Inr [] \<Longrightarrow>
   \<exists>os. l = Inr os \<and> (\<forall>x \<in> set os. lo_deleting x \<or> (lo_namespace x, lo_name x) \<in> seen)"
proof -
  assume a: "compositions_pending seen l = Inr []"
  then obtain os where os: "l = Inr os" by (auto simp: compositions_pending_def split: sum.splits)
  have "sort ys = [] \<Longrightarrow> ys = []" for ys :: "string list" by (metis set_empty set_sort)
  then have "filter (\<lambda>x. \<not> lo_deleting x \<and> (lo_namespace x, lo_name x) \<notin> seen) os = []"
    using a os unfolding compositions_pending_def by (metis (no_types, lifting) list.map_disc_iff sum.case(2) sum.inject(2))
  with os show ?thesis by (auto simp: filter_empty_conv)
qed

interpretation compositions_lister:
  pending_lister "\<lambda>w. compositions_pending (fst w) (snd w)" snd
    "\<lambda>w x. lo_deleting x \<or> (lo_namespace x, lo_name x) \<in> fst w"
proof
  fix w :: "readiness \<times> listed_object list res"
  assume "compositions_pending (fst w) (snd w) = Inr []"
  then show "\<exists>os. snd w = Inr os \<and> (\<forall>x \<in> set os. lo_deleting x \<or> (lo_namespace x, lo_name x) \<in> fst w)"
    by (rule compositions_pending_Nil)
next
  fix w :: "readiness \<times> listed_object list res" and ps k
  assume "compositions_pending (fst w) (snd w) = Inr ps" "k \<in> set ps"
  then show "\<exists>os x. snd w = Inr os \<and> x \<in> set os \<and>
      \<not> (lo_deleting x \<or> (lo_namespace x, lo_name x) \<in> fst w) \<and> listed_key x = k"
    by (auto simp: compositions_pending_def split: sum.splits)
qed

text \<open>
  Property C26. A cycle never runs on a partial view: while a listed build lags its generation, or a
  listed composition that is not being deleted has not been through a reconcile, nothing is pulled
  and no failure count moves; and the third cycle in a row that refreshes nothing is an error.
\<close>

theorem refresh_never_partial:
  "(x \<in> set os \<and> lo_observed x \<noteq> lo_generation x \<and>
      refresh_once r (Some (builds_pending (Inr os))) (Some src) fs = (st, err) \<longrightarrow>
      st_pulls st = [] \<and> st_failures st = fs \<and> (err \<noteq> None \<or> rr_skipped (st_result st))) \<and>
   (x \<in> set os \<and> \<not> lo_deleting x \<and> (lo_namespace x, lo_name x) \<notin> seen \<and>
      refresh_once r (Some (compositions_pending seen (Inr os))) (Some src) fs = (st, err) \<longrightarrow>
      st_pulls st = [] \<and> st_failures st = fs \<and> (err \<noteq> None \<or> rr_skipped (st_result st))) \<and>
   (rr_skipped (st_result st) \<and> 2 \<le> skips \<longrightarrow> refresh_cycle (st, err) skips = (snd_skips, level) \<longrightarrow>
      level = LogError)"
proof (intro conjI impI)
  assume "x \<in> set os \<and> lo_observed x \<noteq> lo_generation x \<and>
      refresh_once r (Some (builds_pending (Inr os))) (Some src) fs = (st, err)"
  then show "st_pulls st = []" "st_failures st = fs" "err \<noteq> None \<or> rr_skipped (st_result st)"
    using builds_lister.unsettled_blocks[of "Inr os" os x r src fs st err] by auto
next
  assume "x \<in> set os \<and> \<not> lo_deleting x \<and> (lo_namespace x, lo_name x) \<notin> seen \<and>
      refresh_once r (Some (compositions_pending seen (Inr os))) (Some src) fs = (st, err)"
  then show "st_pulls st = []" "st_failures st = fs" "err \<noteq> None \<or> rr_skipped (st_result st)"
    using compositions_lister.unsettled_blocks[of "(seen, Inr os)" os x r src fs st err] by auto
next
  assume "rr_skipped (st_result st) \<and> 2 \<le> skips" "refresh_cycle (st, err) skips = (snd_skips, level)"
  then show "level = LogError"
    by (auto simp: refresh_cycle_def degraded_after_def split: option.splits if_splits)
qed

subsection \<open>What is pulled\<close>

text \<open>The references an object still needs, as its status names them.\<close>

definition needed_ref :: "string \<Rightarrow> target \<Rightarrow> string \<Rightarrow> bool" where
  "needed_ref repo t ref \<longleftrightarrow>
     (\<exists>d ts. (d, ts) \<in> set ((case tg_artifact t of None \<Rightarrow> [] | Some a \<Rightarrow> [(ar_digest a, ar_tags a)]) @
          map (\<lambda>r. (br_digest r, br_tags r)) (tg_history t)) \<and>
        (d \<noteq> [] \<and> ref = digest_ref_of repo d \<or>
         (\<exists>tag \<in> set ts. bare_tag tag \<noteq> [] \<and> ref = tag_ref repo (bare_tag tag))))"

definition named_pairs :: "target \<Rightarrow> (string \<times> string list) list" where
  "named_pairs t =
     (case tg_artifact t of None \<Rightarrow> [] | Some a \<Rightarrow> [(ar_digest a, ar_tags a)]) @
     map (\<lambda>r. (br_digest r, br_tags r)) (tg_history t)"

definition pair_refs :: "string \<Rightarrow> string \<times> string list \<Rightarrow> string list" where
  "pair_refs repo x = digest_ref repo (fst x) # map (qualify repo) (snd x)"

lemma refs_of_pairs:
  "refs_of repo (tg_artifact t) (tg_history t) = unique_tags {} (concat (map (pair_refs repo) (named_pairs t)))"
  by (cases "tg_artifact t") (simp_all add: refs_of_def named_pairs_def pair_refs_def comp_def)

lemma pair_refs_iff:
  "ref \<in> set (pair_refs repo (d, ts)) \<and> ref \<noteq> [] \<longleftrightarrow>
     d \<noteq> [] \<and> ref = digest_ref_of repo d \<or>
     (\<exists>tag \<in> set ts. bare_tag tag \<noteq> [] \<and> ref = tag_ref repo (bare_tag tag))"
proof -
  have "(ref = digest_ref repo d \<and> ref \<noteq> []) = (d \<noteq> [] \<and> ref = digest_ref_of repo d)"
    by (auto simp: digest_ref_def digest_ref_of_def)
  moreover have "(ref = qualify repo tag \<and> ref \<noteq> []) = (bare_tag tag \<noteq> [] \<and> ref = tag_ref repo (bare_tag tag))" for tag
    by (auto simp: qualify_def tag_ref_def)
  ultimately show ?thesis unfolding pair_refs_def by (auto simp: image_iff)
qed

lemma refs_of_set: "ref \<in> set (refs_of repo (tg_artifact t) (tg_history t)) \<longleftrightarrow> needed_ref repo t ref"
proof -
  have "ref \<in> set (refs_of repo (tg_artifact t) (tg_history t)) \<longleftrightarrow>
      (\<exists>x \<in> set (named_pairs t). ref \<in> set (pair_refs repo x) \<and> ref \<noteq> [])"
    unfolding refs_of_pairs using unique_tags_spec[of "{}" "concat (map (pair_refs repo) (named_pairs t))"]
    by simp
  also have "\<dots> \<longleftrightarrow> (\<exists>d ts. (d, ts) \<in> set (named_pairs t) \<and> ref \<in> set (pair_refs repo (d, ts)) \<and> ref \<noteq> [])"
    by (metis surj_pair)
  finally show ?thesis unfolding pair_refs_iff needed_ref_def named_pairs_def .
qed

lemma pull_ref_pulls:
  "fst (pull_ref reg repo current ref st) =
     fst st @ (if rg_ref_ok reg ref then ref # drop 1 (drop (length (fst st)) (fst (pull_ref reg repo current ref st))) else [])"
  by (cases st) (auto simp: pull_ref_def Let_def split: option.splits prod.splits)

lemma pull_refs_pulls:
  "set (fst st) \<union> {r \<in> set rs. rg_ref_ok reg r} \<subseteq> set (fst (pull_refs reg repo current rs st))"
proof (induction rs arbitrary: st)
  case (Cons r rs)
  have "set (fst st) \<union> (if rg_ref_ok reg r then {r} else {}) \<subseteq> set (fst (pull_ref reg repo current r st))"
    by (subst pull_ref_pulls) auto
  with Cons[of "pull_ref reg repo current r st"] show ?case by (auto split: if_splits)
qed simp

lemma bare_tag_published:
  assumes "tag_pattern v" "CHR ''@'' \<notin> set pub"
  shows "bare_tag v = v" "bare_tag (pub @ '':'' @ v) = v"
  using tag_pattern_chars[OF assms(1)] assms(2) after_slash_last[of v pub]
  by (auto simp: bare_tag_def Let_def after_slash_def last_index_None[THEN iffD2] split: option.splits)

lemma refresh_object_pulls:
  assumes "target_repo (rf_default r) t = repo" "repo \<noteq> []"
    and "remote_auth (rf_env r) (rf_default r) Msg (tg_namespace t) repo (tg_push t) = Inr auth"
  shows "set (filter (rg_ref_ok (rf_registry r)) (refs_of repo (tg_artifact t) (tg_history t))) \<subseteq>
    set (st_pulls (refresh_object r t st))"
proof (cases "refs_of repo (tg_artifact t) (tg_history t) = []")
  case False
  let ?refs = "refs_of repo (tg_artifact t) (tg_history t)"
  let ?out = "(st_result st)\<lparr>rr_objects := rr_objects (st_result st) + 1,
      rr_references := rr_references (st_result st) + length ?refs\<rparr>"
  let ?p = "pull_refs (rf_registry r) repo (set (refs_of repo (tg_artifact t) [])) ?refs ([], no_tally, ?out)"
  have "st_pulls (refresh_object r t st) = st_pulls st @ fst ?p"
    using assms False by (simp add: refresh_object_def Let_def split: prod.splits)
  then show ?thesis
    using pull_refs_pulls[of "([], no_tally, ?out)" ?refs "rf_registry r" repo
        "set (refs_of repo (tg_artifact t) [])"] by auto
qed simp

text \<open>
  Refreshing an object whose target and credential resolve pulls every reference its
  status names: the digest of the current artifact and of every retained build, and each of their
  tags against the repository the controller itself reaches, also where status holds the name a
  workload pulls from.
\<close>

theorem refresh_pulls_everything:
  assumes "target_repo (rf_default r) t = repo" "repo \<noteq> []"
    and "remote_auth (rf_env r) (rf_default r) Msg (tg_namespace t) repo (tg_push t) = Inr auth"
    and "\<And>ref. rg_ref_ok (rf_registry r) ref"
  shows "{ref. needed_ref repo t ref} \<subseteq> set (st_pulls (refresh_object r t st)) \<and>
    (rec \<in> set (tg_history t) \<and> pub @ '':'' @ v \<in> set (br_tags rec) \<and> tag_pattern v \<and> CHR ''@'' \<notin> set pub \<longrightarrow>
       tag_ref repo v \<in> set (st_pulls (refresh_object r t st)))"
proof -
  have sub: "{ref. needed_ref repo t ref} \<subseteq> set (st_pulls (refresh_object r t st))"
    using refresh_object_pulls[OF assms(1-3), of st] assms(4) refs_of_set[of _ repo t] by auto
  moreover have "needed_ref repo t (tag_ref repo v)"
    if c: "rec \<in> set (tg_history t) \<and> pub @ '':'' @ v \<in> set (br_tags rec) \<and> tag_pattern v \<and> CHR ''@'' \<notin> set pub"
  proof -
    have "(br_digest rec, br_tags rec) \<in> set (named_pairs t)" using c by (simp add: named_pairs_def)
    moreover have "bare_tag (pub @ '':'' @ v) = v" "v \<noteq> []"
      using c bare_tag_published(2) tag_pattern_chars(4) by blast+
    ultimately show ?thesis
      unfolding needed_ref_def named_pairs_def[symmetric] using c by metis
  qed
  ultimately show ?thesis by blast
qed

subsection \<open>Which failures count\<close>

text \<open>A reference that fails the object: unusable, unanswered, or gone while it is current.\<close>

definition failing_ref :: "registry \<Rightarrow> string set \<Rightarrow> string \<Rightarrow> bool" where
  "failing_ref reg current ref \<longleftrightarrow>
     \<not> rg_ref_ok reg ref \<or>
     (case rg_pull reg ref of None \<Rightarrow> False | Some e \<Rightarrow> \<not> is_not_found e \<or> ref \<in> current)"

definition tally_failed :: "tally \<Rightarrow> nat" where
  "tally_failed t = ta_failed t + ta_lost t"

lemma pull_ref_tally:
  "tally_failed (fst (snd (pull_ref reg repo current ref st))) =
     tally_failed (fst (snd st)) + (if failing_ref reg current ref then 1 else 0)"
  by (cases st) (auto simp: pull_ref_def failing_ref_def tally_failed_def Let_def
      split: option.splits prod.splits)

lemma pull_refs_tally:
  "tally_failed (fst (snd (pull_refs reg repo current rs st))) =
     tally_failed (fst (snd st)) + length (filter (failing_ref reg current) rs)"
  by (induction rs arbitrary: st) (simp_all add: pull_ref_tally)

lemma settle_refresh_failures:
  "fst (settle_refresh key n t fs) =
     (if tally_failed t > 0 then fs(key \<mapsto> (case fs key of None \<Rightarrow> 1 | Some k \<Rightarrow> Suc k))
      else fs(key := None))"
  by (auto simp: settle_refresh_def tally_failed_def note_failure_def clear_failure_def Let_def
      split: prod.splits)

lemma mk_event_reason [simp]: "evt_reason (mk_event w r m) = r"
  by (simp add: mk_event_def)

lemma settle_refresh_degraded:
  "(\<exists>ev \<in> set (snd (settle_refresh key n t fs)). evt_reason ev = reason_retention_degraded) \<longleftrightarrow>
     tally_failed t > 0 \<and> 3 \<le> (case fs key of None \<Rightarrow> 1 | Some k \<Rightarrow> Suc k)"
  by (auto simp: settle_refresh_def tally_failed_def note_failure_def degraded_after_def Let_def
      split: prod.splits option.splits)

text \<open>
  After an object was refreshed its failure count is one higher exactly when some
  reference failed it, and cleared otherwise: a history reference that is already gone does not
  count, one of the current artifact does. No other object's count moves, and the degraded event is
  raised exactly from the third consecutive failure on.
\<close>

theorem refresh_failure_count:
  assumes "target_repo (rf_default r) t = repo" "repo \<noteq> []"
    and "remote_auth (rf_env r) (rf_default r) Msg (tg_namespace t) repo (tg_push t) = Inr auth"
    and refs: "refs = refs_of repo (tg_artifact t) (tg_history t)" "refs \<noteq> []"
    and current: "current = set (refs_of repo (tg_artifact t) [])"
  shows "let st' = refresh_object r t st; fs = st_failures st; key = target_key t;
           bad = (\<exists>ref \<in> set refs. failing_ref (rf_registry r) current ref);
           n = (case fs key of None \<Rightarrow> 1 | Some k \<Rightarrow> Suc k)
    in st_failures st' = (if bad then fs(key \<mapsto> n) else fs(key := None)) \<and>
       (\<exists>evs. st_events st' = st_events st @ evs \<and>
         ((\<exists>ev \<in> set evs. evt_reason ev = reason_retention_degraded) \<longleftrightarrow> bad \<and> 3 \<le> n))"
proof -
  let ?out = "(st_result st)\<lparr>rr_objects := rr_objects (st_result st) + 1,
      rr_references := rr_references (st_result st) + length refs\<rparr>"
  let ?p = "pull_refs (rf_registry r) repo current refs ([], no_tally, ?out)"
  let ?ta = "fst (snd ?p)"
  let ?s = "settle_refresh (target_key t) (length refs) ?ta (st_failures st)"
  have st: "st_failures (refresh_object r t st) = fst ?s"
    "st_events (refresh_object r t st) = st_events st @ snd ?s"
    using assms by (auto simp: refresh_object_def Let_def split: prod.splits)
  have "tally_failed ?ta = length (filter (failing_ref (rf_registry r) current) refs)"
    by (simp add: pull_refs_tally) (simp add: tally_failed_def no_tally_def)
  then have bad: "tally_failed ?ta > 0 \<longleftrightarrow> (\<exists>ref \<in> set refs. failing_ref (rf_registry r) current ref)"
    by (simp add: filter_empty_conv)
  show ?thesis
    unfolding Let_def st settle_refresh_failures bad
    using settle_refresh_degraded[of "target_key t" "length refs" ?ta "st_failures st"] bad by auto
qed

subsection \<open>Concrete refreshes\<close>

definition sample_refresher :: refresher where
  "sample_refresher =
     \<lparr>rf_default = bundled_registry\<lparr>dr_secret := []\<rparr>, rf_env = one_secret_env,
      rf_registry = tag_registry [(''registry.svc:5000/team/app@sha256:aa'', ''sha256:aa'')]\<rparr>"

definition sample_target :: target where
  "sample_target =
     \<lparr>tg_namespace = ''team'', tg_name = ''app'', tg_push = None,
      tg_artifact = Some (sample_artifact ''sha256:aa'' []),
      tg_history = [(sample_record ''sha256:aa'')\<lparr>br_tags := [''node:30500/team/app:v1'']\<rparr>]\<rparr>"

lemma sample_target_facts:
  "target_repo (rf_default sample_refresher) sample_target = ''registry.svc:5000/team/app''"
  "remote_auth (rf_env sample_refresher) (rf_default sample_refresher) Msg (tg_namespace sample_target)
     ''registry.svc:5000/team/app'' (tg_push sample_target) = Inr AnonymousAuth"
  "rg_ref_ok (rf_registry sample_refresher) ref"
  "refs_of ''registry.svc:5000/team/app'' (tg_artifact sample_target) (tg_history sample_target) =
     [''registry.svc:5000/team/app@sha256:aa'', ''registry.svc:5000/team/app:v1'']"
  "refs_of ''registry.svc:5000/team/app'' (tg_artifact sample_target) [] =
     [''registry.svc:5000/team/app@sha256:aa'']"
  by (simp_all add: sample_refresher_def sample_target_def target_repo_def bundled_registry_def
      configured_def repository_for_def repository_at_def trim_suffix_def has_suffix_def remote_auth_def
      own_secret_ref_def credential_for_def tag_registry_def refs_of_def sample_artifact_def
      sample_record_def digest_ref_def digest_ref_of_def qualify_def bare_tag_def after_slash_def tag_ref_def)

theorem refresh_pulls_everything_witness:
  "tag_ref ''registry.svc:5000/team/app'' ''v1'' \<in>
     set (st_pulls (refresh_object sample_refresher sample_target (start_state Map.empty)))"
proof -
  let ?rec = "(sample_record ''sha256:aa'')\<lparr>br_tags := [''node:30500/team/app:v1'']\<rparr>"
  have ne: "''registry.svc:5000/team/app'' \<noteq> []" by simp
  have "?rec \<in> set (tg_history sample_target)" by (simp add: sample_target_def)
  moreover have "''node:30500/team/app'' @ '':'' @ ''v1'' \<in> set (br_tags ?rec)" by simp
  moreover have "tag_pattern ''v1''" by code_simp
  moreover have "CHR ''@'' \<notin> set ''node:30500/team/app''" by simp
  ultimately show ?thesis
    using refresh_pulls_everything[OF sample_target_facts(1) ne sample_target_facts(2,3),
        where rec = ?rec and pub = "''node:30500/team/app''" and v = "''v1''"] by blast
qed

theorem refresh_failure_count_witness:
  "st_failures (refresh_object sample_refresher sample_target (start_state [''team/app'' \<mapsto> 2])) ''team/app'' = None"
proof -
  let ?st = "start_state [''team/app'' \<mapsto> 2]"
  let ?refs = "[''registry.svc:5000/team/app@sha256:aa'', ''registry.svc:5000/team/app:v1'']"
  let ?cur = "set (refs_of ''registry.svc:5000/team/app'' (tg_artifact sample_target) [])"
  have ne: "''registry.svc:5000/team/app'' \<noteq> []" "?refs \<noteq> []" by simp_all
  have key: "target_key sample_target = ''team/app''" by (simp add: target_key_def sample_target_def)
  have "\<not> failing_ref (rf_registry sample_refresher) ?cur ref" if "ref \<in> set ?refs" for ref
    using that unfolding sample_target_facts(5)
    by (auto simp: failing_ref_def sample_refresher_def tag_registry_def is_not_found_def)
  then have "\<not> (\<exists>ref \<in> set ?refs. failing_ref (rf_registry sample_refresher) ?cur ref)" by blast
  then show ?thesis
    using refresh_failure_count[OF sample_target_facts(1) ne(1) sample_target_facts(2)
        sample_target_facts(4)[symmetric] ne(2) refl, of ?st]
    by (simp add: Let_def key)
qed

definition sample_listed :: "bool \<Rightarrow> int \<Rightarrow> listed_object" where
  "sample_listed del obs =
     \<lparr>lo_namespace = ''team'', lo_name = ''app'', lo_deleting = del, lo_generation = 2, lo_observed = obs\<rparr>"

theorem refresh_never_partial_witness:
  "st_pulls (fst (refresh_once sample_refresher (Some (builds_pending (Inr [sample_listed False 1])))
     (Some (Inr [sample_target])) Map.empty)) = [] \<and>
   st_pulls (fst (refresh_once sample_refresher (Some (compositions_pending {} (Inr [sample_listed False 2])))
     (Some (Inr [sample_target])) Map.empty)) = [] \<and>
   snd (refresh_cycle ((start_state Map.empty)\<lparr>st_result := no_result\<lparr>rr_skipped := True\<rparr>\<rparr>, None) 2) = LogError"
proof (intro conjI)
  let ?b = "refresh_once sample_refresher (Some (builds_pending (Inr [sample_listed False 1])))
     (Some (Inr [sample_target])) Map.empty"
  have b: "sample_listed False 1 \<in> set [sample_listed False 1] \<and>
      lo_observed (sample_listed False 1) \<noteq> lo_generation (sample_listed False 1) \<and>
      refresh_once sample_refresher (Some (builds_pending (Inr [sample_listed False 1])))
        (Some (Inr [sample_target])) Map.empty = (fst ?b, snd ?b)"
    by (simp add: sample_listed_def)
  show "st_pulls (fst ?b) = []"
    by (rule conjunct1[OF mp[OF conjunct1[OF refresh_never_partial] b]])
  let ?c = "refresh_once sample_refresher (Some (compositions_pending {} (Inr [sample_listed False 2])))
     (Some (Inr [sample_target])) Map.empty"
  have c: "sample_listed False 2 \<in> set [sample_listed False 2] \<and> \<not> lo_deleting (sample_listed False 2) \<and>
      (lo_namespace (sample_listed False 2), lo_name (sample_listed False 2)) \<notin> {} \<and>
      refresh_once sample_refresher (Some (compositions_pending {} (Inr [sample_listed False 2])))
        (Some (Inr [sample_target])) Map.empty = (fst ?c, snd ?c)"
    by (simp add: sample_listed_def)
  show "st_pulls (fst ?c) = []"
    by (rule conjunct1[OF mp[OF conjunct1[OF conjunct2[OF refresh_never_partial]] c]])
  let ?st = "(start_state Map.empty)\<lparr>st_result := no_result\<lparr>rr_skipped := True\<rparr>\<rparr>"
  have "rr_skipped (st_result ?st) \<and> 2 \<le> (2 :: nat)" by simp
  moreover have "refresh_cycle (?st, None) 2 = (fst (refresh_cycle (?st, None) 2), snd (refresh_cycle (?st, None) 2))"
    by simp
  ultimately show "snd (refresh_cycle (?st, None) 2) = LogError"
    using conjunct2[OF conjunct2[OF refresh_never_partial]] by blast
qed

end
