(* ===== verification/Composition.thy ===== *)
theory Composition
  imports Composition_Inputs Attest Ref_Export Retention
begin

section \<open>The composition controller\<close>

text \<open>
  \<^verbatim>\<open>internal/controller\<close>: one pass over an \<^verbatim>\<open>ImageComposition\<close>. A pass is a run whose
  effects are the events it emits, what it fetches, the manifests it writes, the ConfigMap operations
  and the changes it makes to the stored object; the object after a pass is what those changes make
  of it. A status write is answered by the API server: applied, gone, or failed. A write is
  recorded when it is attempted.
\<close>

subsection \<open>Objects\<close>

record composition = conditioned +
  ic_namespace :: string
  ic_name :: string
  ic_requested :: string
  ic_finalizers :: "string list"
  ic_deleting :: bool
  ic_spec :: composition_spec
  ic_observed :: int
  ic_input_hash :: string
  ic_artifact :: "artifact option"
  ic_attestations :: "att_record option"
  ic_history :: "build_record list"
  ic_conflict :: "tag_conflict option"
  ic_handled :: string
  ic_ref_export :: "ref_export_status option"

datatype effect =
    EvEmit event
  | EvFetch string
  | EvWrite string string
  | EvTag string string
  | EvAttest att_op
  | EvExport cm_op
  | EvRefresh artifact
  | EvPatch "composition \<Rightarrow> composition"

definition persisted :: "effect list \<Rightarrow> composition \<Rightarrow> composition" where
  "persisted es obj = fold (\<lambda>e o'. case e of EvPatch f \<Rightarrow> f o' | _ \<Rightarrow> o') es obj"

datatype patch_answer = PatchOK | PatchGone | PatchFailed error

datatype write_point = AtBackfill | AtProgress | AtOutcome | AtExport | AtStall

record ('img, 'l) controller = "('img, 'l) compose_env" +
  cn_default :: default_registry
  cn_registry :: registry
  cn_repo_ok :: "string \<Rightarrow> bool"
  cn_hash_ok :: "string \<Rightarrow> bool"
  cn_write :: "string \<Rightarrow> error option"
  cn_attestor :: "attestor option"
  cn_attest :: att_env
  cn_layer :: "'img layer_input \<Rightarrow> string res"
  cn_sha256 :: "string \<Rightarrow> string"
  cn_work_dir :: "string res"
  cn_digest :: "'img built \<Rightarrow> string res"
  cn_index :: "(platform \<times> 'img) list \<Rightarrow> string list res"
  cn_child :: "(platform \<times> 'img) list \<Rightarrow> string \<Rightarrow> 'img res"
  cn_config_name :: "'img \<Rightarrow> string res"
  cn_layers :: "'img \<Rightarrow> string res list res"
  cn_now :: int
  cn_history_limit :: int
  cn_status :: "write_point \<Rightarrow> patch_answer"
  cn_finalizer :: "error option"
  cn_export :: export_options
  cn_cms :: cm_server
  cn_kind :: "string res"
  cn_refreshes :: bool

definition write_status ::
    "('img, 'l, 'z) controller_scheme \<Rightarrow> write_point \<Rightarrow> (composition \<Rightarrow> composition) \<Rightarrow> (effect, unit) run" where
  "write_status env at f =
     (case cn_status env at of
        PatchOK \<Rightarrow> emit (EvPatch f)
      | PatchGone \<Rightarrow> lift (Inr ())
      | PatchFailed e \<Rightarrow> lift (Inl e))"

text \<open>The end of a pass also stamps the generation and the reconcile request it handled.\<close>

definition stamped :: "(composition \<Rightarrow> composition) \<Rightarrow> composition \<Rightarrow> composition" where
  "stamped f o' = (f o')\<lparr>ic_observed := co_generation (f o'), ic_handled := ic_requested (f o')\<rparr>"

definition patch_status ::
    "('img, 'l, 'z) controller_scheme \<Rightarrow> write_point \<Rightarrow> (composition \<Rightarrow> composition) \<Rightarrow> (effect, unit) run" where
  "patch_status env at f = write_status env at (stamped f)"

subsection \<open>Where it publishes\<close>

record publish_target =
  pt_write_repo :: string
  pt_pull_repo :: string
  pt_tags :: "string list"
  pt_on_conflict :: string

definition named_repository :: "push option \<Rightarrow> string" where
  "named_repository p = (case p of None \<Rightarrow> [] | Some q \<Rightarrow> ps_repository q)"

definition publish_repo :: "default_registry \<Rightarrow> string \<Rightarrow> string \<Rightarrow> push option \<Rightarrow> string res" where
  "publish_repo d ns name p =
     (if named_repository p \<noteq> [] then Inr (named_repository p)
      else if \<not> configured d
      then Inl (pending ''this object names no repository, and no default registry is configured'')
      else Inr (repository_for d ns name))"

definition target_of ::
    "default_registry \<Rightarrow> string \<Rightarrow> string \<Rightarrow> push option \<Rightarrow> publish_target res" where
  "target_of d ns name p =
     (case publish_repo d ns name p of
        Inl e \<Rightarrow> Inl e
      | Inr repo \<Rightarrow>
          (case effective_tags (get_tags p) (get_ref p) of
             Inl e \<Rightarrow> Inl e
           | Inr tags \<Rightarrow> Inr \<lparr>pt_write_repo = repo, pt_pull_repo = public_repository d repo,
               pt_tags = tags, pt_on_conflict = conflict_policy p\<rparr>))"

definition artifact_status :: "publish_target \<Rightarrow> string \<Rightarrow> bool \<Rightarrow> int \<Rightarrow> artifact" where
  "artifact_status t digest own now =
     (let tags = map (tag_ref (pt_pull_repo t)) (pt_tags t) @
            (if own then [tag_ref (pt_pull_repo t) (digest_tag digest)] else [])
      in case pt_tags t of
           [] \<Rightarrow> \<lparr>ar_digest = digest, ar_revision = digest, ar_ref = digest_ref_of (pt_pull_repo t) digest,
             ar_tags = tags, ar_updated = Some now\<rparr>
         | first # _ \<Rightarrow> \<lparr>ar_digest = digest, ar_revision = first @ ''@'' @ digest,
             ar_ref = digest_ref_of (tag_ref (pt_pull_repo t) first) digest,
             ar_tags = tags, ar_updated = Some now\<rparr>)"

subsection \<open>The backfill\<close>

definition artifact_needs_tag :: "artifact option \<Rightarrow> bool" where
  "artifact_needs_tag art =
     (case art of None \<Rightarrow> False
      | Some a \<Rightarrow> ar_digest a \<noteq> [] \<and> \<not> has_digest_tag (ar_tags a) (ar_digest a))"

definition backfill_digests :: "artifact option \<Rightarrow> build_record list \<Rightarrow> string list" where
  "backfill_digests art history =
     (if artifact_needs_tag art then [ar_digest (the art)] else []) @
     map br_digest (filter needs_digest_tag history)"

fun backfill_apply :: "registry \<Rightarrow> string \<Rightarrow> string list \<Rightarrow> outcomes \<Rightarrow> writes \<times> outcomes" where
  "backfill_apply reg repo [] out = ([], out)"
| "backfill_apply reg repo (d # ds) out =
     (if out d \<noteq> None then backfill_apply reg repo ds out
      else (case apply_digest_tag_with_referrers reg repo d of
          (w, err) \<Rightarrow>
            (case backfill_apply reg repo ds (record_outcome out d err) of
               (ws, out') \<Rightarrow> (w @ ws, out'))))"

definition mark_artifact :: "outcomes \<Rightarrow> (string \<Rightarrow> string) \<Rightarrow> artifact option \<Rightarrow> artifact option" where
  "mark_artifact out tag_for art =
     (case art of
        None \<Rightarrow> None
      | Some a \<Rightarrow>
          if tagged_outcome out (ar_digest a) \<and> \<not> has_digest_tag (ar_tags a) (ar_digest a)
          then Some (a\<lparr>ar_tags := ar_tags a @ [tag_for (ar_digest a)]\<rparr>) else Some a)"

definition mark_status :: "outcomes \<Rightarrow> string \<Rightarrow> int \<Rightarrow> composition \<Rightarrow> composition" where
  "mark_status out pull_repo now o' =
     (let art = mark_artifact out (\<lambda>d. tag_ref pull_repo (digest_tag d)) (ic_artifact o') in
      o'\<lparr>ic_artifact := art, ic_history := mark_history out (ic_history o') art digest_tag now\<rparr>)"

definition tag_effects :: "writes \<Rightarrow> effect list" where
  "tag_effects ws = map (\<lambda>w. EvTag (fst w) (snd w)) ws"

text \<open>The object the rest of the pass works on, and the effects. Nothing here fails the pass.\<close>

definition backfill ::
    "('img, 'l, 'z) controller_scheme \<Rightarrow> composition \<Rightarrow> effect list \<times> composition" where
  "backfill env obj =
     (if backfill_digests (ic_artifact obj) (ic_history obj) = [] then ([], obj)
      else (case target_of (cn_default env) (ic_namespace obj) (ic_name obj) (sc_push (ic_spec obj)) of
          Inl e \<Rightarrow> ([], obj)
        | Inr t \<Rightarrow>
            (case remote_auth (ce_secrets env) (cn_default env) pending (ic_namespace obj)
                (pt_write_repo t) (sc_push (ic_spec obj)) of
               Inl e \<Rightarrow> ([], obj)
             | Inr auth \<Rightarrow>
                 (case backfill_apply (cn_registry env) (pt_write_repo t)
                     (backfill_digests (ic_artifact obj) (ic_history obj)) Map.empty of
                    (ws, out) \<Rightarrow>
                      if out = Map.empty then (tag_effects ws, obj)
                      else
                        (let mark = mark_status out (pt_pull_repo t) (cn_now env)
                         in case cn_status env AtBackfill of
                              PatchOK \<Rightarrow> (tag_effects ws @ [EvPatch mark], mark obj)
                            | _ \<Rightarrow> (tag_effects ws, obj))))))"

subsection \<open>Preparing the pass\<close>

record 'img prepared =
  pp_inputs :: "'img layer_input list"
  pp_pulls :: image_pulls
  pp_config :: config
  pp_declared :: "platform list"
  pp_base_digest :: string
  pp_hash :: string
  pp_target :: publish_target
  pp_published :: published

definition base_digest :: "composition_spec \<Rightarrow> string" where
  "base_digest spec = (case sc_base spec of None \<Rightarrow> [] | Some b \<Rightarrow> snd (base_repository b))"

definition hash_platforms :: "string \<Rightarrow> composition_spec \<Rightarrow> platform list \<Rightarrow> platform list" where
  "hash_platforms goarch spec declared =
     (if sc_base spec = None \<and> declared = [] then [runtime_platform goarch] else declared)"

text \<open>The digest's own tag is among what must be published only once status claims it.\<close>

definition resolve_tags :: "publish_target \<Rightarrow> artifact option \<Rightarrow> string list" where
  "resolve_tags t prev =
     (case prev of
        None \<Rightarrow> pt_tags t
      | Some a \<Rightarrow>
          if has_digest_tag (ar_tags a) (ar_digest a) then publish_tags (pt_tags t) (ar_digest a)
          else pt_tags t)"

definition prepare ::
    "('img, 'l, 'z) controller_scheme \<Rightarrow> composition \<Rightarrow> (effect, 'img prepared) run" where
  "prepare env obj =
     (let spec = ic_spec obj; p = sc_push spec; ns = ic_namespace obj in
      and_then (lift (wrap_err ''creating work dir'' (cn_work_dir env))) (\<lambda>_.
      and_then (map_effects EvEmit (resolve_inputs (ce_sources env) p ns (sc_layers spec))) (\<lambda>(inputs, pulls).
      and_then (lift (declared_platforms spec)) (\<lambda>declared.
      and_then (lift (target_of (cn_default env) ns (ic_name obj) p)) (\<lambda>t.
      and_then (lift (remote_auth (ce_secrets env) (cn_default env) pending ns (pt_write_repo t) p)) (\<lambda>_.
      and_then (lift (resolve_published (cn_registry env) (pt_write_repo t)
        (resolve_tags t (ic_artifact obj)) (ic_artifact obj))) (\<lambda>pub.
      lift (Inr
        \<lparr>pp_inputs = inputs, pp_pulls = pulls, pp_config = config_from (sc_config spec),
         pp_declared = declared, pp_base_digest = base_digest spec,
         pp_hash = input_hash (cn_sha256 env) inputs (config_from (sc_config spec)) (base_digest spec)
           (hash_platforms (ce_goarch env) spec declared),
         pp_target = t, pp_published = pub\<rparr>))))))))"

record build_result =
  bs_artifact :: artifact
  bs_input_hash :: string
  bs_attestations :: "att_record option"
  bs_conflict :: "tag_conflict option"
  bs_record :: "build_record option"

definition cheap :: "('img, 'l, 'z) controller_scheme \<Rightarrow> composition \<Rightarrow> 'img prepared \<Rightarrow> bool" where
  "cheap env obj pp =
     (case ic_artifact obj of
        None \<Rightarrow> False
      | Some prev \<Rightarrow>
          ic_input_hash obj = pp_hash pp \<and> matches (pp_published pp) (ar_digest prev) \<and>
          attestor_complete (cn_attestor env) (ic_attestations obj) (ar_digest prev))"

subsection \<open>Fetching\<close>

fun mismatch_text :: "error \<Rightarrow> string option" where
  "mismatch_text (DigestMismatch w g r) = Some (err_text (DigestMismatch w g r))"
| "mismatch_text (Wrap m e) = mismatch_text e"
| "mismatch_text (TerminalError e) = mismatch_text e"
| "mismatch_text (PendingError e) = mismatch_text e"
| "mismatch_text _ = None"

definition layer_failure :: "string \<Rightarrow> error \<Rightarrow> error" where
  "layer_failure name e =
     (case mismatch_text e of
        Some m \<Rightarrow> terminal (''layer '' @ quoted name @ '': '' @ m)
      | None \<Rightarrow> Wrap (''layer '' @ quoted name) e)"

definition fetch_layer ::
    "('img, 'l, 'z) controller_scheme \<Rightarrow> string \<Rightarrow> platform list \<Rightarrow> image_source option \<Rightarrow>
     'img layer_input \<Rightarrow> (effect, 'img layer_input) run" where
  "fetch_layer env ns declared src i =
     (if in_path i \<noteq> [] \<or> in_remove i \<noteq> [] then lift (Inr i)
      else (case src of
          Some s \<Rightarrow> lift (pull_image_layer (compose_env.truncate env) ns declared i s)
        | None \<Rightarrow>
            and_then (map_run_err (layer_failure (in_name i)) ([EvFetch (in_digest i)], cn_layer env i)) (\<lambda>path.
            lift (Inr (i\<lparr>in_path := path\<rparr>)))))"

fun fetch_layers ::
    "('img, 'l, 'z) controller_scheme \<Rightarrow> string \<Rightarrow> platform list \<Rightarrow> image_pulls \<Rightarrow> nat \<Rightarrow>
     'img layer_input list \<Rightarrow> (effect, 'img layer_input list) run" where
  "fetch_layers env ns declared pulls n [] = lift (Inr [])"
| "fetch_layers env ns declared pulls n (i # is) =
     and_then (fetch_layer env ns declared (pulls n) i) (\<lambda>j.
     and_then (fetch_layers env ns declared pulls (Suc n) is) (\<lambda>js. lift (Inr (j # js))))"

fun is_unsupported :: "error \<Rightarrow> bool" where
  "is_unsupported (UnsupportedUnpack m) = True"
| "is_unsupported e = False"

definition assemble_failure :: "error \<Rightarrow> error" where
  "assemble_failure e = (if err_any is_unsupported e then terminal (err_text e) else e)"

subsection \<open>Attaching material\<close>

abbreviation (input) reason_attestation_failed :: string where
  "reason_attestation_failed \<equiv> ''AttestationFailed''"

definition attest_sources :: "'img layer_input list \<Rightarrow> att_source list" where
  "attest_sources is =
     map (\<lambda>i. \<lparr>as_name = in_name i, as_uri = in_url i, as_digest = in_digest i,
       as_version = in_identity i, as_target = in_target i\<rparr>) is"

definition external_layer :: "layer_spec \<Rightarrow> json" where
  "external_layer l =
     JObject ([(''name'', JString (ly_name l))] @
       (if ly_to l \<noteq> [] then [(''to'', JString (ly_to l))] else []) @
       (if ly_remove l \<noteq> [] then [(''remove'', JList (map JString (ly_remove l)))] else []))"

definition external_parameters :: "composition_spec \<Rightarrow> json" where
  "external_parameters spec =
     JObject ([(''layers'', JList (map external_layer (sc_layers spec)))] @
       (if sc_platforms spec \<noteq> [] then [(''platforms'', JList (map JString (sc_platforms spec)))] else []) @
       (case sc_base spec of None \<Rightarrow> []
        | Some b \<Rightarrow> [(''base'', JObject [(''image'', JString (ba_image b)), (''digest'', JString (ba_digest b))])]))"

definition composition_payloads ::
    "composition_spec \<Rightarrow> 'img layer_input list \<Rightarrow> string \<Rightarrow> payloads" where
  "composition_payloads spec inputs base =
     \<lparr>pl_build_type = ''https://oci.lhns.de/ImageComposition/v1alpha1'',
      pl_external = external_parameters spec,
      pl_internal = JObject [(''assemblyVersion'', JNumber (int assembly_version))],
      pl_base = (if base = [] then None
        else Some \<lparr>as_name = ''base'', as_uri = [], as_digest = base, as_version = [], as_target = []\<rparr>),
      pl_sources = attest_sources inputs\<rparr>"

definition attestation_failure :: "error \<Rightarrow> effect" where
  "attestation_failure e =
     EvEmit (mk_event True reason_attestation_failed (''attaching supply-chain material failed: '' @ err_text e))"

text \<open>A failure is an event, never an error: the artifact is already published.\<close>

definition attest_published ::
    "('img, 'l, 'z) controller_scheme \<Rightarrow> composition_spec \<Rightarrow> publish_target \<Rightarrow> string \<Rightarrow>
     'img layer_input list \<Rightarrow> string \<Rightarrow> effect list \<times> att_record option" where
  "attest_published env spec t digest inputs base =
     (if \<not> attestor_enabled (cn_attestor env) then ([], None)
      else if \<not> cn_repo_ok env (pt_write_repo t)
      then ([attestation_failure (Wrap ''parsing'' (Msg (pt_write_repo t)))], None)
      else (case rg_head (cn_registry env) (digest_ref_of (pt_write_repo t) digest) of
          Inl e \<Rightarrow> ([attestation_failure (Wrap ''describing the artifact'' e)], None)
        | Inr subject \<Rightarrow>
            (case ensure (cn_attest env) (cn_attestor env) (pt_write_repo t) subject
                (composition_payloads spec inputs base) of
               (ops, Inl e) \<Rightarrow> (map EvAttest ops @ [attestation_failure e], None)
             | (ops, Inr r) \<Rightarrow> (map EvAttest ops, r))))"

subsection \<open>The record of a build\<close>

fun add_new :: "string list \<Rightarrow> string list \<Rightarrow> string list" where
  "add_new blobs [] = blobs"
| "add_new blobs (d # ds) = (if d \<in> set blobs then add_new blobs ds else add_new (blobs @ [d]) ds)"

definition image_blobs :: "('img, 'l, 'z) controller_scheme \<Rightarrow> 'img \<Rightarrow> string list res" where
  "image_blobs env img =
     (case cn_config_name env img of
        Inl e \<Rightarrow> Inl (Wrap ''config digest'' e)
      | Inr c \<Rightarrow>
          (case cn_layers env img of
             Inl e \<Rightarrow> Inl (Wrap ''layers'' e)
           | Inr ls \<Rightarrow>
               (case map_list_res (wrap_err ''layer digest'') ls of
                  Inl e \<Rightarrow> Inl e
                | Inr ds \<Rightarrow> Inr (c # ds))))"

fun built_children :: "('img, 'l, 'z) controller_scheme \<Rightarrow> 'img built \<Rightarrow> 'img list res" where
  "built_children env (SingleArtifact img) = Inr [img]"
| "built_children env (IndexArtifact idx) =
     (case cn_index env idx of
        Inl e \<Rightarrow> Inl (Wrap ''reading the index manifest'' e)
      | Inr ds \<Rightarrow> map_list_res (\<lambda>d. wrap_err ''reading child'' (cn_child env idx d)) ds)"

fun child_digests :: "('img, 'l, 'z) controller_scheme \<Rightarrow> 'img built \<Rightarrow> string list res" where
  "child_digests env (SingleArtifact img) = Inr []"
| "child_digests env (IndexArtifact idx) = wrap_err ''reading the index manifest'' (cn_index env idx)"

definition source_records :: "'img layer_input list \<Rightarrow> source_record list" where
  "source_records is =
     map (\<lambda>i. \<lparr>so_name = in_name i, so_revision = in_identity i, so_digest = in_digest i\<rparr>) is"

definition build_record_of ::
    "('img, 'l, 'z) controller_scheme \<Rightarrow> 'img built \<Rightarrow> string list \<Rightarrow> string \<Rightarrow> 'img layer_input list \<Rightarrow>
     build_record res" where
  "build_record_of env art tags digest inputs =
     (case built_children env art of
        Inl e \<Rightarrow> Inl e
      | Inr children \<Rightarrow>
          (case map_list_res (image_blobs env) children of
             Inl e \<Rightarrow> Inl e
           | Inr blobs \<Rightarrow>
               (case child_digests env art of
                  Inl e \<Rightarrow> Inl e
                | Inr manifests \<Rightarrow> Inr
                    \<lparr>br_tags = tags, br_digest = digest, br_blobs = add_new [] (concat blobs),
                     br_sources = source_records inputs, br_input_hash = [], br_manifests = manifests,
                     br_time = Some (cn_now env), br_lost = None\<rparr>)))"

subsection \<open>Publishing\<close>

text \<open>One reference, parsed and then written.\<close>

definition publish_ref :: "('img, 'l, 'z) controller_scheme \<Rightarrow> string \<Rightarrow> string \<Rightarrow> (effect, unit) run" where
  "publish_ref env ref digest =
     (if \<not> rg_ref_ok (cn_registry env) ref then lift (Inl (terminal (''invalid reference '' @ ref)))
      else map_run_err (Wrap (''publishing '' @ ref)) (attempt (EvWrite ref digest) (cn_write env ref)))"

fun publish_refs :: "('img, 'l, 'z) controller_scheme \<Rightarrow> string list \<Rightarrow> string \<Rightarrow> (effect, unit) run" where
  "publish_refs env [] digest = lift (Inr ())"
| "publish_refs env (r # rs) digest =
     and_then (publish_ref env r digest) (\<lambda>_. publish_refs env rs digest)"

definition own_tag_step :: "('img, 'l, 'z) controller_scheme \<Rightarrow> string \<Rightarrow> string \<Rightarrow> (effect, unit) run" where
  "own_tag_step env repo digest =
     (case apply_digest_tag (cn_registry env) repo digest of
        (ws, None) \<Rightarrow> (tag_effects ws, Inr ())
      | (ws, Some e) \<Rightarrow> (tag_effects ws, Inl e))"

definition kept_result :: "('img, 'l, 'z) controller_scheme \<Rightarrow> 'img prepared \<Rightarrow> string \<Rightarrow> string \<Rightarrow> string \<Rightarrow>
    build_result res" where
  "kept_result env pp digest tag cur =
     (if \<not> cn_hash_ok env cur then Inl (terminal (''tag '' @ tag @ '' resolves to '' @ cur @ '', which is not a digest''))
      else Inr
        \<lparr>bs_artifact = artifact_status (pp_target pp) cur False (cn_now env), bs_input_hash = pp_hash pp,
         bs_attestations = None,
         bs_conflict = Some \<lparr>tc_tag = tag, tc_existing = cur, tc_dropped = digest,
           tc_observed = Some (cn_now env)\<rparr>,
         bs_record = None\<rparr>)"

definition tag_suffix :: "string list \<Rightarrow> string" where
  "tag_suffix tags = (if tags = [] then [] else '' as '' @ join '', '' tags)"

definition publish ::
    "('img, 'l, 'z) controller_scheme \<Rightarrow> composition \<Rightarrow> 'img prepared \<Rightarrow> 'img layer_input list \<Rightarrow>
     'img built \<Rightarrow> string \<Rightarrow> (effect, build_result) run" where
  "publish env obj pp inputs art digest =
     (let t = pp_target pp; repo = pt_write_repo t; tags = publish_tags (pt_tags t) digest in
      and_then (publish_refs env (digest_ref_of repo digest # map (tag_ref repo) tags) digest) (\<lambda>_.
      and_then (fst (attest_published env (ic_spec obj) t digest inputs (pp_base_digest pp)),
          Inr (snd (attest_published env (ic_spec obj) t digest inputs (pp_base_digest pp)))) (\<lambda>att.
      and_then (emit (EvEmit (mk_event False reason_succeeded
        (''Published '' @ digest_ref_of (pt_pull_repo t) digest @ tag_suffix (pt_tags t))))) (\<lambda>_.
      and_then (lift (wrap_err (''recording build '' @ digest) (build_record_of env art tags digest inputs))) (\<lambda>rec.
      lift (Inr
        \<lparr>bs_artifact = artifact_status t digest True (cn_now env), bs_input_hash = pp_hash pp,
         bs_attestations = att, bs_conflict = None, bs_record = Some rec\<rparr>))))))"

text \<open>What happens once the digest is known: converge, refuse, keep, or publish.\<close>

definition settle ::
    "('img, 'l, 'z) controller_scheme \<Rightarrow> composition \<Rightarrow> 'img prepared \<Rightarrow> 'img layer_input list \<Rightarrow>
     'img built \<Rightarrow> string \<Rightarrow> (effect, build_result) run" where
  "settle env obj pp inputs art digest =
     (let t = pp_target pp in
      if matches (pp_published pp) digest then
        and_then (own_tag_step env (pt_write_repo t) digest) (\<lambda>_.
        and_then (fst (attest_published env (ic_spec obj) t digest inputs (pp_base_digest pp)),
            Inr (snd (attest_published env (ic_spec obj) t digest inputs (pp_base_digest pp)))) (\<lambda>att.
        lift (Inr
          \<lparr>bs_artifact = artifact_status t digest True (cn_now env), bs_input_hash = pp_hash pp,
           bs_attestations = att, bs_conflict = None, bs_record = None\<rparr>)))
      else (case conflicts (pp_published pp) (pt_tags t) digest of
          (tag, cur) \<Rightarrow>
            if tag \<noteq> [] \<and> pt_on_conflict t = conflict_fail
            then lift (Inl (terminal (''tag '' @ tag @ '' already resolves to '' @ cur @ '' but this spec produces '' @ digest @
              ''; change the tag, or set onConflict: Overwrite if it is meant to move'')))
            else if tag \<noteq> [] \<and> pt_on_conflict t = conflict_keep
            then lift (kept_result env pp digest tag cur)
            else publish env obj pp inputs art digest))"

definition report_progress ::
    "('img, 'l, 'z) controller_scheme \<Rightarrow> composition \<Rightarrow> 'img prepared \<Rightarrow> (effect, unit) run" where
  "report_progress env obj pp =
     map_run_err (Wrap ''reporting progress'') (write_status env AtProgress
       (set_progressing (''assembling for inputs '' @ pp_hash pp) (ic_artifact obj)))"

definition assemble_step ::
    "('img, 'l, 'z) controller_scheme \<Rightarrow> composition \<Rightarrow> 'img prepared \<Rightarrow> 'img layer_input list \<Rightarrow>
     'img built res" where
  "assemble_step env obj pp inputs =
     (case assemble_artifact (compose_env.truncate env) (ic_namespace obj) (sc_base (ic_spec obj))
         (pp_declared pp) inputs (pp_config pp) of
        Inl e \<Rightarrow> Inl (assemble_failure e)
      | Inr a \<Rightarrow> Inr a)"

definition reconcile_artifact ::
    "('img, 'l, 'z) controller_scheme \<Rightarrow> composition \<Rightarrow> (effect, build_result) run" where
  "reconcile_artifact env obj =
     and_then (prepare env obj) (\<lambda>pp.
     if cheap env obj pp then
       lift (Inr \<lparr>bs_artifact = the (ic_artifact obj), bs_input_hash = pp_hash pp,
         bs_attestations = ic_attestations obj, bs_conflict = None, bs_record = None\<rparr>)
     else
       and_then (report_progress env obj pp) (\<lambda>_.
       and_then (fetch_layers env (ic_namespace obj) (pp_declared pp) (pp_pulls pp) 0 (pp_inputs pp)) (\<lambda>inputs.
       and_then (lift (assemble_step env obj pp inputs)) (\<lambda>art.
       and_then (lift (wrap_err ''computing digest'' (cn_digest env art))) (\<lambda>digest.
       settle env obj pp inputs art digest)))))"

subsection \<open>The pass\<close>

definition reason_for :: "error \<Rightarrow> string" where
  "reason_for e =
     (if contains (err_text e) ''digest mismatch'' then reason_digest_mismatch
      else if contains (err_text e) ''already resolves to'' then reason_immutable_conflict
      else reason_invalid_spec)"

datatype requeue = NoRequeue | RequeueAfter int

definition set_suspended :: "composition \<Rightarrow> composition" where
  "set_suspended o' =
     remove_condition stalled_condition (remove_condition reconciling_condition
       (set_condition ready_condition CFalse reason_suspended ''Reconciliation is suspended'' o'))"

definition set_waiting :: "string \<Rightarrow> string \<Rightarrow> composition \<Rightarrow> composition" where
  "set_waiting reason msg o' =
     remove_condition stalled_condition (set_condition ready_condition CFalse reason msg
       (set_condition reconciling_condition CTrue reason msg o'))"

definition set_stalled :: "string \<Rightarrow> string \<Rightarrow> composition \<Rightarrow> composition" where
  "set_stalled reason msg o' =
     set_condition ready_condition CFalse reason msg (set_condition stalled_condition CTrue reason msg o')"

definition ready_text :: "build_result \<Rightarrow> string" where
  "ready_text r =
     (case bs_conflict r of
        None \<Rightarrow> ''Published '' @ ar_ref (bs_artifact r)
      | Some c \<Rightarrow> ''Kept '' @ tc_tag c @ '' at '' @ tc_existing c @ ''; dropped '' @ tc_dropped c @
          '' (onConflict: Keep)'')"

definition set_succeeded :: "int \<Rightarrow> build_result \<Rightarrow> composition \<Rightarrow> composition" where
  "set_succeeded operator_limit r o' =
     remove_condition stalled_condition (remove_condition reconciling_condition
       (set_condition ready_condition CTrue reason_succeeded (ready_text r)
          (o'\<lparr>ic_artifact := Some (bs_artifact r), ic_attestations := bs_attestations r,
             ic_input_hash := bs_input_hash r,
             ic_history := record_history (ic_history o') (bs_record r)
               (history_limit (sc_push (ic_spec o')) operator_limit),
             ic_conflict := bs_conflict r\<rparr>)))"

definition after_failure ::
    "('img, 'l, 'z) controller_scheme \<Rightarrow> error \<Rightarrow> (effect, requeue) run" where
  "after_failure env e =
     (if is_pending e then
        and_then (patch_status env AtOutcome (set_waiting reason_dependency_not_ready (err_text e))) (\<lambda>_.
        lift (Inr (RequeueAfter pending_retry_interval)))
      else if is_terminal e then
        and_then (emit (EvEmit (mk_event True (reason_for e) (err_text e)))) (\<lambda>_.
        and_then (patch_status env AtOutcome
          (\<lambda>o'. remove_condition reconciling_condition (set_stalled (reason_for e) (err_text e) o'))) (\<lambda>_.
        lift (Inr NoRequeue)))
      else
        and_then (emit (EvEmit (mk_event True reason_fetch_failed (err_text e)))) (\<lambda>_.
        and_then (patch_status env AtOutcome (set_waiting reason_progressing (err_text e))) (\<lambda>_.
        lift (Inl e))))"

definition object_key :: "composition \<Rightarrow> obj_key" where
  "object_key obj = \<lparr>ok_namespace = ic_namespace obj, ok_name = ic_name obj\<rparr>"

definition export_step ::
    "('img, 'l, 'z) controller_scheme \<Rightarrow> composition \<Rightarrow> artifact \<Rightarrow> (effect, unit) run" where
  "export_step env obj art =
     (let spec = get_write_ref_to (sc_push (ic_spec obj)) in
      if spec = None \<and> ic_ref_export obj = None then lift (Inr ())
      else
        and_then (map_effects EvExport
          (if spec = None then lift (Inr None)
           else export_ref (cn_cms env) (cn_kind env) (object_key obj) spec (cn_export env)
             (ar_digest art) (ar_ref art))) (\<lambda>written.
        and_then (map_effects EvExport
          (record_export (cn_cms env) (object_key obj) (ic_ref_export obj) written)) (\<lambda>changed.
        if \<not> changed then lift (Inr ())
        else patch_status env AtExport (\<lambda>o'. o'\<lparr>ic_ref_export := written\<rparr>))))"

definition after_export ::
    "('img, 'l, 'z) controller_scheme \<Rightarrow> composition \<Rightarrow> artifact \<Rightarrow> (effect, requeue) run" where
  "after_export env obj art =
     (case export_step env obj art of
        (es, Inr u) \<Rightarrow> (es, Inr (RequeueAfter (interval (sc_interval (ic_spec obj)))))
      | (es, Inl e) \<Rightarrow>
          if is_terminal e then
            and_then (es @ [EvEmit (mk_event True reason_invalid_spec (err_text e))], Inr ()) (\<lambda>_.
            and_then (patch_status env AtStall (set_stalled reason_invalid_spec (err_text e))) (\<lambda>_.
            lift (Inr NoRequeue)))
          else (es, Inl e))"

definition after_success ::
    "('img, 'l, 'z) controller_scheme \<Rightarrow> composition \<Rightarrow> build_result \<Rightarrow> (effect, requeue) run" where
  "after_success env obj r =
     and_then (patch_status env AtOutcome (set_succeeded (cn_history_limit env) r)) (\<lambda>_.
     and_then (if bs_record r \<noteq> None \<and> cn_refreshes env then emit (EvRefresh (bs_artifact r))
       else lift (Inr ())) (\<lambda>_.
     after_export env obj (bs_artifact r)))"

definition add_finalizer :: "composition \<Rightarrow> composition" where
  "add_finalizer o' =
     (if finalizer \<in> set (ic_finalizers o') then o'
      else o'\<lparr>ic_finalizers := ic_finalizers o' @ [finalizer]\<rparr>)"

definition remove_finalizer :: "composition \<Rightarrow> composition" where
  "remove_finalizer o' = o'\<lparr>ic_finalizers := removeAll finalizer (ic_finalizers o')\<rparr>"

definition finalize :: "('img, 'l, 'z) controller_scheme \<Rightarrow> composition \<Rightarrow> (effect, requeue) run" where
  "finalize env obj =
     (case delete_exported_ref (cn_cms env) (object_key obj) (ic_ref_export obj) of
        (ops, Some e) \<Rightarrow> (map EvExport ops, Inl e)
      | (ops, None) \<Rightarrow>
          (case cn_finalizer env of
             None \<Rightarrow> (map EvExport ops @ [EvPatch remove_finalizer], Inr NoRequeue)
           | Some e \<Rightarrow> (map EvExport ops,
               case ignore_not_found (Some e) of None \<Rightarrow> Inr NoRequeue | Some e' \<Rightarrow> Inl e')))"

definition work :: "('img, 'l, 'z) controller_scheme \<Rightarrow> composition \<Rightarrow> (effect, requeue) run" where
  "work env obj =
     (case reconcile_artifact env obj of
        (es, Inl e) \<Rightarrow> and_then (es, Inr ()) (\<lambda>_. after_failure env e)
      | (es, Inr r) \<Rightarrow> and_then (es, Inr ()) (\<lambda>_. after_success env obj r))"

definition reconcile :: "('img, 'l, 'z) controller_scheme \<Rightarrow> composition \<Rightarrow> (effect, requeue) run" where
  "reconcile env obj =
     (if ic_deleting obj then finalize env obj
      else
        and_then (if finalizer \<in> set (ic_finalizers obj) then lift (Inr ())
          else (case cn_finalizer env of
              None \<Rightarrow> emit (EvPatch add_finalizer)
            | Some e \<Rightarrow> lift (Inl (Wrap ''adding finalizer'' e)))) (\<lambda>_.
        and_then (fst (backfill env obj), Inr (snd (backfill env obj))) (\<lambda>obj'.
        if sc_suspend (ic_spec obj') then
          and_then (patch_status env AtOutcome set_suspended) (\<lambda>_. lift (Inr NoRequeue))
        else work env obj')))"

text \<open>A request for an object, which may be gone, and what readiness learns of it.\<close>

definition reconcile_request ::
    "('img, 'l, 'z) controller_scheme \<Rightarrow> string \<times> string \<Rightarrow> composition lookup \<Rightarrow> readiness \<Rightarrow>
     (effect, requeue) run \<times> readiness" where
  "reconcile_request env key found seen =
     (case found of
        Missing \<Rightarrow> (lift (Inr NoRequeue), forget key seen)
      | ReadFailed e \<Rightarrow> (lift (Inl e), seen)
      | Found obj \<Rightarrow> (reconcile env obj, observe key seen))"

subsection \<open>What wakes a composition\<close>

definition compositions_for_config_map ::
    "composition list res \<Rightarrow> string \<Rightarrow> string \<Rightarrow> (string \<times> string) list" where
  "compositions_for_config_map items ns name =
     (case items of
        Inl e \<Rightarrow> []
      | Inr os \<Rightarrow> map (\<lambda>o'. (ic_namespace o', ic_name o'))
          (filter (\<lambda>o'. ic_namespace o' = ns \<and>
             list_ex (\<lambda>l. case ly_config_map l of None \<Rightarrow> False | Some c \<Rightarrow> cs_name c = name)
               (sc_layers (ic_spec o'))) os))"

definition references_source :: "string \<Rightarrow> string \<Rightarrow> string \<Rightarrow> composition \<Rightarrow> layer_spec \<Rightarrow> bool" where
  "references_source kind ns name o' l =
     (case ly_source_ref l of
        None \<Rightarrow> False
      | Some ref \<Rightarrow>
          sr_kind ref = kind \<and> sr_name ref = name \<and>
          (if sr_namespace ref = [] then ic_namespace o' else sr_namespace ref) = ns)"

definition compositions_for_source ::
    "string \<Rightarrow> composition list res \<Rightarrow> string \<Rightarrow> string \<Rightarrow> (string \<times> string) list" where
  "compositions_for_source kind items ns name =
     (case items of
        Inl e \<Rightarrow> []
      | Inr os \<Rightarrow> map (\<lambda>o'. (ic_namespace o', ic_name o'))
          (filter (\<lambda>o'. list_ex (references_source kind ns name o') (sc_layers (ic_spec o'))) os))"

end

