(* ===== verification/Build_Controller.thy ===== *)
theory Build_Controller
  imports Build_Inputs Composition
begin

section \<open>The build controller\<close>

text \<open>
  \<^verbatim>\<open>internal/buildcontroller\<close>: one pass over an \<^verbatim>\<open>ImageBuild\<close> and the state machine over the
  Job it owns. The pass edits the object in memory; the status write at its end stores what the object
  then is. The API server, the registry and the pods are fields of \<open>builder\<close> that give the answers of
  one pass; what is asked of them is the trace, recorded when it is attempted.
\<close>

subsection \<open>Jobs, pods and secrets as observed\<close>

record job_condition =
  jk_type :: string
  jk_status :: string
  jk_reason :: string
  jk_message :: string

record batch_job =
  bj_name :: string
  bj_namespace :: string
  bj_succeeded :: int
  bj_failed :: int
  bj_conditions :: "job_condition list"

record terminated_state =
  te_exit :: int
  te_reason :: string
  te_message :: string

record container_status =
  kx_name :: string
  kx_terminated :: "terminated_state option"

record pod =
  pd_name :: string
  pd_namespace :: string
  pd_init :: "container_status list"
  pd_containers :: "container_status list"

datatype secret_owner = Unowned | OwnedByBuild string | OwnedByJob string | OwnedByOther

record built_secret =
  bt_name :: string
  bt_namespace :: string
  bt_labels :: "string \<rightharpoonup> string"
  bt_description :: string
  bt_type :: string
  bt_immutable :: bool
  bt_data :: "string \<rightharpoonup> string"
  bt_owner :: secret_owner

datatype create_answer = Created | AlreadyThere | CreateFailed error

datatype build_effect =
    BEmit event
  | BTag string string
  | BExport cm_op
  | BCreateSecret built_secret
  | BUpdateSecret built_secret
  | BCreateJob job
  | BDeleteJob string
  | BAttest att_op
  | BRefresh "artifact option"
  | BPatch "string list"
  | BStatus image_build

record builder = build_reader +
  bn_auth :: secret_env
  bn_registry :: registry
  bn_repo_ok :: "string \<Rightarrow> bool"
  bn_hash_ok :: "string \<Rightarrow> bool"
  bn_job_get :: "string \<Rightarrow> batch_job lookup"
  bn_job_create :: "job \<Rightarrow> create_answer"
  bn_job_delete :: "string \<Rightarrow> error option"
  bn_pods :: "string \<Rightarrow> pod list res"
  bn_metadata :: "string \<Rightarrow> string option"
  bn_operator_secret :: "string \<Rightarrow> string \<Rightarrow> (string \<times> (string \<rightharpoonup> string)) lookup"
  bn_secret_create :: "built_secret \<Rightarrow> create_answer"
  bn_secret_get :: "string \<Rightarrow> string \<Rightarrow> built_secret lookup"
  bn_secret_update :: "built_secret \<Rightarrow> error option"
  bn_own :: "string \<Rightarrow> error option"
  bn_token :: "string res"
  bn_now :: int
  bn_history_limit :: int
  bn_poll :: int
  bn_attestor :: "attestor option"
  bn_attest :: att_env
  bn_export :: export_options
  bn_cms :: cm_server
  bn_kind :: "string res"
  bn_refreshes :: bool
  bn_patch :: "string list \<Rightarrow> error option"
  bn_echo :: "image_build \<Rightarrow> image_build"
  bn_status :: patch_answer

type_synonym 'a build_act = "(image_build, build_effect, 'a) act"

definition build_key :: "image_build \<Rightarrow> obj_key" where
  "build_key obj = \<lparr>ok_namespace = ib_namespace obj, ok_name = ib_name obj\<rparr>"

definition emit_event :: "bool \<Rightarrow> string \<Rightarrow> string \<Rightarrow> unit build_act" where
  "emit_event warning reason msg = perform (emit (BEmit (mk_event warning reason msg)))"

subsection \<open>Intervals\<close>

definition default_poll :: int where
  "default_poll = 15 * second"

definition max_failure_backoff :: int where
  "max_failure_backoff = 600 * second"

definition poll_interval :: "int \<Rightarrow> int" where
  "poll_interval configured_poll = (if configured_poll > 0 then configured_poll else default_poll)"

fun backoff_loop :: "nat \<Rightarrow> int \<Rightarrow> int" where
  "backoff_loop 0 d = d"
| "backoff_loop (Suc n) d = (if d \<ge> max_failure_backoff then d else backoff_loop n (d * 2))"

text \<open>\<^verbatim>\<open>for range n\<close> over an \<^verbatim>\<open>int32\<close>: a negative count is no iteration.\<close>

definition failure_backoff :: "32 word \<Rightarrow> int" where
  "failure_backoff n = min (backoff_loop (nat (sint n)) pending_retry_interval) max_failure_backoff"

definition retry_due :: "int \<Rightarrow> image_build \<Rightarrow> bool" where
  "retry_due now obj =
     (case ib_attempt obj of
        None \<Rightarrow> True
      | Some la \<Rightarrow>
          (case la_finished la of
             None \<Rightarrow> True
           | Some t \<Rightarrow> \<not> now < t + failure_backoff (ib_failures obj)))"

subsection \<open>Registry access\<close>

text \<open>The repository, empty without one; the credential of the pass must resolve.\<close>

definition registry_for :: "('z) builder_scheme \<Rightarrow> image_build \<Rightarrow> string res" where
  "registry_for env obj =
     (let repo = repository_of env obj in
      if repo = [] then Inr []
      else (case remote_auth (bn_auth env) (bn_default env) pending (ib_namespace obj) repo (xs_push (ib_spec obj)) of
          Inl e \<Rightarrow> Inl e
        | Inr auth \<Rightarrow> Inr repo))"

definition cache_available :: "('z) builder_scheme \<Rightarrow> image_build \<Rightarrow> bool" where
  "cache_available env obj =
     (let ref = cache_ref_for (ib_spec obj) (ib_namespace obj) (ib_name obj) (repository_of env obj) in
      ref \<noteq> [] \<and>
      \<not> isl (remote_auth (bn_auth env) (bn_default env) pending (ib_namespace obj) (repository_of env obj)
        (xs_push (ib_spec obj))) \<and>
      rg_ref_ok (bn_registry env) ref \<and> \<not> isl (rg_head (bn_registry env) ref))"

abbreviation (input) no_repository :: string where
  "no_repository \<equiv> ''this build names no push.repository, and no default registry is configured''"

definition kept_conflict :: "string \<Rightarrow> string \<Rightarrow> string \<Rightarrow> int \<Rightarrow> tag_conflict" where
  "kept_conflict tag cur dropped now =
     \<lparr>tc_tag = tag, tc_existing = cur, tc_dropped = dropped, tc_observed = Some now\<rparr>"

definition own_digest :: "image_build \<Rightarrow> string" where
  "own_digest obj = (case ib_artifact obj of None \<Rightarrow> [] | Some a \<Rightarrow> ar_digest a)"

text \<open>The pre-flight: \<open>Some c\<close> stops the pass without a build.\<close>

definition check_tag_conflict ::
    "('z) builder_scheme \<Rightarrow> image_build \<Rightarrow> tag_conflict option res" where
  "check_tag_conflict env obj =
     (let p = xs_push (ib_spec obj); policy = conflict_policy p in
      if repository_of env obj = [] then Inl (pending no_repository)
      else if policy = conflict_overwrite then Inr None
      else bind_res (effective_tags (get_tags p) (get_ref p)) (\<lambda>tags.
        if tags = [] then Inr None
        else
          bind_res (registry_for env obj) (\<lambda>repo.
          bind_res (resolve_published (bn_registry env) repo tags (ib_artifact obj)) (\<lambda>pub.
          case conflicts pub tags (own_digest obj) of
            (tag, cur) \<Rightarrow>
              if tag = [] then Inr None
              else if policy = conflict_fail
              then Inl (terminal (''tag '' @ tag @ '' already resolves to '' @ cur @
                '' and this build would replace it with different content''))
              else if policy = conflict_keep then Inr (Some (kept_conflict tag cur [] (bn_now env)))
              else Inl (terminal (''unknown onConflict policy '' @ policy))))))"

fun tag_all :: "('z) builder_scheme \<Rightarrow> string \<Rightarrow> string \<Rightarrow> string \<Rightarrow> string list \<Rightarrow> (build_effect, unit) run" where
  "tag_all env repo digest desc [] = lift (Inr ())"
| "tag_all env repo digest desc (t # ts) =
     (if \<not> rg_tag_ok (bn_registry env) (tag_ref repo t)
      then lift (Inl (terminal (''invalid tag '' @ t)))
      else
        and_then (map_run_err (Wrap (''tagging '' @ digest @ '' as '' @ t))
          (attempt (BTag (tag_ref repo t) desc) (rg_put_tag (bn_registry env) (tag_ref repo t) desc))) (\<lambda>_.
        tag_all env repo digest desc ts))"

text \<open>A digest that does not parse is asked for as the zero reference.\<close>

definition must_digest_ref :: "registry \<Rightarrow> string \<Rightarrow> string \<Rightarrow> string" where
  "must_digest_ref reg repo digest =
     (if rg_digest_ok reg (digest_ref_of repo digest) then digest_ref_of repo digest else [])"

definition name_content ::
    "('z) builder_scheme \<Rightarrow> string \<Rightarrow> string list \<Rightarrow> string \<Rightarrow> (build_effect, tag_conflict option) run" where
  "name_content env repo tags digest =
     (case rg_get (bn_registry env) (must_digest_ref (bn_registry env) repo digest) of
        Inl e \<Rightarrow>
          if is_not_found e
          then lift (Inl (pending (''the build produced '' @ digest @ '' but '' @ repo @ '' does not serve it'')))
          else lift (Inl (Wrap (''reading the pushed manifest '' @ digest) e))
      | Inr desc \<Rightarrow>
          and_then (tag_all env repo digest desc (publish_tags tags digest)) (\<lambda>_. lift (Inr None)))"

definition apply_tags ::
    "('z) builder_scheme \<Rightarrow> image_build \<Rightarrow> string \<Rightarrow> (build_effect, tag_conflict option) run" where
  "apply_tags env obj digest =
     (let p = xs_push (ib_spec obj) in
      and_then (lift (effective_tags (get_tags p) (get_ref p))) (\<lambda>tags.
      and_then (lift (registry_for env obj)) (\<lambda>repo.
      if repo = [] then lift (Inl (pending no_repository))
      else
        and_then (lift (resolve_published (bn_registry env) repo tags (ib_artifact obj))) (\<lambda>pub.
        case conflicts pub tags digest of
          (tag, cur) \<Rightarrow>
            if tag \<noteq> [] \<and> conflict_policy p = conflict_fail
            then lift (Inl (terminal (''tag '' @ tag @ '' already resolves to '' @ cur @ '' and this build produced '' @ digest)))
            else if tag \<noteq> [] \<and> conflict_policy p = conflict_keep
            then lift (Inr (Some (kept_conflict tag cur digest (bn_now env))))
            else name_content env repo tags digest))))"

text \<open>Only a definite not-found of the digest or of a tag counts as a loss.\<close>

definition published_refs :: "string \<Rightarrow> push option \<Rightarrow> artifact \<Rightarrow> string list" where
  "published_refs repo p prev =
     [digest_ref_of repo (ar_digest prev)] @
     (case p of
        None \<Rightarrow> []
      | Some q \<Rightarrow>
          (case effective_tags (get_tags p) (get_ref p) of Inl e \<Rightarrow> [] | Inr tags \<Rightarrow> map (tag_ref repo) tags)) @
     (if has_digest_tag (ar_tags prev) (ar_digest prev) then [tag_ref repo (digest_tag (ar_digest prev))] else [])"

definition is_lost :: "registry \<Rightarrow> string \<Rightarrow> bool" where
  "is_lost reg ref =
     (rg_ref_ok reg ref \<and> (case rg_head reg ref of Inl e \<Rightarrow> is_not_found e | Inr d \<Rightarrow> False))"

definition still_published :: "('z) builder_scheme \<Rightarrow> image_build \<Rightarrow> bool" where
  "still_published env obj =
     (case ib_artifact obj of
        None \<Rightarrow> True
      | Some prev \<Rightarrow>
          if ar_digest prev = [] then True
          else (case registry_for env obj of
              Inl e \<Rightarrow> True
            | Inr repo \<Rightarrow>
                if repo = [] then True
                else \<not> list_ex (is_lost (bn_registry env)) (published_refs repo (xs_push (ib_spec obj)) prev)))"

fun build_backfill_apply :: "registry \<Rightarrow> string \<Rightarrow> string list \<Rightarrow> outcomes \<Rightarrow> writes \<times> outcomes" where
  "build_backfill_apply reg repo [] out = ([], out)"
| "build_backfill_apply reg repo (d # ds) out =
     (if out d \<noteq> None then build_backfill_apply reg repo ds out
      else (case apply_digest_tag reg repo d of
          (w, err) \<Rightarrow>
            (case build_backfill_apply reg repo ds (record_outcome out d err) of
               (ws, out') \<Rightarrow> (w @ ws, out'))))"

definition build_mark :: "outcomes \<Rightarrow> string \<Rightarrow> int \<Rightarrow> image_build \<Rightarrow> image_build" where
  "build_mark out public now obj =
     (let own = (\<lambda>d. tag_ref public (digest_tag d)); art = mark_artifact out own (ib_artifact obj)
      in obj\<lparr>ib_artifact := art, ib_history := mark_history out (ib_history obj) art own now\<rparr>)"

definition build_backfill :: "('z) builder_scheme \<Rightarrow> unit build_act" where
  "build_backfill env = on_object (\<lambda>obj.
     if backfill_digests (ib_artifact obj) (ib_history obj) = [] then ret ()
     else (case registry_for env obj of
         Inl e \<Rightarrow> ret ()
       | Inr repo \<Rightarrow>
           if repo = [] then ret ()
           else (case build_backfill_apply (bn_registry env) repo
                   (backfill_digests (ib_artifact obj) (ib_history obj)) Map.empty of
               (ws, out) \<Rightarrow>
                 seq (perform (map (\<lambda>w. BTag (fst w) (snd w)) ws, Inr ())) (\<lambda>_.
                 edit (build_mark out (public_repository (bn_default env) repo) (bn_now env))))))"

subsection \<open>Secrets of one build\<close>

definition per_build_secret :: "image_build \<Rightarrow> string \<Rightarrow> string \<Rightarrow> built_secret" where
  "per_build_secret obj name description =
     \<lparr>bt_name = name, bt_namespace = ib_namespace obj, bt_labels = [managed_by_label \<mapsto> builder_manager],
      bt_description = description, bt_type = ''Opaque'', bt_immutable = False, bt_data = Map.empty,
      bt_owner = Unowned\<rparr>"

definition create_build_secret ::
    "('z) builder_scheme \<Rightarrow> image_build \<Rightarrow> built_secret \<Rightarrow> string \<Rightarrow> (build_effect, unit) run" where
  "create_build_secret env obj sec what =
     (case bn_own env (bt_name sec) of
        Some e \<Rightarrow> lift (Inl (Wrap (''setting owner on the '' @ what) e))
      | None \<Rightarrow>
          (let owned = sec\<lparr>bt_owner := OwnedByBuild (ib_name obj)\<rparr> in
           and_then (emit (BCreateSecret owned)) (\<lambda>_.
           case bn_secret_create env owned of
             Created \<Rightarrow> lift (Inr ())
           | CreateFailed e \<Rightarrow> lift (Inl (Wrap (''creating the '' @ what) e))
           | AlreadyThere \<Rightarrow>
               if bt_immutable sec then lift (Inr ())
               else (case bn_secret_get env (bt_namespace sec) (bt_name sec) of
                   Missing \<Rightarrow> lift (Inl (Wrap (''reading the existing '' @ what) (NotFoundError (bt_name sec))))
                 | ReadFailed e \<Rightarrow> lift (Inl (Wrap (''reading the existing '' @ what) e))
                 | Found cur \<Rightarrow>
                     map_run_err (Wrap (''refreshing the '' @ what))
                       (attempt (BUpdateSecret (cur\<lparr>bt_data := bt_data sec\<rparr>))
                         (bn_secret_update env (cur\<lparr>bt_data := bt_data sec\<rparr>)))))))"

definition push_secret_for ::
    "('z) builder_scheme \<Rightarrow> image_build \<Rightarrow> string \<Rightarrow> (build_effect, string) run" where
  "push_secret_for env obj job_name' =
     (let d = bn_default env in
      case (case xs_push (ib_spec obj) of None \<Rightarrow> None | Some p \<Rightarrow> ps_secret_ref p) of
        Some own \<Rightarrow> lift (Inr own)
      | None \<Rightarrow>
          if dr_secret d = [] \<or> \<not> owns d (repository_of env obj) then lift (Inr [])
          else (case bn_operator_secret env (dr_namespace d) (dr_secret d) of
              Missing \<Rightarrow> lift (Inl (pending (''default push secret '' @ dr_namespace d @ ''/'' @ dr_secret d @
                '' not found yet'')))
            | ReadFailed e \<Rightarrow> lift (Inl (Wrap (''reading default push secret '' @ dr_namespace d @ ''/'' @ dr_secret d) e))
            | Found (kind, data) \<Rightarrow>
                (let copied = (per_build_secret obj (job_name' @ ''-push'')
                      ''Short-lived copy of the operator's registry credential'')\<lparr>bt_type := kind, bt_data := data\<rparr>
                 in and_then (create_build_secret env obj copied ''push credential'') (\<lambda>_.
                    lift (Inr (bt_name copied))))))"

definition registry_ca_secret_for ::
    "('z) builder_scheme \<Rightarrow> image_build \<Rightarrow> string \<Rightarrow> (build_effect, string) run" where
  "registry_ca_secret_for env obj job_name' =
     (if jc_registry_ca (bn_job_config env) = [] then lift (Inr [])
      else (let ca = (per_build_secret obj (job_name' @ ''-registry-ca'') ''The registry CA this build's Job trusts'')
              \<lparr>bt_data := [''ca.crt'' \<mapsto> jc_registry_ca (bn_job_config env)]\<rparr>
        in and_then (create_build_secret env obj ca ''registry CA'') (\<lambda>_. lift (Inr (bt_name ca)))))"

definition dockerfile_secret_for ::
    "('z) builder_scheme \<Rightarrow> image_build \<Rightarrow> string \<Rightarrow> string \<Rightarrow> (build_effect, string) run" where
  "dockerfile_secret_for env obj job_name' content =
     (if content = [] then lift (Inr [])
      else (let df = (per_build_secret obj (job_name' @ ''-dockerfile'') ''The Dockerfile this build runs'')
              \<lparr>bt_immutable := True, bt_data := [dockerfile_key \<mapsto> content]\<rparr>
        in and_then (create_build_secret env obj df ''Dockerfile'') (\<lambda>_. lift (Inr (bt_name df)))))"

definition context_token_for ::
    "('z) builder_scheme \<Rightarrow> image_build \<Rightarrow> string \<Rightarrow> (build_effect, string) run" where
  "context_token_for env obj job_name' =
     and_then (lift (wrap_err ''generating a context token'' (bn_token env))) (\<lambda>token.
     let sec = (per_build_secret obj (context_secret_name job_name') ''Lets this build fetch its own source'')
           \<lparr>bt_immutable := True, bt_data := [''token'' \<mapsto> token]\<rparr>
     in and_then (create_build_secret env obj sec ''context token'') (\<lambda>_. lift (Inr (bt_name sec))))"

definition build_secret_names :: "string \<Rightarrow> string list" where
  "build_secret_names job_name' =
     [job_name' @ ''-push'', job_name' @ ''-registry-ca'', job_name' @ ''-dockerfile'',
      context_secret_name job_name']"

definition adoptable :: "image_build \<Rightarrow> built_secret \<Rightarrow> bool" where
  "adoptable obj sec =
     (bt_labels sec managed_by_label = Some builder_manager \<and> bt_owner sec = OwnedByBuild (ib_name obj))"

text \<open>Failures are logged, never returned.\<close>

definition adopt_build_secrets :: "('z) builder_scheme \<Rightarrow> image_build \<Rightarrow> string \<Rightarrow> string \<Rightarrow> build_effect list" where
  "adopt_build_secrets env obj ns job =
     concat (map (\<lambda>name.
       case bn_secret_get env ns name of
         Found sec \<Rightarrow>
           if adoptable obj sec \<and> bn_own env (bt_name sec) = None
           then [BUpdateSecret (sec\<lparr>bt_owner := OwnedByJob job\<rparr>)] else []
       | Missing \<Rightarrow> []
       | ReadFailed e \<Rightarrow> []) (build_secret_names job))"

subsection \<open>Starting a build\<close>

definition current_job :: "('z) builder_scheme \<Rightarrow> image_build \<Rightarrow> string \<Rightarrow> batch_job option res" where
  "current_job env obj ih =
     (case bn_job_get env (job_name (ib_name obj) ih) of
        Missing \<Rightarrow> Inr None
      | ReadFailed e \<Rightarrow> Inl (Wrap ''reading the build job'' e)
      | Found job \<Rightarrow> Inr (Some job))"

text \<open>The credentials and the Dockerfile a Job mounts, before it exists.\<close>

record job_secrets =
  jx_push :: string
  jx_ca :: string
  jx_dockerfile :: string
  jx_context :: string

definition checked_dockerfile :: "(string option \<times> bool) \<Rightarrow> unit res" where
  "checked_dockerfile d =
     (case fst d of
        None \<Rightarrow> Inr ()
      | Some content \<Rightarrow>
          (case check_pinned_bases content of
             Inr u \<Rightarrow> Inr ()
           | Inl e \<Rightarrow> if snd d then Inl (terminal (err_text e)) else Inl e))"

definition make_secrets ::
    "('z) builder_scheme \<Rightarrow> image_build \<Rightarrow> string \<Rightarrow> string option \<Rightarrow> (build_effect, job_secrets) run" where
  "make_secrets env obj build_name dockerfile =
     (let spec = ib_spec obj in
      and_then (push_secret_for env obj build_name) (\<lambda>push.
      and_then (registry_ca_secret_for env obj build_name) (\<lambda>ca.
      and_then (if projected_dockerfile spec
        then dockerfile_secret_for env obj build_name (case dockerfile of None \<Rightarrow> [] | Some c \<Rightarrow> c)
        else lift (Inr [])) (\<lambda>df.
      and_then (if get_source_ref (xs_context spec) \<noteq> None \<and> jc_context_base (bn_job_config env) \<noteq> []
        then context_token_for env obj build_name else lift (Inr [])) (\<lambda>ctx.
      lift (Inr \<lparr>jx_push = push, jx_ca = ca, jx_dockerfile = df, jx_context = ctx\<rparr>))))))"

definition started :: "string \<Rightarrow> string \<Rightarrow> int \<Rightarrow> image_build \<Rightarrow> image_build" where
  "started job ih now obj =
     obj\<lparr>ib_build_ref := Some job,
        ib_attempt := Some \<lparr>la_input_hash = ih, la_pod = [], la_started = Some now, la_finished = None,
          la_succeeded = False, la_message = []\<rparr>\<rparr>"

definition start_build ::
    "('z) builder_scheme \<Rightarrow> build_inputs \<Rightarrow> string \<Rightarrow> string \<Rightarrow> unit build_act" where
  "start_build env inputs ih context_url = on_object (\<lambda>obj.
     seq (answer (dockerfile_bytes env obj context_url)) (\<lambda>dockerfile.
     seq (answer (checked_dockerfile dockerfile)) (\<lambda>_.
     seq (perform (make_secrets env obj (job_name (ib_name obj) ih) (fst dockerfile))) (\<lambda>secrets.
     case build_job obj ih context_url (bi_context_digest inputs) (bn_job_config env) (repository_of env obj)
         (jx_push secrets) (jx_ca secrets) (jx_dockerfile secrets) (jx_context secrets) (cache_available env obj) of
       None \<Rightarrow> answer (Inl (Msg ''nil pointer dereference''))
     | Some job \<Rightarrow>
         (case bn_own env (jb_name job) of
            Some e \<Rightarrow> answer (Inl (Wrap ''setting owner'' e))
          | None \<Rightarrow>
              seq (perform (emit (BCreateJob job))) (\<lambda>_.
              case bn_job_create env job of
                AlreadyThere \<Rightarrow> ret ()
              | CreateFailed e \<Rightarrow> answer (Inl (Wrap ''creating the build job'' e))
              | Created \<Rightarrow>
                  seq (perform (adopt_build_secrets env obj (jb_namespace job) (jb_name job), Inr ())) (\<lambda>_.
                  edit (started (jb_name job) ih (bn_now env)))))))))"

subsection \<open>What a finished Job reports\<close>

definition job_succeeded :: "batch_job \<Rightarrow> bool" where
  "job_succeeded job \<longleftrightarrow> bj_succeeded job > 0"

definition job_failed :: "batch_job \<Rightarrow> bool" where
  "job_failed job \<longleftrightarrow> bj_failed job > 0"

fun pod_build_digest :: "(string \<Rightarrow> string option) \<Rightarrow> container_status list \<Rightarrow> string" where
  "pod_build_digest metadata [] = []"
| "pod_build_digest metadata (c # cs) =
     (case kx_terminated c of
        None \<Rightarrow> pod_build_digest metadata cs
      | Some t \<Rightarrow>
          if kx_name c \<noteq> ''build'' then pod_build_digest metadata cs
          else (case metadata (trim_space (te_message t)) of
              None \<Rightarrow> pod_build_digest metadata cs
            | Some d \<Rightarrow> if d \<noteq> [] then d else pod_build_digest metadata cs))"

fun first_digest :: "(string \<Rightarrow> string option) \<Rightarrow> pod list \<Rightarrow> (string \<times> string) option" where
  "first_digest metadata [] = None"
| "first_digest metadata (p # ps) =
     (let d = pod_build_digest metadata (pd_containers p) in
      if d \<noteq> [] then Some (pd_name p, d) else first_digest metadata ps)"

definition on_attempt :: "(build_attempt \<Rightarrow> build_attempt) \<Rightarrow> image_build \<Rightarrow> image_build" where
  "on_attempt f obj = obj\<lparr>ib_attempt := map_option f (ib_attempt obj)\<rparr>"

definition read_result_digest :: "('z) builder_scheme \<Rightarrow> batch_job \<Rightarrow> string build_act" where
  "read_result_digest env job =
     (case bn_pods env (bj_name job) of
        Inl e \<Rightarrow> answer (Inl (Wrap ''listing build pods'' e))
      | Inr [] \<Rightarrow> answer (Inl (pending (''the build pod for '' @ bj_name job @ '' has not been observed yet'')))
      | Inr ps \<Rightarrow>
          (case first_digest (bn_metadata env) ps of
             None \<Rightarrow> answer (Inl (Msg (''the build reported no image digest; check `kubectl logs job/'' @ bj_name job @ ''`'')))
           | Some (name, digest) \<Rightarrow>
               seq (edit (on_attempt (\<lambda>la. la\<lparr>la_pod := name\<rparr>))) (\<lambda>_. ret digest)))"

fun condition_message :: "job_condition list \<Rightarrow> string" where
  "condition_message [] = ''the build job failed''"
| "condition_message (c # cs) =
     (if jk_type c = ''Failed'' \<and> jk_status c = ''True''
      then (if jk_message c \<noteq> [] then jk_message c else jk_reason c)
      else condition_message cs)"

definition job_failure_message :: "batch_job \<Rightarrow> string" where
  "job_failure_message job = condition_message (bj_conditions job)"

definition stored_failure_message :: "image_build \<Rightarrow> batch_job \<Rightarrow> string" where
  "stored_failure_message obj job =
     (case ib_attempt obj of
        None \<Rightarrow> job_failure_message job
      | Some la \<Rightarrow> if la_message la \<noteq> [] then la_message la else job_failure_message job)"

definition max_failure_detail :: nat where
  "max_failure_detail = 4096"

definition failed_where :: "string \<Rightarrow> terminated_state \<Rightarrow> string" where
  "failed_where container t =
     ''container \"'' @ container @ ''\" exited '' @ show_int (te_exit t) @
     (if te_reason t \<noteq> [] then '' ('' @ te_reason t @ '')'' else [])"

definition logs_hint :: "pod \<Rightarrow> string \<Rightarrow> string" where
  "logs_hint p container =
     ''; see `kubectl -n '' @ pd_namespace p @ '' logs '' @ pd_name p @ '' -c '' @ container @ ''` while the pod lasts''"

definition failure_text :: "string \<Rightarrow> pod \<Rightarrow> string \<Rightarrow> terminated_state \<Rightarrow> string" where
  "failure_text msg p container t =
     (let place = failed_where container t; hint = logs_hint p container; cause = trim_space (te_message t)
      in if cause = [] then truncate_msg (msg @ '': '' @ place @ hint) max_failure_detail
         else (let suffix = '' ['' @ place @ '']'' @ hint
           in truncate_tail cause (max_failure_detail - length suffix) @ suffix))"

fun failed_container :: "container_status list \<Rightarrow> (string \<times> terminated_state) option" where
  "failed_container [] = None"
| "failed_container (c # cs) =
     (case kx_terminated c of
        None \<Rightarrow> failed_container cs
      | Some t \<Rightarrow> if te_exit t = 0 then failed_container cs else Some (kx_name c, t))"

fun failure_detail_for :: "string \<Rightarrow> pod list \<Rightarrow> string" where
  "failure_detail_for msg [] = msg"
| "failure_detail_for msg (p # ps) =
     (case failed_container (pd_init p @ pd_containers p) of
        None \<Rightarrow> failure_detail_for msg ps
      | Some (container, t) \<Rightarrow> failure_text msg p container t)"

definition job_failure_detail :: "('z) builder_scheme \<Rightarrow> batch_job \<Rightarrow> string" where
  "job_failure_detail env job =
     (case bn_pods env (bj_name job) of
        Inl e \<Rightarrow> job_failure_message job
      | Inr ps \<Rightarrow> failure_detail_for (job_failure_message job) ps)"

subsection \<open>Recording an outcome\<close>

definition record_success ::
    "('z) builder_scheme \<Rightarrow> build_inputs \<Rightarrow> string \<Rightarrow> string \<Rightarrow> image_build \<Rightarrow> image_build" where
  "record_success env inputs ih digest obj =
     (let spec = ib_spec obj;
          repo = public_repository (bn_default env) (repository_of env obj);
          effective = (case effective_tags (get_tags (xs_push spec)) (get_ref (xs_push spec)) of
             Inl e \<Rightarrow> get_tags (xs_push spec) | Inr tags \<Rightarrow> tags);
          tags = map (tag_ref repo) (publish_tags effective digest);
          sources = (case get_source_ref (xs_context spec) of
             None \<Rightarrow> []
           | Some ref \<Rightarrow> [\<lparr>so_name = sr_name ref, so_revision = bi_context_revision inputs,
               so_digest = bi_context_digest inputs\<rparr>]);
          rec = \<lparr>br_tags = tags, br_digest = digest, br_blobs = [], br_sources = sources, br_input_hash = ih,
            br_manifests = [], br_time = None, br_lost = None\<rparr>
      in on_attempt (\<lambda>la. la\<lparr>la_finished := Some (bn_now env), la_succeeded := True\<rparr>)
           (obj\<lparr>ib_artifact := Some \<lparr>ar_digest = digest,
                 ar_revision = (case effective of [] \<Rightarrow> digest | t # _ \<Rightarrow> t @ ''@'' @ digest),
                 ar_ref = digest_ref_of repo digest, ar_tags = tags, ar_updated = None\<rparr>,
               ib_input_hash := ih, ib_conflict := None, ib_build_ref := None, ib_failures := 0,
               ib_history := record_history (ib_history obj) (Some rec)
                 (history_limit (xs_push spec) (bn_history_limit env))\<rparr>))"

definition record_kept :: "tag_conflict option \<Rightarrow> unit build_act" where
  "record_kept c =
     seq (edit (\<lambda>obj. obj\<lparr>ib_conflict := c, ib_failures := 0, ib_build_ref := None\<rparr>)) (\<lambda>_.
     case c of
       None \<Rightarrow> ret ()
     | Some k \<Rightarrow> emit_event False reason_succeeded (''Kept '' @ tc_tag k @ '' at '' @ tc_existing k @
         ''; no build was run (onConflict: Keep)''))"

definition signing_failure :: "error \<Rightarrow> build_effect" where
  "signing_failure e =
     BEmit (mk_event True reason_attestation_failed (''the image is pushed, but signing it failed: '' @ err_text e))"

definition signed_record :: "string \<Rightarrow> string \<Rightarrow> att_record" where
  "signed_record subject sig =
     \<lparr>ac_subject = subject, ac_sbom = [], ac_provenance = [], ac_signature = sig\<rparr>"

text \<open>A failure is an event, never an error.\<close>

definition sign_build ::
    "('z) builder_scheme \<Rightarrow> image_build \<Rightarrow> string \<Rightarrow> build_effect list \<times> att_record option" where
  "sign_build env obj digest =
     (case (case bn_attestor env of None \<Rightarrow> None | Some a \<Rightarrow> at_key a) of
        None \<Rightarrow> ([], None)
      | Some key \<Rightarrow>
          (let again =
             (let repo = repository_of env obj in
              if \<not> bn_repo_ok env repo then ([signing_failure (Wrap ''parsing'' (Msg repo))], None)
              else if \<not> bn_hash_ok env digest then ([signing_failure (Wrap ''parsing the digest'' (Msg digest))], None)
              else (case remote_auth (bn_auth env) (bn_default env) pending (ib_namespace obj) repo (xs_push (ib_spec obj)) of
                  Inl e \<Rightarrow> ([signing_failure e], None)
                | Inr auth \<Rightarrow>
                    (case verified_signature_exists (bn_attest env) key repo digest of
                       Inl e \<Rightarrow> ([signing_failure e], None)
                     | Inr (True, d) \<Rightarrow> ([], Some (signed_record digest d))
                     | Inr (False, d) \<Rightarrow>
                         (case sign_artifact (bn_attest env) key repo digest of
                            (ops, Inl e) \<Rightarrow> (map BAttest ops @ [signing_failure e], None)
                          | (ops, Inr sig) \<Rightarrow> (map BAttest ops, Some (signed_record digest sig))))))
           in case ib_attestations obj of
                Some prev \<Rightarrow>
                  if ac_subject prev = digest \<and> ac_signature prev \<noteq> [] then ([], Some prev) else again
              | None \<Rightarrow> again))"

definition build_record_export :: "('z) builder_scheme \<Rightarrow> ref_export_status option \<Rightarrow> unit build_act" where
  "build_record_export env written = on_object (\<lambda>obj.
     seq (perform (map_effects BExport (record_export (bn_cms env) (build_key obj) (ib_ref_export obj) written))) (\<lambda>_.
     edit (\<lambda>o'. o'\<lparr>ib_ref_export := written\<rparr>)))"

definition build_export :: "('z) builder_scheme \<Rightarrow> unit build_act" where
  "build_export env = on_object (\<lambda>obj.
     let spec = get_write_ref_to (xs_push (ib_spec obj)) in
     case ib_artifact obj of
       None \<Rightarrow> ret ()
     | Some a \<Rightarrow>
         if spec = None then ret ()
         else
           seq (perform (map_effects BExport (export_ref (bn_cms env) (bn_kind env) (build_key obj) spec
             (bn_export env) (ar_digest a) (ar_ref a)))) (\<lambda>written.
           build_record_export env written))"

subsection \<open>The Job's state becomes the object's\<close>

definition note_first_failure :: "string \<Rightarrow> int \<Rightarrow> image_build \<Rightarrow> image_build" where
  "note_first_failure msg now obj =
     on_attempt (\<lambda>la. la\<lparr>la_finished := Some now, la_message := msg\<rparr>)
       (obj\<lparr>ib_build_ref := None, ib_failures := ib_failures obj + 1\<rparr>)"

definition observe_failed :: "('z) builder_scheme \<Rightarrow> batch_job \<Rightarrow> requeue build_act" where
  "observe_failed env job = on_object (\<lambda>obj.
     if ib_build_ref obj \<noteq> None then
       seq (edit (note_first_failure (job_failure_detail env job) (bn_now env))) (\<lambda>_.
       answer (Inl (Msg (''build failed: '' @ job_failure_detail env job))))
     else if retry_due (bn_now env) obj then
       seq (perform (map_run_err (Wrap ''deleting the failed job'')
         (attempt (BDeleteJob (bj_name job)) (ignore_not_found (bn_job_delete env (bj_name job)))))) (\<lambda>_.
       answer (Inl (Msg (''build failed: '' @ stored_failure_message obj job))))
     else answer (Inl (Msg (''build failed: '' @ stored_failure_message obj job))))"

definition observe_succeeded ::
    "('z) builder_scheme \<Rightarrow> batch_job \<Rightarrow> build_inputs \<Rightarrow> string \<Rightarrow> requeue build_act" where
  "observe_succeeded env job inputs ih = on_object (\<lambda>obj0.
     seq (read_result_digest env job) (\<lambda>digest.
     seq (on_object (\<lambda>obj. perform (apply_tags env obj digest))) (\<lambda>conflict.
     if conflict \<noteq> None then
       seq (record_kept conflict) (\<lambda>_. ret (RequeueAfter (interval (xs_interval (ib_spec obj0)))))
     else
       seq (edit (record_success env inputs ih digest)) (\<lambda>_.
       seq (on_object (\<lambda>obj.
         seq (perform (fst (sign_build env obj digest), Inr ())) (\<lambda>_.
         edit (\<lambda>o'. o'\<lparr>ib_attestations := snd (sign_build env obj digest)\<rparr>)))) (\<lambda>_.
       seq (on_object (\<lambda>obj. if bn_refreshes env then perform (emit (BRefresh (ib_artifact obj))) else ret ())) (\<lambda>_.
       seq (build_export env) (\<lambda>_.
       ret (RequeueAfter (interval (xs_interval (ib_spec obj0)))))))))))"

definition observe_job ::
    "('z) builder_scheme \<Rightarrow> batch_job \<Rightarrow> build_inputs \<Rightarrow> string \<Rightarrow> requeue build_act" where
  "observe_job env job inputs ih =
     (if job_succeeded job then observe_succeeded env job inputs ih
      else if job_failed job then observe_failed env job
      else
        seq (edit (\<lambda>o'. o'\<lparr>ib_build_ref := Some (bj_name job)\<rparr>)) (\<lambda>_.
        ret (RequeueAfter (poll_interval (bn_poll env)))))"

subsection \<open>The pass\<close>

text \<open>
  A patch of the finalizers, after which the object in memory is what the server's answer makes of it.
  \<open>Some\<close> ends the pass.
\<close>

definition patch_finalizers :: "('z) builder_scheme \<Rightarrow> string list \<Rightarrow> unit build_act" where
  "patch_finalizers env fs =
     seq (edit (\<lambda>o'. o'\<lparr>ib_finalizers := fs\<rparr>)) (\<lambda>_.
     seq (perform (attempt (BPatch fs) (bn_patch env fs))) (\<lambda>_.
     edit (bn_echo env)))"

definition with_finalizer :: "string list \<Rightarrow> string list" where
  "with_finalizer fs = (if finalizer \<in> set fs then fs else fs @ [finalizer])"

definition without_finalizer :: "string list \<Rightarrow> string list" where
  "without_finalizer fs = removeAll finalizer fs"

definition wants_finalizer :: "image_build \<Rightarrow> bool" where
  "wants_finalizer obj =
     (case get_write_ref_to (xs_push (ib_spec obj)) of
        None \<Rightarrow> False | Some exp \<Rightarrow> rx_namespace exp \<noteq> ib_namespace obj)"

definition finalize_build :: "('z) builder_scheme \<Rightarrow> requeue option build_act" where
  "finalize_build env = on_object (\<lambda>obj.
     if finalizer \<notin> set (ib_finalizers obj) then ret (Some NoRequeue)
     else
       seq (case delete_exported_ref (bn_cms env) (build_key obj) (ib_ref_export obj) of
           (ops, None) \<Rightarrow> perform (map BExport ops, Inr ())
         | (ops, Some e) \<Rightarrow> perform (map BExport ops, Inl e)) (\<lambda>_.
       seq (edit (\<lambda>o'. o'\<lparr>ib_finalizers := without_finalizer (ib_finalizers obj)\<rparr>)) (\<lambda>_.
       seq (perform (attempt (BPatch (without_finalizer (ib_finalizers obj)))
         (ignore_not_found (bn_patch env (without_finalizer (ib_finalizers obj)))))) (\<lambda>_.
       seq (if bn_patch env (without_finalizer (ib_finalizers obj)) = None then edit (bn_echo env) else ret ()) (\<lambda>_.
       ret (Some NoRequeue))))))"

definition reconcile_export_lifecycle :: "('z) builder_scheme \<Rightarrow> requeue option build_act" where
  "reconcile_export_lifecycle env = on_object (\<lambda>obj.
     if ib_deleting obj then finalize_build env
     else
       seq (if get_write_ref_to (xs_push (ib_spec obj)) = None \<and> ib_ref_export obj \<noteq> None
            then build_record_export env None else ret ()) (\<lambda>_.
       if wants_finalizer obj = (finalizer \<in> set (ib_finalizers obj)) then ret None
       else (\<lambda>s. case patch_finalizers env
               (if wants_finalizer obj then with_finalizer (ib_finalizers obj)
                else without_finalizer (ib_finalizers obj)) s of
             (es, s', Inl e) \<Rightarrow> (es, s', Inl (Wrap ''updating finalizer'' e))
           | (es, s', Inr u) \<Rightarrow> (es, s', Inr None))))"

definition lifecycle_step :: "('z) builder_scheme \<Rightarrow> requeue option build_act" where
  "lifecycle_step env = on_object (\<lambda>obj.
     if ib_deleting obj \<or> get_write_ref_to (xs_push (ib_spec obj)) \<noteq> None \<or> ib_ref_export obj \<noteq> None
     then reconcile_export_lifecycle env else ret None)"

definition lost_text :: "image_build \<Rightarrow> string" where
  "lost_text obj = own_digest obj @ '' is no longer in the registry; rebuilding''"

definition run_job ::
    "('z) builder_scheme \<Rightarrow> build_inputs \<Rightarrow> string \<Rightarrow> string \<Rightarrow> requeue build_act" where
  "run_job env inputs ih context_url = on_object (\<lambda>obj.
     seq (answer (current_job env obj ih)) (\<lambda>found.
     case found of
       Some job \<Rightarrow> observe_job env job inputs ih
     | None \<Rightarrow>
         seq (answer (check_tag_conflict env obj)) (\<lambda>stop.
         if stop \<noteq> None then
           seq (record_kept stop) (\<lambda>_. ret (RequeueAfter (interval (xs_interval (ib_spec obj)))))
         else
           seq (start_build env inputs ih context_url) (\<lambda>_.
           ret (RequeueAfter (poll_interval (bn_poll env)))))))"

definition converge ::
    "('z) builder_scheme \<Rightarrow> build_inputs \<Rightarrow> string \<Rightarrow> string \<Rightarrow> requeue build_act" where
  "converge env inputs ih context_url = on_object (\<lambda>obj.
     if ib_artifact obj \<noteq> None \<and> ib_input_hash obj = ih then
       (if still_published env obj then
          seq (build_export env) (\<lambda>_. ret (RequeueAfter (interval (xs_interval (ib_spec obj)))))
        else
          seq (emit_event True reason_artifact_lost (lost_text obj)) (\<lambda>_. run_job env inputs ih context_url))
     else run_job env inputs ih context_url)"

definition reconcile_build :: "('z) builder_scheme \<Rightarrow> requeue build_act" where
  "reconcile_build env =
     seq (lifecycle_step env) (\<lambda>ended.
     case ended of
       Some r \<Rightarrow> ret r
     | None \<Rightarrow> on_object (\<lambda>obj.
         seq (answer (resolve_build_inputs env obj)) (\<lambda>(inputs, context_url).
         converge env inputs (build_hash (bn_sha256 env) inputs) context_url)))"

definition ready_message :: "image_build \<Rightarrow> string" where
  "ready_message obj =
     (case ib_conflict obj of
        Some c \<Rightarrow> ''kept '' @ tc_tag c @ '' at '' @ tc_existing c @ ''; no build was run (onConflict: Keep)''
      | None \<Rightarrow> (case ib_artifact obj of None \<Rightarrow> ''reconciled'' | Some a \<Rightarrow> ''built '' @ ar_ref a))"

definition apply_outcome :: "error option \<Rightarrow> image_build \<Rightarrow> image_build" where
  "apply_outcome err obj =
     (case err of
        None \<Rightarrow>
          (case ib_build_ref obj of
             Some job \<Rightarrow> set_progressing (''building '' @ job) (ib_artifact obj) obj
           | None \<Rightarrow>
               remove_condition reconciling_condition (remove_condition stalled_condition
                 (set_condition ready_condition CTrue reason_succeeded (ready_message obj) obj)))
      | Some e \<Rightarrow>
          if is_terminal e then
            remove_condition reconciling_condition
              (set_condition stalled_condition CTrue reason_invalid_spec (err_text e)
                (set_condition ready_condition CFalse reason_invalid_spec (err_text e) obj))
          else if is_pending e then
            remove_condition stalled_condition
              (set_condition reconciling_condition CTrue reason_dependency_not_ready (err_text e)
                (set_condition ready_condition CFalse reason_dependency_not_ready (err_text e) obj))
          else
            remove_condition stalled_condition
              (set_condition reconciling_condition CTrue reason_build_failed (err_text e)
                (set_condition ready_condition CFalse reason_build_failed (err_text e) obj)))"

definition suspended_build :: "image_build \<Rightarrow> image_build" where
  "suspended_build obj =
     (remove_condition reconciling_condition
       (set_condition ready_condition CFalse reason_suspended ''Reconciliation is suspended'' obj))
     \<lparr>ib_observed := co_generation obj\<rparr>"

definition handled :: "image_build \<Rightarrow> image_build" where
  "handled obj = obj\<lparr>ib_observed := co_generation obj, ib_handled := ib_requested obj\<rparr>"

text \<open>The status write: what is stored when the server takes it.\<close>

definition write_build_status :: "('z) builder_scheme \<Rightarrow> image_build \<Rightarrow> (build_effect, unit) run" where
  "write_build_status env obj =
     (case bn_status env of
        PatchOK \<Rightarrow> emit (BStatus obj)
      | PatchGone \<Rightarrow> lift (Inr ())
      | PatchFailed e \<Rightarrow> lift (Inl e))"

definition error_of :: "'a res \<Rightarrow> error option" where
  "error_of r = (case r of Inl e \<Rightarrow> Some e | Inr x \<Rightarrow> None)"

definition requeue_build :: "image_build \<Rightarrow> requeue res \<Rightarrow> (build_effect, requeue) run" where
  "requeue_build obj r =
     (case r of
        Inr q \<Rightarrow> lift (Inr q)
      | Inl e \<Rightarrow>
          if is_terminal e then
            and_then (emit (BEmit (mk_event True reason_invalid_spec (err_text e)))) (\<lambda>_. lift (Inr NoRequeue))
          else if is_pending e then lift (Inr (RequeueAfter pending_retry_interval))
          else
            and_then (emit (BEmit (mk_event True reason_build_failed (err_text e)))) (\<lambda>_.
            lift (Inr (RequeueAfter (failure_backoff (ib_failures obj))))))"

definition build_pass :: "('z) builder_scheme \<Rightarrow> image_build \<Rightarrow> (build_effect, requeue) run" where
  "build_pass env pristine =
     (let (es0, obj, r0) = (if ib_deleting pristine then ret () else build_backfill env) pristine in
      if xs_suspend (ib_spec obj) \<and> \<not> ib_deleting obj then
        and_then (es0, Inr ()) (\<lambda>_.
        and_then (write_build_status env (suspended_build obj)) (\<lambda>_. lift (Inr NoRequeue)))
      else (case reconcile_build env obj of
          (es, obj', r) \<Rightarrow>
            (let stored = apply_outcome (error_of r) (handled obj') in
             and_then (es0 @ es, Inr ()) (\<lambda>_.
             and_then (map_run_err (Wrap ''patching status'') (write_build_status env stored)) (\<lambda>_.
             requeue_build stored r)))))"

text \<open>A request: an object that is gone is done with.\<close>

definition build_request :: "('z) builder_scheme \<Rightarrow> image_build lookup \<Rightarrow> (build_effect, requeue) run" where
  "build_request env found =
     (case found of
        Missing \<Rightarrow> lift (Inr NoRequeue)
      | ReadFailed e \<Rightarrow> lift (Inl e)
      | Found obj \<Rightarrow> build_pass env obj)"

definition builds_for_config_map :: "image_build list res \<Rightarrow> string \<Rightarrow> string \<Rightarrow> (string \<times> string) list" where
  "builds_for_config_map items ns name =
     (case items of
        Inl e \<Rightarrow> []
      | Inr os \<Rightarrow> map (\<lambda>o'. (ib_namespace o', ib_name o'))
          (filter (\<lambda>o'. ib_namespace o' = ns \<and>
             (case xs_dockerfile (ib_spec o') of
                None \<Rightarrow> False
              | Some d \<Rightarrow> (case df_config_map d of None \<Rightarrow> False | Some r \<Rightarrow> ck_name r = name))) os))"

subsection \<open>The context endpoint\<close>

datatype proxy_answer = Refused nat string | Stream string

text \<open>
  \<^verbatim>\<open>contextproxy.go\<close>: the token is looked up under the name of the Job the hash belongs to; the
  URL streamed comes from the object's own source.
\<close>

definition authorised :: "(string \<Rightarrow> string \<Rightarrow> (string \<rightharpoonup> string) lookup) \<Rightarrow> image_build \<Rightarrow> string \<Rightarrow> string \<Rightarrow> bool" where
  "authorised secrets obj hash header =
     (if length header \<le> length ''Bearer '' \<or> \<not> has_prefix header ''Bearer '' then False
      else (case secrets (ib_namespace obj) (context_secret_name (job_name (ib_name obj) hash)) of
          Found data \<Rightarrow>
            (case data ''token'' of
               None \<Rightarrow> False
             | Some want \<Rightarrow> want \<noteq> [] \<and> drop (length ''Bearer '') header = want)
        | Missing \<Rightarrow> False
        | ReadFailed e \<Rightarrow> False))"

definition serve_context ::
    "('z) build_reader_scheme \<Rightarrow> (string \<Rightarrow> string \<Rightarrow> (string \<rightharpoonup> string) lookup) \<Rightarrow>
     (string \<Rightarrow> string \<Rightarrow> image_build lookup) \<Rightarrow> string \<Rightarrow> string \<Rightarrow> string \<Rightarrow> string \<Rightarrow> proxy_answer" where
  "serve_context env secrets get ns name hash header =
     (case get ns name of
        Missing \<Rightarrow> Refused 404 ''not found''
      | ReadFailed e \<Rightarrow> Refused 404 ''not found''
      | Found obj \<Rightarrow>
          if \<not> authorised secrets obj hash header then Refused 403 ''forbidden''
          else (case get_source_ref (xs_context (ib_spec obj)) of
              None \<Rightarrow> Refused 400 ''this build has no sourceRef context''
            | Some ref \<Rightarrow>
                if sr_namespace ref \<noteq> [] \<and> sr_namespace ref \<noteq> ib_namespace obj
                then Refused 403 ''cross-namespace source''
                else (case flux_source (bn_flux env (sr_kind ref) (ib_namespace obj) (sr_name ref))
                        (flux_ref (sr_kind ref) (ib_namespace obj) (sr_name ref)) of
                    Inl e \<Rightarrow> Refused 503 ''the source is not ready''
                  | Inr art \<Rightarrow> Stream (fa_url art))))"

end
