(* ===== verification/Build_Job_Theorems.thy ===== *)
theory Build_Job_Theorems
  imports Build_Job
begin

section \<open>What a rendered Job guarantees\<close>

text \<open>
  Names that fit and tell builds apart, what each container of the pod can see, and that the
  Dockerfile the controller checked is the one \<^verbatim>\<open>buildctl\<close> is pointed at.
\<close>

subsection \<open>Names\<close>

lemma short_hash_length: "length (short_hash h) \<le> 12"
  by (simp add: short_hash_def Let_def)

lemma short_hash_long: "12 \<le> length (trim_prefix h ''sha256:'') \<Longrightarrow> length (short_hash h) = 12"
  by (simp add: short_hash_def Let_def)

lemma job_name_suffix:
  "\<exists>p. job_name n h = p @ short_hash h"
proof -
  have "length (n @ ''-'' @ short_hash h) - 63 \<le> length (n @ ''-'')"
    using short_hash_length[of h] by simp
  then have "drop (length (n @ ''-'' @ short_hash h) - 63) (n @ ''-'' @ short_hash h) =
      drop (length (n @ ''-'' @ short_hash h) - 63) (n @ ''-'') @ short_hash h"
    using short_hash_length[of h] by simp
  then show ?thesis unfolding job_name_def Let_def by (metis append.assoc)
qed

text \<open>
  Property C36. A Job's name fits the 63 bytes a label value may have, and names the inputs: two
  builds of one object share a Job, and so a context token, only when their hashes agree on the
  leading twelve digits. The name never depends on anything but the object's name and the hash.
\<close>

theorem job_name_identifies:
  assumes "12 \<le> length (trim_prefix h ''sha256:'')" "12 \<le> length (trim_prefix k ''sha256:'')"
  shows "length (job_name n h) \<le> 63 \<and>
    (job_name n h = job_name n k \<longleftrightarrow> short_hash h = short_hash k) \<and>
    (context_secret_name (job_name n h) = context_secret_name (job_name m k) \<longrightarrow>
      short_hash h = short_hash k)"
proof -
  have fits: "length (job_name n h) \<le> 63"
    using short_hash_length[of h] by (simp add: job_name_def Let_def)
  have same: "short_hash h = short_hash k" if "job_name n h = job_name m k" for m
  proof -
    from job_name_suffix[of n h] job_name_suffix[of m k] that
    obtain p q where "p @ short_hash h = q @ short_hash k" by metis
    moreover have "length (short_hash h) = length (short_hash k)"
      using assms by (simp add: short_hash_long)
    ultimately show ?thesis by simp
  qed
  have "job_name n h = job_name n k" if "short_hash h = short_hash k"
    using that by (simp add: job_name_def)
  with fits same show ?thesis by (auto simp: context_secret_name_def)
qed

theorem job_name_identifies_witness:
  "length (job_name (replicate 70 (CHR ''a'')) ''sha256:0123456789abcdef'') \<le> 63 \<and>
   job_name ''app'' ''sha256:0123456789abcdef'' \<noteq> job_name ''app'' ''sha256:1123456789abcdef''"
proof -
  have a: "12 \<le> length (trim_prefix ''sha256:0123456789abcdef'' ''sha256:'')"
    "12 \<le> length (trim_prefix ''sha256:1123456789abcdef'' ''sha256:'')" by code_simp+
  have b: "short_hash ''sha256:0123456789abcdef'' \<noteq> short_hash ''sha256:1123456789abcdef''" by code_simp
  show ?thesis
    using job_name_identifies[OF a, of "replicate 70 (CHR ''a'')" "[]"]
      job_name_identifies[OF a, of "''app''" "[]"] b by blast
qed

subsection \<open>What a pod's containers see\<close>

definition confined :: "container \<Rightarrow> bool" where
  "confined c \<longleftrightarrow>
     \<not> se_privileged (ct_security c) \<and> se_non_root (ct_security c) \<and> se_user (ct_security c) \<noteq> 0 \<and>
     se_drop (ct_security c) = [''ALL''] \<and> set (se_add (ct_security c)) \<subseteq> {''SETUID'', ''SETGID''}"

definition mounts_named :: "container \<Rightarrow> string set" where
  "mounts_named c = set (map mo_name (ct_mounts c))"

lemma build_job_Some:
  "build_job obj h url dig cfg repo ps ca ds cs av = Some j \<Longrightarrow>
   \<exists>inits. init_containers obj h url dig cfg cs = Some inits \<and>
     jb_init j = inits \<and>
     jb_containers j = [build_container obj cfg repo ps ca
       (snd (build_volumes (ib_spec obj) ps ds) @ snd (registry_ca_volumes ca)) av] \<and>
     jb_volumes j = fst (build_volumes (ib_spec obj) ps ds) @ fst (registry_ca_volumes ca) @
       (if cs = [] then [] else [fst (token_projection cs)]) \<and>
     jb_service_account j = xs_service_account (ib_spec obj) \<and>
     jb_automount j = automount (xs_service_account (ib_spec obj))"
  by (auto simp: build_job_def Let_def split: option.splits)

lemma init_containers_Some:
  "init_containers obj h url dig cfg cs = Some inits \<Longrightarrow> c \<in> set inits \<Longrightarrow>
   \<exists>args. c = fetch_container obj cfg cs args \<and> xs_context (ib_spec obj) \<noteq> None"
  by (auto simp: init_containers_def split: option.splits if_splits)

lemma volume_names:
  "map vo_name (fst (build_volumes spec ps ds)) = map mo_name (snd (build_volumes spec ps ds))"
  "map vo_name (fst (registry_ca_volumes ca)) = map mo_name (snd (registry_ca_volumes ca))"
  by (auto simp: build_volumes_def registry_ca_volumes_def add_volume_def secret_volume_of_def)

lemma build_mount_names:
  "map mo_name (snd (build_volumes spec ps ds)) =
     [context_volume, result_volume] @ (if projected_dockerfile spec then [dockerfile_volume] else []) @
     (if ps = [] then [] else [docker_volume]) @
     map (\<lambda>s. secret_volume_name (bx_secret s)) (xs_secrets spec)"
  "map mo_name (snd (registry_ca_volumes ca)) = (if ca = [] then [] else [ca_volume, bundle_volume])"
  by (auto simp: build_volumes_def registry_ca_volumes_def add_volume_def secret_volume_of_def)

lemma fetch_mount_names:
  "map mo_name (fetch_mounts cs) = context_volume # (if cs = [] then [] else [token_volume])"
  by (simp add: fetch_mounts_def token_projection_def)

lemma fixed_volume_names:
  "distinct [context_volume, result_volume, dockerfile_volume, docker_volume, ca_volume, bundle_volume,
     token_volume]"
  by code_simp

lemma secret_volume_free:
  "secret_volume_name n \<notin> {context_volume, result_volume, dockerfile_volume, docker_volume,
     ca_volume, bundle_volume, token_volume}"
proof -
  have f: "list_all (\<lambda>x. take 3 x \<noteq> take 3 secret_volume) [context_volume, result_volume, dockerfile_volume,
      docker_volume, ca_volume, bundle_volume, token_volume]" by code_simp
  have "length secret_volume = 13" by code_simp
  then have s: "take 3 (secret_volume_name n) = take 3 secret_volume" by (simp add: secret_volume_name_def)
  have "x \<noteq> secret_volume_name n" if "x \<in> set [context_volume, result_volume, dockerfile_volume,
      docker_volume, ca_volume, bundle_volume, token_volume]" for x
    using f s that unfolding list_all_iff by metis
  then show ?thesis by auto
qed

lemma secret_volume_neq [simp]:
  "context_volume \<noteq> secret_volume_name n"
  "result_volume \<noteq> secret_volume_name n"
  "dockerfile_volume \<noteq> secret_volume_name n"
  "docker_volume \<noteq> secret_volume_name n"
  "ca_volume \<noteq> secret_volume_name n"
  "bundle_volume \<noteq> secret_volume_name n"
  "token_volume \<noteq> secret_volume_name n"
  using secret_volume_free[of n] by (simp_all add: eq_commute[of _ "secret_volume_name n"])

text \<open>
  Property C17. Every container of a build pod is unprivileged, not root and holds only the two
  capabilities rootless BuildKit needs; the context token is mounted in the fetcher only, never where
  a build instruction could read it, and no credential, build secret or CA is mounted in the fetcher;
  every mount names a volume the pod has; and an API token is withheld unless the spec names an account.
\<close>

theorem build_pod_confined:
  assumes "build_job obj h url dig cfg repo ps ca ds cs av = Some j"
  shows "(\<forall>c \<in> set (jb_init j @ jb_containers j). confined c \<and>
      mounts_named c \<subseteq> set (map vo_name (jb_volumes j))) \<and>
    (\<forall>c \<in> set (jb_containers j). token_volume \<notin> mounts_named c) \<and>
    (\<forall>c \<in> set (jb_init j). mounts_named c \<subseteq> {context_volume, token_volume}) \<and>
    (jb_automount j = Some False \<longleftrightarrow> jb_service_account j = [])"
proof -
  from build_job_Some[OF assms] obtain inits
    where i: "init_containers obj h url dig cfg cs = Some inits" "jb_init j = inits"
      and c: "jb_containers j = [build_container obj cfg repo ps ca
          (snd (build_volumes (ib_spec obj) ps ds) @ snd (registry_ca_volumes ca)) av]"
      and v: "jb_volumes j = fst (build_volumes (ib_spec obj) ps ds) @ fst (registry_ca_volumes ca) @
          (if cs = [] then [] else [fst (token_projection cs)])"
      and a: "jb_service_account j = xs_service_account (ib_spec obj)"
        "jb_automount j = automount (xs_service_account (ib_spec obj))" by blast
  have vols: "map vo_name (jb_volumes j) =
      map mo_name (snd (build_volumes (ib_spec obj) ps ds)) @ map mo_name (snd (registry_ca_volumes ca)) @
      (if cs = [] then [] else [token_volume])"
    by (simp add: v volume_names token_projection_def)
  have build: "mounts_named x = set (map mo_name (snd (build_volumes (ib_spec obj) ps ds))) \<union>
      set (map mo_name (snd (registry_ca_volumes ca)))" "confined x" if "x \<in> set (jb_containers j)" for x
    using that unfolding c mounts_named_def
    by (auto simp: build_container_def confined_def rootless_security_context_def)
  have fetch: "mounts_named x = set (context_volume # (if cs = [] then [] else [token_volume]))" "confined x"
    if "x \<in> set (jb_init j)" for x
  proof -
    obtain args where x: "x = fetch_container obj cfg cs args"
      using init_containers_Some[OF i(1)] \<open>x \<in> set (jb_init j)\<close> i(2) by blast
    show "mounts_named x = set (context_volume # (if cs = [] then [] else [token_volume]))"
      unfolding x mounts_named_def by (simp only: fetch_container_def container.select_convs fetch_mount_names)
    show "confined x" by (simp add: x fetch_container_def confined_def rootless_security_context_def)
  qed
  have token: "token_volume \<notin> mounts_named x" if "x \<in> set (jb_containers j)" for x
    using fixed_volume_names
    unfolding build(1)[OF that] build_mount_names by (auto split: if_splits)
  have named: "mounts_named x \<subseteq> set (map vo_name (jb_volumes j))"
    if "x \<in> set (jb_init j @ jb_containers j)" for x
    using that build(1) fetch(1) unfolding vols build_mount_names by (auto split: if_splits)
  have "mounts_named x \<subseteq> {context_volume, token_volume}" if "x \<in> set (jb_init j)" for x
    using fetch(1)[OF that] by auto
  moreover have "jb_automount j = Some False \<longleftrightarrow> jb_service_account j = []"
    by (simp add: a automount_def)
  ultimately show ?thesis using token named build(2) fetch(2) by auto
qed

text \<open>A build of a Flux source with an inline Dockerfile and one secret.\<close>

definition sample_source :: source_ref where
  "sample_source =
     \<lparr>sr_kind = ''GitRepository'', sr_name = ''app'', sr_namespace = [], sr_revision = [], sr_subpath = []\<rparr>"

definition sample_spec :: build_spec where
  "sample_spec =
     \<lparr>xs_interval = None, xs_suspend = False,
      xs_context = Some \<lparr>bc_source_ref = Some sample_source, bc_fetch = None, bc_image = None\<rparr>,
      xs_dockerfile = Some \<lparr>df_path = [], df_inline = ''FROM scratch'', df_config_map = None\<rparr>,
      xs_target = [], xs_platforms = [''linux/amd64''], xs_args = [],
      xs_secrets = [\<lparr>bx_id = ''npm'', bx_secret = ''npmrc'', bx_key = []\<rparr>], xs_network = [],
      xs_cache = None, xs_resources = None, xs_timeout = None, xs_service_account = [],
      xs_push = Some \<lparr>ps_repository = ''reg.io/app'', ps_tags = [''v1''], ps_secret_ref = None,
        ps_ref = [], ps_history = None, ps_immutable = None, ps_on_conflict = [], ps_write_ref_to = None\<rparr>\<rparr>"

definition flux_build :: image_build where
  "flux_build =
     \<lparr>co_generation = 1, co_conds = Map.empty, ib_namespace = ''team'', ib_name = ''app'',
      ib_requested = [], ib_finalizers = [], ib_deleting = False, ib_spec = sample_spec,
      ib_observed = 0, ib_input_hash = [], ib_artifact = None, ib_attestations = None,
      ib_history = [], ib_conflict = None, ib_build_ref = None, ib_ref_export = None,
      ib_attempt = None, ib_failures = 0, ib_handled = []\<rparr>"

definition sample_job_config :: job_config where
  "sample_job_config =
     \<lparr>jc_builder = ''buildkit'', jc_frontend = ''frontend'', jc_fetcher = ''fetcher'', jc_sbom = False,
      jc_provenance = False, jc_registry_ca = [], jc_insecure = [], jc_context_base = ''http://proxy:9790/'',
      jc_epoch = ''0''\<rparr>"

definition sample_job :: "job option" where
  "sample_job =
     build_job flux_build ''sha256:0123456789abcdef'' ''http://source/app.tar.gz'' ''sha256:aa''
       sample_job_config ''reg.io/app'' ''app-0123456789ab-push'' ''app-0123456789ab-registry-ca''
       ''app-0123456789ab-dockerfile'' ''app-0123456789ab-context'' False"

lemma sample_job_Some: "sample_job \<noteq> None"
  by code_simp

theorem build_pod_confined_witness:
  "token_volume \<notin> mounts_named (hd (jb_containers (the sample_job))) \<and>
   mounts_named (hd (jb_init (the sample_job))) \<subseteq> {context_volume, token_volume} \<and>
   confined (hd (jb_containers (the sample_job)))"
proof -
  have "sample_job = Some (the sample_job)" using sample_job_Some by simp
  from build_pod_confined[OF this[unfolded sample_job_def], folded sample_job_def]
  have t: "\<forall>c \<in> set (jb_containers (the sample_job)). token_volume \<notin> mounts_named c"
    and i: "\<forall>c \<in> set (jb_init (the sample_job)). mounts_named c \<subseteq> {context_volume, token_volume}"
    and c: "\<forall>c \<in> set (jb_init (the sample_job) @ jb_containers (the sample_job)). confined c" by blast+
  have "jb_containers (the sample_job) \<noteq> []" "jb_init (the sample_job) \<noteq> []" by code_simp+
  then have "hd (jb_containers (the sample_job)) \<in> set (jb_containers (the sample_job))"
    "hd (jb_init (the sample_job)) \<in> set (jb_init (the sample_job))" by simp_all
  with t i c show ?thesis by auto
qed

subsection \<open>Volumes\<close>

lemma fixed_names_distinct:
  "distinct ([context_volume, result_volume] @ (if p then [dockerfile_volume] else []) @
     (if q then [] else [docker_volume]) @ map (\<lambda>s. secret_volume_name (bx_secret s)) secrets @
     (if r then [] else [ca_volume, bundle_volume]) @ (if t then [] else [token_volume])) \<longleftrightarrow>
   distinct (map (\<lambda>s. secret_volume_name (bx_secret s)) secrets)"
proof -
  define ss where "ss = map (\<lambda>s. secret_volume_name (bx_secret s)) secrets"
  have "set ss \<inter> {context_volume, result_volume, dockerfile_volume, docker_volume, ca_volume, bundle_volume,
      token_volume} = {}"
    unfolding ss_def by auto
  with fixed_volume_names show ?thesis unfolding ss_def[symmetric]
    by (cases p; cases q; cases r; cases t) auto
qed

text \<open>
  The names of a pod's volumes are distinct exactly when the build's secrets come from
  different Secrets: two entries that take two keys of one Secret name its volume, and mount it, twice,
  which the API server refuses.
\<close>

theorem volumes_distinct:
  assumes "build_job obj h url dig cfg repo ps ca ds cs av = Some j"
  shows "distinct (map vo_name (jb_volumes j)) \<longleftrightarrow> distinct (map bx_secret (xs_secrets (ib_spec obj)))"
proof -
  let ?secrets = "map (\<lambda>s. secret_volume_name (bx_secret s)) (xs_secrets (ib_spec obj))"
  from build_job_Some[OF assms]
  have vols: "map vo_name (jb_volumes j) =
      map mo_name (snd (build_volumes (ib_spec obj) ps ds)) @ map mo_name (snd (registry_ca_volumes ca)) @
      (if cs = [] then [] else [token_volume])"
    by (auto simp: volume_names token_projection_def)
  have "?secrets = map secret_volume_name (map bx_secret (xs_secrets (ib_spec obj)))" by simp
  moreover have "inj secret_volume_name" by (simp add: inj_def secret_volume_name_def)
  ultimately have s: "distinct ?secrets \<longleftrightarrow> distinct (map bx_secret (xs_secrets (ib_spec obj)))"
    by (metis distinct_map inj_on_subset subset_UNIV)
  show ?thesis unfolding vols build_mount_names append_assoc s[symmetric] by (rule fixed_names_distinct)
qed

theorem volumes_distinct_witness:
  "distinct (map vo_name (jb_volumes (the sample_job)))"
proof -
  have "sample_job = Some (the sample_job)" using sample_job_Some by simp
  from volumes_distinct[OF this[unfolded sample_job_def], folded sample_job_def]
  show ?thesis by (simp add: flux_build_def sample_spec_def)
qed

subsection \<open>One Dockerfile\<close>

lemma context_path_comps: "context_path = slash # join [slash] [''workspace'']"
  by code_simp

lemma workspace_plain: "list_all plain [''workspace'']"
  by code_simp

lemma dockerfile_local_path:
  assumes "\<not> projected_dockerfile spec"
    and "effective_dockerfile (xs_dockerfile spec) = join [slash] (cs @ [c])" "list_all plain cs" "plain c"
  shows "path_join (fst (dockerfile_local spec)) (snd (dockerfile_local spec)) =
    path_join context_path (effective_dockerfile (xs_dockerfile spec))"
proof -
  have whole: "path_join context_path (join [slash] (cs @ [c])) = slash # join [slash] ([''workspace''] @ cs @ [c])"
    unfolding context_path_comps by (rule path_join_rooted_plain[OF workspace_plain]) (use assms in simp_all)
  have dir: "path_join context_path (if cs = [] then ''.'' else join [slash] cs) =
      slash # join [slash] ([''workspace''] @ cs)"
  proof (cases "cs = []")
    case True
    moreover have "path_join context_path ''.'' = slash # join [slash] [''workspace'']" by code_simp
    ultimately show ?thesis by simp
  next
    case False
    with path_join_rooted_plain[OF workspace_plain assms(3) False] show ?thesis
      by (simp only: context_path_comps if_False)
  qed
  have "path_join (slash # join [slash] ([''workspace''] @ cs)) (join [slash] [c]) =
      slash # join [slash] (([''workspace''] @ cs) @ [c])"
    by (rule path_join_rooted_plain) (use assms workspace_plain in simp_all)
  then show ?thesis
    using assms(1) by (simp only: dockerfile_local_def if_False fst_conv snd_conv assms(2) whole dir
        path_dir_join[OF assms(3,4)] path_base_join[OF assms(3,4)] join.simps append_assoc)
qed

lemma fetch_args_fields:
  assumes "fetch_context_args obj cfg h url dig = Some args"
  shows "args ! 3 = ''--digest='' @ dig \<and>
    args ! 2 = (if get_source_ref (xs_context (ib_spec obj)) \<noteq> None \<and> jc_context_base cfg \<noteq> []
      then ''--url='' @ trim_suffix (jc_context_base cfg) ''/'' @ ''/contexts/'' @ ib_namespace obj @ ''/'' @
        ib_name obj @ ''/'' @ h
      else ''--url='' @ url) \<and>
    (\<not> projected_dockerfile (ib_spec obj) \<longrightarrow>
      args ! 4 = ''--dockerfile='' @ effective_dockerfile (xs_dockerfile (ib_spec obj)))"
  using assms unfolding fetch_context_args_def Let_def
  by (auto simp: nth_append numeral_2_eq_2 numeral_3_eq_3 eval_nat_numeral split: option.splits if_splits)

text \<open>
  The Dockerfile \<^verbatim>\<open>buildctl\<close> reads is the one that was checked. One kept in the
  context is named relative to the tree, and the fetcher is told to check that same file; any other is
  mounted, read-only and from the Secret holding the checked bytes, exactly where \<^verbatim>\<open>buildctl\<close> looks.
  The fetcher is told the digest the inputs were hashed with, and a Flux source is asked for through
  the controller's own endpoint, under the object's name and input hash, when one is configured.
\<close>

theorem one_dockerfile:
  assumes args: "fetch_context_args obj cfg h url dig = Some args" and spec: "spec = ib_spec obj"
    and path: "effective_dockerfile (xs_dockerfile spec) = join [slash] (cs @ [c])" "list_all plain cs" "plain c"
  shows "(\<not> projected_dockerfile spec \<longrightarrow>
      args ! 4 = ''--dockerfile='' @ effective_dockerfile (xs_dockerfile spec) \<and>
      path_join (fst (dockerfile_local spec)) (snd (dockerfile_local spec)) =
        path_join context_path (effective_dockerfile (xs_dockerfile spec))) \<and>
    (projected_dockerfile spec \<longrightarrow>
      (\<exists>m \<in> set (snd (build_volumes spec ps ds)). mo_name m = dockerfile_volume \<and> mo_read_only m \<and>
        mo_path m = path_join (fst (dockerfile_local spec)) (snd (dockerfile_local spec))) \<and>
      (\<exists>v \<in> set (fst (build_volumes spec ps ds)). vo_name v = dockerfile_volume \<and>
        vo_source v = SecretVolume ds [(dockerfile_key, snd (dockerfile_local spec))])) \<and>
    args ! 3 = ''--digest='' @ dig \<and>
    (get_source_ref (xs_context spec) \<noteq> None \<and> jc_context_base cfg \<noteq> [] \<longrightarrow>
      args ! 2 = ''--url='' @ trim_suffix (jc_context_base cfg) ''/'' @ ''/contexts/'' @ ib_namespace obj @
        ''/'' @ ib_name obj @ ''/'' @ h)"
proof -
  have "path_join (fst (dockerfile_local spec)) (snd (dockerfile_local spec)) =
      path_join context_path (effective_dockerfile (xs_dockerfile spec))" if "\<not> projected_dockerfile spec"
    using dockerfile_local_path[OF that path] .
  moreover have "(\<exists>m \<in> set (snd (build_volumes spec ps ds)). mo_name m = dockerfile_volume \<and> mo_read_only m \<and>
        mo_path m = path_join (fst (dockerfile_local spec)) (snd (dockerfile_local spec))) \<and>
      (\<exists>v \<in> set (fst (build_volumes spec ps ds)). vo_name v = dockerfile_volume \<and>
        vo_source v = SecretVolume ds [(dockerfile_key, snd (dockerfile_local spec))])" if "projected_dockerfile spec"
    using that by (simp add: build_volumes_def dockerfile_local_def)
  moreover have "args ! 4 = ''--dockerfile='' @ effective_dockerfile (xs_dockerfile spec)"
    if "\<not> projected_dockerfile spec"
    using fetch_args_fields[OF args] that unfolding spec[symmetric] by (elim conjE) (rule mp)
  moreover have "args ! 3 = ''--digest='' @ dig"
    using fetch_args_fields[OF args] by (rule conjunct1)
  moreover have "args ! 2 = ''--url='' @ trim_suffix (jc_context_base cfg) ''/'' @ ''/contexts/'' @ ib_namespace obj @
        ''/'' @ ib_name obj @ ''/'' @ h"
    if "get_source_ref (xs_context spec) \<noteq> None \<and> jc_context_base cfg \<noteq> []"
    using fetch_args_fields[OF args] that unfolding spec[symmetric] by (elim conjE) (simp only: if_True simp_thms)
  ultimately show ?thesis by blast
qed

definition sample_path_build :: image_build where
  "sample_path_build =
     flux_build\<lparr>ib_spec := sample_spec\<lparr>xs_dockerfile := Some \<lparr>df_path = ''docker/Dockerfile'',
       df_inline = [], df_config_map = None\<rparr>\<rparr>\<rparr>"

theorem one_dockerfile_witness:
  "path_join (fst (dockerfile_local (ib_spec sample_path_build))) (snd (dockerfile_local (ib_spec sample_path_build))) =
     ''/workspace/docker/Dockerfile'' \<and>
   fetch_context_args sample_path_build sample_job_config ''h'' ''u'' ''sha256:aa'' \<noteq> None"
proof -
  have d: "effective_dockerfile (xs_dockerfile (ib_spec sample_path_build)) = join [slash] ([''docker''] @ [''Dockerfile''])"
    by code_simp
  have p: "list_all plain [''docker'']" "plain ''Dockerfile''" by code_simp+
  have s: "fetch_context_args sample_path_build sample_job_config ''h'' ''u'' ''sha256:aa'' \<noteq> None"
    "\<not> projected_dockerfile (ib_spec sample_path_build)" by code_simp+
  then obtain args where "fetch_context_args sample_path_build sample_job_config ''h'' ''u'' ''sha256:aa'' = Some args"
    by blast
  from one_dockerfile[OF this refl d p, of "[]" "[]"] s(2)
  have "path_join (fst (dockerfile_local (ib_spec sample_path_build))) (snd (dockerfile_local (ib_spec sample_path_build))) =
      path_join context_path (effective_dockerfile (xs_dockerfile (ib_spec sample_path_build)))" by blast
  moreover have "path_join context_path (effective_dockerfile (xs_dockerfile (ib_spec sample_path_build))) =
      ''/workspace/docker/Dockerfile''" by code_simp
  ultimately show ?thesis using s(1) by simp
qed

end
