(* ===== verification/Composition_Theorems.thy ===== *)
theory Composition_Theorems
  imports Composition
begin

section \<open>What a pass over a composition does\<close>

text \<open>
  The properties of \<^verbatim>\<open>Composition\<close>: which effects a pass may have, what it publishes and in
  which order, what it never overwrites, and what it leaves in status.
\<close>

subsection \<open>Which steps write\<close>

fun writes_of :: "effect list \<Rightarrow> (string \<times> string) list" where
  "writes_of [] = []"
| "writes_of (EvWrite r d # es) = (r, d) # writes_of es"
| "writes_of (e # es) = writes_of es"

definition quiet :: "effect \<Rightarrow> bool" where
  "quiet e = (case e of EvWrite r d \<Rightarrow> False | _ \<Rightarrow> True)"

lemma quiet_simps [simp]:
  "quiet (EvEmit ev)" "quiet (EvFetch s)" "\<not> quiet (EvWrite r d)" "quiet (EvTag r d)" "quiet (EvAttest x)"
  "quiet (EvExport c)" "quiet (EvRefresh a)" "quiet (EvPatch f)"
  by (simp_all add: quiet_def)

lemma writes_of_append [simp]: "writes_of (es @ fs) = writes_of es @ writes_of fs"
  by (induction es rule: writes_of.induct) simp_all

lemma writes_of_mem: "(r, d) \<in> set (writes_of es) \<longleftrightarrow> EvWrite r d \<in> set es"
  by (induction es rule: writes_of.induct) auto

lemma writes_of_quiet: "list_all quiet es \<Longrightarrow> writes_of es = []"
  by (induction es rule: writes_of.induct) auto

lemma run_quiet: "run_all quiet m \<Longrightarrow> writes_of (fst m) = []"
  by (simp add: run_all_def writes_of_quiet)

lemma quiet_maps [simp]:
  "list_all quiet (map EvEmit evs)" "list_all quiet (map EvAttest ops)" "list_all quiet (map EvExport cms)"
  "list_all quiet (tag_effects ws)"
  by (simp_all add: list_all_iff tag_effects_def)

lemma prepare_emits: "run_all (\<lambda>e. \<exists>ev. e = EvEmit ev) (prepare env obj)"
  unfolding prepare_def Let_def
  by (intro inv_intros) (auto intro!: inv_intros split: prod.splits)

lemma prepare_quiet: "run_all quiet (prepare env obj)"
  by (rule run_all_mono[OF prepare_emits]) auto

lemma write_status_quiet: "run_all quiet (write_status env at f)"
  by (auto simp: write_status_def intro: inv_intros split: patch_answer.splits)

lemma fetch_layer_quiet: "run_all quiet (fetch_layer env ns declared src i)"
  unfolding fetch_layer_def by (auto intro!: inv_intros split: option.splits)

lemma fetch_layers_quiet: "run_all quiet (fetch_layers env ns declared pulls n is)"
  by (induction "is" arbitrary: n) (auto intro!: inv_intros fetch_layer_quiet)

lemma report_progress_quiet: "run_all quiet (report_progress env obj pp)"
  by (simp add: report_progress_def write_status_quiet)

lemma own_tag_quiet: "run_all quiet (own_tag_step env repo digest)"
  by (auto simp: own_tag_step_def split: prod.splits option.splits)

lemma attest_quiet: "list_all quiet (fst (attest_published env spec t digest inputs base))"
  by (auto simp: attest_published_def attestation_failure_def split: sum.splits prod.splits)

lemma publish_ref_writes:
  "writes_of (fst (publish_ref env ref digest)) = (if rg_ref_ok (cn_registry env) ref then [(ref, digest)] else [])"
  "snd (publish_ref env ref digest) = Inr u \<longleftrightarrow> rg_ref_ok (cn_registry env) ref \<and> cn_write env ref = None"
  by (auto simp: publish_ref_def)

lemma publish_refs_writes:
  "\<exists>k \<le> length refs. writes_of (fst (publish_refs env refs digest)) = map (\<lambda>r. (r, digest)) (take k refs) \<and>
     (snd (publish_refs env refs digest) = Inr u \<longrightarrow> k = length refs) \<and>
     (\<forall>r \<in> set (take (k - 1) refs). cn_write env r = None)"
proof (induction refs)
  case (Cons r rs)
  show ?case
  proof (cases "rg_ref_ok (cn_registry env) r \<and> cn_write env r = None")
    case True
    from Cons.IH obtain k where k: "k \<le> length rs"
      "writes_of (fst (publish_refs env rs digest)) = map (\<lambda>r. (r, digest)) (take k rs)"
      "snd (publish_refs env rs digest) = Inr u \<longrightarrow> k = length rs"
      "\<forall>r \<in> set (take (k - 1) rs). cn_write env r = None" by blast
    have ok: "snd (publish_ref env r digest) = Inr ()" using True by (simp add: publish_ref_writes)
    have "\<forall>x \<in> set (take (Suc k - 1) (r # rs)). cn_write env x = None"
      using k(4) True by (cases k) auto
    with True k ok show ?thesis
      by (intro exI[of _ "Suc k"]) (simp add: and_then_step[OF ok] publish_ref_writes(1))
  next
    case False
    then obtain e where e: "snd (publish_ref env r digest) = Inl e"
      using publish_ref_writes(2)[of env r digest "()"] by (cases "snd (publish_ref env r digest)") auto
    then show ?thesis
      using False
      by (intro exI[of _ "if rg_ref_ok (cn_registry env) r then 1 else 0"])
        (auto simp: fst_and_then snd_and_then publish_ref_writes(1))
  qed
qed simp

definition all_refs :: "publish_target \<Rightarrow> string \<Rightarrow> string list" where
  "all_refs t digest =
     digest_ref_of (pt_write_repo t) digest #
     map (tag_ref (pt_write_repo t)) (publish_tags (pt_tags t) digest)"

lemma publish_writes:
  "writes_of (fst (publish env obj pp inputs art digest)) =
     writes_of (fst (publish_refs env (all_refs (pp_target pp) digest) digest))"
  using attest_quiet[of env "ic_spec obj" "pp_target pp" digest inputs "pp_base_digest pp"]
  by (auto simp: publish_def Let_def fst_and_then all_refs_def writes_of_quiet split: sum.splits)

lemma publish_result:
  assumes "snd (publish env obj pp inputs art digest) = Inr r"
  shows "snd (publish_refs env (all_refs (pp_target pp) digest) digest) = Inr () \<and>
    bs_artifact r = artifact_status (pp_target pp) digest True (cn_now env) \<and>
    bs_input_hash r = pp_hash pp \<and> bs_conflict r = None \<and>
    (\<exists>b. bs_record r = Some b \<and> build_record_of env art (publish_tags (pt_tags (pp_target pp)) digest) digest inputs = Inr b)"
  using assms by (auto simp: publish_def Let_def and_then_ok all_refs_def)

text \<open>Where the writes of a pass come from: one publish of one digest, past every check.\<close>

definition unobstructed :: "'img prepared \<Rightarrow> string \<Rightarrow> bool" where
  "unobstructed pp digest \<longleftrightarrow>
     \<not> matches (pp_published pp) digest \<and>
     (fst (conflicts (pp_published pp) (pt_tags (pp_target pp)) digest) = [] \<or>
      pt_on_conflict (pp_target pp) \<noteq> conflict_fail \<and> pt_on_conflict (pp_target pp) \<noteq> conflict_keep)"

lemma settle_cases:
  "unobstructed pp digest \<and> settle env obj pp inputs art digest = publish env obj pp inputs art digest \<or>
   \<not> unobstructed pp digest \<and> writes_of (fst (settle env obj pp inputs art digest)) = []"
proof -
  have "writes_of (fst (attest_published env (ic_spec obj) t digest inputs (pp_base_digest pp))) = []" for t
    by (rule writes_of_quiet[OF attest_quiet])
  moreover have "writes_of (fst (own_tag_step env repo digest)) = []" for repo
    by (rule run_quiet[OF own_tag_quiet])
  ultimately show ?thesis
    by (auto simp: settle_def Let_def unobstructed_def fst_and_then split: prod.splits sum.splits)
qed

lemma reconcile_writes:
  assumes "writes_of (fst (reconcile_artifact env obj)) \<noteq> []"
  shows "\<exists>pp inputs art digest. snd (prepare env obj) = Inr pp \<and> \<not> cheap env obj pp \<and> unobstructed pp digest \<and>
    writes_of (fst (reconcile_artifact env obj)) = writes_of (fst (publish env obj pp inputs art digest)) \<and>
    snd (reconcile_artifact env obj) = snd (publish env obj pp inputs art digest)"
proof -
  note q = run_quiet[OF prepare_quiet] run_quiet[OF report_progress_quiet] run_quiet[OF fetch_layers_quiet]
  obtain pp where pp: "snd (prepare env obj) = Inr pp" "\<not> cheap env obj pp"
    using assms by (auto simp: reconcile_artifact_def fst_and_then q split: sum.splits if_splits)
  obtain u inputs art digest where s: "snd (report_progress env obj pp) = Inr u"
    "snd (fetch_layers env (ic_namespace obj) (pp_declared pp) (pp_pulls pp) 0 (pp_inputs pp)) = Inr inputs"
    "assemble_step env obj pp inputs = Inr art" "wrap_err ''computing digest'' (cn_digest env art) = Inr digest"
    "writes_of (fst (settle env obj pp inputs art digest)) \<noteq> []"
    using assms pp by (auto simp: reconcile_artifact_def fst_and_then q split: sum.splits)
  have w: "writes_of (fst (reconcile_artifact env obj)) = writes_of (fst (settle env obj pp inputs art digest))"
    "snd (reconcile_artifact env obj) = snd (settle env obj pp inputs art digest)"
    using pp(2) s(3,4)
    by (simp_all add: reconcile_artifact_def and_then_step[OF pp(1)] and_then_step[OF s(1)]
        and_then_step[OF s(2)] q)
  from settle_cases[of pp digest env obj inputs art] s(5)
  have "unobstructed pp digest" "settle env obj pp inputs art digest = publish env obj pp inputs art digest" by auto
  with pp w show ?thesis by metis
qed

lemma prepare_ok:
  assumes "snd (prepare env obj) = Inr pp"
  shows "target_of (cn_default env) (ic_namespace obj) (ic_name obj) (sc_push (ic_spec obj)) = Inr (pp_target pp) \<and>
    resolve_published (cn_registry env) (pt_write_repo (pp_target pp))
      (resolve_tags (pp_target pp) (ic_artifact obj)) (ic_artifact obj) = Inr (pp_published pp)"
  using assms by (auto simp: prepare_def Let_def and_then_ok split: prod.splits)

lemma target_of_ok:
  assumes "target_of d ns name p = Inr t"
  shows "pt_on_conflict t = conflict_policy p" "[] \<notin> set (pt_tags t)" "distinct (pt_tags t)"
  using assms unique_tags_spec[of "{}"]
  by (auto simp: target_of_def effective_tags_def split: sum.splits)

lemma resolve_tags_covers: "set (pt_tags t) \<subseteq> set (resolve_tags t prev)"
  by (auto simp: resolve_tags_def publish_tags_def split: option.splits)

subsection \<open>A concrete controller\<close>

text \<open>
  For concrete inputs: one removal layer, a registry that holds the given references, and an image
  library that knows one image.
\<close>

definition unit_images :: "(unit, unit) image_ops" where
  "unit_images =
     \<lparr>io_empty = (), io_oci_types = (\<lambda>i. i), io_layer = (\<lambda>hs. Inr ()), io_append = (\<lambda>i l. Inr ()),
      io_config = (\<lambda>i. Inr plain_config), io_set_config = (\<lambda>i cf. Inr ()),
      io_digest = (\<lambda>i. Inr ''sha256:bb''), io_annotate = (\<lambda>i ann. Some ())\<rparr>"

definition no_images :: "unit image_registry" where
  "no_images =
     \<lparr>ir_ref_ok = (\<lambda>r. False), ir_get = (\<lambda>r. Inl (HTTPStatus 404)), ir_platform = (\<lambda>i. Inl (Msg []))\<rparr>"

definition sample_controller :: "(string \<times> string) list \<Rightarrow> (unit, unit) controller" where
  "sample_controller tags =
     \<lparr>ce_sources = sample_sources, ce_secrets = one_secret_env, ce_images = no_images,
      ce_content = empty_env, ce_ops = unit_images, ce_goarch = ''amd64'',
      cn_default = bundled_registry, cn_registry = tag_registry tags, cn_repo_ok = (\<lambda>r. True),
      cn_hash_ok = (\<lambda>h. True), cn_write = (\<lambda>r. None), cn_attestor = None, cn_attest = plain_env (\<lambda>s. []),
      cn_layer = (\<lambda>i. Inl (Msg [])), cn_sha256 = (\<lambda>s. ''h''), cn_work_dir = Inr ''/tmp'',
      cn_digest = (\<lambda>a. Inr ''sha256:aa''), cn_index = (\<lambda>i. Inr []), cn_child = (\<lambda>i d. Inr ()),
      cn_config_name = (\<lambda>i. Inr ''sha256:cc''), cn_layers = (\<lambda>i. Inr [Inr ''sha256:dd'']), cn_now = 5,
      cn_history_limit = 3, cn_status = (\<lambda>w. PatchOK), cn_finalizer = None, cn_export = sample_options,
      cn_cms = plain_server Missing, cn_kind = Inr ''ImageComposition'', cn_refreshes = True\<rparr>"

definition sample_push :: "string \<Rightarrow> push" where
  "sample_push policy =
     \<lparr>ps_repository = ''r/x'', ps_tags = [''v1'', ''main''], ps_secret_ref = None, ps_ref = [],
      ps_history = None, ps_immutable = None, ps_on_conflict = policy, ps_write_ref_to = None\<rparr>"

definition sample_composition :: "string \<Rightarrow> composition" where
  "sample_composition policy =
     \<lparr>co_generation = 4, co_conds = Map.empty, ic_namespace = ''team'', ic_name = ''app'', ic_requested = ''now'',
      ic_finalizers = [finalizer], ic_deleting = False,
      ic_spec = \<lparr>sc_interval = None, sc_suspend = False, sc_base = None, sc_platforms = [],
        sc_layers = [remove_layer ''a''], sc_config = None, sc_push = Some (sample_push policy)\<rparr>,
      ic_observed = 3, ic_input_hash = [], ic_artifact = None, ic_attestations = None, ic_history = [],
      ic_conflict = None, ic_handled = [], ic_ref_export = None\<rparr>"

lemma sample_target:
  "target_of (cn_default (sample_controller tags)) (ic_namespace (sample_composition policy))
     (ic_name (sample_composition policy)) (sc_push (ic_spec (sample_composition policy))) =
   Inr \<lparr>pt_write_repo = ''r/x'', pt_pull_repo = ''r/x'', pt_tags = [''v1'', ''main''],
     pt_on_conflict = conflict_policy (Some (sample_push policy))\<rparr>"
  by code_simp

subsection \<open>Tags that already mean something\<close>

lemma conflict_free:
  assumes "snd (prepare env obj) = Inr pp" "fst (conflicts (pp_published pp) (pt_tags (pp_target pp)) digest) = []"
    and "tag \<in> set (pt_tags (pp_target pp))"
    and "rg_head (cn_registry env) (tag_ref (pt_write_repo (pp_target pp)) tag) = Inr cur"
  shows "cur = digest"
proof -
  note p = prepare_ok[OF assms(1)]
  have "map_of (pb_tags (pp_published pp)) tag = Some cur"
    using resolve_published_tags(1)[OF conjunct2[OF p]] resolve_tags_covers assms(3,4) by blast
  moreover have "[] \<notin> set (pt_tags (pp_target pp))" using target_of_ok(2)[OF conjunct1[OF p]] .
  ultimately show ?thesis using no_conflict_spec[OF assms(2)] assms(3) by blast
qed

lemma kept_conflict:
  assumes "snd (reconcile_artifact env obj) = Inr r" "bs_conflict r = Some c"
  shows "\<exists>pp. snd (prepare env obj) = Inr pp \<and> writes_of (fst (reconcile_artifact env obj)) = [] \<and>
    conflicts (pp_published pp) (pt_tags (pp_target pp)) (tc_dropped c) = (tc_tag c, tc_existing c) \<and>
    tc_tag c \<noteq> [] \<and> pt_on_conflict (pp_target pp) = conflict_keep \<and>
    bs_artifact r = artifact_status (pp_target pp) (tc_existing c) False (cn_now env) \<and> bs_record r = None"
proof -
  obtain pp where pp: "snd (prepare env obj) = Inr pp" "\<not> cheap env obj pp"
    using assms by (auto simp: reconcile_artifact_def and_then_ok split: if_splits)
  then obtain inputs art digest where s: "snd (settle env obj pp inputs art digest) = Inr r"
    using assms(1) by (auto simp: reconcile_artifact_def and_then_ok)
  obtain tag cur where t: "conflicts (pp_published pp) (pt_tags (pp_target pp)) digest = (tag, cur)" by fastforce
  have keep: "\<not> matches (pp_published pp) digest" "tag \<noteq> []" "pt_on_conflict (pp_target pp) = conflict_keep"
    "kept_result env pp digest tag cur = Inr r"
    using s assms(2) t by (auto simp: settle_def Let_def and_then_ok dest: publish_result split: if_splits)
  then have r: "c = \<lparr>tc_tag = tag, tc_existing = cur, tc_dropped = digest, tc_observed = Some (cn_now env)\<rparr>"
    "bs_artifact r = artifact_status (pp_target pp) cur False (cn_now env)" "bs_record r = None"
    using assms(2) by (auto simp: kept_result_def split: if_splits)
  have "writes_of (fst (reconcile_artifact env obj)) = []"
  proof (rule ccontr)
    assume "writes_of (fst (reconcile_artifact env obj)) \<noteq> []"
    from reconcile_writes[OF this] assms show False by (metis publish_result option.distinct(1))
  qed
  with pp(1) t keep r show ?thesis by auto
qed

text \<open>
  Property C1. Under the policies Fail and Keep no manifest is written anywhere unless every
  wanted tag that exists already names the digest being written; and a pass that reports a kept tag
  wrote nothing, ran under Keep, and reports the content the registry serves under that tag, not the
  content it dropped.
\<close>

theorem tags_not_moved:
  assumes t: "target_of (cn_default env) (ic_namespace obj) (ic_name obj) (sc_push (ic_spec obj)) = Inr t"
  shows "(conflict_policy (sc_push (ic_spec obj)) \<in> {conflict_fail, conflict_keep} \<and>
      EvWrite ref dg \<in> set (fst (reconcile_artifact env obj)) \<longrightarrow>
      (\<forall>tag \<in> set (pt_tags t). \<forall>cur. rg_head (cn_registry env) (tag_ref (pt_write_repo t) tag) = Inr cur \<longrightarrow> cur = dg)) \<and>
    (snd (reconcile_artifact env obj) = Inr r \<and> bs_conflict r = Some c \<longrightarrow>
      conflict_policy (sc_push (ic_spec obj)) = conflict_keep \<and>
      writes_of (fst (reconcile_artifact env obj)) = [] \<and> tc_tag c \<in> set (pt_tags t) \<and>
      rg_head (cn_registry env) (tag_ref (pt_write_repo t) (tc_tag c)) = Inr (tc_existing c) \<and>
      ar_digest (bs_artifact r) = tc_existing c \<and> tc_existing c \<noteq> tc_dropped c \<and> bs_record r = None)"
proof (intro conjI impI)
  assume a: "conflict_policy (sc_push (ic_spec obj)) \<in> {conflict_fail, conflict_keep} \<and>
      EvWrite ref dg \<in> set (fst (reconcile_artifact env obj))"
  then have m: "(ref, dg) \<in> set (writes_of (fst (reconcile_artifact env obj)))" by (simp add: writes_of_mem)
  then have "writes_of (fst (reconcile_artifact env obj)) \<noteq> []" by auto
  from reconcile_writes[OF this] obtain pp inputs art digest where w:
    "snd (prepare env obj) = Inr pp" "unobstructed pp digest"
    "writes_of (fst (reconcile_artifact env obj)) = writes_of (fst (publish env obj pp inputs art digest))" by blast
  have tt: "t = pp_target pp" using prepare_ok[OF w(1)] t by simp
  have dg: "dg = digest"
    using publish_refs_writes[of "all_refs (pp_target pp) digest" env digest] m w(3)
    by (auto simp: publish_writes)
  have "pt_on_conflict t = conflict_fail \<or> pt_on_conflict t = conflict_keep"
    using a target_of_ok(1)[OF t] by simp
  then have "fst (conflicts (pp_published pp) (pt_tags (pp_target pp)) digest) = []"
    using w(2) tt by (auto simp: unobstructed_def)
  then show "\<forall>tag \<in> set (pt_tags t). \<forall>cur. rg_head (cn_registry env) (tag_ref (pt_write_repo t) tag) = Inr cur \<longrightarrow> cur = dg"
    using conflict_free[OF w(1)] tt dg by blast
next
  assume a: "snd (reconcile_artifact env obj) = Inr r \<and> bs_conflict r = Some c"
  from kept_conflict[of env obj r c] a obtain pp where k: "snd (prepare env obj) = Inr pp"
    "writes_of (fst (reconcile_artifact env obj)) = []"
    "conflicts (pp_published pp) (pt_tags (pp_target pp)) (tc_dropped c) = (tc_tag c, tc_existing c)"
    "tc_tag c \<noteq> []" "pt_on_conflict (pp_target pp) = conflict_keep"
    "bs_artifact r = artifact_status (pp_target pp) (tc_existing c) False (cn_now env)" "bs_record r = None" by blast
  note p = prepare_ok[OF k(1)]
  have tt: "pp_target pp = t" using p t by simp
  show "conflict_policy (sc_push (ic_spec obj)) = conflict_keep" using k(5) tt target_of_ok(1)[OF t] by simp
  show "writes_of (fst (reconcile_artifact env obj)) = []" "bs_record r = None" by (fact k)+
  note c = conflicts_spec[OF k(3,4)]
  then show "tc_tag c \<in> set (pt_tags t)" "tc_existing c \<noteq> tc_dropped c" using tt by auto
  show "rg_head (cn_registry env) (tag_ref (pt_write_repo t) (tc_tag c)) = Inr (tc_existing c)"
    using resolve_published_tags(1)[OF conjunct2[OF p], of "tc_tag c" "tc_existing c"] c tt by auto
  show "ar_digest (bs_artifact r) = tc_existing c"
    by (simp add: k(6) artifact_status_def Let_def split: list.splits)
qed

theorem tags_not_moved_witness:
  "\<exists>r. snd (reconcile_artifact (sample_controller [(''r/x:main'', ''sha256:0d'')]) (sample_composition conflict_keep)) = Inr r \<and>
     writes_of (fst (reconcile_artifact (sample_controller [(''r/x:main'', ''sha256:0d'')]) (sample_composition conflict_keep))) = [] \<and>
     ar_digest (bs_artifact r) = ''sha256:0d''"
proof -
  let ?env = "sample_controller [(''r/x:main'', ''sha256:0d'')]" and ?obj = "sample_composition conflict_keep"
  have "case snd (reconcile_artifact ?env ?obj) of Inl e \<Rightarrow> False
      | Inr r \<Rightarrow> (case bs_conflict r of None \<Rightarrow> False | Some c \<Rightarrow> tc_existing c = ''sha256:0d'')"
    by code_simp
  then obtain r c where r: "snd (reconcile_artifact ?env ?obj) = Inr r" "bs_conflict r = Some c" "tc_existing c = ''sha256:0d''"
    by (auto split: sum.splits option.splits)
  note t = tags_not_moved[OF sample_target[of "[(''r/x:main'', ''sha256:0d'')]" conflict_keep], where r = r and c = c]
  have "snd (reconcile_artifact ?env ?obj) = Inr r \<and> bs_conflict r = Some c" using r by blast
  from mp[OF conjunct2[OF t] this] r show ?thesis by metis
qed

subsection \<open>What is published, and in which order\<close>

lemma artifact_status_own_tag: "has_digest_tag (ar_tags (artifact_status t digest True now)) digest"
proof -
  have "ar_tags (artifact_status t digest True now) =
      map (tag_ref (pt_pull_repo t)) (pt_tags t) @ [tag_ref (pt_pull_repo t) (digest_tag digest)]"
    by (simp add: artifact_status_def Let_def split: list.splits)
  then show ?thesis by (auto simp: has_digest_tag_def has_suffix_iff tag_ref_def)
qed

lemma build_record_of_fields:
  "build_record_of env art tags digest inputs = Inr b \<Longrightarrow> br_digest b = digest \<and> br_tags b = tags"
  by (auto simp: build_record_of_def split: sum.splits)

text \<open>
  Property C7. A pass writes one digest, first under its own reference and then under the spec's
  tags in order and the digest's own tag last; it stops at the first failure, so a tag is written
  only after the content is addressable; and a pass that reports a build wrote all of them, with
  status and record naming exactly that digest and those tags.
\<close>

theorem publish_order:
  assumes t: "target_of (cn_default env) (ic_namespace obj) (ic_name obj) (sc_push (ic_spec obj)) = Inr t"
  shows "\<exists>digest k. writes_of (fst (reconcile_artifact env obj)) =
       map (\<lambda>ref. (ref, digest)) (take k (all_refs t digest)) \<and>
     (\<forall>ref \<in> set (take (k - 1) (all_refs t digest)). cn_write env ref = None) \<and>
     (\<forall>r b. snd (reconcile_artifact env obj) = Inr r \<and> bs_record r = Some b \<longrightarrow>
        k = length (all_refs t digest) \<and> br_digest b = digest \<and> br_tags b = publish_tags (pt_tags t) digest \<and>
        bs_artifact r = artifact_status t digest True (cn_now env) \<and>
        has_digest_tag (ar_tags (bs_artifact r)) digest)"
proof (cases "writes_of (fst (reconcile_artifact env obj)) = []")
  case True
  have "bs_record r = None" if "snd (reconcile_artifact env obj) = Inr r" for r
  proof (rule ccontr)
    assume b: "bs_record r \<noteq> None"
    from that b obtain pp where pp: "snd (prepare env obj) = Inr pp" "\<not> cheap env obj pp"
      by (auto simp: reconcile_artifact_def and_then_ok split: if_splits)
    with that obtain u inputs art digest where s: "snd (report_progress env obj pp) = Inr u"
      "snd (fetch_layers env (ic_namespace obj) (pp_declared pp) (pp_pulls pp) 0 (pp_inputs pp)) = Inr inputs"
      "assemble_step env obj pp inputs = Inr art" "wrap_err ''computing digest'' (cn_digest env art) = Inr digest"
      "snd (settle env obj pp inputs art digest) = Inr r"
      by (auto simp: reconcile_artifact_def and_then_ok)
    have "settle env obj pp inputs art digest = publish env obj pp inputs art digest"
      using s(5) b
      by (auto simp: settle_def Let_def and_then_ok kept_result_def split: prod.splits if_splits)
    with s(5) have "snd (publish_refs env (all_refs (pp_target pp) digest) digest) = Inr ()"
      by (simp add: publish_result)
    then have "writes_of (fst (publish env obj pp inputs art digest)) \<noteq> []"
      using publish_refs_writes[of "all_refs (pp_target pp) digest" env digest "()"]
      by (auto simp: publish_writes all_refs_def)
    moreover have "writes_of (fst (reconcile_artifact env obj)) =
        writes_of (fst (prepare env obj)) @ writes_of (fst (report_progress env obj pp)) @
        writes_of (fst (fetch_layers env (ic_namespace obj) (pp_declared pp) (pp_pulls pp) 0 (pp_inputs pp))) @
        writes_of (fst (settle env obj pp inputs art digest))"
      using pp(2) s(3,4)
      by (simp add: reconcile_artifact_def and_then_step[OF pp(1)] and_then_step[OF s(1)] and_then_step[OF s(2)])
    ultimately show False
      using True \<open>settle env obj pp inputs art digest = publish env obj pp inputs art digest\<close> by simp
  qed
  with True show ?thesis by (intro exI[of _ "[]"] exI[of _ 0]) auto
next
  case False
  from reconcile_writes[OF False] obtain pp inputs art digest where w: "snd (prepare env obj) = Inr pp"
    "writes_of (fst (reconcile_artifact env obj)) = writes_of (fst (publish env obj pp inputs art digest))"
    "snd (reconcile_artifact env obj) = snd (publish env obj pp inputs art digest)" by blast
  have tt: "pp_target pp = t" using prepare_ok[OF w(1)] t by simp
  obtain k where k: "k \<le> length (all_refs t digest)"
    "writes_of (fst (publish_refs env (all_refs t digest) digest)) = map (\<lambda>ref. (ref, digest)) (take k (all_refs t digest))"
    "snd (publish_refs env (all_refs t digest) digest) = Inr () \<longrightarrow> k = length (all_refs t digest)"
    "\<forall>ref \<in> set (take (k - 1) (all_refs t digest)). cn_write env ref = None"
    using publish_refs_writes[of "all_refs t digest" env digest "()"] by blast
  have "k = length (all_refs t digest) \<and> br_digest b = digest \<and> br_tags b = publish_tags (pt_tags t) digest \<and>
        bs_artifact r = artifact_status t digest True (cn_now env) \<and>
        has_digest_tag (ar_tags (bs_artifact r)) digest"
    if r: "snd (reconcile_artifact env obj) = Inr r" "bs_record r = Some b" for r b
  proof -
    have "snd (publish env obj pp inputs art digest) = Inr r" using r(1) w(3) by simp
    note pr = publish_result[OF this, unfolded tt]
    have a: "bs_artifact r = artifact_status t digest True (cn_now env)" using pr by simp
    have h: "has_digest_tag (ar_tags (bs_artifact r)) digest" unfolding a by (rule artifact_status_own_tag)
    have kl: "k = length (all_refs t digest)" using k(3) pr by blast
    have b: "build_record_of env art (publish_tags (pt_tags t) digest) digest inputs = Inr b" using pr r(2) by auto
    show ?thesis using kl build_record_of_fields[OF b] a h by blast
  qed
  then show ?thesis
    using k(2,4) w(2)[unfolded publish_writes tt]
    by (intro exI[of _ digest] exI[of _ k] conjI allI impI) (blast | simp only:)+
qed

theorem publish_order_witness:
  "\<exists>digest k. writes_of (fst (reconcile_artifact (sample_controller []) (sample_composition conflict_fail))) =
      map (\<lambda>ref. (ref, digest)) (take k (all_refs \<lparr>pt_write_repo = ''r/x'', pt_pull_repo = ''r/x'',
        pt_tags = [''v1'', ''main''], pt_on_conflict = conflict_policy (Some (sample_push conflict_fail))\<rparr> digest)) \<and> k = 4"
proof -
  have w: "length (writes_of (fst (reconcile_artifact (sample_controller []) (sample_composition conflict_fail)))) = 4"
    by code_simp
  from publish_order[OF sample_target, of "[]" conflict_fail] obtain digest k where d:
    "writes_of (fst (reconcile_artifact (sample_controller []) (sample_composition conflict_fail))) =
      map (\<lambda>ref. (ref, digest)) (take k (all_refs \<lparr>pt_write_repo = ''r/x'', pt_pull_repo = ''r/x'',
        pt_tags = [''v1'', ''main''], pt_on_conflict = conflict_policy (Some (sample_push conflict_fail))\<rparr> digest))"
    by blast
  let ?refs = "all_refs \<lparr>pt_write_repo = ''r/x'', pt_pull_repo = ''r/x'', pt_tags = [''v1'', ''main''],
      pt_on_conflict = conflict_policy (Some (sample_push conflict_fail))\<rparr> digest"
  have m: "min (length ?refs) k = 4" using w d by simp
  have "take k ?refs = take (min (length ?refs) k) ?refs" by (simp add: min_def)
  then have "take k ?refs = take 4 ?refs" unfolding m .
  with d show ?thesis by (intro exI[of _ digest] exI[of _ 4]) simp
qed

subsection \<open>The cheap path\<close>

text \<open>
  Property C15. When the inputs hash as status says, everything they produced is still published
  under every name and its material is recorded, a pass fetches nothing, writes nothing and changes
  no status while working: it emits at most events and returns what is published, without a build;
  and when the registry answers no reference, nothing of this holds and the work is done.
\<close>

theorem cheap_path:
  assumes "snd (prepare env obj) = Inr pp"
  shows "(cheap env obj pp \<longrightarrow>
      (\<forall>e \<in> set (fst (reconcile_artifact env obj)). \<exists>ev. e = EvEmit ev) \<and>
      (\<exists>r a. snd (reconcile_artifact env obj) = Inr r \<and> ic_artifact obj = Some a \<and> bs_artifact r = a \<and>
         bs_input_hash r = ic_input_hash obj \<and> bs_record r = None \<and> bs_conflict r = None \<and>
         bs_attestations r = ic_attestations obj \<and>
         (\<forall>tag \<in> set (pt_tags (pp_target pp)).
            rg_head (cn_registry env) (tag_ref (pt_write_repo (pp_target pp)) tag) = Inr (ar_digest a)))) \<and>
    ((\<forall>ref. isl (rg_head (cn_registry env) ref)) \<longrightarrow> \<not> cheap env obj pp)"
proof (intro conjI impI)
  assume c: "cheap env obj pp"
  then obtain a where a: "ic_artifact obj = Some a" "ic_input_hash obj = pp_hash pp"
    "matches (pp_published pp) (ar_digest a)" by (auto simp: cheap_def split: option.splits)
  have r: "reconcile_artifact env obj = (fst (prepare env obj), Inr \<lparr>bs_artifact = a, bs_input_hash = pp_hash pp,
      bs_attestations = ic_attestations obj, bs_conflict = None, bs_record = None\<rparr>)"
    using c a(1) assms by (simp add: reconcile_artifact_def and_then_def)
  show "\<forall>e \<in> set (fst (reconcile_artifact env obj)). \<exists>ev. e = EvEmit ev"
    using prepare_emits[of env obj] by (simp add: r run_all_def list_all_iff)
  note p = prepare_ok[OF assms]
  have "rg_head (cn_registry env) (tag_ref (pt_write_repo (pp_target pp)) tag) = Inr (ar_digest a)"
    if "tag \<in> set (pt_tags (pp_target pp))" for tag
  proof -
    have d: "distinct (pt_tags (pp_target pp))" using target_of_ok(3)[OF conjunct1[OF p]] .
    then have "distinct (resolve_tags (pp_target pp) (ic_artifact obj))"
      by (auto simp: resolve_tags_def publish_tags_def split: option.splits)
    from matches_all[OF conjunct2[OF p] this a(3)] show ?thesis using that resolve_tags_covers by blast
  qed
  with a show "\<exists>r a. snd (reconcile_artifact env obj) = Inr r \<and> ic_artifact obj = Some a \<and> bs_artifact r = a \<and>
         bs_input_hash r = ic_input_hash obj \<and> bs_record r = None \<and> bs_conflict r = None \<and>
         bs_attestations r = ic_attestations obj \<and>
         (\<forall>tag \<in> set (pt_tags (pp_target pp)).
            rg_head (cn_registry env) (tag_ref (pt_write_repo (pp_target pp)) tag) = Inr (ar_digest a))"
    unfolding r snd_conv by (intro exI conjI) (rule refl | simp)+
next
  assume no: "\<forall>ref. isl (rg_head (cn_registry env) ref)"
  have "pb_digest (pp_published pp) = []"
    using conjunct2[OF prepare_ok[OF assms]] no
    by (cases "pp_published pp") (auto simp: resolve_published_def split: sum.splits option.splits)
  then show "\<not> cheap env obj pp" by (auto simp: cheap_def matches_def split: option.splits)
qed

definition published_composition :: composition where
  "published_composition =
     (sample_composition conflict_fail)\<lparr>ic_input_hash := ''sha256:68'',
        ic_artifact := Some (sample_artifact ''sha256:aa'' [''r/x:v1'', ''r/x:main'', ''r/x:digest-aa''])\<rparr>"

theorem cheap_path_witness:
  "\<exists>r. snd (reconcile_artifact (sample_controller [(''r/x:v1'', ''sha256:aa''), (''r/x:main'', ''sha256:aa''),
      (''r/x:digest-aa'', ''sha256:aa''), (''r/x@sha256:aa'', ''sha256:aa'')]) published_composition) = Inr r \<and>
     bs_record r = None \<and> ar_digest (bs_artifact r) = ''sha256:aa''"
proof -
  let ?env = "sample_controller [(''r/x:v1'', ''sha256:aa''), (''r/x:main'', ''sha256:aa''),
      (''r/x:digest-aa'', ''sha256:aa''), (''r/x@sha256:aa'', ''sha256:aa'')]"
  have "case snd (prepare ?env published_composition) of Inl e \<Rightarrow> False
      | Inr pp \<Rightarrow> cheap ?env published_composition pp"
    by code_simp
  then obtain pp where pp: "snd (prepare ?env published_composition) = Inr pp" "cheap ?env published_composition pp"
    by (auto split: sum.splits)
  from mp[OF conjunct1[OF cheap_path[OF pp(1)]] pp(2)] obtain r a where
    "snd (reconcile_artifact ?env published_composition) = Inr r" "ic_artifact published_composition = Some a"
    "bs_artifact r = a" "bs_record r = None" by blast
  then show ?thesis by (auto simp: published_composition_def sample_artifact_def)
qed

end
