(* ===== verification/Composition_Status.thy ===== *)
theory Composition_Status
  imports Composition_Theorems
begin

section \<open>What a pass leaves in status\<close>

text \<open>
  The conditions and the recorded outcome of a composition after a pass: the object is what the
  changes among the pass's effects make of it.
\<close>

subsection \<open>Conditions\<close>

definition cond_is :: "string \<Rightarrow> cond_status \<Rightarrow> 'a conditioned_scheme \<Rightarrow> bool" where
  "cond_is t s o' = (case co_conds o' t of None \<Rightarrow> False | Some c \<Rightarrow> cd_status c = s)"

definition exclusive :: "composition \<Rightarrow> bool" where
  "exclusive o' \<longleftrightarrow> \<not> (cond_is stalled_condition CTrue o' \<and> cond_is reconciling_condition CTrue o')"

text \<open>A change that cannot make an object both stalled and reconciling.\<close>

definition keeps_exclusive :: "effect \<Rightarrow> bool" where
  "keeps_exclusive e = (case e of EvPatch f \<Rightarrow> \<forall>o'. exclusive o' \<longrightarrow> exclusive (f o') | _ \<Rightarrow> True)"

lemma keeps_simps [simp]:
  "keeps_exclusive (EvEmit ev)" "keeps_exclusive (EvFetch s)" "keeps_exclusive (EvWrite r d)"
  "keeps_exclusive (EvTag r d)" "keeps_exclusive (EvAttest x)" "keeps_exclusive (EvExport c)"
  "keeps_exclusive (EvRefresh a)"
  "keeps_exclusive (EvPatch f) \<longleftrightarrow> (\<forall>o'. exclusive o' \<longrightarrow> exclusive (f o'))"
  by (simp_all add: keeps_exclusive_def)

lemma persisted_simps [simp]:
  "persisted [] o' = o'" "persisted (EvPatch f # es) o' = persisted es (f o')"
  "persisted (es @ fs) o' = persisted fs (persisted es o')"
  by (simp_all add: persisted_def)

lemma persisted_exclusive: "list_all keeps_exclusive es \<Longrightarrow> exclusive o' \<Longrightarrow> exclusive (persisted es o')"
  by (induction es arbitrary: o') (auto simp: persisted_def split: effect.splits)

lemma cond_simps [simp]:
  "cond_is t s (set_condition t' s' r m o') \<longleftrightarrow> (if t = t' then s = s' else cond_is t s o')"
  "cond_is t s (remove_condition t' o') \<longleftrightarrow> t \<noteq> t' \<and> cond_is t s o'"
  "cond_is t s (stamped f o2) \<longleftrightarrow> cond_is t s (f o2)"
  "cond_is t s (o3\<lparr>ic_ref_export := w\<rparr>) \<longleftrightarrow> cond_is t s o3"
  by (auto simp: cond_is_def set_condition_def remove_condition_def stamped_def)

lemma patches_exclusive [simp]:
  "exclusive (stamped set_suspended o')" "exclusive (stamped (set_waiting reason msg) o')"
  "exclusive (stamped (set_succeeded n r) o')"
  "exclusive (stamped (\<lambda>o'. remove_condition reconciling_condition (set_stalled reason msg o')) o')"
  "exclusive (set_progressing what art o')"
  by (simp_all add: exclusive_def set_suspended_def set_waiting_def set_succeeded_def set_progressing_def
      set_stalled_def Let_def)

lemma exclusive_other [simp]:
  "exclusive (add_finalizer o') = exclusive o'" "exclusive (remove_finalizer o') = exclusive o'"
  "exclusive (mark_status out repo now o') = exclusive o'" "exclusive (stamped (\<lambda>o'. o'\<lparr>ic_ref_export := w\<rparr>) o') = exclusive o'"
  by (auto simp: exclusive_def cond_is_def add_finalizer_def remove_finalizer_def mark_status_def stamped_def Let_def)

text \<open>Once an object is not reconciling, being stalled keeps it exclusive.\<close>

definition settled :: "composition \<Rightarrow> bool" where
  "settled o' \<longleftrightarrow> \<not> cond_is reconciling_condition CTrue o'"

lemma settled_simps [simp]:
  "settled (stamped (set_succeeded n r) o')"
  "settled (stamped (\<lambda>o'. o'\<lparr>ic_ref_export := w\<rparr>) o') = settled o'"
  "settled (stamped (set_stalled reason msg) o') = settled o'"
  by (simp_all add: settled_def set_succeeded_def set_stalled_def)

lemma settled_exclusive: "settled o' \<Longrightarrow> exclusive o'"
  by (simp add: settled_def exclusive_def)

subsection \<open>Which effects change the object\<close>

definition no_patch :: "effect \<Rightarrow> bool" where
  "no_patch e = (case e of EvPatch f \<Rightarrow> False | _ \<Rightarrow> True)"

lemma no_patch_simps [simp]:
  "no_patch (EvEmit ev)" "no_patch (EvFetch s)" "no_patch (EvWrite r d)" "no_patch (EvTag r d)"
  "no_patch (EvAttest x)" "no_patch (EvExport c)" "no_patch (EvRefresh a)" "\<not> no_patch (EvPatch f)"
  by (simp_all add: no_patch_def)

lemma no_patch_maps [simp]:
  "list_all no_patch (map EvAttest ops)" "list_all no_patch (map EvExport cms)"
  "list_all no_patch (tag_effects ws)"
  by (simp_all add: list_all_iff tag_effects_def)

lemma persisted_no_patch: "list_all no_patch es \<Longrightarrow> persisted es o' = o'"
  by (induction es) (auto simp: persisted_def split: effect.splits)

lemma no_patch_keeps: "no_patch e \<Longrightarrow> keeps_exclusive e"
  by (auto simp: no_patch_def keeps_exclusive_def split: effect.splits)

lemma fetch_layers_no_patch: "run_all no_patch (fetch_layers env ns declared pulls n is)"
  by (induction "is" arbitrary: n) (auto simp: fetch_layer_def intro!: inv_intros split: option.splits)

lemma attest_no_patch: "list_all no_patch (fst (attest_published env spec t digest inputs base))"
  by (auto simp: attest_published_def attestation_failure_def split: sum.splits prod.splits)

lemma publish_refs_no_patch: "run_all no_patch (publish_refs env refs digest)"
  by (induction refs) (auto simp: publish_ref_def intro!: inv_intros)

lemma settle_no_patch: "run_all no_patch (settle env obj pp inputs art digest)"
proof -
  have "run_all no_patch (own_tag_step env repo digest)" for repo
    by (auto simp: own_tag_step_def split: prod.splits option.splits)
  moreover have "run_all no_patch (publish env obj pp inputs art digest)"
    unfolding publish_def Let_def
    by (intro inv_intros publish_refs_no_patch) (simp_all add: attest_no_patch)
  ultimately show ?thesis
    unfolding settle_def Let_def by (auto simp: attest_no_patch intro!: inv_intros split: prod.splits)
qed

lemma reconcile_artifact_keeps: "run_all keeps_exclusive (reconcile_artifact env obj)"
proof -
  have "run_all keeps_exclusive (report_progress env obj pp)" for pp :: "'a prepared"
    by (auto simp: report_progress_def write_status_def intro: inv_intros split: patch_answer.splits)
  then show ?thesis
    unfolding reconcile_artifact_def
    by (auto intro!: inv_intros run_all_mono[OF prepare_emits]
        run_all_mono[OF fetch_layers_no_patch no_patch_keeps] run_all_mono[OF settle_no_patch no_patch_keeps])
qed

lemma patch_status_cases:
  "patch_status env at f = emit (EvPatch (stamped f)) \<and> cn_status env at = PatchOK \<or>
   patch_status env at f = lift (Inr ()) \<and> cn_status env at = PatchGone \<or>
   (\<exists>e. patch_status env at f = lift (Inl e) \<and> cn_status env at = PatchFailed e)"
  by (cases "cn_status env at") (simp_all add: patch_status_def write_status_def)

lemma patch_status_keeps:
  assumes "\<And>o'. exclusive o' \<Longrightarrow> exclusive (stamped f o')"
  shows "run_all keeps_exclusive (patch_status env at f)"
  using patch_status_cases[of env at f] assms by (auto intro: inv_intros)

lemma after_failure_keeps: "run_all keeps_exclusive (after_failure env e)"
  unfolding after_failure_def by (auto intro!: inv_intros patch_status_keeps)

lemma export_step_effects:
  "\<exists>cms p. fst (export_step env obj art) = map EvExport cms @ p \<and>
     (p = [] \<or> (\<exists>w. p = [EvPatch (stamped (\<lambda>o'. o'\<lparr>ic_ref_export := w\<rparr>))]))"
proof -
  have p: "fst (patch_status env at f) = [] \<or> fst (patch_status env at f) = [EvPatch (stamped f)]" for at f
    using patch_status_cases[of env at f] by auto
  show ?thesis
  proof (cases "get_write_ref_to (sc_push (ic_spec obj)) = None \<and> ic_ref_export obj = None")
    case True
    then show ?thesis by (intro exI[of _ "[]"]) (simp add: export_step_def)
  next
    case False
    let ?x = "if get_write_ref_to (sc_push (ic_spec obj)) = None then lift (Inr None)
           else export_ref (cn_cms env) (cn_kind env) (object_key obj) (get_write_ref_to (sc_push (ic_spec obj)))
             (cn_export env) (ar_digest art) (ar_ref art)"
    let ?y = "\<lambda>w. record_export (cn_cms env) (object_key obj) (ic_ref_export obj) w"
    have e: "export_step env obj art = and_then (map_effects EvExport ?x) (\<lambda>w.
        and_then (map_effects EvExport (?y w)) (\<lambda>changed. if \<not> changed then lift (Inr ())
          else patch_status env AtExport (\<lambda>o'. o'\<lparr>ic_ref_export := w\<rparr>)))"
      using False by (auto simp: export_step_def Let_def)
    show ?thesis
    proof (cases "snd ?x")
      case (Inl err)
      then have "fst (export_step env obj art) = map EvExport (fst ?x) @ []"
        unfolding e fst_and_then map_effects_simps by simp
      then show ?thesis by blast
    next
      case (Inr w)
      show ?thesis
      proof (cases "snd (?y w)")
        case (Inl err)
        then have "fst (export_step env obj art) = map EvExport (fst ?x @ fst (?y w)) @ []"
          unfolding e fst_and_then map_effects_simps Inr by simp
        then show ?thesis by blast
      next
        case changed: (Inr c)
        then have "fst (export_step env obj art) = map EvExport (fst ?x @ fst (?y w)) @
            (if \<not> c then [] else fst (patch_status env AtExport (\<lambda>o'. o'\<lparr>ic_ref_export := w\<rparr>)))"
          unfolding e fst_and_then map_effects_simps Inr by simp
        moreover have "(if \<not> c then [] else fst (patch_status env AtExport (\<lambda>o'. o'\<lparr>ic_ref_export := w\<rparr>))) = [] \<or>
            (\<exists>w'. (if \<not> c then [] else fst (patch_status env AtExport (\<lambda>o'. o'\<lparr>ic_ref_export := w\<rparr>))) =
              [EvPatch (stamped (\<lambda>o'. o'\<lparr>ic_ref_export := w'\<rparr>))])"
          using p[of AtExport "\<lambda>o'. o'\<lparr>ic_ref_export := w\<rparr>"] by (cases c) (simp_all, blast?)
        ultimately show ?thesis by blast
      qed
    qed
  qed
qed


subsection \<open>Never both stalled and reconciling\<close>

lemma persisted_settled:
  assumes "list_all (\<lambda>e. case e of EvPatch f \<Rightarrow> \<forall>o'. settled o' \<longrightarrow> settled (f o') | _ \<Rightarrow> True) es" "settled o'"
  shows "settled (persisted es o')"
  using assms by (induction es arbitrary: o') (auto simp: persisted_def split: effect.splits)

lemma export_step_settles:
  "settled o' \<Longrightarrow> settled (persisted (fst (export_step env obj art)) o')"
  "exclusive o' \<Longrightarrow> exclusive (persisted (fst (export_step env obj art)) o')"
proof -
  obtain cms p where e: "fst (export_step env obj art) = map EvExport cms @ p"
    "p = [] \<or> (\<exists>w. p = [EvPatch (stamped (\<lambda>o'. o'\<lparr>ic_ref_export := w\<rparr>))])"
    using export_step_effects[of env obj art] by blast
  have "persisted (map EvExport cms) o' = o'" by (rule persisted_no_patch) simp
  then show "settled o' \<Longrightarrow> settled (persisted (fst (export_step env obj art)) o')"
    "exclusive o' \<Longrightarrow> exclusive (persisted (fst (export_step env obj art)) o')"
    using e by auto
qed

lemma after_export_exclusive:
  assumes "settled o' \<or> exclusive o' \<and> cn_status env AtStall \<noteq> PatchOK"
  shows "exclusive (persisted (fst (after_export env obj art)) o')"
proof -
  obtain es r where e: "export_step env obj art = (es, r)" by fastforce
  have s: "settled o' \<Longrightarrow> settled (persisted es o')" "exclusive o' \<Longrightarrow> exclusive (persisted es o')"
    using export_step_settles[of o' env obj art] e by simp_all
  show ?thesis
  proof (cases "\<exists>err. r = Inl err \<and> is_terminal err")
    case True
    then obtain err where r: "r = Inl err" "is_terminal err" by blast
    have f: "fst (after_export env obj art) =
        es @ EvEmit (mk_event True reason_invalid_spec (err_text err)) #
          fst (patch_status env AtStall (set_stalled reason_invalid_spec (err_text err)))"
      using e r by (auto simp: after_export_def fst_and_then split: sum.splits)
    have p: "persisted (EvEmit ev # fs) x = persisted fs x" for ev fs x by (simp add: persisted_def)
    show ?thesis
      using patch_status_cases[of env AtStall "set_stalled reason_invalid_spec (err_text err)"] assms s
      unfolding f persisted_simps p by (auto intro: settled_exclusive)
  next
    case False
    then have "fst (after_export env obj art) = es"
      using e by (auto simp: after_export_def split: sum.splits)
    with s assms show ?thesis by (auto intro: settled_exclusive)
  qed
qed

lemma after_success_exclusive:
  assumes "exclusive o'" "cn_status env AtStall = PatchOK \<Longrightarrow> cn_status env AtOutcome = PatchOK"
  shows "exclusive (persisted (fst (after_success env obj r)) o')"
proof -
  let ?refresh = "if bs_record r \<noteq> None \<and> cn_refreshes env then emit (EvRefresh (bs_artifact r)) else lift (Inr ())"
  have n: "persisted (fst ?refresh) x = x" for x by (auto simp: persisted_def)
  have ok: "snd ?refresh = Inr ()" by simp
  note c = patch_status_cases[of env AtOutcome "set_succeeded (cn_history_limit env) r"]
  then show ?thesis
  proof (elim disjE conjE exE)
    assume p: "patch_status env AtOutcome (set_succeeded (cn_history_limit env) r) =
        emit (EvPatch (stamped (set_succeeded (cn_history_limit env) r)))"
    have f: "fst (after_success env obj r) = EvPatch (stamped (set_succeeded (cn_history_limit env) r)) #
        fst ?refresh @ fst (after_export env obj (bs_artifact r))"
      unfolding after_success_def p by (simp add: fst_and_then)
    show ?thesis
      unfolding f persisted_simps n by (rule after_export_exclusive) simp
  next
    assume p: "patch_status env AtOutcome (set_succeeded (cn_history_limit env) r) = lift (Inr ())"
      "cn_status env AtOutcome = PatchGone"
    have f: "fst (after_success env obj r) = fst ?refresh @ fst (after_export env obj (bs_artifact r))"
      unfolding after_success_def p by (simp add: fst_and_then)
    have "cn_status env AtStall \<noteq> PatchOK" using assms(2) p(2) by auto
    then show ?thesis
      unfolding f persisted_simps n using assms(1) by (intro after_export_exclusive) simp
  next
    fix e assume p: "patch_status env AtOutcome (set_succeeded (cn_history_limit env) r) = lift (Inl e)"
    show ?thesis unfolding after_success_def p using assms(1) by simp
  qed
qed

lemma backfill_keeps: "list_all keeps_exclusive (fst (backfill env obj))"
proof -
  have "list_all keeps_exclusive (tag_effects ws)" for ws by (simp add: list_all_iff tag_effects_def)
  then show ?thesis
    by (auto simp: backfill_def Let_def split: sum.splits prod.splits patch_answer.splits)
qed

lemma work_exclusive:
  assumes "exclusive o'" "cn_status env AtStall = PatchOK \<Longrightarrow> cn_status env AtOutcome = PatchOK"
  shows "exclusive (persisted (fst (work env obj)) o')"
proof -
  obtain es r where e: "reconcile_artifact env obj = (es, r)" by fastforce
  have k: "exclusive (persisted es o')"
    using persisted_exclusive[OF _ assms(1), of es] reconcile_artifact_keeps[of env obj] e by (simp add: run_all_def)
  show ?thesis
  proof (cases r)
    case (Inl err)
    have "fst (work env obj) = es @ fst (after_failure env err)" by (simp add: work_def e Inl)
    then show ?thesis
      using persisted_exclusive[OF _ k] after_failure_keeps[of env err] by (simp add: run_all_def)
  next
    case (Inr x)
    have "fst (work env obj) = es @ fst (after_success env obj x)" by (simp add: work_def e Inr)
    then show ?thesis using after_success_exclusive[OF k assms(2)] by simp
  qed
qed

text \<open>
  Property C16. No pass leaves an object both stalled and reconciling, whatever fails in it and
  whichever of its status writes the API server refuses; an object that is gone for the outcome is
  taken to be gone for what follows.
\<close>

theorem never_stalled_and_reconciling:
  assumes "exclusive obj"
    and gone: "cn_status env AtStall = PatchOK \<longrightarrow> cn_status env AtOutcome = PatchOK"
  shows "exclusive (persisted (fst (reconcile env obj)) obj)"
proof (cases "ic_deleting obj")
  case True
  have "list_all keeps_exclusive (fst (finalize env obj))"
    by (auto simp: finalize_def list_all_iff split: prod.splits option.splits)
  with assms(1) True show ?thesis by (simp add: reconcile_def persisted_exclusive)
next
  case False
  let ?fin = "if finalizer \<in> set (ic_finalizers obj) then lift (Inr ())
          else (case cn_finalizer env of None \<Rightarrow> emit (EvPatch add_finalizer)
            | Some e \<Rightarrow> lift (Inl (Wrap ''adding finalizer'' e)))"
  have f: "list_all keeps_exclusive (fst ?fin)" by (auto split: option.splits)
  let ?o = "persisted (fst (backfill env obj)) (persisted (fst ?fin) obj)"
  have o: "exclusive (persisted (fst ?fin) obj)" using persisted_exclusive[OF f assms(1)] .
  have o': "exclusive ?o" by (rule persisted_exclusive[OF backfill_keeps o])
  show ?thesis
  proof (cases "snd ?fin")
    case (Inl e)
    then have "fst (reconcile env obj) = fst ?fin" using False by (simp only: reconcile_def if_False fst_and_then) simp
    with o show ?thesis by simp
  next
    case (Inr u)
    let ?rest = "if sc_suspend (ic_spec (snd (backfill env obj))) then
          and_then (patch_status env AtOutcome set_suspended) (\<lambda>_. lift (Inr NoRequeue))
        else work env (snd (backfill env obj))"
    have e: "fst (reconcile env obj) = fst ?fin @ fst (backfill env obj) @ fst ?rest"
      using False Inr by (simp only: reconcile_def if_False fst_and_then) simp
    have "run_all keeps_exclusive (and_then (patch_status env AtOutcome set_suspended) (\<lambda>_. lift (Inr NoRequeue)))"
      by (auto intro!: inv_intros patch_status_keeps)
    then have "exclusive (persisted (fst (and_then (patch_status env AtOutcome set_suspended) (\<lambda>_. lift (Inr NoRequeue)))) ?o)"
      using persisted_exclusive[OF _ o'] by (simp add: run_all_def)
    moreover have "exclusive (persisted (fst (work env (snd (backfill env obj)))) ?o)"
      using work_exclusive[OF o'] gone by blast
    ultimately show ?thesis unfolding e persisted_simps by simp
  qed
qed

theorem never_stalled_and_reconciling_witness:
  "exclusive (persisted (fst (reconcile (sample_controller [(''r/x:v1'', ''sha256:0d'')]) (sample_composition conflict_fail)))
     (sample_composition conflict_fail))"
proof (rule never_stalled_and_reconciling)
  show "exclusive (sample_composition conflict_fail)" by code_simp
  show "cn_status (sample_controller [(''r/x:v1'', ''sha256:0d'')]) AtStall = PatchOK \<longrightarrow>
      cn_status (sample_controller [(''r/x:v1'', ''sha256:0d'')]) AtOutcome = PatchOK"
    by (simp add: sample_controller_def)
qed


subsection \<open>The outcome that is reported\<close>

definition reports :: "string \<Rightarrow> cond_status \<Rightarrow> string \<Rightarrow> 'a conditioned_scheme \<Rightarrow> bool" where
  "reports t s r o' =
     (case co_conds o' t of None \<Rightarrow> False | Some c \<Rightarrow> cd_status c = s \<and> cd_reason c = r)"

lemma reports_simps [simp]:
  "reports t s r (set_condition t' s' r' m o') \<longleftrightarrow> (if t = t' then s = s' \<and> r = r' else reports t s r o')"
  "reports t s r (remove_condition t' o') \<longleftrightarrow> t \<noteq> t' \<and> reports t s r o'"
  "reports t s r (stamped f o2) \<longleftrightarrow> reports t s r (f o2)"
  by (auto simp: reports_def set_condition_def remove_condition_def stamped_def)

lemma stamped_stamps:
  "ic_observed (stamped f o') = co_generation (stamped f o') \<and> ic_handled (stamped f o') = ic_requested (stamped f o')"
  by (simp add: stamped_def)

lemma after_failure_ok:
  assumes "cn_status env AtOutcome = PatchOK"
  shows "\<exists>es f. fst (after_failure env e) = es @ [EvPatch (stamped f)] \<and> list_all no_patch es \<and>
    (if is_pending e then f = set_waiting reason_dependency_not_ready (err_text e) \<and>
        snd (after_failure env e) = Inr (RequeueAfter pending_retry_interval)
     else if is_terminal e then f = (\<lambda>o'. remove_condition reconciling_condition (set_stalled (reason_for e) (err_text e) o')) \<and>
        snd (after_failure env e) = Inr NoRequeue
     else f = set_waiting reason_progressing (err_text e) \<and> snd (after_failure env e) = Inl e)"
proof -
  have p: "patch_status env AtOutcome f = emit (EvPatch (stamped f))" for f
    using assms by (simp add: patch_status_def write_status_def)
  consider "is_pending e" | "\<not> is_pending e" "is_terminal e" | "\<not> is_pending e" "\<not> is_terminal e" by blast
  then show ?thesis
  proof cases
    case 1
    then show ?thesis
      by (intro exI[of _ "[]"] exI[of _ "set_waiting reason_dependency_not_ready (err_text e)"])
        (simp add: after_failure_def p fst_and_then snd_and_then)
  next
    case 2
    then show ?thesis
      by (intro exI[of _ "[EvEmit (mk_event True (reason_for e) (err_text e))]"]
          exI[of _ "\<lambda>o'. remove_condition reconciling_condition (set_stalled (reason_for e) (err_text e) o')"])
        (simp add: after_failure_def p fst_and_then snd_and_then)
  next
    case 3
    then show ?thesis
      by (intro exI[of _ "[EvEmit (mk_event True reason_fetch_failed (err_text e))]"]
          exI[of _ "set_waiting reason_progressing (err_text e)"])
        (simp add: after_failure_def p fst_and_then snd_and_then)
  qed
qed

text \<open>Working on the artifact changes conditions only.\<close>

definition same_content :: "composition \<Rightarrow> composition \<Rightarrow> bool" where
  "same_content a b \<longleftrightarrow>
     co_generation a = co_generation b \<and> ic_requested a = ic_requested b \<and>
     ic_artifact a = ic_artifact b \<and> ic_history a = ic_history b"

text \<open>What every change among the effects leaves alone, the effects leave alone.\<close>

definition leaves :: "(composition \<Rightarrow> 'b) \<Rightarrow> effect \<Rightarrow> bool" where
  "leaves g e = (case e of EvPatch f \<Rightarrow> \<forall>x. g (f x) = g x | _ \<Rightarrow> True)"

lemma leaves_patch [simp]: "leaves g (EvPatch f) \<longleftrightarrow> (\<forall>x. g (f x) = g x)"
  by (simp add: leaves_def)

lemma no_patch_leaves: "no_patch e \<Longrightarrow> leaves g e"
  by (auto simp: no_patch_def leaves_def split: effect.splits)

lemma emits_leave: "\<exists>ev. e = EvEmit ev \<Longrightarrow> leaves g e"
  by (auto simp: leaves_def)

lemma no_patches_leave: "list_all no_patch es \<Longrightarrow> list_all (leaves g) es"
  by (auto simp: list_all_iff no_patch_leaves)

lemma persisted_leaves: "list_all (leaves g) es \<Longrightarrow> g (persisted es o') = g o'"
proof (induction es arbitrary: o')
  case (Cons e es)
  then have "g (persisted es x) = g x" for x by simp
  with Cons.prems show ?case by (auto simp: persisted_def leaves_def split: effect.splits)
qed simp

lemma reconcile_artifact_leaves:
  assumes "\<And>what art x. g (set_progressing what art x) = g x"
  shows "run_all (leaves g) (reconcile_artifact env obj)"
proof -
  have "run_all (leaves g) (report_progress env obj pp)" for pp
    by (auto simp: report_progress_def write_status_def assms intro: inv_intros split: patch_answer.splits)
  then show ?thesis
    unfolding reconcile_artifact_def
    by (auto intro!: inv_intros run_all_mono[OF prepare_emits emits_leave]
        run_all_mono[OF fetch_layers_no_patch no_patch_leaves] run_all_mono[OF settle_no_patch no_patch_leaves])
qed

lemma artifact_frame:
  assumes "\<And>what art x. g (set_progressing what art x) = g x"
  shows "g (persisted (fst (reconcile_artifact env obj)) o') = g o'"
  using reconcile_artifact_leaves[of g env obj, OF assms] persisted_leaves by (auto simp: run_all_def)

lemma artifact_patches: "same_content (persisted (fst (reconcile_artifact env obj)) o') o'"
  using artifact_frame[of "\<lambda>x. (co_generation x, ic_requested x, ic_artifact x, ic_history x)" env obj o']
  by (simp add: same_content_def set_progressing_def set_condition_def remove_condition_def Let_def)

text \<open>
  Property C34. A pass that fails reports why, and when it is tried again: a missing dependency
  leaves the object reconciling and comes back after a fixed interval, an error only a spec change
  can fix leaves it stalled and does not come back, anything else leaves it reconciling and is
  returned for backoff; in each case the object is not ready, the published artifact and history are
  those before the failure, and the generation and reconcile request are acknowledged.
\<close>

theorem failure_reported:
  assumes ok: "cn_status env AtOutcome = PatchOK"
    and fail: "snd (reconcile_artifact env obj) = Inl e"
    and o': "o' = persisted (fst (work env obj)) obj"
  shows "ic_observed o' = co_generation obj \<and> ic_handled o' = ic_requested obj \<and>
    ic_artifact o' = ic_artifact obj \<and> ic_history o' = ic_history obj \<and>
    (\<exists>r. reports ready_condition CFalse r o') \<and>
    (if is_pending e then
       reports reconciling_condition CTrue reason_dependency_not_ready o' \<and> co_conds o' stalled_condition = None \<and>
       snd (work env obj) = Inr (RequeueAfter pending_retry_interval)
     else if is_terminal e then
       reports stalled_condition CTrue (reason_for e) o' \<and> co_conds o' reconciling_condition = None \<and>
       snd (work env obj) = Inr NoRequeue
     else
       reports reconciling_condition CTrue reason_progressing o' \<and> co_conds o' stalled_condition = None \<and>
       snd (work env obj) = Inl e)"
proof -
  obtain es where r: "reconcile_artifact env obj = (es, Inl e)" using fail by (metis prod.collapse)
  obtain fs f where f: "fst (after_failure env e) = fs @ [EvPatch (stamped f)]" "list_all no_patch fs"
    "if is_pending e then f = set_waiting reason_dependency_not_ready (err_text e) \<and>
        snd (after_failure env e) = Inr (RequeueAfter pending_retry_interval)
     else if is_terminal e then f = (\<lambda>o'. remove_condition reconciling_condition (set_stalled (reason_for e) (err_text e) o')) \<and>
        snd (after_failure env e) = Inr NoRequeue
     else f = set_waiting reason_progressing (err_text e) \<and> snd (after_failure env e) = Inl e"
    using after_failure_ok[OF ok, of e] by blast
  let ?o = "persisted es obj"
  have w: "fst (work env obj) = es @ fs @ [EvPatch (stamped f)]" "snd (work env obj) = snd (after_failure env e)"
    by (simp_all add: work_def r f(1))
  have fin: "o' = stamped f ?o" unfolding o' w by (simp add: persisted_no_patch[OF f(2)])
  have same: "co_generation ?o = co_generation obj \<and> ic_requested ?o = ic_requested obj \<and>
      ic_artifact ?o = ic_artifact obj \<and> ic_history ?o = ic_history obj"
    using artifact_patches[of env obj] r by (simp add: same_content_def)
  have frame: "co_generation (f x) = co_generation x \<and> ic_requested (f x) = ic_requested x \<and>
      ic_artifact (f x) = ic_artifact x \<and> ic_history (f x) = ic_history x" for x
    using f(3) by (auto simp: set_waiting_def set_stalled_def set_condition_def remove_condition_def split: if_splits)
  have "ic_observed o' = co_generation obj \<and> ic_handled o' = ic_requested obj \<and>
      ic_artifact o' = ic_artifact obj \<and> ic_history o' = ic_history obj"
    using frame[of ?o] same by (simp add: fin stamped_def)
  moreover have "co_conds (remove_condition t x) t = None" for t and x :: composition
    by (simp add: remove_condition_def)
  then have "co_conds (stamped (set_waiting reason msg) x) stalled_condition = None"
    "co_conds (stamped (\<lambda>o'. remove_condition reconciling_condition (set_stalled reason msg o')) x) reconciling_condition = None"
    for reason msg x by (simp_all add: stamped_def set_waiting_def)
  ultimately show ?thesis
    using f(3) unfolding w(2) fin by (auto simp: set_waiting_def set_stalled_def split: if_splits)
qed

theorem failure_reported_witness:
  "\<exists>e. snd (reconcile_artifact (sample_controller [(''r/x:v1'', ''sha256:0d'')]) (sample_composition conflict_fail)) = Inl e \<and>
     is_terminal e \<and> snd (work (sample_controller [(''r/x:v1'', ''sha256:0d'')]) (sample_composition conflict_fail)) = Inr NoRequeue"
proof -
  let ?env = "sample_controller [(''r/x:v1'', ''sha256:0d'')]" and ?obj = "sample_composition conflict_fail"
  have "case snd (reconcile_artifact ?env ?obj) of Inr r \<Rightarrow> False | Inl e \<Rightarrow> is_terminal e \<and> \<not> is_pending e"
    by code_simp
  then obtain e where e: "snd (reconcile_artifact ?env ?obj) = Inl e" "is_terminal e" "\<not> is_pending e"
    by (auto split: sum.splits)
  have ok: "cn_status ?env AtOutcome = PatchOK" by (simp add: sample_controller_def)
  from failure_reported[OF ok e(1) refl] e(2,3) have "snd (work ?env ?obj) = Inr NoRequeue" by simp
  with e show ?thesis by blast
qed

text \<open>The effects of a pass whose work succeeded and that has nothing to export.\<close>

lemma work_success:
  assumes ok: "cn_status env AtOutcome = PatchOK"
    and result: "snd (reconcile_artifact env obj) = Inr r"
    and unexported: "get_write_ref_to (sc_push (ic_spec obj)) = None" "ic_ref_export obj = None"
  shows "fst (work env obj) = fst (reconcile_artifact env obj) @ EvPatch (stamped (set_succeeded (cn_history_limit env) r)) #
      (if bs_record r \<noteq> None \<and> cn_refreshes env then [EvRefresh (bs_artifact r)] else [])"
    "snd (work env obj) = Inr (RequeueAfter (interval (sc_interval (ic_spec obj))))"
    "persisted (fst (work env obj)) o' =
      stamped (set_succeeded (cn_history_limit env) r) (persisted (fst (reconcile_artifact env obj)) o')"
proof -
  obtain es where r: "reconcile_artifact env obj = (es, Inr r)" using result by (metis prod.collapse)
  let ?f = "set_succeeded (cn_history_limit env) r"
  have p: "patch_status env AtOutcome ?f = emit (EvPatch (stamped ?f))"
    using ok by (simp add: patch_status_def write_status_def)
  have x: "after_export env obj (bs_artifact r) = ([], Inr (RequeueAfter (interval (sc_interval (ic_spec obj)))))"
  proof -
    have "export_step env obj (bs_artifact r) = ([], Inr ())"
      unfolding export_step_def Let_def by (simp add: unexported prod_eq_iff)
    then show ?thesis by (simp add: after_export_def)
  qed
  show w: "fst (work env obj) = fst (reconcile_artifact env obj) @ EvPatch (stamped ?f) #
      (if bs_record r \<noteq> None \<and> cn_refreshes env then [EvRefresh (bs_artifact r)] else [])"
    "snd (work env obj) = Inr (RequeueAfter (interval (sc_interval (ic_spec obj))))"
    by (simp_all add: work_def r after_success_def p x fst_and_then snd_and_then)
  show "persisted (fst (work env obj)) o' = stamped ?f (persisted (fst (reconcile_artifact env obj)) o')"
    unfolding w(1) persisted_simps by (auto simp: persisted_def)
qed

text \<open>
  A pass that succeeds and has nothing to export reports exactly what it published:
  the object is ready and neither reconciling nor stalled, status holds the artifact, hash, material
  and conflict of this pass, the history gains its record if there is one and keeps within the
  limit, and the next pass is due after the interval.
\<close>

theorem success_reported:
  assumes ok: "cn_status env AtOutcome = PatchOK"
    and result: "snd (reconcile_artifact env obj) = Inr r"
    and unexported: "get_write_ref_to (sc_push (ic_spec obj)) = None" "ic_ref_export obj = None"
    and o': "o' = persisted (fst (work env obj)) obj"
  shows "reports ready_condition CTrue reason_succeeded o' \<and> co_conds o' reconciling_condition = None \<and>
    co_conds o' stalled_condition = None \<and> ic_artifact o' = Some (bs_artifact r) \<and>
    ic_input_hash o' = bs_input_hash r \<and> ic_attestations o' = bs_attestations r \<and> ic_conflict o' = bs_conflict r \<and>
    (bs_record r = None \<longrightarrow> ic_history o' = ic_history obj) \<and>
    (\<forall>b. bs_record r = Some b \<longrightarrow> hd (ic_history o') = b \<and>
       int (length (ic_history o')) \<le> max 1 (history_limit (sc_push (ic_spec o')) (cn_history_limit env))) \<and>
    ic_observed o' = co_generation obj \<and>
    snd (work env obj) = Inr (RequeueAfter (interval (sc_interval (ic_spec obj))))"
proof -
  let ?f = "set_succeeded (cn_history_limit env) r" and ?o = "persisted (fst (reconcile_artifact env obj)) obj"
  note w = work_success[OF ok result unexported]
  have fin: "o' = stamped ?f ?o" unfolding o' w(3) ..
  have same: "co_generation ?o = co_generation obj" "ic_history ?o = ic_history obj"
    using artifact_patches[of env obj] by (simp_all add: same_content_def)
  have frame: "co_generation (stamped ?f y) = co_generation y" "ic_observed (stamped ?f y) = co_generation y"
    "ic_artifact (stamped ?f y) = Some (bs_artifact r)" "ic_input_hash (stamped ?f y) = bs_input_hash r"
    "ic_attestations (stamped ?f y) = bs_attestations r" "ic_conflict (stamped ?f y) = bs_conflict r"
    "ic_history (stamped ?f y) = record_history (ic_history y) (bs_record r)
       (history_limit (sc_push (ic_spec y)) (cn_history_limit env))"
    "ic_spec (stamped ?f y) = ic_spec y" for y
    by (simp_all add: stamped_def set_succeeded_def set_condition_def remove_condition_def)
  have conds: "reports ready_condition CTrue reason_succeeded o'" "co_conds o' reconciling_condition = None"
    "co_conds o' stalled_condition = None"
    by (simp_all add: fin set_succeeded_def stamped_def remove_condition_def)
      (simp add: reports_def set_condition_def)
  let ?limit = "history_limit (sc_push (ic_spec o')) (cn_history_limit env)"
  have h: "ic_history o' = record_history (ic_history obj) (bs_record r) ?limit" unfolding fin frame same ..
  have none: "bs_record r = None \<longrightarrow> ic_history o' = ic_history obj" unfolding h by (simp add: record_history_def)
  have some: "\<forall>b. bs_record r = Some b \<longrightarrow> hd (ic_history o') = b \<and> int (length (ic_history o')) \<le> max 1 ?limit"
    unfolding h by (auto simp: record_history_def keep_history_take Let_def min_def max_def)
  have rest: "ic_artifact o' = Some (bs_artifact r)" "ic_input_hash o' = bs_input_hash r"
    "ic_attestations o' = bs_attestations r" "ic_conflict o' = bs_conflict r" "ic_observed o' = co_generation obj"
    unfolding fin frame same by (rule refl)+
  have due: "snd (work env obj) = Inr (RequeueAfter (interval (sc_interval (ic_spec obj))))" using w(2) by simp
  show ?thesis by (intro conjI conds rest none some due)
qed

theorem success_reported_witness:
  "reports ready_condition CTrue reason_succeeded
     (persisted (fst (work (sample_controller []) (sample_composition conflict_fail))) (sample_composition conflict_fail))"
proof -
  let ?env = "sample_controller []" and ?obj = "sample_composition conflict_fail"
  have "\<not> isl (snd (reconcile_artifact ?env ?obj))" by code_simp
  then obtain r where r: "snd (reconcile_artifact ?env ?obj) = Inr r" by (metis isl_def sum.exhaust)
  have ok: "cn_status ?env AtOutcome = PatchOK" by (simp add: sample_controller_def)
  have n: "get_write_ref_to (sc_push (ic_spec ?obj)) = None" "ic_ref_export ?obj = None"
    by (simp_all add: sample_composition_def sample_push_def get_write_ref_to_def)
  show ?thesis by (rule conjunct1[OF success_reported[OF ok r n refl]])
qed

end
