(* ===== verification/Build_Theorems.thy ===== *)
theory Build_Theorems
  imports Build_Controller Build_Job_Theorems Composition_Status
begin

section \<open>What the build controller guarantees\<close>

text \<open>
  The retry intervals, the state machine over a failed Job, when a build starts and what it may tag,
  and what every pass leaves in status.
\<close>

subsection \<open>Retries\<close>

lemma backoff_loop_spec:
  "0 < d \<Longrightarrow> min (backoff_loop n d) max_failure_backoff = min (d * 2 ^ n) max_failure_backoff"
proof (induction n arbitrary: d)
  case (Suc n)
  show ?case
  proof (cases "d \<ge> max_failure_backoff")
    case True
    have "(1 :: int) \<le> 2 ^ Suc n" by (rule one_le_power) simp
    then have "d * 1 \<le> d * 2 ^ Suc n" using Suc.prems by (intro mult_left_mono) simp_all
    with True show ?thesis by simp
  next
    case False
    with Suc show ?thesis by (simp add: mult.assoc)
  qed
qed simp

text \<open>
  Property C35. The wait after \<open>n\<close> failures is thirty seconds doubled \<open>n\<close> times and at most ten
  minutes, for every value of the 32-bit counter (a wrapped-around, negative one waits thirty seconds);
  so it never leaves those bounds and does not shrink while the counter grows.
\<close>

theorem failure_backoff_bounds:
  "failure_backoff n = min (pending_retry_interval * 2 ^ nat (sint n)) max_failure_backoff \<and>
   pending_retry_interval \<le> failure_backoff n \<and> failure_backoff n \<le> 600 * second \<and>
   (sint m \<le> sint n \<longrightarrow> failure_backoff m \<le> failure_backoff n)"
proof -
  have eq: "failure_backoff k = min (pending_retry_interval * 2 ^ nat (sint k)) max_failure_backoff" for k
    unfolding failure_backoff_def
    by (rule backoff_loop_spec) (simp add: pending_retry_interval_def second_def)
  have pos: "0 < pending_retry_interval" "pending_retry_interval \<le> max_failure_backoff"
    by (simp_all add: pending_retry_interval_def max_failure_backoff_def second_def)
  have "pending_retry_interval * 1 \<le> pending_retry_interval * 2 ^ nat (sint n)"
    using pos(1) by (intro mult_left_mono) simp_all
  moreover have "pending_retry_interval * 2 ^ nat (sint m) \<le> pending_retry_interval * 2 ^ nat (sint n)"
    if "sint m \<le> sint n"
    using that pos(1) by (intro mult_left_mono power_increasing nat_mono) simp_all
  ultimately show ?thesis using pos(2) unfolding eq max_failure_backoff_def by auto
qed

theorem failure_backoff_bounds_witness:
  "failure_backoff 3 = 240 * second \<and> failure_backoff 9 = 600 * second \<and> failure_backoff (- 1) = 30 * second \<and>
   failure_backoff 3 \<le> failure_backoff 9"
proof -
  have s: "sint (3 :: 32 word) = 3" "sint (9 :: 32 word) = 9" "sint (- 1 :: 32 word) = - 1"
    by code_simp+
  have "sint (3 :: 32 word) \<le> sint (9 :: 32 word)" by (simp add: s)
  then have "failure_backoff 3 \<le> failure_backoff 9" using failure_backoff_bounds[of 9 3] by blast
  with failure_backoff_bounds[of 3 0] failure_backoff_bounds[of 9 0] failure_backoff_bounds[of "- 1" 0]
  show ?thesis
    by (simp add: s pending_retry_interval_def max_failure_backoff_def second_def)
qed

subsection \<open>A failed Job\<close>

text \<open>Passes that observe one failed Job, at whatever times, one after the other.\<close>

inductive failed_passes ::
    "builder \<Rightarrow> batch_job \<Rightarrow> image_build \<Rightarrow> nat \<Rightarrow> build_effect list \<Rightarrow> image_build \<Rightarrow> bool"
  for env job obj where
  unseen: "failed_passes env job obj 0 [] obj"
| observed: "failed_passes env job obj n es o' \<Longrightarrow>
    failed_passes env job obj (Suc n)
      (es @ trace_of (observe_job (env\<lparr>bn_now := t\<rparr>) job inputs ih) o')
      (left_by (observe_job (env\<lparr>bn_now := t\<rparr>) job inputs ih) o')"

inductive_cases failed_passes_0E: "failed_passes env job obj 0 es o'"

lemma observe_failed_left:
  "left_by (observe_failed env job) obj =
     (if ib_build_ref obj \<noteq> None then note_first_failure (job_failure_detail env job) (bn_now env) obj else obj)"
  by (simp add: observe_failed_def act_simps split: sum.splits)

lemma observe_failed_trace:
  "trace_of (observe_failed env job) obj =
     (if ib_build_ref obj = None \<and> retry_due (bn_now env) obj then [BDeleteJob (bj_name job)] else [])"
  by (simp add: observe_failed_def act_simps split: sum.splits)

lemma observe_failed_result: "\<exists>e. result_of (observe_failed env job) obj = Inl e"
  by (simp add: observe_failed_def act_simps split: sum.splits)

lemma observe_job_failed:
  "job_failed job \<Longrightarrow> \<not> job_succeeded job \<Longrightarrow> observe_job env job inputs ih = observe_failed env job"
  by (simp add: observe_job_def)

lemma note_first_failure_fields [simp]:
  "ib_build_ref (note_first_failure msg now obj) = None"
  "ib_failures (note_first_failure msg now obj) = ib_failures obj + 1"
  "ib_artifact (note_first_failure msg now obj) = ib_artifact obj"
  "ib_input_hash (note_first_failure msg now obj) = ib_input_hash obj"
  "ib_history (note_first_failure msg now obj) = ib_history obj"
  by (simp_all add: note_first_failure_def on_attempt_def)

text \<open>
  However often, and whenever, the controller observes one failed Job, the failure
  is counted once, on the first observation of the Job it was waiting for and on no other; what was
  published stays recorded; the Job is never deleted in the pass that counts it, and later only once
  the wait for the recorded number of failures is over; and every pass reports an error.
\<close>

theorem failure_counted_once:
  assumes "failed_passes env job obj n es o'" and "job_failed job" "\<not> job_succeeded job"
  shows "(0 < n \<longrightarrow> ib_build_ref o' = None \<and>
      ib_failures o' = ib_failures obj + (if ib_build_ref obj \<noteq> None then 1 else 0)) \<and>
    ib_artifact o' = ib_artifact obj \<and> ib_input_hash o' = ib_input_hash obj \<and> ib_history o' = ib_history obj \<and>
    (n = 1 \<longrightarrow> ib_build_ref obj \<noteq> None \<longrightarrow> es = []) \<and>
    (trace_of (observe_job (env\<lparr>bn_now := t\<rparr>) job inputs ih) o' \<noteq> [] \<longrightarrow>
      ib_build_ref o' = None \<and> retry_due t o') \<and>
    (\<exists>e. result_of (observe_job env job inputs ih) o' = Inl e)"
proof -
  have passes: "(0 < n \<longrightarrow> ib_build_ref o' = None \<and>
      ib_failures o' = ib_failures obj + (if ib_build_ref obj \<noteq> None then 1 else 0)) \<and>
    ib_artifact o' = ib_artifact obj \<and> ib_input_hash o' = ib_input_hash obj \<and> ib_history o' = ib_history obj"
    using assms(1)
  proof (induction rule: failed_passes.induct)
    case (observed n es o1 t1 inputs1 ih1)
    note left = observe_job_failed[OF assms(2,3)] observe_failed_left
    show ?case
    proof (cases n)
      case 0
      with observed.hyps have "o1 = obj" by (auto elim: failed_passes_0E)
      then show ?thesis by (simp add: left)
    next
      case (Suc k)
      with observed.IH have "ib_build_ref o1 = None" by simp
      with observed.IH Suc show ?thesis by (simp add: left)
    qed
  qed simp
  have "es = []" if "n = 1" "ib_build_ref obj \<noteq> None"
    using assms(1) that by (cases rule: failed_passes.cases)
      (auto elim: failed_passes_0E simp: observe_job_failed[OF assms(2,3)] observe_failed_trace)
  moreover have "ib_build_ref o' = None \<and> retry_due t o'"
    if "trace_of (observe_job (env\<lparr>bn_now := t\<rparr>) job inputs ih) o' \<noteq> []"
    using that by (simp add: observe_job_failed[OF assms(2,3)] observe_failed_trace split: if_splits)
  moreover have "\<exists>e. result_of (observe_job env job inputs ih) o' = Inl e"
    unfolding observe_job_failed[OF assms(2,3)] by (rule observe_failed_result)
  ultimately show ?thesis using passes by blast
qed

text \<open>A builder whose registry holds what it is told, and whose Jobs are as given.\<close>

definition sample_builder :: "registry \<Rightarrow> batch_job lookup \<Rightarrow> builder" where
  "sample_builder reg job =
     \<lparr>bn_default = \<lparr>dr_host = ''reg.io'', dr_public = [], dr_secret = [], dr_namespace = []\<rparr>,
      bn_job_config = sample_job_config, bn_require_pinned = False,
      bn_flux = (\<lambda>kind ns name gv. FluxFound (sample_flux 2)), bn_secret = (\<lambda>ns n. Found ''7''),
      bn_config_map = (\<lambda>ns n. Missing), bn_sha256 = (\<lambda>s. ''h''), bn_client = sample_context,
      bn_auth = \<lparr>se_get = (\<lambda>ns n. Missing), se_json = (\<lambda>s. None), se_base64 = (\<lambda>s. None)\<rparr>,
      bn_registry = reg, bn_repo_ok = (\<lambda>r. True), bn_hash_ok = (\<lambda>h. True), bn_job_get = (\<lambda>n. job),
      bn_job_create = (\<lambda>j. Created), bn_job_delete = (\<lambda>n. None),
      bn_pods = (\<lambda>n. Inr [\<lparr>pd_name = ''p'', pd_namespace = ''team'', pd_init = [], pd_containers =
        [\<lparr>kx_name = ''build'', kx_terminated = Some \<lparr>te_exit = 0, te_reason = [], te_message = ''sha256:bb''\<rparr>\<rparr>]\<rparr>]),
      bn_metadata = (\<lambda>m. Some m), bn_operator_secret = (\<lambda>ns n. Missing), bn_secret_create = (\<lambda>s. Created),
      bn_secret_get = (\<lambda>ns n. Missing), bn_secret_update = (\<lambda>s. None), bn_own = (\<lambda>n. None),
      bn_token = Inr ''t'', bn_now = 5, bn_history_limit = 3, bn_poll = 0, bn_attestor = None,
      bn_attest = plain_env (\<lambda>s. []), bn_export = sample_options, bn_cms = plain_server Missing,
      bn_kind = Inr ''ImageBuild'', bn_refreshes = True, bn_patch = (\<lambda>fs. None), bn_echo = id,
      bn_status = PatchOK\<rparr>"

definition sample_job_state :: "int \<Rightarrow> int \<Rightarrow> batch_job" where
  "sample_job_state succeeded failed =
     \<lparr>bj_name = ''app-68'', bj_namespace = ''team'', bj_succeeded = succeeded, bj_failed = failed,
      bj_conditions = []\<rparr>"

definition waiting_build :: image_build where
  "waiting_build = flux_build\<lparr>ib_build_ref := Some ''app-68'', ib_failures := 2\<rparr>"

theorem failure_counted_once_witness:
  "\<exists>es o'. failed_passes (sample_builder (tag_registry []) Missing) (sample_job_state 0 1) waiting_build 2 es o' \<and>
     ib_failures o' = 3"
proof -
  let ?env = "sample_builder (tag_registry []) Missing" and ?job = "sample_job_state 0 1"
  obtain es o' where o: "failed_passes ?env ?job waiting_build (Suc (Suc 0)) es o'"
    by (meson failed_passes.intros)
  have f: "job_failed ?job" "\<not> job_succeeded ?job" by code_simp+
  have "ib_build_ref waiting_build \<noteq> None" "ib_failures waiting_build = 2" by (simp_all add: waiting_build_def)
  then have "ib_failures o' = 3" using failure_counted_once[OF o f] by simp
  with o show ?thesis by (auto simp: numeral_2_eq_2)
qed

subsection \<open>What a build may tag\<close>

definition tags_of :: "build_effect list \<Rightarrow> (string \<times> string) list" where
  "tags_of es = List.map_filter (\<lambda>e. case e of BTag r d \<Rightarrow> Some (r, d) | _ \<Rightarrow> None) es"

lemma tags_of_simps [simp]:
  "tags_of [] = []" "tags_of (BTag r d # es) = (r, d) # tags_of es"
  "tags_of (es @ fs) = tags_of es @ tags_of fs" "tags_of (BEmit v # es) = tags_of es"
  by (simp_all add: tags_of_def map_filter_def)

lemma tag_all_spec:
  "\<exists>k. fst (tag_all env repo digest desc ts) = map (\<lambda>t. BTag (tag_ref repo t) desc) (take k ts) \<and>
     (snd (tag_all env repo digest desc ts) = Inr () \<longrightarrow> k = length ts)"
proof (induction ts)
  case Nil
  then show ?case by simp
next
  case (Cons t ts)
  let ?put = "rg_put_tag (bn_registry env) (tag_ref repo t) desc"
  show ?case
  proof (cases "rg_tag_ok (bn_registry env) (tag_ref repo t)")
    case False
    then show ?thesis by (intro exI[of _ 0]) simp
  next
    case ok: True
    show ?thesis
    proof (cases ?put)
      case None
      from Cons.IH obtain k where
        "fst (tag_all env repo digest desc ts) = map (\<lambda>t. BTag (tag_ref repo t) desc) (take k ts)"
        "snd (tag_all env repo digest desc ts) = Inr () \<longrightarrow> k = length ts" by blast
      with ok None show ?thesis
        by (intro exI[of _ "Suc k"]) (simp add: attempt_def map_run_err_def)
    next
      case (Some e)
      with ok show ?thesis by (intro exI[of _ 1]) (simp add: attempt_def map_run_err_def)
    qed
  qed
qed

lemma map_BTag_tags: "tags_of (map (\<lambda>t. BTag (tag_ref repo t) desc) ts) = map (\<lambda>t. (tag_ref repo t, desc)) ts"
  by (induction ts) simp_all

lemma effective_tags_nonempty: "effective_tags ts ref = Inr tags \<Longrightarrow> [] \<notin> set tags"
  using unique_tags_spec[of "{}"] by (auto simp: effective_tags_def split: sum.splits)

text \<open>Where \<open>apply_tags\<close> ends: refused, kept, or named.\<close>

lemma apply_tags_cases:
  assumes t: "effective_tags (get_tags (xs_push (ib_spec obj))) (get_ref (xs_push (ib_spec obj))) = Inr tags"
    and r: "registry_for env obj = Inr repo"
  obtains (refused) e where "apply_tags env obj digest = ([], Inl e)"
  | (kept) pub tag cur where "resolve_published (bn_registry env) repo tags (ib_artifact obj) = Inr pub"
      "conflicts pub tags digest = (tag, cur)" "tag \<noteq> []" "conflict_policy (xs_push (ib_spec obj)) = conflict_keep"
      "apply_tags env obj digest = ([], Inr (Some (kept_conflict tag cur digest (bn_now env))))"
  | (named) pub desc where "resolve_published (bn_registry env) repo tags (ib_artifact obj) = Inr pub"
      "fst (conflicts pub tags digest) = [] \<or> conflict_policy (xs_push (ib_spec obj)) \<notin> {conflict_fail, conflict_keep}"
      "rg_get (bn_registry env) (must_digest_ref (bn_registry env) repo digest) = Inr desc"
      "apply_tags env obj digest =
         and_then (tag_all env repo digest desc (publish_tags tags digest)) (\<lambda>_. lift (Inr None))"
proof -
  note def = apply_tags_def[of env obj digest, unfolded Let_def t r and_then_lift]
  show thesis
  proof (cases "repo = [] \<or> isl (resolve_published (bn_registry env) repo tags (ib_artifact obj))")
    case True
    then have "\<exists>e. apply_tags env obj digest = ([], Inl e)" by (auto simp: def lift_def isl_def)
    then show thesis using refused by blast
  next
    case False
    then obtain pub where p: "repo \<noteq> []" "resolve_published (bn_registry env) repo tags (ib_artifact obj) = Inr pub"
      by (cases "resolve_published (bn_registry env) repo tags (ib_artifact obj)") auto
    obtain tag cur where c: "conflicts pub tags digest = (tag, cur)" by fastforce
    consider "tag \<noteq> [] \<and> conflict_policy (xs_push (ib_spec obj)) = conflict_fail"
      | "tag \<noteq> []" "conflict_policy (xs_push (ib_spec obj)) = conflict_keep"
      | "tag = [] \<or> conflict_policy (xs_push (ib_spec obj)) \<notin> {conflict_fail, conflict_keep}" by blast
    then show thesis
    proof cases
      case 1
      with p c show thesis by (intro refused) (simp add: def lift_def)
    next
      case 2
      with p c show thesis by (intro kept) (simp_all add: def lift_def)
    next
      case 3
      then have a: "apply_tags env obj digest = name_content env repo tags digest"
        using p c by (auto simp: def)
      show thesis
      proof (cases "rg_get (bn_registry env) (must_digest_ref (bn_registry env) repo digest)")
        case (Inl e)
        with a show thesis by (cases "is_not_found e") (intro refused; simp add: name_content_def lift_def)+
      next
        case (Inr desc)
        with a p c 3 show thesis by (intro named) (auto simp: name_content_def)
      qed
    qed
  qed
qed

text \<open>
  Property C3. What a finished build tags is its own output: the digest's manifest as the registry
  serves it, under the spec's tags in order and then the digest's own, all of them when the pass
  reports no conflict. Under the policies Fail and Keep nothing is tagged, not even the digest's own
  name, unless every tag of the spec is unset or already means this digest; and a kept tag is one of
  the spec's, with what the registry holds for it and the digest that was dropped.
\<close>

theorem build_tags_guarded:
  assumes t: "effective_tags (get_tags (xs_push (ib_spec obj))) (get_ref (xs_push (ib_spec obj))) = Inr tags"
    and r: "registry_for env obj = Inr repo"
  shows "(\<exists>desc k. tags_of (fst (apply_tags env obj digest)) =
        map (\<lambda>t. (tag_ref repo t, desc)) (take k (publish_tags tags digest)) \<and>
      (0 < k \<longrightarrow> rg_get (bn_registry env) (must_digest_ref (bn_registry env) repo digest) = Inr desc) \<and>
      (snd (apply_tags env obj digest) = Inr None \<longrightarrow> k = length (publish_tags tags digest))) \<and>
    (conflict_policy (xs_push (ib_spec obj)) \<in> {conflict_fail, conflict_keep} \<and>
        tags_of (fst (apply_tags env obj digest)) \<noteq> [] \<longrightarrow>
      (\<forall>t \<in> set tags. \<forall>cur. rg_head (bn_registry env) (tag_ref repo t) = Inr cur \<longrightarrow> cur = digest)) \<and>
    (\<forall>c. snd (apply_tags env obj digest) = Inr (Some c) \<longrightarrow>
      conflict_policy (xs_push (ib_spec obj)) = conflict_keep \<and> tags_of (fst (apply_tags env obj digest)) = [] \<and>
      tc_tag c \<in> set tags \<and> rg_head (bn_registry env) (tag_ref repo (tc_tag c)) = Inr (tc_existing c) \<and>
      tc_dropped c = digest)"
  using t r
proof (cases rule: apply_tags_cases[where digest = digest, consumes 2, case_names refused kept named])
  case (refused e)
  then show ?thesis by (auto intro!: exI[of _ "[]"] exI[of _ 0])
next
  case (kept pub tag cur)
  from conflicts_spec[OF kept(2,3)] resolve_published_tags(1)[OF kept(1)] kept show ?thesis
    by (auto simp: kept_conflict_def intro!: exI[of _ "[]"] exI[of _ 0])
next
  case (named pub desc)
  let ?all = "tag_all env repo digest desc (publish_tags tags digest)"
  have parts: "fst (apply_tags env obj digest) = fst ?all"
    "snd (apply_tags env obj digest) = Inr None \<longrightarrow> snd ?all = Inr ()"
    "snd (apply_tags env obj digest) \<noteq> Inr (Some c)" for c
    by (simp_all add: named(4) fst_and_then snd_and_then bind_res_def split: sum.splits)
  from tag_all_spec[of env repo digest desc "publish_tags tags digest"] obtain k where
    "fst ?all = map (\<lambda>t. BTag (tag_ref repo t) desc) (take k (publish_tags tags digest))"
    "snd ?all = Inr () \<longrightarrow> k = length (publish_tags tags digest)" by blast
  with parts named(3) have first: "\<exists>desc k. tags_of (fst (apply_tags env obj digest)) =
        map (\<lambda>t. (tag_ref repo t, desc)) (take k (publish_tags tags digest)) \<and>
      (0 < k \<longrightarrow> rg_get (bn_registry env) (must_digest_ref (bn_registry env) repo digest) = Inr desc) \<and>
      (snd (apply_tags env obj digest) = Inr None \<longrightarrow> k = length (publish_tags tags digest))"
    by (intro exI[of _ desc] exI[of _ k]) (simp add: map_BTag_tags)
  have "cur = digest"
    if "conflict_policy (xs_push (ib_spec obj)) \<in> {conflict_fail, conflict_keep}" "tag \<in> set tags"
      "rg_head (bn_registry env) (tag_ref repo tag) = Inr cur" for tag cur
  proof -
    have "fst (conflicts pub tags digest) = []" using named(2) that(1) by blast
    moreover have "map_of (pb_tags pub) tag = Some cur"
      using resolve_published_tags(1)[OF named(1)] that(2,3) by blast
    ultimately show ?thesis using no_conflict_spec effective_tags_nonempty[OF t] that(2) by blast
  qed
  with first parts(3) show ?thesis by blast
qed

theorem build_tags_guarded_witness:
  "\<exists>c. snd (apply_tags (sample_builder (tag_registry [(''reg.io/app:v1'', ''sha256:0d'')]) Missing)
       (flux_build\<lparr>ib_spec := sample_spec\<lparr>xs_push := Some ((the (xs_push sample_spec))\<lparr>ps_on_conflict := conflict_keep\<rparr>)\<rparr>\<rparr>)
       ''sha256:bb'') = Inr (Some c) \<and> tc_tag c \<in> set [''v1''] \<and> tc_dropped c = ''sha256:bb''"
proof -
  let ?env = "sample_builder (tag_registry [(''reg.io/app:v1'', ''sha256:0d'')]) Missing"
  let ?obj = "flux_build\<lparr>ib_spec := sample_spec\<lparr>xs_push := Some ((the (xs_push sample_spec))\<lparr>ps_on_conflict := conflict_keep\<rparr>)\<rparr>\<rparr>"
  have t: "effective_tags (get_tags (xs_push (ib_spec ?obj))) (get_ref (xs_push (ib_spec ?obj))) = Inr [''v1'']"
    by code_simp
  have r: "registry_for ?env ?obj = Inr ''reg.io/app''" by code_simp
  have "case snd (apply_tags ?env ?obj ''sha256:bb'') of Inl e \<Rightarrow> False | Inr c \<Rightarrow> c \<noteq> None" by code_simp
  then obtain c where "snd (apply_tags ?env ?obj ''sha256:bb'') = Inr (Some c)" by (auto split: sum.splits)
  with conjunct2[OF conjunct2[OF build_tags_guarded[OF t r, of "''sha256:bb''"]]] show ?thesis by blast
qed

end
