(* ===== verification/Build_Status.thy ===== *)
theory Build_Status
  imports Build_Theorems
begin

section \<open>What a pass over a build leaves behind\<close>

text \<open>
  The stored status after a pass, when a Job is started and what was checked before, what a finished
  Job is reported as, which Secrets the controller touches, and what the context endpoint serves.
\<close>

subsection \<open>The status write\<close>

fun stores :: "build_effect \<Rightarrow> bool" where
  "stores (BStatus o') = True"
| "stores e = False"

abbreviation (input) quiet :: "build_effect \<Rightarrow> bool" where
  "quiet e \<equiv> \<not> stores e"

text \<open>Nothing but the end of a pass writes status, and nothing but \<open>start_build\<close> creates a Job.\<close>

fun creates :: "build_effect \<Rightarrow> bool" where
  "creates (BCreateJob j) = True"
| "creates e = False"

definition plain_effect :: "build_effect \<Rightarrow> bool" where
  "plain_effect e \<longleftrightarrow> \<not> stores e \<and> \<not> creates e"

lemma plain_effect_simps [simp]:
  "plain_effect (BEmit v)" "plain_effect (BTag r d)" "plain_effect (BExport c)" "plain_effect (BCreateSecret s)"
  "plain_effect (BUpdateSecret s)" "plain_effect (BDeleteJob n)" "plain_effect (BAttest x)" "plain_effect (BRefresh a)"
  "plain_effect (BPatch fs)" "\<not> plain_effect (BStatus o')" "\<not> plain_effect (BCreateJob j)"
  by (simp_all add: plain_effect_def)

lemma create_build_secret_plain [inv_intros]: "run_all plain_effect (create_build_secret env obj sec what)"
  unfolding create_build_secret_def Let_def
  by (auto intro!: inv_intros split: option.splits create_answer.splits lookup.splits)

lemma make_secrets_plain [inv_intros]: "run_all plain_effect (make_secrets env obj name dockerfile)"
  unfolding make_secrets_def push_secret_for_def registry_ca_secret_for_def dockerfile_secret_for_def
    context_token_for_def Let_def
  by (auto intro!: inv_intros split: option.splits lookup.splits prod.splits)

lemma tag_all_plain [inv_intros]: "run_all plain_effect (tag_all env repo digest desc ts)"
  by (induction ts) (auto intro!: inv_intros)

lemma apply_tags_plain [inv_intros]: "run_all plain_effect (apply_tags env obj digest)"
  unfolding apply_tags_def name_content_def Let_def
  by (auto intro!: inv_intros split: prod.splits sum.splits)

lemma adopt_plain: "list_all plain_effect (adopt_build_secrets env obj ns job)"
  by (auto simp: adopt_build_secrets_def list_all_iff split: lookup.splits if_splits)

lemma record_kept_plain [inv_intros]: "act_all plain_effect (record_kept c)"
  unfolding record_kept_def emit_event_def by (auto intro!: inv_intros split: option.splits)

lemma sign_build_plain: "list_all plain_effect (fst (sign_build env obj digest))"
  by (auto simp: sign_build_def signing_failure_def Let_def list_all_iff split: option.splits sum.splits prod.splits bool.splits)

lemma build_export_plain [inv_intros]: "act_all plain_effect (build_export env)"
  unfolding build_export_def build_record_export_def Let_def
  by (auto intro!: inv_intros split: option.splits)

lemma build_record_export_plain [inv_intros]: "act_all plain_effect (build_record_export env w)"
  unfolding build_record_export_def by (auto intro!: inv_intros)

lemma read_result_plain [inv_intros]: "act_all plain_effect (read_result_digest env job)"
  unfolding read_result_digest_def
  by (auto intro!: inv_intros split: sum.splits list.splits option.splits prod.splits)

lemma act_all_run [inv_intros]: "list_all P es \<Longrightarrow> act_all P (perform (es, r))"
  by (simp add: act_all_def)

lemma observe_job_plain [inv_intros]: "act_all plain_effect (observe_job env job inputs ih)"
proof -
  have "act_all plain_effect (observe_succeeded env job inputs ih)"
    unfolding observe_succeeded_def using sign_build_plain by (auto intro!: inv_intros)
  moreover have "act_all plain_effect (observe_failed env job)"
    unfolding observe_failed_def by (auto intro!: inv_intros)
  ultimately show ?thesis unfolding observe_job_def by (auto intro!: inv_intros)
qed

lemma lifecycle_plain [inv_intros]: "act_all plain_effect (lifecycle_step env)"
proof -
  have "act_all plain_effect (patch_finalizers env fs)" for fs
    unfolding patch_finalizers_def by (auto intro!: inv_intros)
  then have "act_all plain_effect (\<lambda>s. case patch_finalizers env fs s of
      (es, s', Inl e) \<Rightarrow> (es, s', Inl (Wrap m e)) | (es, s', Inr u) \<Rightarrow> (es, s', Inr None))" for fs m
    by (auto simp: act_all_def trace_of_def split: prod.splits sum.splits) (metis fst_conv)+
  moreover have "act_all plain_effect (finalize_build env)"
    unfolding finalize_build_def by (auto intro!: inv_intros split: prod.splits option.splits simp: list_all_iff)
  ultimately show ?thesis
    unfolding lifecycle_step_def reconcile_export_lifecycle_def by (auto intro!: inv_intros)
qed

lemma build_backfill_plain [inv_intros]: "act_all plain_effect (build_backfill env)"
  unfolding build_backfill_def
  by (auto intro!: inv_intros split: sum.splits prod.splits simp: list_all_iff)

lemma plain_quiet: "plain_effect e \<Longrightarrow> quiet e"
  by (simp add: plain_effect_def)

lemma start_build_quiet: "act_all quiet (start_build env inputs ih url)"
proof -
  have "run_all quiet (make_secrets env obj name d)" for obj name d
    using make_secrets_plain plain_quiet by (rule run_all_mono)
  moreover have "list_all quiet (adopt_build_secrets env obj ns job)" for obj ns job
    using adopt_plain plain_quiet by (rule list.pred_mono_strong)
  ultimately show ?thesis
    unfolding start_build_def by (auto intro!: inv_intros split: option.splits create_answer.splits)
qed

lemma act_all_mono: "act_all P m \<Longrightarrow> (\<And>e. P e \<Longrightarrow> Q e) \<Longrightarrow> act_all Q m"
  unfolding act_all_def by (meson list.pred_mono_strong)

lemma reconcile_build_quiet: "act_all quiet (reconcile_build env)"
proof -
  note [inv_intros] = start_build_quiet act_all_mono[OF lifecycle_plain plain_quiet]
    act_all_mono[OF observe_job_plain plain_quiet] act_all_mono[OF record_kept_plain plain_quiet]
    act_all_mono[OF build_export_plain plain_quiet]
  have "act_all quiet (run_job env inputs ih url)" for inputs ih url
    unfolding run_job_def by (auto intro!: inv_intros split: option.splits)
  note [inv_intros] = this
  have "act_all quiet (converge env inputs ih url)" for inputs ih url
    unfolding converge_def emit_event_def by (auto intro!: inv_intros)
  note [inv_intros] = this
  show ?thesis
    unfolding reconcile_build_def by (auto intro!: inv_intros split: option.splits prod.splits)
qed

text \<open>The object a pass works on.\<close>

definition backfilled :: "('z) builder_scheme \<Rightarrow> image_build \<Rightarrow> image_build" where
  "backfilled env obj = left_by (if ib_deleting obj then ret () else build_backfill env) obj"

lemma stored_by_pass:
  assumes "BStatus o' \<in> set (fst (build_pass env obj))"
  shows "o' = suspended_build (backfilled env obj) \<and> xs_suspend (ib_spec (backfilled env obj)) \<or>
    o' = apply_outcome (error_of (result_of (reconcile_build env) (backfilled env obj)))
       (handled (left_by (reconcile_build env) (backfilled env obj)))"
proof -
  obtain es0 obj1 r0 where b: "(if ib_deleting obj then ret () else build_backfill env) obj = (es0, obj1, r0)"
    by (metis prod_cases3)
  then have bf: "backfilled env obj = obj1" by (simp add: backfilled_def left_by_def)
  have "act_all plain_effect (if ib_deleting obj then ret () else build_backfill env)"
    by (auto intro!: inv_intros)
  then have q0: "BStatus o' \<notin> set es0" using b unfolding act_all_def trace_of_def list_all_iff
    by (metis fst_conv plain_effect_simps(10))
  obtain es obj2 r where c: "reconcile_build env obj1 = (es, obj2, r)" by (metis prod_cases3)
  have q: "BStatus o' \<notin> set es" using reconcile_build_quiet[of env] c unfolding act_all_def trace_of_def list_all_iff
    by (metis fst_conv stores.simps(1))
  have w: "set (fst (write_build_status env x)) \<subseteq> {BStatus x}" for x
    by (simp add: write_build_status_def split: patch_answer.splits)
  have req: "BStatus o' \<notin> set (fst (requeue_build x y))" for x y
    by (auto simp: requeue_build_def fst_and_then split: sum.splits)
  show ?thesis
  proof (cases "xs_suspend (ib_spec obj1) \<and> \<not> ib_deleting obj1")
    case True
    with assms b q0 w[of "suspended_build obj1"] have "o' = suspended_build obj1"
      by (auto simp: build_pass_def fst_and_then split: sum.splits)
    with True show ?thesis by (simp add: bf)
  next
    case False
    let ?st = "apply_outcome (error_of r) (handled obj2)"
    have "o' = ?st"
      using assms b c q0 q req False w[of ?st] by (auto simp: build_pass_def fst_and_then Let_def split: sum.splits)
    then show ?thesis using c by (simp add: bf result_of_def left_by_def)
  qed
qed

subsection \<open>Conditions\<close>

lemma build_cond_simps [simp]:
  "cond_is t s (o'\<lparr>ib_observed := n\<rparr>) \<longleftrightarrow> cond_is t s o'"
  "cond_is t s (o'\<lparr>ib_handled := h\<rparr>) \<longleftrightarrow> cond_is t s o'"
  for o' :: image_build
  by (simp_all add: cond_is_def)

definition listed :: "image_build \<Rightarrow> listed_object" where
  "listed o' =
     \<lparr>lo_namespace = ib_namespace o', lo_name = ib_name o', lo_deleting = ib_deleting o',
      lo_generation = co_generation o', lo_observed = ib_observed o'\<rparr>"

lemma apply_outcome_frame:
  "ib_observed (apply_outcome err o') = ib_observed o'" "co_generation (apply_outcome err o') = co_generation o'"
  "ib_handled (apply_outcome err o') = ib_handled o'" "ib_build_ref (apply_outcome err o') = ib_build_ref o'"
  by (auto simp: apply_outcome_def set_progressing_def set_condition_def remove_condition_def Let_def
      split: option.splits)

lemma apply_outcome_exclusive:
  "\<not> (cond_is stalled_condition CTrue (apply_outcome err o') \<and> cond_is reconciling_condition CTrue (apply_outcome err o'))"
  by (auto simp: apply_outcome_def set_progressing_def Let_def split: option.splits)

lemma apply_outcome_ready:
  "cond_is ready_condition CTrue (apply_outcome err o') \<longleftrightarrow> err = None \<and> ib_build_ref o' = None"
  by (auto simp: apply_outcome_def set_progressing_def Let_def split: option.splits)

lemma apply_outcome_stalled:
  "cond_is stalled_condition CTrue (apply_outcome err o') \<longleftrightarrow> (\<exists>e. err = Some e \<and> is_terminal e)"
  by (auto simp: apply_outcome_def set_progressing_def Let_def split: option.splits)

text \<open>
  Property C10. Whatever a pass over a build meets, the status it stores is never stalled and
  reconciling at once, and carries the generation it was made for: so the retention refresher, which
  skips every cycle while a listed build lags, is never held up by a build that fails or is suspended.
  Unless suspended, the build is Ready exactly when the pass succeeded with no Job in flight, Stalled
  exactly when it failed for good, and the reconcile request it was asked for is acknowledged.
\<close>

theorem build_status_sound:
  assumes "BStatus o' \<in> set (fst (build_pass env obj))"
  shows "\<not> (cond_is stalled_condition CTrue o' \<and> cond_is reconciling_condition CTrue o') \<and>
    ib_observed o' = co_generation o' \<and> builds_pending (Inr [listed o']) = Inr [] \<and>
    (xs_suspend (ib_spec o') \<and> cond_is ready_condition CFalse o' \<or>
     (let r = result_of (reconcile_build env) (backfilled env obj) in
        (cond_is ready_condition CTrue o' \<longleftrightarrow> \<not> isl r \<and> ib_build_ref o' = None) \<and>
        (cond_is stalled_condition CTrue o' \<longleftrightarrow> (\<exists>e. r = Inl e \<and> is_terminal e)) \<and>
        ib_handled o' = ib_requested (left_by (reconcile_build env) (backfilled env obj))))"
  using stored_by_pass[OF assms]
proof (elim disjE conjE)
  let ?obj = "backfilled env obj"
  assume o: "o' = suspended_build ?obj" "xs_suspend (ib_spec ?obj)"
  have "ib_spec o' = ib_spec ?obj" "ib_observed o' = co_generation o'"
    "cond_is ready_condition CFalse o'" "\<not> cond_is reconciling_condition CTrue o'"
    unfolding o(1) suspended_build_def by (simp_all add: set_condition_def remove_condition_def cond_is_def)
  with o(2) show ?thesis by (simp add: builds_pending_def listed_def)
next
  let ?obj = "backfilled env obj"
  assume o: "o' = apply_outcome (error_of (result_of (reconcile_build env) ?obj))
    (handled (left_by (reconcile_build env) ?obj))"
  have e: "error_of r = None \<longleftrightarrow> \<not> isl r" "error_of r = Some e \<longleftrightarrow> r = Inl e" for r :: "requeue res" and e
    by (auto simp: error_of_def isl_def split: sum.splits)
  have obs: "ib_observed o' = co_generation o'" "ib_handled o' = ib_requested (left_by (reconcile_build env) ?obj)"
    by (simp_all add: o apply_outcome_frame handled_def)
  moreover have "builds_pending (Inr [listed o']) = Inr []" using obs(1) by (simp add: builds_pending_def listed_def)
  moreover have "cond_is ready_condition CTrue o' \<longleftrightarrow> \<not> isl (result_of (reconcile_build env) ?obj) \<and> ib_build_ref o' = None"
    unfolding o apply_outcome_ready apply_outcome_frame e(1) ..
  moreover have "cond_is stalled_condition CTrue o' \<longleftrightarrow>
      (\<exists>e. result_of (reconcile_build env) ?obj = Inl e \<and> is_terminal e)"
    unfolding o apply_outcome_stalled e(2) ..
  ultimately show ?thesis using apply_outcome_exclusive unfolding o Let_def by blast
qed

text \<open>A suspended build keeps a Stalled condition it already had.\<close>

lemma suspension_keeps_stalled:
  "cond_is stalled_condition CTrue (suspended_build o') \<longleftrightarrow> cond_is stalled_condition CTrue o'"
  by (simp add: suspended_build_def)

subsection \<open>When a Job is started\<close>

definition jobs_of :: "build_effect list \<Rightarrow> job list" where
  "jobs_of es = List.map_filter (\<lambda>e. case e of BCreateJob j \<Rightarrow> Some j | _ \<Rightarrow> None) es"

lemma jobs_of_append [simp]: "jobs_of (es @ fs) = jobs_of es @ jobs_of fs"
  by (simp add: jobs_of_def map_filter_def)

lemma jobs_of_simps [simp]: "jobs_of [] = []" "jobs_of (BCreateJob j # es) = j # jobs_of es" "jobs_of (BEmit v # es) = jobs_of es"
  by (simp_all add: jobs_of_def map_filter_def)

lemma jobs_of_plain [simp]: "list_all plain_effect es \<Longrightarrow> jobs_of es = []"
  by (induction es) (auto simp: jobs_of_def map_filter_def plain_effect_def split: build_effect.splits)

lemma plain_trace: "act_all plain_effect m \<Longrightarrow> jobs_of (trace_of m s) = []"
  by (simp add: act_all_def)

lemma start_build_jobs:
  "jobs_of (trace_of (start_build env inputs ih url) obj) = [] \<or>
   (\<exists>d secrets j. dockerfile_bytes env obj url = Inr d \<and> checked_dockerfile d = Inr () \<and>
      snd (make_secrets env obj (job_name (ib_name obj) ih) (fst d)) = Inr secrets \<and>
      build_job obj ih url (bi_context_digest inputs) (bn_job_config env) (repository_of env obj) (jx_push secrets)
        (jx_ca secrets) (jx_dockerfile secrets) (jx_context secrets) (cache_available env obj) = Some j \<and>
      jobs_of (trace_of (start_build env inputs ih url) obj) = [j])"
proof -
  have s: "jobs_of (fst (make_secrets env obj n d)) = []" for n d
    using make_secrets_plain[of env obj n d] by (simp add: run_all_def)
  have a: "jobs_of (adopt_build_secrets env obj ns j) = []" for ns j
    using adopt_plain by (rule jobs_of_plain)
  show ?thesis
    by (auto simp: start_build_def act_simps s a split: sum.splits option.splits create_answer.splits)
qed

lemma build_job_name: "build_job obj ih url dig cfg repo ps ca ds cs av = Some j \<Longrightarrow> jb_name j = job_name (ib_name obj) ih"
  by (auto simp: build_job_def Let_def split: option.splits)

lemma run_job_jobs:
  "jobs_of (trace_of (run_job env inputs ih url) obj) = [] \<or>
   (bn_job_get env (job_name (ib_name obj) ih) = Missing \<and> check_tag_conflict env obj = Inr None \<and>
    jobs_of (trace_of (run_job env inputs ih url) obj) = jobs_of (trace_of (start_build env inputs ih url) obj))"
proof -
  have o: "jobs_of (trace_of (observe_job env job inputs ih) s) = []" for job s
    by (rule plain_trace[OF observe_job_plain])
  have k: "jobs_of (trace_of (record_kept c) s) = []" for c s
    by (rule plain_trace[OF record_kept_plain])
  show ?thesis
    by (auto simp: run_job_def act_simps o k current_job_def split: sum.splits option.splits lookup.splits if_splits)
qed

lemma lost_not_found: "is_lost reg ref \<Longrightarrow> \<exists>e. rg_head reg ref = Inl e \<and> is_not_found e"
  by (simp add: is_lost_def split: sum.splits if_splits)

lemma emit_event_jobs: "jobs_of (trace_of (emit_event w r m) s) = []" "left_by (emit_event w r m) s = s"
    "result_of (emit_event w r m) s = Inr ()"
  by (simp_all add: emit_event_def emit_def)

text \<open>
  Property C2. A build's Job is started at most once in a pass, under the name of its inputs, and
  only when no Job of that name exists, the tags leave room for it, and the Dockerfile it runs was read
  and passed the check for pinned bases. When status already names an image built from these inputs,
  a Job is started only if the registry itself answered that its digest or one of its tags is not
  there: a registry that does not answer rebuilds nothing.
\<close>

theorem job_start_justified:
  assumes "j \<in> set (jobs_of (trace_of (converge env inputs ih url) obj))"
  shows "jobs_of (trace_of (converge env inputs ih url) obj) = [j] \<and> jb_name j = job_name (ib_name obj) ih \<and>
    bn_job_get env (job_name (ib_name obj) ih) = Missing \<and> check_tag_conflict env obj = Inr None \<and>
    (\<exists>d. dockerfile_bytes env obj url = Inr d \<and> (\<forall>content. fst d = Some content \<longrightarrow> check_pinned_bases content = Inr ())) \<and>
    (ib_artifact obj \<noteq> None \<and> ib_input_hash obj = ih \<longrightarrow>
      (\<exists>prev repo ref e. ib_artifact obj = Some prev \<and> registry_for env obj = Inr repo \<and>
        ref \<in> set (published_refs repo (xs_push (ib_spec obj)) prev) \<and>
        rg_head (bn_registry env) ref = Inl e \<and> is_not_found e))"
proof -
  have ex: "jobs_of (trace_of (build_export env) s) = []" for s
    by (rule plain_trace[OF build_export_plain])
  have steps: "jobs_of (trace_of (converge env inputs ih url) obj) =
      (if ib_artifact obj \<noteq> None \<and> ib_input_hash obj = ih \<and> still_published env obj then []
       else jobs_of (trace_of (run_job env inputs ih url) obj))"
    by (auto simp: converge_def trace_of_seq ex emit_event_jobs split: sum.splits)
  have some: "jobs_of (trace_of (converge env inputs ih url) obj) \<noteq> []" using assms by force
  then have ran: "jobs_of (trace_of (converge env inputs ih url) obj) = jobs_of (trace_of (run_job env inputs ih url) obj)"
    and lost: "ib_artifact obj \<noteq> None \<and> ib_input_hash obj = ih \<Longrightarrow> \<not> still_published env obj"
    unfolding steps by (simp_all split: if_splits)
  have some: "jobs_of (trace_of (run_job env inputs ih url) obj) \<noteq> []" using some ran by simp
  with run_job_jobs[of env inputs ih url obj] have
    m: "bn_job_get env (job_name (ib_name obj) ih) = Missing" "check_tag_conflict env obj = Inr None"
      "jobs_of (trace_of (run_job env inputs ih url) obj) = jobs_of (trace_of (start_build env inputs ih url) obj)"
    by blast+
  have "jobs_of (trace_of (start_build env inputs ih url) obj) \<noteq> []" using some m(3) by simp
  then obtain d secrets j' where
    s': "dockerfile_bytes env obj url = Inr d" "checked_dockerfile d = Inr ()"
      "snd (make_secrets env obj (job_name (ib_name obj) ih) (fst d)) = Inr secrets"
      "build_job obj ih url (bi_context_digest inputs) (bn_job_config env) (repository_of env obj) (jx_push secrets)
        (jx_ca secrets) (jx_dockerfile secrets) (jx_context secrets) (cache_available env obj) = Some j'"
      "jobs_of (trace_of (start_build env inputs ih url) obj) = [j']"
    using start_build_jobs[of env inputs ih url obj] by blast
  have "j' = j" using assms ran m(3) s'(5) by simp
  note s = s'[unfolded this]
  have "check_pinned_bases content = Inr ()" if "fst d = Some content" for content
    using s(2) that by (auto simp: checked_dockerfile_def split: sum.splits if_splits)
  moreover have "\<exists>prev repo ref e. ib_artifact obj = Some prev \<and> registry_for env obj = Inr repo \<and>
        ref \<in> set (published_refs repo (xs_push (ib_spec obj)) prev) \<and>
        rg_head (bn_registry env) ref = Inl e \<and> is_not_found e"
    if "\<not> still_published env obj"
    using that by (auto simp: still_published_def list_ex_iff dest!: lost_not_found split: option.splits sum.splits if_splits)
  ultimately have
    "\<exists>d. dockerfile_bytes env obj url = Inr d \<and> (\<forall>content. fst d = Some content \<longrightarrow> check_pinned_bases content = Inr ())"
    "ib_artifact obj \<noteq> None \<and> ib_input_hash obj = ih \<longrightarrow>
      (\<exists>prev repo ref e. ib_artifact obj = Some prev \<and> registry_for env obj = Inr repo \<and>
        ref \<in> set (published_refs repo (xs_push (ib_spec obj)) prev) \<and>
        rg_head (bn_registry env) ref = Inl e \<and> is_not_found e)"
    using s(1) lost by blast+
  moreover have "jobs_of (trace_of (converge env inputs ih url) obj) = [j]" using ran m(3) s(5) by simp
  ultimately show ?thesis using m(1,2) build_job_name[OF s(4)] by blast
qed

text \<open>A pass whose status write is accepted stores something.\<close>

lemma pass_stores: "bn_status env = PatchOK \<Longrightarrow> \<exists>o'. BStatus o' \<in> set (fst (build_pass env obj))"
  by (auto simp: build_pass_def write_build_status_def and_then_def emit_def map_run_err_def Let_def
      split: prod.splits sum.splits)

theorem build_status_sound_witness:
  "\<exists>o'. BStatus o' \<in> set (fst (build_pass (sample_builder (tag_registry []) Missing) waiting_build)) \<and>
     ib_observed o' = co_generation o' \<and> builds_pending (Inr [listed o']) = Inr []"
proof -
  have "bn_status (sample_builder (tag_registry []) Missing) = PatchOK" by (simp add: sample_builder_def)
  then obtain o' where "BStatus o' \<in> set (fst (build_pass (sample_builder (tag_registry []) Missing) waiting_build))"
    using pass_stores by blast
  with build_status_sound[OF this] show ?thesis by blast
qed

theorem job_start_justified_witness:
  "\<exists>j. jobs_of (trace_of (converge (sample_builder (tag_registry []) Missing) Input_Hash.sample_build ''sha256:68'' ''http://x'')
       (flux_build\<lparr>ib_artifact := Some (sample_artifact ''sha256:aa'' []), ib_input_hash := ''sha256:68''\<rparr>)) = [j] \<and>
     jb_name j = ''app-68''"
proof -
  let ?es = "trace_of (converge (sample_builder (tag_registry []) Missing) Input_Hash.sample_build ''sha256:68'' ''http://x'')
       (flux_build\<lparr>ib_artifact := Some (sample_artifact ''sha256:aa'' []), ib_input_hash := ''sha256:68''\<rparr>)"
  have "jobs_of ?es \<noteq> []" by code_simp
  then obtain j where j: "j \<in> set (jobs_of ?es)" by (meson last_in_set)
  have "job_name (ib_name (flux_build\<lparr>ib_artifact := Some (sample_artifact ''sha256:aa'' []), ib_input_hash := ''sha256:68''\<rparr>))
      ''sha256:68'' = ''app-68''" by code_simp
  with job_start_justified[OF j] show ?thesis by metis
qed

end
