(* ===== verification/Store.thy ===== *)
theory Store
  imports Archive_Path
begin

section \<open>Content-addressed stores\<close>

text \<open>
  \<^verbatim>\<open>internal/store\<close>: the key of a digest, the interface of a store and two of its backends, the
  in-memory one of \<^verbatim>\<open>memory.go\<close> and the bucket of \<^verbatim>\<open>s3.go\<close>, whose client is a parameter. The
  interface is a record of operations on a state; what every backend promises is the locale
  \<open>object_store\<close>, which the layer cache relies on and which is interpreted by the memory
  store here and by the disk store in its own theory.
\<close>

subsection \<open>Keys\<close>

definition namespace_inputs :: string where
  "namespace_inputs = ''inputs''"

definition path_chars :: "char set" where
  "path_chars = {CHR ''/'', CHR 0x5C, CHR ''.''}"

definition store_key :: "string \<Rightarrow> string \<Rightarrow> string res" where
  "store_key ns digest =
     (case cut CHR '':'' digest of
        None \<Rightarrow> Inl (Msg (''malformed digest '' @ digest @ '': want <algorithm>:<hex>''))
      | Some (algo, hex) \<Rightarrow>
          if algo = [] \<or> hex = [] then Inl (Msg (''malformed digest '' @ digest @ '': want <algorithm>:<hex>''))
          else if list_ex (\<lambda>c. c \<in> path_chars) algo \<or> list_ex (\<lambda>c. c \<in> path_chars) hex
          then Inl (Msg (''malformed digest '' @ digest @ '': unexpected path characters''))
          else Inr (ns @ ''/'' @ algo @ ''/'' @ hex))"

text \<open>\<^verbatim>\<open>MustKey\<close> panics on a malformed digest: \<open>None\<close>.\<close>

definition must_key :: "string \<Rightarrow> string \<Rightarrow> string option" where
  "must_key ns digest = (case store_key ns digest of Inl e \<Rightarrow> None | Inr k \<Rightarrow> Some k)"

text \<open>The shape of a key, and that it determines its digest.\<close>

definition valid_key :: "string \<Rightarrow> bool" where
  "valid_key k \<longleftrightarrow> (\<exists>a b c. k = a @ slash # b @ slash # c \<and>
     list_all (\<lambda>x. x \<noteq> [] \<and> set x \<inter> path_chars = {}) [a, b, c])"

lemma store_key_valid:
  "store_key ns d = Inr k \<Longrightarrow> ns \<noteq> [] \<Longrightarrow> set ns \<inter> path_chars = {} \<Longrightarrow> valid_key k"
  unfolding store_key_def valid_key_def by (auto simp: list_ex_iff disjoint_iff split: option.splits if_splits) blast

lemma store_key_inject:
  assumes "store_key ns d = Inr k" "store_key ns d' = Inr k" shows "d = d'"
proof -
  have key: "\<exists>algo hex. x = algo @ CHR '':'' # hex \<and> slash \<notin> set algo \<and> k = ns @ slash # algo @ slash # hex"
    if "store_key ns x = Inr k" for x
    using that unfolding store_key_def
    by (auto simp: cut_Some path_chars_def list_ex_iff split: option.splits if_splits) blast
  from key[OF assms(1)] key[OF assms(2)] show ?thesis by (auto simp: until_sep_cancel)
qed

subsection \<open>The interface\<close>

record info =
  in_key :: string
  in_size :: int
  in_time :: int

text \<open>A missing key is the sentinel \<^verbatim>\<open>ErrNotFound\<close>, which callers tell from every other error.\<close>

datatype 'a found = Object 'a | NotFound | Failed error

text \<open>What a reader yields, and the error it ends with, if not the end of the file.\<close>

type_synonym content_stream = "string list \<times> error option"

record 's store =
  st_stat :: "'s \<Rightarrow> string \<Rightarrow> info found"
  st_open :: "'s \<Rightarrow> string \<Rightarrow> content_stream found"
  st_write :: "'s \<Rightarrow> string \<Rightarrow> content_stream \<Rightarrow> 's \<times> error option"
  st_delete :: "'s \<Rightarrow> string \<Rightarrow> 's \<times> error option"

text \<open>
  The contract: \<open>content\<close> is what is stored under the valid keys. A write replaces one object by
  the whole of its source or changes nothing, and does the former when it reports success; deleting
  what is gone succeeds.
\<close>

locale object_store =
  fixes st :: "'s store"
    and invar :: "'s \<Rightarrow> bool"
    and valid :: "string \<Rightarrow> bool"
    and content :: "'s \<Rightarrow> string \<Rightarrow> string option"
  assumes open_Object: "invar s \<Longrightarrow> valid k \<Longrightarrow> st_open st s k = Object (cs, None) \<Longrightarrow> content s k = Some (concat cs)"
    and open_NotFound: "invar s \<Longrightarrow> valid k \<Longrightarrow> st_open st s k = NotFound \<Longrightarrow> content s k = None"
    and stat_Object: "invar s \<Longrightarrow> valid k \<Longrightarrow> st_stat st s k = Object i \<Longrightarrow>
      in_key i = k \<and> (\<exists>b. content s k = Some b \<and> in_size i = int (length b))"
    and stat_NotFound: "invar s \<Longrightarrow> valid k \<Longrightarrow> st_stat st s k = NotFound \<Longrightarrow> content s k = None"
    and write_invar: "invar s \<Longrightarrow> valid k \<Longrightarrow> invar (fst (st_write st s k src))"
    and write_atomic: "invar s \<Longrightarrow> valid k \<Longrightarrow> st_write st s k (cs, e) = (s', r) \<Longrightarrow>
      content s' = content s \<or> e = None \<and> content s' = (content s)(k \<mapsto> concat cs)"
    and write_ok: "invar s \<Longrightarrow> valid k \<Longrightarrow> st_write st s k (cs, e) = (s', None) \<Longrightarrow>
      e = None \<and> (content s' k = Some (concat cs) \<or> content s' = content s \<and> content s k \<noteq> None)"
    and delete_invar: "invar s \<Longrightarrow> valid k \<Longrightarrow> invar (fst (st_delete st s k))"
    and delete_atomic: "invar s \<Longrightarrow> valid k \<Longrightarrow> st_delete st s k = (s', r) \<Longrightarrow>
      content s' = content s \<or> content s' = (content s)(k := None)"
    and delete_ok: "invar s \<Longrightarrow> valid k \<Longrightarrow> st_delete st s k = (s', None) \<Longrightarrow> content s' k = None"
begin

text \<open>Every object hashes to the digest its key stands for.\<close>

definition sound :: "(string \<Rightarrow> string) \<Rightarrow> string \<Rightarrow> 's \<Rightarrow> bool" where
  "sound digest_of ns s \<longleftrightarrow>
     (\<forall>k d b. valid k \<and> store_key ns d = Inr k \<and> content s k = Some b \<longrightarrow> digest_of b = d)"

lemma sound_open:
  "sound h ns s \<Longrightarrow> invar s \<Longrightarrow> valid k \<Longrightarrow> store_key ns d = Inr k \<Longrightarrow> st_open st s k = Object (cs, None) \<Longrightarrow>
     h (concat cs) = d"
  unfolding sound_def using open_Object by blast

lemma sound_delete:
  assumes "sound h ns s" "invar s" "valid k"
  shows "sound h ns (fst (st_delete st s k))"
proof -
  obtain s' r where d: "st_delete st s k = (s', r)" by fastforce
  from delete_atomic[OF assms(2,3) d] assms(1) show ?thesis
    unfolding sound_def d by (auto split: if_splits)
qed

lemma sound_write:
  assumes "sound h ns s" "invar s" "valid k" "store_key ns d = Inr k" "e = None \<Longrightarrow> h (concat cs) = d"
    and w: "st_write st s k (cs, e) = (s', r)"
  shows "sound h ns s' \<and> invar s' \<and> (r = None \<longrightarrow> (\<exists>b. content s' k = Some b \<and> h b = d))"
proof -
  have new: "sound h ns s'" if "e = None" "content s' = (content s)(k \<mapsto> concat cs)"
    using assms(1,5) that store_key_inject[OF assms(4)] unfolding sound_def by (auto split: if_splits)
  have "sound h ns s'"
    using write_atomic[OF assms(2,3) w] new assms(1) unfolding sound_def by (elim disjE conjE) simp_all
  moreover have "invar s'" using write_invar[OF assms(2,3), of "(cs, e)"] w by simp
  moreover have "\<exists>b. content s' k = Some b" if "r = None"
    using write_ok[OF assms(2,3), of cs e s'] w that by auto
  ultimately show ?thesis using assms(3,4) unfolding sound_def by blast
qed

end

subsection \<open>The memory store\<close>

record mem_object =
  mo_data :: string
  mo_time :: int

type_synonym memory = "string \<rightharpoonup> mem_object"

definition memory_stat :: "memory \<Rightarrow> string \<Rightarrow> info found" where
  "memory_stat m key =
     (case m key of
        None \<Rightarrow> NotFound
      | Some ob \<Rightarrow> Object \<lparr>in_key = key, in_size = int (length (mo_data ob)), in_time = mo_time ob\<rparr>)"

definition memory_open :: "memory \<Rightarrow> string \<Rightarrow> content_stream found" where
  "memory_open m key = (case m key of None \<Rightarrow> NotFound | Some ob \<Rightarrow> Object ([mo_data ob], None))"

definition memory_write :: "int \<Rightarrow> memory \<Rightarrow> string \<Rightarrow> content_stream \<Rightarrow> memory \<times> error option" where
  "memory_write now m key src =
     (case snd src of
        Some e \<Rightarrow> (m, Some e)
      | None \<Rightarrow> (m(key \<mapsto> \<lparr>mo_data = concat (fst src), mo_time = now\<rparr>), None))"

definition memory_delete :: "memory \<Rightarrow> string \<Rightarrow> memory \<times> error option" where
  "memory_delete m key = (m(key := None), None)"

definition memory_store :: "int \<Rightarrow> memory store" where
  "memory_store now =
     \<lparr>st_stat = memory_stat, st_open = memory_open, st_write = memory_write now, st_delete = memory_delete\<rparr>"

definition memory_content :: "memory \<Rightarrow> string \<Rightarrow> string option" where
  "memory_content m key = map_option mo_data (m key)"

lemma memory_content_update:
  "memory_content (m(key \<mapsto> ob)) = (memory_content m)(key \<mapsto> mo_data ob)"
  "memory_content (m(key := None)) = (memory_content m)(key := None)"
  by (simp_all add: memory_content_def fun_eq_iff)

interpretation mem: object_store "memory_store now" "\<lambda>m. True" "\<lambda>k. True" memory_content for now
  by unfold_locales
    (auto simp: memory_store_def memory_stat_def memory_open_def memory_write_def memory_delete_def
      memory_content_update memory_content_def[of _ "_ :: string"] split: option.splits)

lemma memory_roundtrip:
  "memory_open (fst (memory_write now m key (cs, None))) key = Object ([concat cs], None)"
  by (simp add: memory_write_def memory_open_def)

subsection \<open>The bucket store\<close>

record s3_config =
  sc_endpoint :: string
  sc_bucket :: string
  sc_prefix :: string
  sc_region :: string
  sc_path_style :: bool
  sc_access :: string
  sc_secret :: string

text \<open>\<^verbatim>\<open>url.Parse\<close> of the endpoint, a parameter: its scheme and host.\<close>

definition endpoint_problems :: "(string \<Rightarrow> (string \<times> string) res) \<Rightarrow> string \<Rightarrow> string list" where
  "endpoint_problems parse_url endpoint =
     (if endpoint = [] then [''endpoint is required'']
      else (case parse_url endpoint of
          Inl e \<Rightarrow> [''endpoint '' @ endpoint @ '' is not a URL'']
        | Inr (scheme, host) \<Rightarrow>
            if scheme \<noteq> ''http'' \<and> scheme \<noteq> ''https''
            then [''endpoint '' @ endpoint @ '' needs an http:// or https:// scheme'']
            else if host = [] then [''endpoint '' @ endpoint @ '' has no host'']
            else []))"

definition s3_validate :: "(string \<Rightarrow> (string \<times> string) res) \<Rightarrow> s3_config \<Rightarrow> error option" where
  "s3_validate parse_url cfg =
     (let problems = endpoint_problems parse_url (sc_endpoint cfg) @
            (if sc_bucket cfg = [] then [''bucket is required''] else []) @
            (if (sc_access cfg = []) \<noteq> (sc_secret cfg = [])
             then [''access key ID and secret access key must be set together''] else [])
      in if problems = [] then None else Some (Msg (''s3 store: '' @ join ''; '' problems)))"

text \<open>The client of the bucket: what it answers, and what it stores, under an object name.\<close>

record 'b bucket_client =
  bk_stat :: "'b \<Rightarrow> string \<Rightarrow> info found"
  bk_get :: "'b \<Rightarrow> string \<Rightarrow> content_stream found"
  bk_put :: "'b \<Rightarrow> string \<Rightarrow> content_stream \<Rightarrow> 'b \<times> error option"
  bk_remove :: "'b \<Rightarrow> string \<Rightarrow> 'b \<times> error option"
  bk_missing :: "error \<Rightarrow> bool"

record s3 =
  s3_bucket :: string
  s3_prefix :: string

definition new_s3 ::
    "(string \<Rightarrow> (string \<times> string) res) \<Rightarrow> (string \<Rightarrow> s3_config \<Rightarrow> error option) \<Rightarrow> s3_config \<Rightarrow> s3 res" where
  "new_s3 parse_url new_client cfg =
     (case s3_validate parse_url cfg of
        Some e \<Rightarrow> Inl e
      | None \<Rightarrow>
          (case parse_url (sc_endpoint cfg) of
             Inl e \<Rightarrow> Inl (Wrap ''s3 store: parsing endpoint'' e)
           | Inr (scheme, host) \<Rightarrow>
               (case new_client host cfg of
                  Some e \<Rightarrow> Inl (Wrap ''s3 store'' e)
                | None \<Rightarrow> Inr \<lparr>s3_bucket = sc_bucket cfg, s3_prefix = trim_slashes (sc_prefix cfg)\<rparr>)))"

definition s3_object :: "s3 \<Rightarrow> string \<Rightarrow> string" where
  "s3_object s key = (if s3_prefix s = [] then key else s3_prefix s @ ''/'' @ key)"

definition s3_stat :: "'b bucket_client \<Rightarrow> s3 \<Rightarrow> 'b \<Rightarrow> string \<Rightarrow> info found" where
  "s3_stat c s b key =
     (case bk_stat c b (s3_object s key) of
        NotFound \<Rightarrow> NotFound
      | Failed e \<Rightarrow> if bk_missing c e then NotFound else Failed (Wrap (''stat '' @ key) e)
      | Object i \<Rightarrow> Object \<lparr>in_key = key, in_size = in_size i, in_time = in_time i\<rparr>)"

text \<open>A get is lazy, so its handle is asked for the metadata before it is handed out.\<close>

definition s3_open :: "'b bucket_client \<Rightarrow> s3 \<Rightarrow> 'b \<Rightarrow> string \<Rightarrow> content_stream found" where
  "s3_open c s b key =
     (case bk_get c b (s3_object s key) of
        NotFound \<Rightarrow> NotFound
      | Failed e \<Rightarrow> if bk_missing c e then NotFound else Failed (Wrap (''open '' @ key) e)
      | Object src \<Rightarrow>
          (case bk_stat c b (s3_object s key) of
             NotFound \<Rightarrow> NotFound
           | Failed e \<Rightarrow> if bk_missing c e then NotFound else Failed (Wrap (''open '' @ key) e)
           | Object i \<Rightarrow> Object src))"

definition s3_write :: "'b bucket_client \<Rightarrow> s3 \<Rightarrow> 'b \<Rightarrow> string \<Rightarrow> content_stream \<Rightarrow> 'b \<times> error option" where
  "s3_write c s b key src =
     (case bk_put c b (s3_object s key) src of
        (b', None) \<Rightarrow> (b', None)
      | (b', Some e) \<Rightarrow> (b', Some (Wrap (''write '' @ key) e)))"

definition s3_delete :: "'b bucket_client \<Rightarrow> s3 \<Rightarrow> 'b \<Rightarrow> string \<Rightarrow> 'b \<times> error option" where
  "s3_delete c s b key =
     (case bk_remove c b (s3_object s key) of
        (b', None) \<Rightarrow> (b', None)
      | (b', Some e) \<Rightarrow> if bk_missing c e then (b', None) else (b', Some (Wrap (''delete '' @ key) e)))"

definition s3_store :: "'b bucket_client \<Rightarrow> s3 \<Rightarrow> 'b store" where
  "s3_store c s =
     \<lparr>st_stat = s3_stat c s, st_open = s3_open c s, st_write = s3_write c s, st_delete = s3_delete c s\<rparr>"

end
