(* ===== verification/Disk_Store.thy ===== *)
theory Disk_Store
  imports Store
begin

section \<open>The disk store\<close>

text \<open>
  \<^verbatim>\<open>internal/store/disk.go\<close>: objects as files below a root. A directory maps names to inodes
  and inodes to bytes; an operation of the operating system may fail, which the environment decides.
  First the code, one operation at a time, then what a write leaves at every name, whatever fails, and
  the interpretation of the store's contract.
\<close>

subsection \<open>Files\<close>

record disk_file =
  fl_bytes :: string
  fl_time :: int

record disk =
  dk_names :: "string \<rightharpoonup> nat"
  dk_inodes :: "nat \<rightharpoonup> disk_file"
  dk_dirs :: "string set"
  dk_next :: nat

datatype sys_op =
    SysMkdir string
  | SysTemp string
  | SysWrite string
  | SysSync
  | SysClose
  | SysRename string string
  | SysRemove string
  | SysStat string
  | SysOpen string

text \<open>
  Which calls fail, and how many bytes a failing write gets down; the time and the random part of a
  temporary name.
\<close>

record disk_env =
  dv_root :: string
  dv_fault :: "sys_op \<Rightarrow> error option"
  dv_partial :: nat
  dv_now :: int
  dv_random :: string
  dv_dir_size :: int

definition new_disk :: "(string \<Rightarrow> string res) \<Rightarrow> (string \<Rightarrow> error option) \<Rightarrow> string \<Rightarrow> string res" where
  "new_disk make_abs mkdir dir =
     (if dir = [] then Inl (Msg ''disk store: directory must not be empty'')
      else (case make_abs dir of
          Inl e \<Rightarrow> Inl (Wrap (''disk store: resolving '' @ dir) e)
        | Inr root \<Rightarrow>
            (case mkdir root of
               Some e \<Rightarrow> Inl (Wrap (''disk store: creating '' @ root) e)
             | None \<Rightarrow> Inr root)))"

definition is_separator :: "char \<Rightarrow> bool" where
  "is_separator c \<longleftrightarrow> c = slash \<or> c = CHR 0x5C"

text \<open>\<^verbatim>\<open>strings.FieldsFunc\<close>: the non-empty runs between separators.\<close>

fun key_fields :: "string \<Rightarrow> string \<Rightarrow> string list" where
  "key_fields acc [] = (if acc = [] then [] else [rev acc])"
| "key_fields acc (c # cs) =
     (if is_separator c then (if acc = [] then key_fields [] cs else rev acc # key_fields [] cs)
      else key_fields (c # acc) cs)"

text \<open>\<^verbatim>\<open>VolumeName\<close> is empty and \<^verbatim>\<open>FromSlash\<close> the identity on the systems the image runs on.\<close>

definition disk_path :: "string \<Rightarrow> string \<Rightarrow> string res" where
  "disk_path root key =
     (if key = [] then Inl (Msg ''empty key'')
      else if has_prefix key ''/'' \<or> has_prefix key [CHR 0x5C]
      then Inl (Msg (''key '' @ key @ '' must be relative''))
      else if list_ex (\<lambda>f. f = ''..'' \<or> f = ''.'') (key_fields [] key)
      then Inl (Msg (''key '' @ key @ '' escapes the store root''))
      else (let full = path_join root key in
        if \<not> has_prefix full (root @ ''/'') then Inl (Msg (''key '' @ key @ '' escapes the store root''))
        else Inr full))"

subsection \<open>Operations\<close>

definition disk_stat :: "('z) disk_env_scheme \<Rightarrow> disk \<Rightarrow> string \<Rightarrow> info found" where
  "disk_stat env d key =
     (case disk_path (dv_root env) key of
        Inl e \<Rightarrow> Failed e
      | Inr p \<Rightarrow>
          (case dv_fault env (SysStat p) of
             Some e \<Rightarrow> Failed (Wrap (''stat '' @ key) e)
           | None \<Rightarrow>
               (case Option.bind (dk_names d p) (dk_inodes d) of
                  Some f \<Rightarrow> Object \<lparr>in_key = key, in_size = int (length (fl_bytes f)), in_time = fl_time f\<rparr>
                | None \<Rightarrow>
                    if p \<in> dk_dirs d
                    then Object \<lparr>in_key = key, in_size = dv_dir_size env, in_time = dv_now env\<rparr>
                    else NotFound)))"

definition disk_open :: "('z) disk_env_scheme \<Rightarrow> disk \<Rightarrow> string \<Rightarrow> content_stream found" where
  "disk_open env d key =
     (case disk_path (dv_root env) key of
        Inl e \<Rightarrow> Failed e
      | Inr p \<Rightarrow>
          (case dv_fault env (SysOpen p) of
             Some e \<Rightarrow> Failed (Wrap (''open '' @ key) e)
           | None \<Rightarrow>
               (case Option.bind (dk_names d p) (dk_inodes d) of
                  Some f \<Rightarrow> Object ([fl_bytes f], None)
                | None \<Rightarrow>
                    if p \<in> dk_dirs d then Object ([], Some (Msg (''read '' @ p @ '': is a directory''))) else NotFound)))"

definition create_file :: "string \<Rightarrow> int \<Rightarrow> disk \<Rightarrow> disk" where
  "create_file p now d =
     d\<lparr>dk_names := (dk_names d)(p \<mapsto> dk_next d),
       dk_inodes := (dk_inodes d)(dk_next d \<mapsto> \<lparr>fl_bytes = [], fl_time = now\<rparr>), dk_next := Suc (dk_next d)\<rparr>"

definition append_file :: "nat \<Rightarrow> string \<Rightarrow> disk \<Rightarrow> disk" where
  "append_file ino bs d =
     (case dk_inodes d ino of
        None \<Rightarrow> d
      | Some f \<Rightarrow> d\<lparr>dk_inodes := (dk_inodes d)(ino \<mapsto> f\<lparr>fl_bytes := fl_bytes f @ bs\<rparr>)\<rparr>)"

definition rename_file :: "string \<Rightarrow> string \<Rightarrow> disk \<Rightarrow> disk" where
  "rename_file tmp p d = d\<lparr>dk_names := (dk_names d)(p := dk_names d tmp, tmp := None)\<rparr>"

definition remove_file :: "string \<Rightarrow> disk \<Rightarrow> disk" where
  "remove_file p d = d\<lparr>dk_names := (dk_names d)(p := None)\<rparr>"

text \<open>\<^verbatim>\<open>io.Copy\<close> from the source into the temporary file.\<close>

fun copy_chunks :: "('z) disk_env_scheme \<Rightarrow> nat \<Rightarrow> string list \<Rightarrow> error option \<Rightarrow> disk \<Rightarrow> disk \<times> error option" where
  "copy_chunks env ino [] e d = (d, e)"
| "copy_chunks env ino (c # cs) e d =
     (case dv_fault env (SysWrite c) of
        Some err \<Rightarrow> (append_file ino (take (dv_partial env) c) d, Some err)
      | None \<Rightarrow> copy_chunks env ino cs e (append_file ino c d))"

definition temp_name :: "string \<Rightarrow> string \<Rightarrow> string" where
  "temp_name dir random = dir @ ''/.tmp-'' @ random"

definition parents :: "string \<Rightarrow> string set" where
  "parents dir = {dir} \<union> (\<lambda>i. take i dir) ` {i. i < length dir \<and> dir ! i = slash \<and> 0 < i}"

text \<open>The deferred removal of the temporary file.\<close>

definition discard :: "('z) disk_env_scheme \<Rightarrow> string \<Rightarrow> disk \<Rightarrow> disk" where
  "discard env tmp d = (case dv_fault env (SysRemove tmp) of Some e \<Rightarrow> d | None \<Rightarrow> remove_file tmp d)"

definition commit_file ::
    "('z) disk_env_scheme \<Rightarrow> string \<Rightarrow> string \<Rightarrow> string \<Rightarrow> disk \<Rightarrow> disk \<times> error option" where
  "commit_file env key tmp p d =
     (case (if p \<in> dk_dirs d then Some (Msg ''file exists'') else dv_fault env (SysRename tmp p)) of
        None \<Rightarrow> (rename_file tmp p d, None)
      | Some e \<Rightarrow>
          if (p \<in> dk_dirs d \<or> dk_names d p \<noteq> None) \<and> dv_fault env (SysStat p) = None then (discard env tmp d, None)
          else (discard env tmp d, Some (Wrap (''committing '' @ key) e)))"

definition fill_file ::
    "('z) disk_env_scheme \<Rightarrow> nat \<Rightarrow> string \<Rightarrow> string \<Rightarrow> string \<Rightarrow> content_stream \<Rightarrow> disk \<Rightarrow> disk \<times> error option" where
  "fill_file env ino key tmp p src d =
     (case copy_chunks env ino (fst src) (snd src) d of
        (d1, Some e) \<Rightarrow> (discard env tmp d1, Some (Wrap (''writing '' @ key) e))
      | (d1, None) \<Rightarrow>
          (case dv_fault env SysSync of
             Some e \<Rightarrow> (discard env tmp d1, Some (Wrap (''syncing '' @ key) e))
           | None \<Rightarrow>
               (case dv_fault env SysClose of
                  Some e \<Rightarrow> (discard env tmp d1, Some (Wrap (''closing '' @ key) e))
                | None \<Rightarrow> commit_file env key tmp p d1)))"

definition disk_write :: "('z) disk_env_scheme \<Rightarrow> disk \<Rightarrow> string \<Rightarrow> content_stream \<Rightarrow> disk \<times> error option" where
  "disk_write env d key src =
     (case disk_path (dv_root env) key of
        Inl e \<Rightarrow> (d, Some e)
      | Inr p \<Rightarrow>
          (let dir = path_dir p; tmp = temp_name dir (dv_random env) in
           case dv_fault env (SysMkdir dir) of
             Some e \<Rightarrow> (d, Some (Wrap (''creating '' @ dir) e))
           | None \<Rightarrow>
               (let d1 = d\<lparr>dk_dirs := dk_dirs d \<union> parents dir\<rparr> in
                case (if dk_names d1 tmp \<noteq> None then Some (Msg ''file exists'') else dv_fault env (SysTemp dir)) of
                  Some e \<Rightarrow> (d1, Some (Wrap (''creating temp file for '' @ key) e))
                | None \<Rightarrow> fill_file env (dk_next d1) key tmp p src (create_file tmp (dv_now env) d1))))"

definition disk_delete :: "('z) disk_env_scheme \<Rightarrow> disk \<Rightarrow> string \<Rightarrow> disk \<times> error option" where
  "disk_delete env d key =
     (case disk_path (dv_root env) key of
        Inl e \<Rightarrow> (d, Some e)
      | Inr p \<Rightarrow>
          (case dv_fault env (SysRemove p) of
             Some e \<Rightarrow> (d, Some (Wrap (''delete '' @ key) e))
           | None \<Rightarrow>
               if dk_names d p \<noteq> None then (remove_file p d, None)
               else if p \<in> dk_dirs d then (d, Some (Wrap (''delete '' @ key) (Msg ''directory not empty'')))
               else (d, None)))"

definition disk_store :: "('z) disk_env_scheme \<Rightarrow> disk store" where
  "disk_store env =
     \<lparr>st_stat = disk_stat env, st_open = disk_open env, st_write = disk_write env, st_delete = disk_delete env\<rparr>"

subsection \<open>Where the objects are\<close>

definition root_ok :: "string \<Rightarrow> bool" where
  "root_ok root \<longleftrightarrow> (\<exists>rs. root = slash # join [slash] rs \<and> rs \<noteq> [] \<and> list_all plain rs)"

lemma no_dot_plain: "x \<noteq> [] \<Longrightarrow> set x \<inter> path_chars = {} \<Longrightarrow> plain x"
  by (auto simp: plain_def path_chars_def)

lemma valid_key_facts:
  assumes "valid_key k"
  shows "CHR ''.'' \<notin> set k" "CHR 0x5C \<notin> set k" "k \<noteq> []" "\<not> has_prefix k ''/''" "count_list k slash = 2"
proof -
  obtain a b c where k: "k = a @ slash # b @ slash # c"
    and abc: "list_all (\<lambda>x. x \<noteq> [] \<and> set x \<inter> path_chars = {}) [a, b, c]"
    using assms unfolding valid_key_def by blast
  then show "CHR ''.'' \<notin> set k" "CHR 0x5C \<notin> set k" "k \<noteq> []" by (auto simp: path_chars_def)
  have no: "slash \<notin> set a" "slash \<notin> set b" "slash \<notin> set c" "a \<noteq> []" using abc by (auto simp: path_chars_def)
  then show "\<not> has_prefix k ''/''" using k by (cases a) (auto simp: has_prefix_single)
  show "count_list k slash = 2" using no k by (simp add: count_list_append count_notin)
qed

lemma key_fields_chars: "f \<in> set (key_fields acc s) \<Longrightarrow> set f \<subseteq> set acc \<union> set s"
  by (induction acc s arbitrary: f rule: key_fields.induct) (fastforce split: if_splits)+

lemma disk_path_valid:
  assumes "root_ok root" "valid_key k"
  shows "disk_path root k = Inr (root @ slash # k)"
    and "\<exists>dir. path_dir (root @ slash # k) = root @ slash # dir \<and> count_list dir slash = 1"
proof -
  obtain rs where r: "root = slash # join [slash] rs" "rs \<noteq> []" "list_all plain rs"
    using assms(1) unfolding root_ok_def by blast
  obtain a b c where k: "k = a @ slash # b @ slash # c"
    and abc: "list_all (\<lambda>x. x \<noteq> [] \<and> set x \<inter> path_chars = {}) [a, b, c]"
    using assms(2) unfolding valid_key_def by blast
  have p: "list_all plain [a, b, c]" using abc no_dot_plain by auto
  have kj: "k = join [slash] [a, b, c]" by (simp add: k)
  have full: "path_join root k = root @ slash # k"
    unfolding kj r(1) using path_join_rooted_plain[OF r(3) p] r(2) by (simp add: join_append)
  have "f \<noteq> ''..'' \<and> f \<noteq> ''.''" if "f \<in> set (key_fields [] k)" for f
    using key_fields_chars[OF that] valid_key_facts(1)[OF assms(2)] by auto
  then show "disk_path root k = Inr (root @ slash # k)"
    using valid_key_facts[OF assms(2)]
    unfolding disk_path_def full by (auto simp: list_ex_iff has_prefix_single has_prefix_iff Let_def)
  have "path_dir (root @ slash # k) = root @ slash # join [slash] [a, b]"
    using path_dir_rooted_join[of "rs @ [a, b]" c] p r by (simp add: k join_append)
  moreover have "count_list (join [slash] [a, b]) slash = 1"
    using p by (simp add: count_list_append count_notin plain_def)
  ultimately show "\<exists>dir. path_dir (root @ slash # k) = root @ slash # dir \<and> count_list dir slash = 1" by blast
qed

lemma temp_not_valid:
  assumes "root_ok root" "valid_key k" "path_dir p = root @ slash # dir"
  shows "temp_name (path_dir p) random \<noteq> root @ slash # k"
proof
  assume "temp_name (path_dir p) random = root @ slash # k"
  then have "dir @ ''/.tmp-'' @ random = k" unfolding temp_name_def assms(3) by simp
  then have "CHR ''.'' \<in> set k" by auto
  with valid_key_facts(1)[OF assms(2)] show False ..
qed

subsection \<open>Bytes by name\<close>

definition view :: "disk \<Rightarrow> string \<Rightarrow> string option" where
  "view d p = map_option fl_bytes (Option.bind (dk_names d p) (dk_inodes d))"

definition disk_ok :: "string \<Rightarrow> disk \<Rightarrow> bool" where
  "disk_ok root d \<longleftrightarrow>
     (\<forall>p ino. dk_names d p = Some ino \<longrightarrow> dk_inodes d ino \<noteq> None \<and> ino < dk_next d) \<and>
     (\<forall>p \<in> dk_dirs d. \<forall>k. valid_key k \<longrightarrow> p \<noteq> root @ slash # k)"

lemma disk_okD: "disk_ok root d \<Longrightarrow> dk_names d p = Some ino \<Longrightarrow> dk_inodes d ino \<noteq> None \<and> ino < dk_next d"
  unfolding disk_ok_def by blast

lemma disk_ok_same:
  assumes "disk_ok root d" "dk_dirs d' = dk_dirs d"
    and "\<And>p ino. dk_names d' p = Some ino \<Longrightarrow> dk_inodes d' ino \<noteq> None \<and> ino < dk_next d'"
  shows "disk_ok root d'"
  using assms unfolding disk_ok_def by simp

text \<open>A file under construction: reachable by its temporary name only.\<close>

definition building :: "disk \<Rightarrow> string \<Rightarrow> nat \<Rightarrow> string \<Rightarrow> bool" where
  "building d tmp ino body \<longleftrightarrow>
     dk_names d tmp = Some ino \<and> view d tmp = Some body \<and> (\<forall>q. dk_names d q = Some ino \<longrightarrow> q = tmp)"

definition same_beside :: "string set \<Rightarrow> disk \<Rightarrow> disk \<Rightarrow> bool" where
  "same_beside ps d d' \<longleftrightarrow> (\<forall>q. q \<notin> ps \<longrightarrow> view d' q = view d q) \<and> dk_dirs d' = dk_dirs d"

lemma same_beside_refl [simp]: "same_beside ps d d"
  by (simp add: same_beside_def)

lemma same_beside_trans: "same_beside ps d d' \<Longrightarrow> same_beside ps d' d'' \<Longrightarrow> same_beside ps d d''"
  by (simp add: same_beside_def)

lemma create_building:
  assumes "disk_ok root d" "dk_names d tmp = None"
  shows "building (create_file tmp now d) tmp (dk_next d) [] \<and> same_beside {tmp} d (create_file tmp now d) \<and>
    disk_ok root (create_file tmp now d)"
proof -
  have nb: "dk_names d q \<noteq> Some (dk_next d)" for q using assms(1) unfolding disk_ok_def by blast
  have bind: "Option.bind (dk_names d q) ((dk_inodes d)(dk_next d \<mapsto> f)) = Option.bind (dk_names d q) (dk_inodes d)" for q f
    using nb[of q] by (cases "dk_names d q") auto
  let ?d = "create_file tmp now d"
  have "building ?d tmp (dk_next d) []"
    using nb unfolding building_def create_file_def view_def by simp
  moreover have "same_beside {tmp} d ?d"
    unfolding same_beside_def create_file_def view_def by (simp add: bind)
  moreover have "dk_inodes ?d ino \<noteq> None \<and> ino < dk_next ?d" if "dk_names ?d p = Some ino" for p ino
  proof (cases "p = tmp")
    case True
    with that show ?thesis by (simp add: create_file_def)
  next
    case False
    with that have "dk_names d p = Some ino" by (simp add: create_file_def)
    with assms(1) have "dk_inodes d ino \<noteq> None" "ino < dk_next d" unfolding disk_ok_def by blast+
    then show ?thesis by (simp add: create_file_def)
  qed
  moreover have "dk_dirs ?d = dk_dirs d" by (simp add: create_file_def)
  ultimately show ?thesis using disk_ok_same[OF assms(1), of ?d] by blast
qed

lemma append_building:
  assumes "disk_ok root d" "building d tmp ino body"
  shows "building (append_file ino bs d) tmp ino (body @ bs) \<and> same_beside {tmp} d (append_file ino bs d) \<and>
    disk_ok root (append_file ino bs d)"
proof -
  have n: "dk_names d tmp = Some ino" "view d tmp = Some body" using assms(2) unfolding building_def by blast+
  then obtain f where f: "dk_inodes d ino = Some f" "fl_bytes f = body" "dk_names d tmp = Some ino"
    by (cases "dk_inodes d ino") (simp_all add: view_def)
  have d': "append_file ino bs d = d\<lparr>dk_inodes := (dk_inodes d)(ino \<mapsto> f\<lparr>fl_bytes := body @ bs\<rparr>)\<rparr>" (is "_ = ?d")
    using f(1,2) by (simp add: append_file_def)
  have "Option.bind (dk_names d q) ((dk_inodes d)(ino \<mapsto> g)) = Option.bind (dk_names d q) (dk_inodes d)" if "q \<noteq> tmp" for q g
  proof -
    have "dk_names d q \<noteq> Some ino" using assms(2) that unfolding building_def by blast
    then show ?thesis by (cases "dk_names d q") simp_all
  qed
  then have "same_beside {tmp} d ?d" unfolding same_beside_def view_def by simp
  moreover have "building ?d tmp ino (body @ bs)"
  proof -
    have "view ?d tmp = Some (body @ bs)" using f(3) by (simp add: view_def)
    moreover have "dk_names ?d = dk_names d" by simp
    ultimately show ?thesis using assms(2) unfolding building_def by metis
  qed
  moreover have "disk_ok root ?d"
  proof (rule disk_ok_same[OF assms(1)])
    fix p i
    assume "dk_names ?d p = Some i"
    then have "dk_names d p = Some i" by simp
    from disk_okD[OF assms(1) this] show "dk_inodes ?d i \<noteq> None \<and> i < dk_next ?d" by (cases "i = ino") simp_all
  qed simp
  ultimately show ?thesis unfolding d' by blast
qed

lemma copy_building:
  assumes "disk_ok root d" "building d tmp ino body" "copy_chunks env ino cs e d = (d', r)"
  shows "\<exists>more. building d' tmp ino (body @ more) \<and> same_beside {tmp} d d' \<and> disk_ok root d' \<and>
    (r = None \<longrightarrow> e = None \<and> more = concat cs)"
  using assms
proof (induction cs arbitrary: d body)
  case Nil
  then show ?case by (intro exI[of _ "[]"]) simp
next
  case (Cons c cs)
  show ?case
  proof (cases "dv_fault env (SysWrite c)")
    case (Some err)
    with Cons.prems append_building[OF Cons.prems(1,2), of "take (dv_partial env) c"] show ?thesis
      by (intro exI[of _ "take (dv_partial env) c"]) auto
  next
    case None
    note a = append_building[OF Cons.prems(1,2), of c]
    from None Cons.prems(3) have "copy_chunks env ino cs e (append_file ino c d) = (d', r)" by simp
    from Cons.IH[OF _ _ this, of "body @ c"] a obtain more where
      "building d' tmp ino ((body @ c) @ more)" "same_beside {tmp} (append_file ino c d) d'" "disk_ok root d'"
      "r = None \<longrightarrow> e = None \<and> more = concat cs" by blast
    with a show ?thesis by (intro exI[of _ "c @ more"]) (auto intro: same_beside_trans)
  qed
qed

lemma discard_beside: "disk_ok root d \<Longrightarrow> same_beside {tmp} d (discard env tmp d) \<and> disk_ok root (discard env tmp d)"
proof (cases "dv_fault env (SysRemove tmp)")
  case None
  assume ok: "disk_ok root d"
  have "dk_inodes (remove_file tmp d) ino \<noteq> None \<and> ino < dk_next (remove_file tmp d)"
    if "dk_names (remove_file tmp d) p = Some ino" for p ino
    using that disk_okD[OF ok] by (cases "p = tmp") (simp_all add: remove_file_def)
  moreover have "dk_dirs (remove_file tmp d) = dk_dirs d" by (simp add: remove_file_def)
  ultimately have "disk_ok root (remove_file tmp d)" using disk_ok_same[OF ok] by blast
  moreover have "same_beside {tmp} d (remove_file tmp d)" by (simp add: same_beside_def remove_file_def view_def)
  ultimately show ?thesis using None by (simp add: discard_def)
qed (simp add: discard_def)

lemma rename_building:
  assumes "disk_ok root d" "building d tmp ino body" "tmp \<noteq> p"
  shows "same_beside {tmp, p} d (rename_file tmp p d) \<and> view (rename_file tmp p d) p = Some body \<and>
    disk_ok root (rename_file tmp p d)"
proof -
  let ?d = "rename_file tmp p d"
  have n: "dk_names d tmp = Some ino" "view d tmp = Some body" using assms(2) unfolding building_def by auto
  have "same_beside {tmp, p} d ?d" by (simp add: same_beside_def rename_file_def view_def)
  moreover have "view ?d p = Some body" using n assms(3) by (simp add: rename_file_def view_def)
  moreover have "disk_ok root ?d"
  proof (rule disk_ok_same[OF assms(1)])
    show "dk_inodes ?d i \<noteq> None \<and> i < dk_next ?d" if "dk_names ?d q = Some i" for q i
      using that disk_okD[OF assms(1)] n(1) by (cases "q = tmp"; cases "q = p") (simp_all add: rename_file_def)
  qed (simp add: rename_file_def)
  ultimately show ?thesis by blast
qed

text \<open>What a write leaves beside its temporary name: nothing new, or the whole object.\<close>

lemma fill_file_outcome:
  assumes "disk_ok root d" "building d tmp ino []" "tmp \<noteq> p" "p \<notin> dk_dirs d"
    and "fill_file env ino key tmp p (cs, e) d = (d', r)"
  shows "disk_ok root d' \<and>
    (same_beside {tmp} d d' \<and> (r = None \<longrightarrow> e = None \<and> view d p \<noteq> None) \<or>
     e = None \<and> same_beside {tmp, p} d d' \<and> view d' p = Some (concat cs))"
proof -
  obtain d1 r1 where c: "copy_chunks env ino cs e d = (d1, r1)" by fastforce
  from copy_building[OF assms(1,2) c] obtain more where m: "building d1 tmp ino more" "same_beside {tmp} d d1"
    "disk_ok root d1" "r1 = None \<longrightarrow> e = None \<and> more = concat cs" by auto
  have pd: "p \<notin> dk_dirs d1" "view d1 p = view d p" using m(2) assms(3,4) by (auto simp: same_beside_def)
  have dis: "same_beside {tmp} d (discard env tmp d1) \<and> disk_ok root (discard env tmp d1)"
    using discard_beside[OF m(3)] m(2) same_beside_trans by blast
  have named: "dk_names d1 p \<noteq> None \<Longrightarrow> view d p \<noteq> None"
    using m(3) pd(2)[symmetric] unfolding disk_ok_def view_def by (cases "dk_names d1 p") auto
  have ren: "same_beside {tmp, p} d (rename_file tmp p d1)"
    using rename_building[OF m(3,1) assms(3)] m(2) unfolding same_beside_def by auto
  show ?thesis
  proof (cases r1)
    case (Some err)
    with c assms(5) dis show ?thesis by (auto simp: fill_file_def)
  next
    case None
    with m(4) have whole: "e = None" "more = concat cs" by auto
    show ?thesis
    proof (cases "dv_fault env SysSync = None \<and> dv_fault env SysClose = None")
      case False
      with c None assms(5) dis show ?thesis by (auto simp: fill_file_def split: option.splits)
    next
      case True
      with c None assms(5) have cm: "commit_file env key tmp p d1 = (d', r)" by (auto simp: fill_file_def)
      show ?thesis
      proof (cases "dv_fault env (SysRename tmp p)")
        case None
        with cm pd(1) have "d' = rename_file tmp p d1" "r = None" by (auto simp: commit_file_def)
        with ren rename_building[OF m(3,1) assms(3)] whole show ?thesis by auto
      next
        case (Some err)
        with cm pd(1) have "d' = discard env tmp d1" "r = None \<longrightarrow> dk_names d1 p \<noteq> None"
          by (auto simp: commit_file_def split: if_splits)
        with dis named whole(1) show ?thesis by blast
      qed
    qed
  qed
qed

definition disk_valid :: "('z) disk_env_scheme \<Rightarrow> string \<Rightarrow> bool" where
  "disk_valid env k \<longleftrightarrow> root_ok (dv_root env) \<and> valid_key k"

definition disk_content :: "('z) disk_env_scheme \<Rightarrow> disk \<Rightarrow> string \<Rightarrow> string option" where
  "disk_content env d k = (if valid_key k then view d (dv_root env @ slash # k) else None)"

lemma same_content:
  assumes "same_beside {tmp} d d'" "\<And>k. valid_key k \<Longrightarrow> tmp \<noteq> dv_root env @ slash # k"
  shows "disk_content env d' = disk_content env d"
proof
  show "disk_content env d' k = disk_content env d k" for k
    using assms(1) assms(2)[of k] unfolding disk_content_def same_beside_def by (cases "valid_key k") auto
qed

lemma parents_shallow:
  assumes "x \<in> parents s" shows "count_list x c \<le> count_list s c"
proof -
  obtain i where "x = s \<or> x = take i s" using assms unfolding parents_def by blast
  moreover have "count_list (take i s) c \<le> count_list s c"
    by (metis append_take_drop_id count_list_append le_add1)
  ultimately show ?thesis by auto
qed

text \<open>A write stops before its temporary file exists, or fills it.\<close>

lemma disk_write_cases:
  assumes p: "disk_path (dv_root env) key = Inr p" and w: "disk_write env d key src = (d', r)"
    and d1: "d1 = d\<lparr>dk_dirs := dk_dirs d \<union> parents (path_dir p)\<rparr>"
    and tmp: "tmp = temp_name (path_dir p) (dv_random env)"
  obtains (none) "d' = d" "r \<noteq> None" | (dirs) "d' = d1" "r \<noteq> None"
    | (temp) "dk_names d1 tmp = None"
      "fill_file env (dk_next d1) key tmp p src (create_file tmp (dv_now env) d1) = (d', r)"
proof -
  define clash where
    "clash = (if dk_names d1 tmp \<noteq> None then Some (Msg ''file exists'') else dv_fault env (SysTemp (path_dir p)))"
  have run: "(d', r) = (case dv_fault env (SysMkdir (path_dir p)) of
      Some e \<Rightarrow> (d, Some (Wrap (''creating '' @ path_dir p) e))
    | None \<Rightarrow> (case clash of Some e \<Rightarrow> (d1, Some (Wrap (''creating temp file for '' @ key) e))
      | None \<Rightarrow> fill_file env (dk_next d1) key tmp p src (create_file tmp (dv_now env) d1)))"
    unfolding w[symmetric] disk_write_def p(1) Let_def sum.case clash_def d1 tmp ..
  show thesis
  proof (cases "dv_fault env (SysMkdir (path_dir p))")
    case m: None
    show thesis
    proof (cases clash)
      case n: None
      then have "dk_names d1 tmp = None" unfolding clash_def by (cases "dk_names d1 tmp") simp_all
      with run m n show thesis by (intro temp) (simp_all only: option.case)
    next
      case (Some x)
      with run m have "d' = d1" "r = Some (Wrap (''creating temp file for '' @ key) x)"
        by (simp_all only: option.case prod.inject)
      then show thesis by (intro dirs) simp_all
    qed
  next
    case (Some x)
    with run have "d' = d" "r = Some (Wrap (''creating '' @ path_dir p) x)"
      by (simp_all only: option.case prod.inject)
    then show thesis by (intro none) simp_all
  qed
qed

lemma make_parents_ok:
  assumes vk: "root_ok root" "valid_key k" and ok: "disk_ok root d"
  shows "disk_ok root (d\<lparr>dk_dirs := dk_dirs d \<union> parents (path_dir (root @ slash # k))\<rparr>)"
proof -
  obtain dir where dir: "path_dir (root @ slash # k) = root @ slash # dir" "count_list dir slash = 1"
    using disk_path_valid(2)[OF vk] by blast
  have "x \<noteq> root @ slash # k'" if "x \<in> parents (root @ slash # dir)" "valid_key k'" for x k'
  proof
    assume "x = root @ slash # k'"
    with parents_shallow[OF that(1), of slash] dir(2) valid_key_facts(5)[OF that(2)] show False
      by (simp add: count_list_append)
  qed
  then show ?thesis using ok unfolding disk_ok_def dir(1) by auto
qed

lemma disk_write_outcome:
  assumes v: "disk_valid env k" and ok: "disk_ok (dv_root env) d" and w: "disk_write env d k (cs, e) = (d', r)"
  shows "disk_ok (dv_root env) d' \<and>
    (disk_content env d' = disk_content env d \<and> (r = None \<longrightarrow> e = None \<and> disk_content env d k \<noteq> None) \<or>
     e = None \<and> disk_content env d' = (disk_content env d)(k \<mapsto> concat cs))"
proof -
  let ?root = "dv_root env"
  have vk: "root_ok ?root" "valid_key k" using v by (simp_all add: disk_valid_def)
  note p = disk_path_valid(1)[OF vk]
  obtain dir where dir: "path_dir (?root @ slash # k) = ?root @ slash # dir" "count_list dir slash = 1"
    using disk_path_valid(2)[OF vk] by blast
  let ?p = "?root @ slash # k" and ?tmp = "temp_name (?root @ slash # dir) (dv_random env)"
  have tmp: "?tmp \<noteq> ?root @ slash # k'" if "valid_key k'" for k'
    using temp_not_valid[OF vk(1) that dir(1)] dir(1) by simp
  let ?d1 = "d\<lparr>dk_dirs := dk_dirs d \<union> parents (?root @ slash # dir)\<rparr>"
  have ok1: "disk_ok ?root ?d1" using make_parents_ok[OF vk ok] unfolding dir(1) .
  have same1: "disk_content env ?d1 = disk_content env d" by (simp add: disk_content_def view_def fun_eq_iff)
  show ?thesis
  proof (rule disk_write_cases[OF p w refl refl, unfolded dir(1)])
    assume "d' = d" "r \<noteq> None"
    with ok show ?thesis by auto
  next
    assume "d' = ?d1" "r \<noteq> None"
    with ok1 same1 show ?thesis by auto
  next
    assume temp: "dk_names ?d1 ?tmp = None"
      "fill_file env (dk_next ?d1) k ?tmp ?p (cs, e) (create_file ?tmp (dv_now env) ?d1) = (d', r)"
    let ?d2 = "create_file ?tmp (dv_now env) ?d1"
    note c = create_building[OF ok1 temp(1), of "dv_now env"]
    have "?p \<notin> dk_dirs ?d2" using c ok1 vk(2) unfolding disk_ok_def by blast
    note out = fill_file_outcome[OF _ _ tmp[OF vk(2)] this temp(2), of ?root]
    have b: "same_beside {?tmp} ?d1 ?d2" "building ?d2 ?tmp (dk_next ?d1) []" "disk_ok ?root ?d2" using c by blast+
    have same2: "disk_content env ?d2 = disk_content env d" using same_content[OF b(1) tmp] same1 by simp
    have vp: "view ?d2 ?p = disk_content env d k" using same2 vk(2) by (metis disk_content_def)
    from out[OF b(3,2)] show ?thesis
    proof (elim conjE disjE)
      assume o: "disk_ok ?root d'" "same_beside {?tmp} ?d2 d'" "r = None \<longrightarrow> e = None \<and> view ?d2 ?p \<noteq> None"
      with same_content[OF o(2) tmp] same2 vp show ?thesis by simp
    next
      assume o: "disk_ok ?root d'" "e = None" "same_beside {?tmp, ?p} ?d2 d'" "view d' ?p = Some (concat cs)"
      have "disk_content env d' k' = ((disk_content env d)(k \<mapsto> concat cs)) k'" for k'
      proof (cases "k' = k")
        case True
        with o(4) vk(2) show ?thesis by (simp add: disk_content_def)
      next
        case False
        have "view d' (?root @ slash # k') = view ?d2 (?root @ slash # k')" if "valid_key k'"
          using o(3) tmp[OF that] False unfolding same_beside_def by auto
        then have "disk_content env d' k' = disk_content env ?d2 k'" by (simp add: disk_content_def)
        with same2 False show ?thesis by simp
      qed
      with o(1,2) show ?thesis by blast
    qed
  qed
qed

lemma disk_delete_outcome:
  assumes v: "disk_valid env k" and ok: "disk_ok (dv_root env) d" and w: "disk_delete env d k = (d', r)"
  shows "disk_ok (dv_root env) d' \<and>
    (disk_content env d' = disk_content env d \<and> (r = None \<longrightarrow> disk_content env d k = None) \<or>
     disk_content env d' = (disk_content env d)(k := None))"
proof -
  have vk: "root_ok (dv_root env)" "valid_key k" using v by (simp_all add: disk_valid_def)
  let ?p = "dv_root env @ slash # k"
  have np: "?p \<notin> dk_dirs d" using ok vk(2) unfolding disk_ok_def by blast
  show ?thesis
  proof (cases "dv_fault env (SysRemove ?p) = None \<and> dk_names d ?p \<noteq> None")
    case True
    with w disk_path_valid(1)[OF vk] have d': "d' = remove_file ?p d" by (simp add: disk_delete_def)
    have "disk_ok (dv_root env) d'"
    proof (rule disk_ok_same[OF ok])
      show "dk_inodes d' i \<noteq> None \<and> i < dk_next d'" if "dk_names d' q = Some i" for q i
        using that disk_okD[OF ok, of q i] unfolding d' by (cases "q = ?p") (simp_all add: remove_file_def)
    qed (simp add: d' remove_file_def)
    moreover have "disk_content env d' = (disk_content env d)(k := None)"
      by (rule ext) (simp add: d' disk_content_def view_def remove_file_def)
    ultimately show ?thesis by blast
  next
    case False
    with w disk_path_valid(1)[OF vk] np have "d' = d" "r = None \<longrightarrow> dk_names d ?p = None"
      by (auto simp: disk_delete_def split: option.splits)
    with ok show ?thesis by (auto simp: disk_content_def view_def)
  qed
qed

lemma disk_read:
  assumes v: "disk_valid env k" and ok: "disk_ok (dv_root env) d"
  shows "disk_open env d k = Object (cs, None) \<Longrightarrow> disk_content env d k = Some (concat cs)"
    and "disk_open env d k = NotFound \<Longrightarrow> disk_content env d k = None"
    and "disk_stat env d k = Object i \<Longrightarrow> in_key i = k \<and> (\<exists>b. disk_content env d k = Some b \<and> in_size i = int (length b))"
    and "disk_stat env d k = NotFound \<Longrightarrow> disk_content env d k = None"
proof -
  have vk: "root_ok (dv_root env)" "valid_key k" using v by (simp_all add: disk_valid_def)
  let ?p = "dv_root env @ slash # k"
  have np: "?p \<notin> dk_dirs d" using ok vk(2) unfolding disk_ok_def by blast
  have c: "disk_content env d k = map_option fl_bytes (Option.bind (dk_names d ?p) (dk_inodes d))"
    using vk(2) by (simp add: disk_content_def view_def)
  note s = disk_path_valid(1)[OF vk] np c
  show "disk_open env d k = Object (cs, None) \<Longrightarrow> disk_content env d k = Some (concat cs)"
    using np unfolding disk_open_def disk_path_valid(1)[OF vk] c by (auto split: option.splits)
  show "disk_open env d k = NotFound \<Longrightarrow> disk_content env d k = None"
    using np unfolding disk_open_def disk_path_valid(1)[OF vk] c by (auto split: option.splits if_splits)
  show "disk_stat env d k = Object i \<Longrightarrow> in_key i = k \<and> (\<exists>b. disk_content env d k = Some b \<and> in_size i = int (length b))"
    using np unfolding disk_stat_def disk_path_valid(1)[OF vk] c by (auto split: option.splits)
  show "disk_stat env d k = NotFound \<Longrightarrow> disk_content env d k = None"
    using np unfolding disk_stat_def disk_path_valid(1)[OF vk] c by (auto split: option.splits if_splits)
qed

interpretation dsk: object_store "disk_store env" "disk_ok (dv_root env)" "disk_valid env" "disk_content env" for env
proof unfold_locales
  fix d :: disk and k cs e d' r src i
  assume ok: "disk_ok (dv_root env) d" and v: "disk_valid env k"
  note read = disk_read[OF v ok]
  show "st_open (disk_store env) d k = Object (cs, None) \<Longrightarrow> disk_content env d k = Some (concat cs)"
    "st_open (disk_store env) d k = NotFound \<Longrightarrow> disk_content env d k = None"
    "st_stat (disk_store env) d k = Object i \<Longrightarrow>
      in_key i = k \<and> (\<exists>b. disk_content env d k = Some b \<and> in_size i = int (length b))"
    "st_stat (disk_store env) d k = NotFound \<Longrightarrow> disk_content env d k = None"
    using read by (simp_all add: disk_store_def)
  show "disk_ok (dv_root env) (fst (st_write (disk_store env) d k src))"
    using disk_write_outcome[OF v ok, of "fst src" "snd src"] by (cases "disk_write env d k src") (simp add: disk_store_def)
  show "st_write (disk_store env) d k (cs, e) = (d', r) \<Longrightarrow>
      disk_content env d' = disk_content env d \<or> e = None \<and> disk_content env d' = (disk_content env d)(k \<mapsto> concat cs)"
    using disk_write_outcome[OF v ok] by (simp add: disk_store_def) blast
  show "st_write (disk_store env) d k (cs, e) = (d', None) \<Longrightarrow>
      e = None \<and> (disk_content env d' k = Some (concat cs) \<or> disk_content env d' = disk_content env d \<and> disk_content env d k \<noteq> None)"
    using disk_write_outcome[OF v ok, of cs e d' None] by (auto simp: disk_store_def)
  show "disk_ok (dv_root env) (fst (st_delete (disk_store env) d k))"
    using disk_delete_outcome[OF v ok] by (cases "disk_delete env d k") (simp add: disk_store_def)
  show "st_delete (disk_store env) d k = (d', r) \<Longrightarrow>
      disk_content env d' = disk_content env d \<or> disk_content env d' = (disk_content env d)(k := None)"
    using disk_delete_outcome[OF v ok] by (simp add: disk_store_def) blast
  show "st_delete (disk_store env) d k = (d', None) \<Longrightarrow> disk_content env d' k = None"
    using disk_delete_outcome[OF v ok, of d' None] by (auto simp: disk_store_def)
qed

end
