(* ===== verification/Disk_Concurrency.thy ===== *)
theory Disk_Concurrency
  imports Disk_Store
begin

section \<open>Readers and writers of one disk store\<close>

text \<open>
  The store is used by many passes at once. A world is the disk with the writes and the reads under
  way; a step is one system call of one of them, a deletion, or the death of a writer that leaves
  its temporary file behind. The record of the writes begun is a ghost of the model.
  \<^verbatim>\<open>disk_write\<close> is one particular sequence of these steps.
\<close>

record writer =
  wr_path :: string
  wr_tmp :: string
  wr_ino :: nat
  wr_body :: string
  wr_left :: string

record reader =
  rd_path :: string
  rd_ino :: nat
  rd_got :: string
  rd_eof :: bool

record world =
  wd_disk :: disk
  wd_writers :: "nat \<rightharpoonup> writer"
  wd_readers :: "nat \<rightharpoonup> reader"
  wd_begun :: "(string \<times> string) set"

text \<open>Temporary names: \<^verbatim>\<open>.tmp-\<close> after the last slash.\<close>

definition is_temp :: "string \<Rightarrow> bool" where
  "is_temp p \<longleftrightarrow> (\<exists>dir r. p = temp_name dir r)"

inductive disk_step :: "world \<Rightarrow> world \<Rightarrow> bool" where
  begin_write:
    "wd_writers w i = None \<Longrightarrow> is_temp tmp \<Longrightarrow> \<not> is_temp p \<Longrightarrow> dk_names (wd_disk w) tmp = None \<Longrightarrow>
     disk_step w (w\<lparr>wd_disk := create_file tmp now (wd_disk w),
       wd_writers := (wd_writers w)(i \<mapsto>
         \<lparr>wr_path = p, wr_tmp = tmp, wr_ino = dk_next (wd_disk w), wr_body = body, wr_left = body\<rparr>),
       wd_begun := insert (p, body) (wd_begun w)\<rparr>)"
| write_some:
    "wd_writers w i = Some wr \<Longrightarrow> wr_left wr = bs @ rest \<Longrightarrow>
     disk_step w (w\<lparr>wd_disk := append_file (wr_ino wr) bs (wd_disk w),
       wd_writers := (wd_writers w)(i \<mapsto> wr\<lparr>wr_left := rest\<rparr>)\<rparr>)"
| commit:
    "wd_writers w i = Some wr \<Longrightarrow> wr_left wr = [] \<Longrightarrow>
     disk_step w (w\<lparr>wd_disk := rename_file (wr_tmp wr) (wr_path wr) (wd_disk w),
       wd_writers := (wd_writers w)(i := None)\<rparr>)"
| give_up:
    "wd_writers w i = Some wr \<Longrightarrow>
     disk_step w (w\<lparr>wd_disk := remove_file (wr_tmp wr) (wd_disk w), wd_writers := (wd_writers w)(i := None)\<rparr>)"
| die:
    "wd_writers w i = Some wr \<Longrightarrow> disk_step w (w\<lparr>wd_writers := (wd_writers w)(i := None)\<rparr>)"
| make_dirs:
    "disk_step w (w\<lparr>wd_disk := (wd_disk w)\<lparr>dk_dirs := ds\<rparr>\<rparr>)"
| unlink:
    "\<not> is_temp p \<Longrightarrow> disk_step w (w\<lparr>wd_disk := remove_file p (wd_disk w)\<rparr>)"
| open_read:
    "wd_readers w j = None \<Longrightarrow> \<not> is_temp p \<Longrightarrow> dk_names (wd_disk w) p = Some ino \<Longrightarrow>
     disk_step w (w\<lparr>wd_readers := (wd_readers w)(j \<mapsto>
       \<lparr>rd_path = p, rd_ino = ino, rd_got = [], rd_eof = False\<rparr>)\<rparr>)"
| read_some:
    "wd_readers w j = Some rd \<Longrightarrow> dk_inodes (wd_disk w) (rd_ino rd) = Some f \<Longrightarrow>
     fl_bytes f = rd_got rd @ bs @ rest \<Longrightarrow>
     disk_step w (w\<lparr>wd_readers := (wd_readers w)(j \<mapsto> rd\<lparr>rd_got := rd_got rd @ bs\<rparr>)\<rparr>)"
| read_eof:
    "wd_readers w j = Some rd \<Longrightarrow> dk_inodes (wd_disk w) (rd_ino rd) = Some f \<Longrightarrow>
     length (fl_bytes f) \<le> length (rd_got rd) \<Longrightarrow>
     disk_step w (w\<lparr>wd_readers := (wd_readers w)(j \<mapsto> rd\<lparr>rd_eof := True\<rparr>)\<rparr>)"

inductive_cases disk_stepE: "disk_step w w'"

text \<open>A world at rest: no reads or writes under way, every name of an object leads to a whole object.\<close>

definition settled :: "world \<Rightarrow> bool" where
  "settled w \<longleftrightarrow> wd_writers w = Map.empty \<and> wd_readers w = Map.empty \<and>
     (\<forall>p ino. dk_names (wd_disk w) p = Some ino \<longrightarrow> ino < dk_next (wd_disk w)) \<and>
     (\<forall>p ino. \<not> is_temp p \<longrightarrow> dk_names (wd_disk w) p = Some ino \<longrightarrow>
        (\<exists>f. dk_inodes (wd_disk w) ino = Some f \<and> (p, fl_bytes f) \<in> wd_begun w))"

subsection \<open>The invariant\<close>

definition writer_ok :: "world \<Rightarrow> writer \<Rightarrow> bool" where
  "writer_ok w wr \<longleftrightarrow> is_temp (wr_tmp wr) \<and> \<not> is_temp (wr_path wr) \<and>
     dk_names (wd_disk w) (wr_tmp wr) = Some (wr_ino wr) \<and>
     (\<forall>q. dk_names (wd_disk w) q = Some (wr_ino wr) \<longrightarrow> q = wr_tmp wr) \<and>
     (wr_path wr, wr_body wr) \<in> wd_begun w \<and>
     (\<exists>f. dk_inodes (wd_disk w) (wr_ino wr) = Some f \<and> fl_bytes f @ wr_left wr = wr_body wr)"

definition reader_ok :: "world \<Rightarrow> reader \<Rightarrow> bool" where
  "reader_ok w rd \<longleftrightarrow> (\<exists>f. dk_inodes (wd_disk w) (rd_ino rd) = Some f \<and> (rd_path rd, fl_bytes f) \<in> wd_begun w \<and>
     has_prefix (fl_bytes f) (rd_got rd) \<and> (rd_eof rd \<longrightarrow> rd_got rd = fl_bytes f))"

definition world_ok :: "world \<Rightarrow> bool" where
  "world_ok w \<longleftrightarrow>
     (\<forall>p ino. dk_names (wd_disk w) p = Some ino \<longrightarrow> ino < dk_next (wd_disk w)) \<and>
     (\<forall>p ino. \<not> is_temp p \<longrightarrow> dk_names (wd_disk w) p = Some ino \<longrightarrow>
        (\<exists>f. dk_inodes (wd_disk w) ino = Some f \<and> (p, fl_bytes f) \<in> wd_begun w)) \<and>
     (\<forall>i wr. wd_writers w i = Some wr \<longrightarrow> writer_ok w wr) \<and>
     (\<forall>i j wr wr'. wd_writers w i = Some wr \<longrightarrow> wd_writers w j = Some wr' \<longrightarrow> i \<noteq> j \<longrightarrow> wr_ino wr \<noteq> wr_ino wr') \<and>
     (\<forall>j rd. wd_readers w j = Some rd \<longrightarrow> reader_ok w rd \<and> rd_ino rd < dk_next (wd_disk w) \<and>
        (\<forall>i wr. wd_writers w i = Some wr \<longrightarrow> wr_ino wr \<noteq> rd_ino rd))"

lemma settled_ok: "settled w \<Longrightarrow> world_ok w"
  unfolding settled_def world_ok_def by simp

lemma world_okD:
  assumes "world_ok w"
  shows "dk_names (wd_disk w) p = Some ino \<Longrightarrow> ino < dk_next (wd_disk w)"
    and "\<not> is_temp p \<Longrightarrow> dk_names (wd_disk w) p = Some ino \<Longrightarrow>
      \<exists>f. dk_inodes (wd_disk w) ino = Some f \<and> (p, fl_bytes f) \<in> wd_begun w"
    and "wd_writers w i = Some wr \<Longrightarrow> writer_ok w wr"
    and "wd_writers w i = Some wr \<Longrightarrow> wd_writers w k = Some wr' \<Longrightarrow> i \<noteq> k \<Longrightarrow> wr_ino wr \<noteq> wr_ino wr'"
    and "wd_readers w j = Some rd \<Longrightarrow> reader_ok w rd"
    and "wd_readers w j = Some rd \<Longrightarrow> rd_ino rd < dk_next (wd_disk w)"
    and "wd_readers w j = Some rd \<Longrightarrow> wd_writers w i = Some wr \<Longrightarrow> wr_ino wr \<noteq> rd_ino rd"
  using assms unfolding world_ok_def by blast+

lemma world_okI:
  assumes "\<And>p ino. dk_names (wd_disk w) p = Some ino \<Longrightarrow> ino < dk_next (wd_disk w)"
    and "\<And>p ino. \<not> is_temp p \<Longrightarrow> dk_names (wd_disk w) p = Some ino \<Longrightarrow>
      \<exists>f. dk_inodes (wd_disk w) ino = Some f \<and> (p, fl_bytes f) \<in> wd_begun w"
    and "\<And>i wr. wd_writers w i = Some wr \<Longrightarrow> writer_ok w wr"
    and "\<And>i k wr wr'. wd_writers w i = Some wr \<Longrightarrow> wd_writers w k = Some wr' \<Longrightarrow> i \<noteq> k \<Longrightarrow> wr_ino wr \<noteq> wr_ino wr'"
    and "\<And>j rd. wd_readers w j = Some rd \<Longrightarrow> reader_ok w rd"
    and "\<And>j rd. wd_readers w j = Some rd \<Longrightarrow> rd_ino rd < dk_next (wd_disk w)"
    and "\<And>j rd i wr. wd_readers w j = Some rd \<Longrightarrow> wd_writers w i = Some wr \<Longrightarrow> wr_ino wr \<noteq> rd_ino rd"
  shows "world_ok w"
  using assms unfolding world_ok_def by blast

lemma writer_okD:
  assumes "writer_ok w wr"
  shows "is_temp (wr_tmp wr)" "\<not> is_temp (wr_path wr)" "dk_names (wd_disk w) (wr_tmp wr) = Some (wr_ino wr)"
    "dk_names (wd_disk w) q = Some (wr_ino wr) \<Longrightarrow> q = wr_tmp wr" "(wr_path wr, wr_body wr) \<in> wd_begun w"
    "\<exists>f. dk_inodes (wd_disk w) (wr_ino wr) = Some f \<and> fl_bytes f @ wr_left wr = wr_body wr"
  using assms unfolding writer_ok_def by blast+

lemma writer_okI:
  assumes "is_temp (wr_tmp wr)" "\<not> is_temp (wr_path wr)" "dk_names (wd_disk w) (wr_tmp wr) = Some (wr_ino wr)"
    and "\<And>q. dk_names (wd_disk w) q = Some (wr_ino wr) \<Longrightarrow> q = wr_tmp wr" and "(wr_path wr, wr_body wr) \<in> wd_begun w"
    and "dk_inodes (wd_disk w) (wr_ino wr) = Some f" "fl_bytes f @ wr_left wr = wr_body wr"
  shows "writer_ok w wr"
  using assms unfolding writer_ok_def by blast

text \<open>A writer is not disturbed by what leaves its names and its inode alone.\<close>

lemma writer_ok_frame:
  assumes "writer_ok w wr" and "dk_names (wd_disk w') (wr_tmp wr) = dk_names (wd_disk w) (wr_tmp wr)"
    and "\<And>q. dk_names (wd_disk w') q = Some (wr_ino wr) \<Longrightarrow> dk_names (wd_disk w) q = Some (wr_ino wr)"
    and "dk_inodes (wd_disk w') (wr_ino wr) = dk_inodes (wd_disk w) (wr_ino wr)" and "wd_begun w \<subseteq> wd_begun w'"
  shows "writer_ok w' wr"
  using assms unfolding writer_ok_def by (metis subsetD)

lemma reader_ok_frame:
  assumes "reader_ok w rd" and "dk_inodes (wd_disk w') (rd_ino rd) = dk_inodes (wd_disk w) (rd_ino rd)"
    and "wd_begun w \<subseteq> wd_begun w'"
  shows "reader_ok w' rd"
  using assms unfolding reader_ok_def by (metis subsetD)

lemma begin_ok:
  assumes ok: "world_ok w" and new: "wd_writers w i = None" "is_temp tmp" "\<not> is_temp p" "dk_names (wd_disk w) tmp = None"
    and w': "w' = w\<lparr>wd_disk := create_file tmp now (wd_disk w),
       wd_writers := (wd_writers w)(i \<mapsto>
         \<lparr>wr_path = p, wr_tmp = tmp, wr_ino = dk_next (wd_disk w), wr_body = body, wr_left = body\<rparr>),
       wd_begun := insert (p, body) (wd_begun w)\<rparr>"
  shows "world_ok w'"
proof -
  note D = world_okD[OF ok]
  let ?n = "dk_next (wd_disk w)" and ?wr = "\<lparr>wr_path = p, wr_tmp = tmp, wr_ino = dk_next (wd_disk w), wr_body = body, wr_left = body\<rparr>"
  have names: "dk_names (wd_disk w') = (dk_names (wd_disk w))(tmp \<mapsto> ?n)"
    and inodes: "dk_inodes (wd_disk w') = (dk_inodes (wd_disk w))(?n \<mapsto> \<lparr>fl_bytes = [], fl_time = now\<rparr>)"
    and nxt: "dk_next (wd_disk w') = Suc ?n" and ws: "wd_writers w' = (wd_writers w)(i \<mapsto> ?wr)"
    and rs: "wd_readers w' = wd_readers w" and bg: "wd_begun w' = insert (p, body) (wd_begun w)"
    by (simp_all add: w' create_file_def)
  have fresh: "dk_names (wd_disk w) q \<noteq> Some ?n" for q using D(1)[of q ?n] by blast
  have less: "wr_ino wr < ?n" if "wd_writers w k = Some wr" for k wr
    using D(1) writer_okD(3)[OF D(3)[OF that]] by blast
  show ?thesis
  proof (rule world_okI)
    show "ino < dk_next (wd_disk w')" if "dk_names (wd_disk w') q = Some ino" for q ino
      using that D(1)[of q ino] unfolding names nxt by (cases "q = tmp") auto
    show "\<exists>f. dk_inodes (wd_disk w') ino = Some f \<and> (q, fl_bytes f) \<in> wd_begun w'"
      if "\<not> is_temp q" "dk_names (wd_disk w') q = Some ino" for q ino
    proof -
      have "dk_names (wd_disk w) q = Some ino" using that new(2) unfolding names by (cases "q = tmp") auto
      with D(1)[OF this] D(2)[OF that(1) this] show ?thesis unfolding inodes bg by (cases "ino = ?n") auto
    qed
    show "writer_ok w' wr" if "wd_writers w' k = Some wr" for k wr
    proof (cases "k = i")
      case True
      with that have wr: "wr = ?wr" unfolding ws by simp
      have only: "q = tmp" if "dk_names (wd_disk w') q = Some ?n" for q
        using that fresh[of q] unfolding names by (cases "q = tmp") auto
      show ?thesis
      proof (rule writer_okI)
        show "q = wr_tmp wr" if "dk_names (wd_disk w') q = Some (wr_ino wr)" for q
          using only[of q] that unfolding wr by simp
        show "dk_inodes (wd_disk w') (wr_ino wr) = Some \<lparr>fl_bytes = [], fl_time = now\<rparr>" unfolding wr inodes by simp
      qed (use new in \<open>simp_all add: wr names bg\<close>)
    next
      case False
      with that have k: "wd_writers w k = Some wr" unfolding ws by simp
      note o = D(3)[OF k]
      show ?thesis
      proof (rule writer_ok_frame[OF o])
        show "dk_names (wd_disk w') (wr_tmp wr) = dk_names (wd_disk w) (wr_tmp wr)"
          using writer_okD(3)[OF o] new(4) unfolding names by auto
        show "dk_names (wd_disk w) q = Some (wr_ino wr)" if "dk_names (wd_disk w') q = Some (wr_ino wr)" for q
          using that less[OF k] unfolding names by (cases "q = tmp") auto
        show "dk_inodes (wd_disk w') (wr_ino wr) = dk_inodes (wd_disk w) (wr_ino wr)"
          using less[OF k] unfolding inodes by auto
      qed (auto simp: bg)
    qed
    show "wr_ino wr \<noteq> wr_ino wr'" if "wd_writers w' k = Some wr" "wd_writers w' l = Some wr'" "k \<noteq> l" for k l wr wr'
      using that D(4)[of k wr l wr'] less[of k wr] less[of l wr'] unfolding ws
      by (cases "k = i"; cases "l = i") auto
    show "reader_ok w' rd" if "wd_readers w' j = Some rd" for j rd
      using that reader_ok_frame[OF D(5)[of j rd], of w'] D(6)[of j rd] unfolding rs inodes bg by auto
    show "rd_ino rd < dk_next (wd_disk w')" if "wd_readers w' j = Some rd" for j rd
      using that D(6)[of j rd] unfolding rs nxt by auto
    show "wr_ino wr \<noteq> rd_ino rd" if "wd_readers w' j = Some rd" "wd_writers w' k = Some wr" for j rd k wr
      using that D(6)[of j rd] D(7)[of j rd k wr] unfolding rs ws by (cases "k = i") auto
  qed
qed

lemma write_ok:
  assumes ok: "world_ok w" and wr: "wd_writers w i = Some wr" "wr_left wr = bs @ rest"
    and w': "w' = w\<lparr>wd_disk := append_file (wr_ino wr) bs (wd_disk w),
       wd_writers := (wd_writers w)(i \<mapsto> wr\<lparr>wr_left := rest\<rparr>)\<rparr>"
  shows "world_ok w'"
proof -
  note D = world_okD[OF ok]
  note o = D(3)[OF wr(1)]
  obtain f where f: "dk_inodes (wd_disk w) (wr_ino wr) = Some f" "fl_bytes f @ bs @ rest = wr_body wr"
    using writer_okD(6)[OF o] wr(2) by auto
  have names: "dk_names (wd_disk w') = dk_names (wd_disk w)"
    and inodes: "dk_inodes (wd_disk w') = (dk_inodes (wd_disk w))(wr_ino wr \<mapsto> f\<lparr>fl_bytes := fl_bytes f @ bs\<rparr>)"
    and nxt: "dk_next (wd_disk w') = dk_next (wd_disk w)" and ws: "wd_writers w' = (wd_writers w)(i \<mapsto> wr\<lparr>wr_left := rest\<rparr>)"
    and rs: "wd_readers w' = wd_readers w" and bg: "wd_begun w' = wd_begun w"
    using f(1) by (simp_all add: w' append_file_def)
  show ?thesis
  proof (rule world_okI)
    show "\<exists>g. dk_inodes (wd_disk w') ino = Some g \<and> (q, fl_bytes g) \<in> wd_begun w'"
      if q: "\<not> is_temp q" "dk_names (wd_disk w') q = Some ino" for q ino
    proof -
      have n: "dk_names (wd_disk w) q = Some ino" using q(2) unfolding names .
      then have "ino \<noteq> wr_ino wr" using writer_okD(4)[OF o, of q] writer_okD(1)[OF o] q(1) by auto
      then show ?thesis using D(2)[OF q(1) n] unfolding inodes bg by simp
    qed
    show "writer_ok w' x" if x: "wd_writers w' k = Some x" for k x
    proof (cases "k = i")
      case True
      then have "x = wr\<lparr>wr_left := rest\<rparr>" using x unfolding ws by simp
      note x = this
      show ?thesis
      proof (rule writer_okI[where f = "f\<lparr>fl_bytes := fl_bytes f @ bs\<rparr>"])
        show "q = wr_tmp x" if "dk_names (wd_disk w') q = Some (wr_ino x)" for q
          using writer_okD(4)[OF o, of q] that unfolding x names by simp
      qed (use writer_okD(1-3,5)[OF o] f(2) in \<open>simp_all add: x names inodes bg\<close>)
    next
      case False
      then have k: "wd_writers w k = Some x" using x unfolding ws by simp
      have "wr_ino x \<noteq> wr_ino wr" using D(4)[OF k wr(1) False] .
      then show ?thesis by (intro writer_ok_frame[OF D(3)[OF k]]) (simp_all add: names inodes bg)
    qed
    show "wr_ino x \<noteq> wr_ino y" if "wd_writers w' k = Some x" "wd_writers w' l = Some y" "k \<noteq> l" for k l x y
      using that D(4)[of k x l y] D(4)[of i wr l y] D(4)[of k x i wr] wr(1) unfolding ws
      by (cases "k = i"; cases "l = i") auto
    show "reader_ok w' rd" if j: "wd_readers w' j = Some rd" for j rd
    proof -
      have "wd_readers w j = Some rd" using j unfolding rs .
      note j = this
      show ?thesis
        by (rule reader_ok_frame[OF D(5)[OF j]]) (use D(7)[OF j wr(1)] in \<open>simp_all add: inodes bg\<close>)
    qed
    show "wr_ino x \<noteq> rd_ino rd" if j: "wd_readers w' j = Some rd" and k: "wd_writers w' k = Some x" for j rd k x
    proof (cases "k = i")
      case True
      with k have "wr_ino x = wr_ino wr" unfolding ws by auto
      with D(7)[OF j[unfolded rs] wr(1)] show ?thesis by simp
    next
      case False
      with k have "wd_writers w k = Some x" unfolding ws by simp
      with D(7)[OF j[unfolded rs]] show ?thesis by blast
    qed
  qed (use D(1,6) in \<open>simp_all add: names nxt rs\<close>)
qed

text \<open>A writer that stops leaves the others as they were.\<close>

lemma drop_writer_ok:
  assumes ok: "world_ok w"
    and ws: "wd_writers w' = (wd_writers w)(i := None)" and rs: "wd_readers w' = wd_readers w"
    and bg: "wd_begun w' = wd_begun w" and inodes: "dk_inodes (wd_disk w') = dk_inodes (wd_disk w)"
    and nxt: "dk_next (wd_disk w') = dk_next (wd_disk w)"
    and object: "\<And>q ino. \<not> is_temp q \<Longrightarrow> dk_names (wd_disk w') q = Some ino \<Longrightarrow>
      \<exists>f. dk_inodes (wd_disk w') ino = Some f \<and> (q, fl_bytes f) \<in> wd_begun w'"
    and old: "\<And>q ino. dk_names (wd_disk w') q = Some ino \<Longrightarrow> \<exists>q'. dk_names (wd_disk w) q' = Some ino"
    and others: "\<And>k wr. k \<noteq> i \<Longrightarrow> wd_writers w k = Some wr \<Longrightarrow> writer_ok w' wr"
  shows "world_ok w'"
proof (rule world_okI)
  note D = world_okD[OF ok]
  show "ino < dk_next (wd_disk w')" if "dk_names (wd_disk w') q = Some ino" for q ino
    using old[OF that] D(1) unfolding nxt by blast
  have sub: "k \<noteq> i \<and> wd_writers w k = Some wr" if "wd_writers w' k = Some wr" for k wr
    using that unfolding ws by (cases "k = i") simp_all
  show "writer_ok w' wr" if "wd_writers w' k = Some wr" for k wr using others sub[OF that] by blast
  show "wr_ino wr \<noteq> wr_ino wr'" if "wd_writers w' k = Some wr" "wd_writers w' l = Some wr'" "k \<noteq> l" for k l wr wr'
    using D(4) sub that by blast
  show "reader_ok w' rd" if "wd_readers w' j = Some rd" for j rd
    by (rule reader_ok_frame[OF D(5)]) (use that in \<open>auto simp: rs inodes bg\<close>)
  show "rd_ino rd < dk_next (wd_disk w')" if "wd_readers w' j = Some rd" for j rd
    using D(6) that unfolding rs nxt by blast
  show "wr_ino wr \<noteq> rd_ino rd" if "wd_readers w' j = Some rd" "wd_writers w' k = Some wr" for j rd k wr
    using D(7) that(1) sub[OF that(2)] unfolding rs by blast
qed (fact object)

lemma commit_ok:
  assumes ok: "world_ok w" and wr: "wd_writers w i = Some wr" "wr_left wr = []"
    and w': "w' = w\<lparr>wd_disk := rename_file (wr_tmp wr) (wr_path wr) (wd_disk w), wd_writers := (wd_writers w)(i := None)\<rparr>"
  shows "world_ok w'"
proof -
  note D = world_okD[OF ok]
  note o = D(3)[OF wr(1)]
  have names: "dk_names (wd_disk w') = (dk_names (wd_disk w))(wr_path wr := Some (wr_ino wr), wr_tmp wr := None)"
    using writer_okD(3)[OF o] by (simp add: w' rename_file_def)
  have ne: "wr_tmp wr \<noteq> wr_path wr" using writer_okD(1,2)[OF o] by metis
  show ?thesis
  proof (rule drop_writer_ok[OF ok, where i = i])
    show "\<exists>f. dk_inodes (wd_disk w') ino = Some f \<and> (q, fl_bytes f) \<in> wd_begun w'"
      if q: "\<not> is_temp q" "dk_names (wd_disk w') q = Some ino" for q ino
    proof (cases "q = wr_path wr")
      case True
      with q ne have "ino = wr_ino wr" unfolding names by simp
      with True writer_okD(5,6)[OF o] wr(2) show ?thesis by (auto simp: w' rename_file_def)
    next
      case False
      with q writer_okD(1)[OF o] have "dk_names (wd_disk w) q = Some ino" unfolding names by (auto split: if_splits)
      from D(2)[OF q(1) this] show ?thesis by (simp add: w' rename_file_def)
    qed
    show "\<exists>q'. dk_names (wd_disk w) q' = Some ino" if "dk_names (wd_disk w') q = Some ino" for q ino
      using that writer_okD(3)[OF o] unfolding names by (cases "q = wr_tmp wr"; cases "q = wr_path wr") auto
    show "writer_ok w' x" if k: "k \<noteq> i" "wd_writers w k = Some x" for k x
    proof -
      have d: "wr_ino x \<noteq> wr_ino wr" using D(4)[OF k(2) wr(1) k(1)] .
      have t: "wr_tmp x \<noteq> wr_tmp wr" using writer_okD(3)[OF D(3)[OF k(2)]] writer_okD(3)[OF o] d by auto
      have p: "wr_tmp x \<noteq> wr_path wr" using writer_okD(1)[OF D(3)[OF k(2)]] writer_okD(2)[OF o] by metis
      show ?thesis
      proof (rule writer_ok_frame[OF D(3)[OF k(2)]])
        show "dk_names (wd_disk w') (wr_tmp x) = dk_names (wd_disk w) (wr_tmp x)" using t p unfolding names by simp
        show "dk_names (wd_disk w) q = Some (wr_ino x)" if "dk_names (wd_disk w') q = Some (wr_ino x)" for q
          using that d unfolding names by (cases "q = wr_tmp wr"; cases "q = wr_path wr") auto
      qed (simp_all add: w' rename_file_def)
    qed
  qed (simp_all add: w' rename_file_def)
qed

lemma remove_ok:
  assumes ok: "world_ok w" and wr: "wd_writers w i = Some wr"
    and w': "w' = w\<lparr>wd_disk := remove_file (wr_tmp wr) (wd_disk w), wd_writers := (wd_writers w)(i := None)\<rparr>"
  shows "world_ok w'"
proof -
  note D = world_okD[OF ok]
  note o = D(3)[OF wr(1)]
  have names: "dk_names (wd_disk w') = (dk_names (wd_disk w))(wr_tmp wr := None)" by (simp add: w' remove_file_def)
  have old: "dk_names (wd_disk w) q = Some ino" if "dk_names (wd_disk w') q = Some ino" for q ino
    using that unfolding names by (cases "q = wr_tmp wr") simp_all
  show ?thesis
  proof (rule drop_writer_ok[OF ok, where i = i])
    show "\<exists>f. dk_inodes (wd_disk w') ino = Some f \<and> (q, fl_bytes f) \<in> wd_begun w'"
      if q: "\<not> is_temp q" "dk_names (wd_disk w') q = Some ino" for q ino
      using D(2)[OF q(1) old[OF q(2)]] by (simp add: w' remove_file_def)
    show "\<exists>q'. dk_names (wd_disk w) q' = Some ino" if "dk_names (wd_disk w') q = Some ino" for q ino
      using old[OF that] by blast
    show "writer_ok w' x" if k: "k \<noteq> i" "wd_writers w k = Some x" for k x
    proof (rule writer_ok_frame[OF D(3)[OF k(2)]])
      have "wr_tmp x \<noteq> wr_tmp wr"
        using writer_okD(3)[OF D(3)[OF k(2)]] writer_okD(3)[OF o] D(4)[OF k(2) wr(1) k(1)] by auto
      then show "dk_names (wd_disk w') (wr_tmp x) = dk_names (wd_disk w) (wr_tmp x)" unfolding names by simp
    qed (use old in \<open>simp_all add: w' remove_file_def\<close>)
  qed (simp_all add: w' remove_file_def)
qed

lemma die_ok:
  assumes ok: "world_ok w" and w': "w' = w\<lparr>wd_writers := (wd_writers w)(i := None)\<rparr>"
  shows "world_ok w'"
proof (rule drop_writer_ok[OF ok, where i = i])
  show "writer_ok w' x" if k: "k \<noteq> i" "wd_writers w k = Some x" for k x
    by (rule writer_ok_frame[OF world_okD(3)[OF ok k(2)]]) (simp_all add: w')
qed (use world_okD(2)[OF ok] in \<open>auto simp: w'\<close>)

lemma unlink_ok:
  assumes ok: "world_ok w" and p: "\<not> is_temp p" and w': "w' = w\<lparr>wd_disk := remove_file p (wd_disk w)\<rparr>"
  shows "world_ok w'"
proof -
  note D = world_okD[OF ok]
  have names: "dk_names (wd_disk w') = (dk_names (wd_disk w))(p := None)" by (simp add: w' remove_file_def)
  have old: "dk_names (wd_disk w) q = Some ino" if "dk_names (wd_disk w') q = Some ino" for q ino
    using that unfolding names by (cases "q = p") simp_all
  have same: "dk_inodes (wd_disk w') = dk_inodes (wd_disk w)" "dk_next (wd_disk w') = dk_next (wd_disk w)"
    "wd_writers w' = wd_writers w" "wd_readers w' = wd_readers w" "wd_begun w' = wd_begun w"
    by (simp_all add: w' remove_file_def)
  show ?thesis
  proof (rule world_okI; unfold same)
    show "writer_ok w' x" if k: "wd_writers w k = Some x" for k x
    proof (rule writer_ok_frame[OF D(3)[OF k]])
      show "dk_names (wd_disk w') (wr_tmp x) = dk_names (wd_disk w) (wr_tmp x)"
        using writer_okD(1)[OF D(3)[OF k]] p unfolding names by auto
    qed (use old in \<open>simp_all add: same\<close>)
    show "reader_ok w' rd" if "wd_readers w j = Some rd" for j rd
      by (rule reader_ok_frame[OF D(5)[OF that]]) (simp_all add: same)
    show "ino < dk_next (wd_disk w)" if "dk_names (wd_disk w') q = Some ino" for q ino using D(1) old[OF that] by blast
    show "\<exists>f. dk_inodes (wd_disk w) ino = Some f \<and> (q, fl_bytes f) \<in> wd_begun w"
      if "\<not> is_temp q" "dk_names (wd_disk w') q = Some ino" for q ino using D(2) old that by blast
  qed (use D(4,6,7) in blast)+
qed

text \<open>A read changes nothing but what its reader has.\<close>

lemma read_ok:
  assumes ok: "world_ok w" and rd: "reader_ok w rd" "rd_ino rd < dk_next (wd_disk w)"
      "\<And>i wr. wd_writers w i = Some wr \<Longrightarrow> wr_ino wr \<noteq> rd_ino rd"
    and w': "w' = w\<lparr>wd_readers := (wd_readers w)(j \<mapsto> rd)\<rparr>"
  shows "world_ok w'"
proof -
  note D = world_okD[OF ok]
  have same: "wd_disk w' = wd_disk w" "wd_writers w' = wd_writers w" "wd_begun w' = wd_begun w" by (simp_all add: w')
  have r: "reader_ok w' x \<longleftrightarrow> reader_ok w x" "writer_ok w' y \<longleftrightarrow> writer_ok w y" for x y
    unfolding reader_ok_def writer_ok_def same by simp_all
  have cases_rd: "x = rd \<or> wd_readers w k = Some x" if "wd_readers w' k = Some x" for k x
    using that by (cases "k = j") (simp_all add: w')
  show ?thesis
  proof (rule world_okI; unfold same r)
    show "reader_ok w x" if "wd_readers w' k = Some x" for k x using cases_rd[OF that] rd(1) D(5) by blast
    show "rd_ino x < dk_next (wd_disk w)" if "wd_readers w' k = Some x" for k x using cases_rd[OF that] rd(2) D(6) by blast
    show "wr_ino y \<noteq> rd_ino x" if "wd_readers w' k = Some x" "wd_writers w i = Some y" for k x i y
      using cases_rd[OF that(1)] rd(3) D(7) that(2) by blast
  qed (use D(1-4) in blast)+
qed


lemma dirs_ok: "world_ok w \<Longrightarrow> world_ok (w\<lparr>wd_disk := (wd_disk w)\<lparr>dk_dirs := ds\<rparr>\<rparr>)"
  unfolding world_ok_def writer_ok_def reader_ok_def by simp

lemma step_ok: "disk_step w w' \<Longrightarrow> world_ok w \<Longrightarrow> world_ok w'"
proof (induction rule: disk_step.induct)
  case (begin_write w i tmp p now body)
  then show ?case by (intro begin_ok[OF begin_write.prems]) (assumption | rule refl)+
next
  case (write_some w i wr bs rest)
  then show ?case by (intro write_ok[OF write_some.prems]) (assumption | rule refl)+
next
  case (commit w i wr)
  then show ?case by (intro commit_ok[OF commit.prems]) (assumption | rule refl)+
next
  case (give_up w i wr)
  then show ?case by (intro remove_ok[OF give_up.prems]) (assumption | rule refl)+
next
  case (die w i wr)
  then show ?case by (intro die_ok[OF die.prems]) (rule refl)
next
  case (make_dirs w ds)
  then show ?case by (rule dirs_ok)
next
  case (unlink p w)
  then show ?case by (intro unlink_ok[OF unlink.prems]) (assumption | rule refl)+
next
  case (open_read w j p ino)
  note D = world_okD[OF open_read.prems]
  obtain f where f: "dk_inodes (wd_disk w) ino = Some f" "(p, fl_bytes f) \<in> wd_begun w"
    using D(2)[OF open_read.hyps(2,3)] by blast
  have "wr_ino wr \<noteq> ino" if "wd_writers w i = Some wr" for i wr
    using writer_okD(1,4)[OF D(3)[OF that]] open_read.hyps(2,3) by metis
  with f D(1)[OF open_read.hyps(3)] show ?case
    by (intro read_ok[OF open_read.prems, where j = j]) (auto simp: reader_ok_def has_prefix_def)
next
  case (read_some w j rd f bs rest)
  note D = world_okD[OF read_some.prems]
  have "reader_ok w (rd\<lparr>rd_got := rd_got rd @ bs\<rparr>)"
  proof (cases "rd_eof rd")
    case True
    with D(5)[OF read_some.hyps(1)] read_some.hyps(2,3) have "bs = []" unfolding reader_ok_def by auto
    with D(5)[OF read_some.hyps(1)] show ?thesis by simp
  next
    case False
    with D(5)[OF read_some.hyps(1)] read_some.hyps(2,3) show ?thesis unfolding reader_ok_def by (auto simp: has_prefix_iff)
  qed
  with D(6,7)[OF read_some.hyps(1)] show ?case
    by (intro read_ok[OF read_some.prems, where j = j and rd = "rd\<lparr>rd_got := rd_got rd @ bs\<rparr>"]) simp_all
next
  case (read_eof w j rd f)
  note D = world_okD[OF read_eof.prems]
  have "reader_ok w (rd\<lparr>rd_eof := True\<rparr>)"
    using D(5)[OF read_eof.hyps(1)] read_eof.hyps(2,3) unfolding reader_ok_def by (auto simp: has_prefix_iff)
  with D(6,7)[OF read_eof.hyps(1)] show ?case
    by (intro read_ok[OF read_eof.prems, where j = j and rd = "rd\<lparr>rd_eof := True\<rparr>"]) simp_all
qed

lemma steps_ok: "disk_step\<^sup>*\<^sup>* w w' \<Longrightarrow> world_ok w \<Longrightarrow> world_ok w'"
  by (induction rule: rtranclp_induct) (auto intro: step_ok)

subsection \<open>A write is a sequence of steps\<close>

lemma copy_steps:
  "wd_writers w i = Some wr \<Longrightarrow> wr_left wr = concat cs @ rest \<Longrightarrow>
   copy_chunks env (wr_ino wr) cs e (wd_disk w) = (d', r) \<Longrightarrow>
   \<exists>left. disk_step\<^sup>*\<^sup>* w (w\<lparr>wd_disk := d', wd_writers := (wd_writers w)(i \<mapsto> wr\<lparr>wr_left := left\<rparr>)\<rparr>) \<and>
     (r = None \<longrightarrow> e = None \<and> left = rest)"
proof (induction cs arbitrary: w wr)
  case Nil
  then have w: "w\<lparr>wd_disk := d', wd_writers := (wd_writers w)(i \<mapsto> wr\<lparr>wr_left := rest\<rparr>)\<rparr> = w" and r: "r = e"
    by (simp_all add: map_upd_triv)
  show ?case unfolding r by (intro exI[of _ rest]) (simp only: w rtranclp.rtrancl_refl simp_thms)
next
  case (Cons c cs)
  show ?case
  proof (cases "dv_fault env (SysWrite c)")
    case (Some err)
    let ?left = "drop (dv_partial env) c @ concat cs @ rest"
    have "wr_left wr = take (dv_partial env) c @ ?left" using Cons.prems(2) by simp
    from disk_step.write_some[OF Cons.prems(1) this]
    have "disk_step\<^sup>*\<^sup>* w (w\<lparr>wd_disk := append_file (wr_ino wr) (take (dv_partial env) c) (wd_disk w),
        wd_writers := (wd_writers w)(i \<mapsto> wr\<lparr>wr_left := ?left\<rparr>)\<rparr>)" by (rule r_into_rtranclp)
    moreover have "d' = append_file (wr_ino wr) (take (dv_partial env) c) (wd_disk w) \<and> r = Some err"
      using Cons.prems(3) unfolding copy_chunks.simps Some by simp
    ultimately show ?thesis by (intro exI[of _ ?left]) (simp only: simp_thms option.distinct)
  next
    case None
    let ?wr = "wr\<lparr>wr_left := concat cs @ rest\<rparr>"
    let ?w = "w\<lparr>wd_disk := append_file (wr_ino wr) c (wd_disk w), wd_writers := (wd_writers w)(i \<mapsto> ?wr)\<rparr>"
    have "wr_left wr = c @ concat cs @ rest" using Cons.prems(2) by simp
    note s = disk_step.write_some[OF Cons.prems(1) this]
    have "wd_writers ?w i = Some ?wr" "wr_left ?wr = concat cs @ rest"
      "copy_chunks env (wr_ino ?wr) cs e (wd_disk ?w) = (d', r)" using None Cons.prems(3) by simp_all
    from Cons.IH[OF this] obtain left where l:
      "disk_step\<^sup>*\<^sup>* ?w (?w\<lparr>wd_disk := d', wd_writers := (wd_writers ?w)(i \<mapsto> ?wr\<lparr>wr_left := left\<rparr>)\<rparr>)"
      "r = None \<longrightarrow> e = None \<and> left = rest" by blast
    have "disk_step\<^sup>*\<^sup>* w (w\<lparr>wd_disk := d', wd_writers := (wd_writers w)(i \<mapsto> wr\<lparr>wr_left := left\<rparr>)\<rparr>)"
      using converse_rtranclp_into_rtranclp[of disk_step, OF s l(1)] by simp
    with l(2) show ?thesis by blast
  qed
qed

lemma discard_step:
  "wd_writers w i = Some wr \<Longrightarrow>
   disk_step w (w\<lparr>wd_disk := discard env (wr_tmp wr) (wd_disk w), wd_writers := (wd_writers w)(i := None)\<rparr>)"
  using disk_step.give_up[of w i wr] disk_step.die[of w i wr] by (cases "dv_fault env (SysRemove (wr_tmp wr))") (auto simp: discard_def)

lemma fill_outcome:
  assumes "fill_file env ino key tmp p (cs, e) d = (d', r)" "copy_chunks env ino cs e d = (d1, r1)"
  shows "d' = discard env tmp d1 \<or> r1 = None \<and> d' = rename_file tmp p d1"
proof (cases r1)
  case None
  have c: "commit_file env key tmp p d1 = (x, y) \<Longrightarrow> x = discard env tmp d1 \<or> x = rename_file tmp p d1" for x y
    unfolding commit_file_def
    by (cases "if p \<in> dk_dirs d1 then Some (Msg ''file exists'') else dv_fault env (SysRename tmp p)") (simp_all split: if_splits)
  show ?thesis using assms c None unfolding fill_file_def
    by (cases "dv_fault env SysSync"; cases "dv_fault env SysClose") simp_all
qed (use assms in \<open>simp add: fill_file_def\<close>)

lemma fill_steps:
  assumes wr: "wd_writers w i = Some wr" "wr_left wr = concat cs @ rest" "e = None \<Longrightarrow> rest = []"
    and f: "fill_file env (wr_ino wr) key (wr_tmp wr) (wr_path wr) (cs, e) (wd_disk w) = (d', r)"
  shows "disk_step\<^sup>*\<^sup>* w (w\<lparr>wd_disk := d', wd_writers := (wd_writers w)(i := None)\<rparr>)"
proof -
  obtain d1 r1 where c: "copy_chunks env (wr_ino wr) cs e (wd_disk w) = (d1, r1)" by fastforce
  from copy_steps[OF wr(1,2) c] obtain left where l:
    "disk_step\<^sup>*\<^sup>* w (w\<lparr>wd_disk := d1, wd_writers := (wd_writers w)(i \<mapsto> wr\<lparr>wr_left := left\<rparr>)\<rparr>)"
    "r1 = None \<longrightarrow> e = None \<and> left = rest" by blast
  define wr1 where "wr1 = wr\<lparr>wr_left := left\<rparr>"
  define w1 where "w1 = w\<lparr>wd_disk := d1, wd_writers := (wd_writers w)(i \<mapsto> wr1)\<rparr>"
  have w1: "wd_writers w1 i = Some wr1" "wd_disk w1 = d1" "wr_tmp wr1 = wr_tmp wr" "wr_path wr1 = wr_path wr"
    by (simp_all add: w1_def wr1_def)
  have after: "w1\<lparr>wd_disk := x, wd_writers := (wd_writers w1)(i := None)\<rparr> =
      w\<lparr>wd_disk := x, wd_writers := (wd_writers w)(i := None)\<rparr>" for x by (simp add: w1_def)
  have to: "disk_step\<^sup>*\<^sup>* w w1" using l(1) unfolding w1_def wr1_def .
  have dis: "disk_step\<^sup>*\<^sup>* w (w\<lparr>wd_disk := discard env (wr_tmp wr) d1, wd_writers := (wd_writers w)(i := None)\<rparr>)"
    using rtranclp.rtrancl_into_rtrancl[OF to discard_step[OF w1(1), of env]] unfolding after w1 .
  from fill_outcome[OF f c] show ?thesis
  proof
    assume r: "r1 = None \<and> d' = rename_file (wr_tmp wr) (wr_path wr) d1"
    with l(2) wr(3) have "wr_left wr1 = []" unfolding wr1_def by simp
    from rtranclp.rtrancl_into_rtrancl[OF to disk_step.commit[OF w1(1) this]]
    show ?thesis unfolding after w1 conjunct2[OF r] .
  next
    assume d: "d' = discard env (wr_tmp wr) d1"
    show ?thesis unfolding d by (rule dis)
  qed
qed

text \<open>
  The code's write is such a sequence: it begins one write of its source, under its key, and is over
  at the end of it. A source that fails is a write that never ends.
\<close>

lemma disk_write_steps:
  assumes p: "disk_path (dv_root env) key = Inr p" "\<not> is_temp p" and i: "wd_writers w i = None"
    and rest: "e = None \<Longrightarrow> rest = []" and dw: "disk_write env (wd_disk w) key (cs, e) = (d', r)"
  shows "\<exists>begun. disk_step\<^sup>*\<^sup>* w (w\<lparr>wd_disk := d', wd_begun := begun\<rparr>) \<and>
    begun \<subseteq> insert (p, concat cs @ rest) (wd_begun w)"
proof -
  let ?dir = "path_dir p" and ?tmp = "temp_name (path_dir p) (dv_random env)" and ?b = "concat cs @ rest"
  define d1 where "d1 = (wd_disk w)\<lparr>dk_dirs := dk_dirs (wd_disk w) \<union> parents ?dir\<rparr>"
  define w1 where "w1 = w\<lparr>wd_disk := d1\<rparr>"
  have w1: "wd_disk w1 = d1" "wd_writers w1 = wd_writers w" "wd_begun w1 = wd_begun w" by (simp_all add: w1_def)
  have s1: "disk_step w w1" unfolding w1_def d1_def by (rule disk_step.make_dirs)
  show ?thesis
  proof (rule disk_write_cases[OF p(1) dw d1_def refl])
    assume none: "d' = wd_disk w"
    have "w\<lparr>wd_disk := d', wd_begun := wd_begun w\<rparr> = w" using none by simp
    then show ?thesis by (intro exI[of _ "wd_begun w"]) auto
  next
    assume dirs: "d' = d1"
    have "w\<lparr>wd_disk := d', wd_begun := wd_begun w\<rparr> = w1" using dirs by (simp add: w1_def)
    with s1 show ?thesis by (intro exI[of _ "wd_begun w"]) auto
  next
    assume temp: "dk_names d1 ?tmp = None"
      "fill_file env (dk_next d1) key ?tmp p (cs, e) (create_file ?tmp (dv_now env) d1) = (d', r)"
    define wr where "wr = \<lparr>wr_path = p, wr_tmp = ?tmp, wr_ino = dk_next d1, wr_body = ?b, wr_left = ?b\<rparr>"
    have wr: "wr_left wr = ?b" "wr_ino wr = dk_next d1" "wr_tmp wr = ?tmp" "wr_path wr = p" by (simp_all add: wr_def)
    define w2 where "w2 = w1\<lparr>wd_disk := create_file ?tmp (dv_now env) d1, wd_writers := (wd_writers w)(i \<mapsto> wr),
      wd_begun := insert (p, ?b) (wd_begun w)\<rparr>"
    have w2: "wd_writers w2 i = Some wr" "wd_disk w2 = create_file ?tmp (dv_now env) d1" by (simp_all add: w2_def)
    have "is_temp ?tmp" unfolding is_temp_def by blast
    from disk_step.begin_write[of w1 i, OF _ this p(2)] i temp(1) have s2: "disk_step w1 w2"
      unfolding w1 w2_def wr_def by blast
    have "disk_step\<^sup>*\<^sup>* w2 (w2\<lparr>wd_disk := d', wd_writers := (wd_writers w2)(i := None)\<rparr>)"
      by (rule fill_steps[OF w2(1) wr(1) rest]) (use temp(2) in \<open>simp_all only: w2 wr\<close>)
    moreover have "w2\<lparr>wd_disk := d', wd_writers := (wd_writers w2)(i := None)\<rparr> =
        w\<lparr>wd_disk := d', wd_begun := insert (p, ?b) (wd_begun w)\<rparr>"
      using i by (simp add: w2_def w1_def fun_upd_idem)
    ultimately have "disk_step\<^sup>*\<^sup>* w2 (w\<lparr>wd_disk := d', wd_begun := insert (p, ?b) (wd_begun w)\<rparr>)" by (simp only:)
    with s1 s2 have "disk_step\<^sup>*\<^sup>* w (w\<lparr>wd_disk := d', wd_begun := insert (p, ?b) (wd_begun w)\<rparr>)"
      by (blast intro: converse_rtranclp_into_rtranclp)
    then show ?thesis by blast
  qed
qed

text \<open>
  Property C14. Many passes share one disk store, and a write is a sequence of system calls that may
  fail or die anywhere. A reader of an object, whenever it opened it and however its reads interleave
  with writes, deletions and crashes, gets a prefix of one whole object that was written under that
  key, and all of it once it reaches the end; and every name of an object leads to a whole one.
\<close>

theorem readers_see_whole_objects:
  assumes "settled w" "disk_step\<^sup>*\<^sup>* w w'"
  shows "(wd_readers w' j = Some rd \<longrightarrow>
      (\<exists>b. (rd_path rd, b) \<in> wd_begun w' \<and> has_prefix b (rd_got rd) \<and> (rd_eof rd \<longrightarrow> rd_got rd = b))) \<and>
    (\<not> is_temp p \<and> dk_names (wd_disk w') p = Some ino \<longrightarrow> (\<exists>b. view (wd_disk w') p = Some b \<and> (p, b) \<in> wd_begun w'))"
proof -
  have ok: "world_ok w'" using assms settled_ok steps_ok by blast
  show ?thesis
    using world_okD(5)[OF ok, of j rd] world_okD(2)[OF ok, of p ino] unfolding reader_ok_def view_def by fastforce
qed

theorem readers_see_whole_objects_witness:
  "\<exists>w w' rd. settled w \<and> disk_step\<^sup>*\<^sup>* w w' \<and> wd_readers w' 0 = Some rd \<and> wd_writers w' 1 \<noteq> None \<and>
     rd_got rd = ''a'' \<and> (\<exists>b. (''k'', b) \<in> wd_begun w' \<and> has_prefix b ''a'')"
proof -
  have dot: "\<not> is_temp ''k''" by (auto simp: is_temp_def temp_name_def append_eq_Cons_conv)
  have tmp: "is_temp (temp_name [] ''1'')" unfolding is_temp_def by blast
  let ?d = "\<lparr>dk_names = [''k'' \<mapsto> 0], dk_inodes = [0 \<mapsto> \<lparr>fl_bytes = ''ab'', fl_time = 0\<rparr>], dk_dirs = {}, dk_next = 1\<rparr>"
  let ?w = "\<lparr>wd_disk = ?d, wd_writers = Map.empty, wd_readers = Map.empty, wd_begun = {(''k'', ''ab'')}\<rparr>"
  let ?rd = "\<lparr>rd_path = ''k'', rd_ino = 0, rd_got = [], rd_eof = False\<rparr>"
  let ?w1 = "?w\<lparr>wd_readers := (wd_readers ?w)(0 \<mapsto> ?rd)\<rparr>"
  have s1: "disk_step ?w ?w1" using dot by (intro disk_step.open_read) simp_all
  define w2 where "w2 = ?w1\<lparr>wd_disk := create_file (temp_name [] ''1'') 0 (wd_disk ?w1),
    wd_writers := (wd_writers ?w1)(1 \<mapsto> \<lparr>wr_path = ''k'', wr_tmp = temp_name [] ''1'', wr_ino = dk_next (wd_disk ?w1),
      wr_body = ''new'', wr_left = ''new''\<rparr>), wd_begun := insert (''k'', ''new'') (wd_begun ?w1)\<rparr>"
  have "dk_names (wd_disk ?w1) (temp_name [] ''1'') = None" by (simp add: temp_name_def)
  then have s2: "disk_step ?w1 w2" unfolding w2_def by (intro disk_step.begin_write tmp dot) simp_all
  have w2: "wd_readers w2 0 = Some ?rd" "wd_writers w2 1 \<noteq> None"
    "dk_inodes (wd_disk w2) 0 = Some \<lparr>fl_bytes = ''ab'', fl_time = 0\<rparr>"
    by (simp_all add: w2_def create_file_def)
  let ?w3 = "w2\<lparr>wd_readers := (wd_readers w2)(0 \<mapsto> ?rd\<lparr>rd_got := rd_got ?rd @ ''a''\<rparr>)\<rparr>"
  have s3: "disk_step w2 ?w3" using w2 by (intro disk_step.read_some[where f = "\<lparr>fl_bytes = ''ab'', fl_time = 0\<rparr>" and rest = "''b''"]) simp_all
  have st: "settled ?w" by (auto simp: settled_def)
  have steps: "disk_step\<^sup>*\<^sup>* ?w ?w3" 
    by (rule rtranclp.rtrancl_into_rtrancl[of disk_step, OF rtranclp.rtrancl_into_rtrancl[of disk_step, OF r_into_rtranclp[of disk_step, OF s1] s2] s3])
  have rd: "wd_readers ?w3 0 = Some (?rd\<lparr>rd_got := ''a''\<rparr>)" by simp
  from conjunct1[OF readers_see_whole_objects[OF st steps], of 0 "?rd\<lparr>rd_got := ''a''\<rparr>"] rd
  have "\<exists>b. (''k'', b) \<in> wd_begun ?w3 \<and> has_prefix b ''a''" by auto
  moreover have "wd_writers ?w3 1 \<noteq> None" using w2(2) by simp
  ultimately show ?thesis using st steps rd
    by (intro exI[of _ ?w] exI[of _ ?w3] exI[of _ "?rd\<lparr>rd_got := ''a''\<rparr>"]) simp
qed

end
