(* ===== verification/Retention_Loop.thy ===== *)
theory Retention_Loop
  imports Build_Controller
begin

section \<open>The lease, cycle after cycle\<close>

text \<open>
  \<^verbatim>\<open>internal/retention/refresher.go\<close>: what the sources yield, \<^verbatim>\<open>RefreshNow\<close> after a publish, and
  \<^verbatim>\<open>Start\<close>, which runs a cycle at once and another at every tick until its context is cancelled.
  What the loop selects is the list of its events; a tick carries the time and the answers of the API
  server and of the registry during the cycle it starts.
\<close>

subsection \<open>Targets\<close>

definition composition_target :: "composition \<Rightarrow> target" where
  "composition_target o' =
     \<lparr>tg_namespace = ic_namespace o', tg_name = ic_name o', tg_push = sc_push (ic_spec o'),
      tg_artifact = ic_artifact o', tg_history = ic_history o'\<rparr>"

definition composition_targets :: "composition list res \<Rightarrow> target list res" where
  "composition_targets list =
     (case list of Inl e \<Rightarrow> Inl (Wrap ''listing compositions'' e) | Inr os \<Rightarrow> Inr (map composition_target os))"

definition build_target :: "image_build \<Rightarrow> target" where
  "build_target o' =
     \<lparr>tg_namespace = ib_namespace o', tg_name = ib_name o', tg_push = xs_push (ib_spec o'),
      tg_artifact = ib_artifact o', tg_history = ib_history o'\<rparr>"

definition build_targets :: "image_build list res \<Rightarrow> target list res" where
  "build_targets list =
     (case list of Inl e \<Rightarrow> Inl (Wrap ''listing builds'' e) | Inr os \<Rightarrow> Inr (map build_target os))"

text \<open>
  After a publish the composer refreshes the new artifact without the history, the builder all of its
  object. Neither has a refresher unless it publishes.
\<close>

definition composer_refresh_now ::
    "refresher option \<Rightarrow> composition \<Rightarrow> artifact option \<Rightarrow> failures \<Rightarrow> refresh_state" where
  "composer_refresh_now r obj art fs =
     (case r of
        None \<Rightarrow> start_state fs
      | Some rf \<Rightarrow>
          if art = None then start_state fs
          else refresh_now rf ((composition_target obj)\<lparr>tg_artifact := art, tg_history := []\<rparr>) fs)"

definition builder_refresh_now :: "refresher option \<Rightarrow> image_build \<Rightarrow> failures \<Rightarrow> refresh_state" where
  "builder_refresh_now r obj fs =
     (case r of None \<Rightarrow> start_state fs | Some rf \<Rightarrow> refresh_now rf (build_target obj) fs)"

subsection \<open>The loop\<close>

definition default_interval :: int where
  "default_interval = 3600 * second"

definition effective_interval :: "int \<Rightarrow> int" where
  "effective_interval i = (if i \<le> 0 then default_interval else i)"

record cycle_input =
  cy_time :: int
  cy_refresher :: refresher
  cy_pending :: "string list res option"
  cy_targets :: "target list res option"

datatype loop_event = Tick cycle_input | Cancelled

record loop_state =
  lp_failures :: failures
  lp_skips :: nat
  lp_log :: "log_level list"
  lp_cycles :: "(cycle_input \<times> refresh_state) list"

definition idle_loop :: loop_state where
  "idle_loop = \<lparr>lp_failures = Map.empty, lp_skips = 0, lp_log = [], lp_cycles = []\<rparr>"

definition run_cycle :: "cycle_input \<Rightarrow> loop_state \<Rightarrow> loop_state" where
  "run_cycle i s =
     (let outcome = refresh_once (cy_refresher i) (cy_pending i) (cy_targets i) (lp_failures s)
      in (case refresh_cycle outcome (lp_skips s) of
            (skips, level) \<Rightarrow>
              \<lparr>lp_failures = st_failures (fst outcome), lp_skips = skips, lp_log = lp_log s @ [level],
               lp_cycles = lp_cycles s @ [(i, fst outcome)]\<rparr>))"

text \<open>The flag tells that the loop has returned.\<close>

fun refresh_loop :: "loop_event list \<Rightarrow> loop_state \<Rightarrow> loop_state \<times> bool" where
  "refresh_loop [] s = (s, False)"
| "refresh_loop (Cancelled # es) s = (s, True)"
| "refresh_loop (Tick i # es) s = refresh_loop es (run_cycle i s)"

definition refresher_start :: "cycle_input \<Rightarrow> loop_event list \<Rightarrow> loop_state \<times> bool" where
  "refresher_start first es = refresh_loop es (run_cycle first idle_loop)"

subsection \<open>What a cycle pulls\<close>

lemma refresh_object_keeps_pulls: "set (st_pulls st) \<subseteq> set (st_pulls (refresh_object r t st))"
  by (auto simp: refresh_object_def Let_def split: sum.splits prod.splits)

lemma refresh_all_keeps_pulls: "set (st_pulls st) \<subseteq> set (st_pulls (refresh_all r ts st))"
  by (induction ts arbitrary: st) (use refresh_object_keeps_pulls in fastforce)+

text \<open>A reference of an object the cycle can refresh: its repository and credential resolve.\<close>

definition leasable :: "refresher \<Rightarrow> target \<Rightarrow> string \<Rightarrow> bool" where
  "leasable r t ref \<longleftrightarrow>
     (let repo = target_repo (rf_default r) t in
      repo \<noteq> [] \<and> needed_ref repo t ref \<and>
      \<not> isl (remote_auth (rf_env r) (rf_default r) Msg (tg_namespace t) repo (tg_push t)) \<and>
      rg_ref_ok (rf_registry r) ref)"

lemma leasable_pulled:
  assumes "leasable r t ref"
  shows "ref \<in> set (st_pulls (refresh_object r t st))"
proof -
  let ?repo = "target_repo (rf_default r) t"
  obtain auth where "remote_auth (rf_env r) (rf_default r) Msg (tg_namespace t) ?repo (tg_push t) = Inr auth"
    using assms by (auto simp: leasable_def Let_def isl_def split: sum.splits)
      (metis isl_def sum.exhaust_sel)
  from refresh_object_pulls[OF refl _ this, of st] show ?thesis
    using assms refs_of_set[of ref ?repo t] by (auto simp: leasable_def Let_def)
qed

lemma refresh_all_pulls:
  assumes "t \<in> set ts" "leasable r t ref"
  shows "ref \<in> set (st_pulls (refresh_all r ts st))"
  using assms(1)
proof (induction ts arbitrary: st)
  case (Cons u us)
  show ?case
  proof (cases "u = t")
    case True
    then show ?thesis
      using leasable_pulled[OF assms(2), of st] refresh_all_keeps_pulls[of "refresh_object r t st" r us] by auto
  next
    case False
    then show ?thesis using Cons by simp
  qed
qed simp

text \<open>
  A cycle covers a reference when it runs, some listed object needs the reference, and the registry
  gives a definite answer.
\<close>

definition covers :: "cycle_input \<Rightarrow> string \<Rightarrow> bool" where
  "covers i ref \<longleftrightarrow>
     cy_pending i = Some (Inr []) \<and>
     (\<exists>ts. cy_targets i = Some (Inr ts) \<and> (\<exists>t \<in> set ts. leasable (cy_refresher i) t ref)) \<and>
     (case rg_pull (rf_registry (cy_refresher i)) ref of None \<Rightarrow> True | Some e \<Rightarrow> is_not_found e)"

lemma covers_pulled:
  assumes "covers i ref"
  shows "ref \<in> set (st_pulls (fst (refresh_once (cy_refresher i) (cy_pending i) (cy_targets i) fs)))"
  using assms refresh_all_pulls by (auto simp: covers_def refresh_once_def Let_def)

lemma run_cycle_logs:
  "lp_cycles (run_cycle i s) =
     lp_cycles s @ [(i, fst (refresh_once (cy_refresher i) (cy_pending i) (cy_targets i) (lp_failures s)))]"
  by (simp add: run_cycle_def Let_def split: prod.splits)

lemma refresh_loop_keeps_cycles: "set (lp_cycles s) \<subseteq> set (lp_cycles (fst (refresh_loop es s)))"
  by (induction es s rule: refresh_loop.induct) (auto simp: run_cycle_logs)

subsection \<open>The lease\<close>

text \<open>
  What the registry promises for a cycle, with \<open>present\<close> telling at what time it holds what: a
  reference that was pulled successfully stays for the retention window, and one that is held is not
  reported as missing.
\<close>

definition lease_kept :: "(int \<Rightarrow> string \<Rightarrow> bool) \<Rightarrow> int \<Rightarrow> cycle_input \<times> refresh_state \<Rightarrow> bool" where
  "lease_kept present window c \<longleftrightarrow>
     (\<forall>ref \<in> set (st_pulls (snd c)). rg_pull (rf_registry (cy_refresher (fst c))) ref = None \<longrightarrow>
        (\<forall>t. cy_time (fst c) \<le> t \<and> t \<le> cy_time (fst c) + window \<longrightarrow> present t ref)) \<and>
     (\<forall>ref e. rg_pull (rf_registry (cy_refresher (fst c))) ref = Some e \<and> is_not_found e \<longrightarrow>
        \<not> present (cy_time (fst c)) ref)"

text \<open>
  The ticker: a tick comes at most one interval after the one before. Then the time of the last tick
  before the loop is cancelled, and a bound on the ticks in a row that miss a reference.
\<close>

fun spaced :: "int \<Rightarrow> int \<Rightarrow> loop_event list \<Rightarrow> bool" where
  "spaced gap now (Tick i # es) \<longleftrightarrow> now \<le> cy_time i \<and> cy_time i \<le> now + gap \<and> spaced gap (cy_time i) es"
| "spaced gap now _ \<longleftrightarrow> True"

fun last_tick :: "int \<Rightarrow> loop_event list \<Rightarrow> int" where
  "last_tick now (Tick i # es) = last_tick (cy_time i) es"
| "last_tick now _ = now"

fun misses_bounded :: "nat \<Rightarrow> nat \<Rightarrow> string \<Rightarrow> loop_event list \<Rightarrow> bool" where
  "misses_bounded n k ref (Tick i # es) \<longleftrightarrow>
     (if covers i ref then misses_bounded n 0 ref es else Suc k \<le> n \<and> misses_bounded n (Suc k) ref es)"
| "misses_bounded n k ref _ \<longleftrightarrow> True"

lemma covers_renews:
  assumes "lease_kept present window (i, fst (refresh_once (cy_refresher i) (cy_pending i) (cy_targets i) fs))"
    and "covers i ref" "present (cy_time i) ref"
  shows "\<forall>t. cy_time i \<le> t \<and> t \<le> cy_time i + window \<longrightarrow> present t ref"
proof -
  have "rg_pull (rf_registry (cy_refresher i)) ref = None"
    using assms(1-3) by (auto simp: lease_kept_def covers_def split: option.splits)
  then show ?thesis using assms covers_pulled[OF assms(2), of fs] by (auto simp: lease_kept_def)
qed

lemma lease_loop:
  assumes "\<forall>c \<in> set (lp_cycles (fst (refresh_loop es s))). lease_kept present window c"
    and "\<forall>t. renewed \<le> t \<and> t \<le> renewed + window \<longrightarrow> present t ref"
    and "renewed \<le> now" "now \<le> renewed + int k * gap" "k \<le> n"
    and "spaced gap now es" "misses_bounded n k ref es" "int (Suc n) * gap \<le> window" "0 \<le> gap"
    and "renewed \<le> t" "t \<le> last_tick now es + gap"
  shows "present t ref"
  using assms
proof (induction es s arbitrary: renewed now k t rule: refresh_loop.induct)
  case (1 s)
  have "int (Suc k) * gap \<le> int (Suc n) * gap" using 1 by (intro mult_right_mono) auto
  then show ?case using 1 by (auto simp: algebra_simps)
next
  case (2 es s)
  have "int (Suc k) * gap \<le> int (Suc n) * gap" using 2 by (intro mult_right_mono) auto
  then show ?case using 2 by (auto simp: algebra_simps)
next
  case (3 i es s)
  note p = 3(2-)
  let ?s = "run_cycle i s"
  have le: "int (Suc k) * gap \<le> int (Suc n) * gap" using p(5,9) by (intro mult_right_mono) auto
  have at: "now \<le> cy_time i" "cy_time i \<le> now + gap" "spaced gap (cy_time i) es" using p(6) by auto
  have late: "cy_time i \<le> renewed + int (Suc k) * gap" using p(4) at(2) by (simp add: algebra_simps)
  have old: "cy_time i \<le> renewed + window" "renewed \<le> cy_time i" using late le p(3,8) at(1) by linarith+
  have here: "present (cy_time i) ref" using p(2) old by simp
  have kept: "\<forall>c \<in> set (lp_cycles (fst (refresh_loop es ?s))). lease_kept present window c"
    using p(1) by simp
  have last: "t \<le> last_tick (cy_time i) es + gap" using p(11) by simp
  show ?case
  proof (cases "covers i ref")
    case True
    have "(i, fst (refresh_once (cy_refresher i) (cy_pending i) (cy_targets i) (lp_failures s)))
        \<in> set (lp_cycles (fst (refresh_loop es ?s)))"
      using refresh_loop_keeps_cycles[of ?s es] by (auto simp: run_cycle_logs)
    then have new: "\<forall>t. cy_time i \<le> t \<and> t \<le> cy_time i + window \<longrightarrow> present t ref"
      using kept by (intro covers_renews[where present = present, OF _ True here]) blast
    have m: "misses_bounded n 0 ref es" using p(7) True by simp
    show ?thesis
    proof (cases "cy_time i \<le> t")
      case True
      show ?thesis
        by (rule 3(1)[OF kept new _ _ _ at(3) m p(8,9) True last]) simp_all
    next
      case False
      then show ?thesis using p(2,10) old(1) by simp
    qed
  next
    case False
    then have "Suc k \<le> n" "misses_bounded n (Suc k) ref es" using p(7) by simp_all
    then show ?thesis by (rule 3(1)[OF kept p(2) old(2) late _ at(3) _ p(8-10) last])
  qed
qed

text \<open>
  Property C5. A reference that some live object needs, present when the refresher starts, is never
  lost: it stays present until one interval after the last cycle, provided the registry keeps what
  was pulled for its window, that no more than \<open>n\<close> cycles in a row fail to refresh it, and that
  \<open>n + 1\<close> intervals fit into the window. A configured interval that is not positive is an hour, of
  which a window of thirty days holds 720.
\<close>

theorem lease_never_lapses:
  assumes "covers first ref" "present (cy_time first) ref"
    and "spaced (effective_interval i) (cy_time first) es" "misses_bounded n 0 ref es"
    and "int (Suc n) * effective_interval i \<le> window"
    and "\<forall>c \<in> set (lp_cycles (fst (refresher_start first es))). lease_kept present window c"
    and "cy_time first \<le> t" "t \<le> last_tick (cy_time first) es + effective_interval i"
  shows "present t ref"
proof -
  let ?s = "run_cycle first idle_loop"
  have "(first, fst (refresh_once (cy_refresher first) (cy_pending first) (cy_targets first) (lp_failures idle_loop)))
      \<in> set (lp_cycles (fst (refresh_loop es ?s)))"
    using refresh_loop_keeps_cycles[of ?s es] by (auto simp: run_cycle_logs)
  then have "\<forall>t. cy_time first \<le> t \<and> t \<le> cy_time first + window \<longrightarrow> present t ref"
    using assms(6) by (intro covers_renews[where present = present, OF _ assms(1,2)]) (auto simp: refresher_start_def)
  moreover have "0 \<le> effective_interval i" by (simp add: effective_interval_def default_interval_def second_def)
  ultimately show ?thesis
    using lease_loop[of es ?s present window "cy_time first" ref "cy_time first" 0 "effective_interval i" n t] assms
    by (simp add: refresher_start_def)
qed

lemma default_margin: "int (Suc 719) * effective_interval 0 \<le> 30 * 24 * 3600 * second"
  by (simp add: effective_interval_def default_interval_def second_def)

subsection \<open>A concrete lease\<close>

text \<open>Three cycles, the second of which is skipped, with a window of two hours.\<close>

definition sample_cycle :: "int \<Rightarrow> string list \<Rightarrow> cycle_input" where
  "sample_cycle hours ps =
     \<lparr>cy_time = hours * default_interval, cy_refresher = sample_refresher, cy_pending = Some (Inr ps),
      cy_targets = Some (Inr [sample_target])\<rparr>"

definition sample_presence :: "int \<Rightarrow> string \<Rightarrow> bool" where
  "sample_presence t ref \<longleftrightarrow>
     ref = ''registry.svc:5000/team/app@sha256:aa'' \<and> 0 \<le> t \<and> t \<le> 4 * default_interval"

lemma sample_cycle_lease:
  assumes "0 \<le> h" "h \<le> 2"
  shows "lease_kept sample_presence (2 * default_interval) (sample_cycle h ps, st)"
  using assms
  by (auto simp: lease_kept_def sample_cycle_def sample_presence_def sample_refresher_def tag_registry_def
      default_interval_def second_def split: option.splits if_splits)

lemma sample_cycle_covers: "covers (sample_cycle h []) ''registry.svc:5000/team/app@sha256:aa''"
proof -
  have "needed_ref ''registry.svc:5000/team/app'' sample_target ''registry.svc:5000/team/app@sha256:aa''"
    using refs_of_set[of "''registry.svc:5000/team/app@sha256:aa''" "''registry.svc:5000/team/app''" sample_target]
    unfolding sample_target_facts(4) by simp
  then have "leasable sample_refresher sample_target ''registry.svc:5000/team/app@sha256:aa''"
    using sample_target_facts(1-3) by (simp add: leasable_def)
  then show ?thesis
    by (simp add: covers_def sample_cycle_def) (simp add: sample_refresher_def tag_registry_def)
qed

theorem lease_never_lapses_witness:
  "sample_presence (3 * default_interval) ''registry.svc:5000/team/app@sha256:aa'' \<and>
   int (Suc 719) * effective_interval 0 \<le> 30 * 24 * 3600 * second"
proof
  let ?ref = "''registry.svc:5000/team/app@sha256:aa''"
  let ?es = "[Tick (sample_cycle 1 [''team/new'']), Tick (sample_cycle 2 []), Cancelled]"
  have cycles: "fst ` set (lp_cycles (fst (refresher_start (sample_cycle 0 []) ?es))) \<subseteq>
      {sample_cycle 0 [], sample_cycle 1 [''team/new''], sample_cycle 2 []}"
    by (simp add: refresher_start_def run_cycle_logs idle_loop_def)
  have kept: "\<forall>c \<in> set (lp_cycles (fst (refresher_start (sample_cycle 0 []) ?es))).
      lease_kept sample_presence (2 * default_interval) c"
  proof
    fix c assume "c \<in> set (lp_cycles (fst (refresher_start (sample_cycle 0 []) ?es)))"
    then obtain h ps where "fst c = sample_cycle h ps" "0 \<le> h" "h \<le> 2" using cycles by force
    then show "lease_kept sample_presence (2 * default_interval) c"
      using sample_cycle_lease[of h ps "snd c"] by (cases c) simp
  qed
  have gap: "effective_interval 0 = default_interval" "0 < default_interval"
    by (simp_all add: effective_interval_def default_interval_def second_def)
  have miss: "\<not> covers (sample_cycle 1 [''team/new'']) ?ref" by (simp add: covers_def sample_cycle_def)
  show "sample_presence (3 * default_interval) ?ref"
  proof (rule lease_never_lapses[where i = 0 and n = 1 and window = "2 * default_interval", OF sample_cycle_covers[of 0] _ _ _ _ kept])
    show "misses_bounded 1 0 ?ref ?es" using miss sample_cycle_covers by simp
  qed (use gap in \<open>simp_all add: sample_presence_def sample_cycle_def\<close>)
  show "int (Suc 719) * effective_interval 0 \<le> 30 * 24 * 3600 * second" by (rule default_margin)
qed

end
