(* ===== verification/Publish_Lease.thy ===== *)
theory Publish_Lease
  imports Retention_Loop Composition_Theorems Build_Theorems
begin

section \<open>What is published is what is refreshed\<close>

text \<open>
  The writers and the refresher agree: every reference a pass of the composer or of the builder writes
  is pulled by the refresh that follows the publish, and by every later cycle that still finds the
  artifact in status. Status holds the names a workload pulls from, the refresher goes back from them
  to the repository the controller reaches.
\<close>

subsection \<open>Tags and digests\<close>

definition hash_string :: "string \<Rightarrow> bool" where
  "hash_string d \<longleftrightarrow>
     has_prefix d ''sha256:'' \<and>
     list_all (\<lambda>c. is_digit c \<or> (97 \<le> (of_char c :: nat) \<and> of_char c \<le> (102 :: nat))) (drop 7 d)"

lemma hash_string_tag:
  assumes "hash_string d"
  shows "tag_pattern (digest_tag d)" "d \<noteq> []"
proof -
  obtain h where "d = ''sha256:'' @ h" using assms by (auto simp: hash_string_def has_prefix_iff)
  moreover have "drop 7 (''sha256:'' @ h) = h" by simp
  ultimately show "tag_pattern (digest_tag d)" "d \<noteq> []"
    using assms publish_tags_spec[of h d] by (auto simp: hash_string_def)
qed

lemma tag_from_ref_pattern: "tag_from_ref ref = Inr v \<Longrightarrow> v = [] \<or> tag_pattern v"
  by (auto simp: tag_from_ref_def Let_def split: if_splits)

lemma effective_tags_pattern:
  assumes "effective_tags tags ref = Inr out" "\<forall>v \<in> set tags. tag_pattern v"
  shows "\<forall>v \<in> set out. tag_pattern v"
  using assms tag_from_ref_pattern[of ref] unique_tags_spec[of "{}"]
  by (auto simp: effective_tags_def split: sum.splits)

lemma publish_tags_pattern:
  "\<forall>v \<in> set tags. tag_pattern v \<Longrightarrow> tag_pattern (digest_tag d) \<Longrightarrow> \<forall>v \<in> set (publish_tags tags d). tag_pattern v"
  by (auto simp: publish_tags_def)

lemma publish_tags_set: "set (publish_tags tags d) = insert (digest_tag d) (set tags)"
  by (auto simp: publish_tags_def)

text \<open>How a failure is worded does not decide whether a credential resolves.\<close>

lemma remote_auth_soft: "isl (remote_auth env d soft ns repo p) = isl (remote_auth env d soft' ns repo p)"
  by (auto simp: remote_auth_def split: prod.splits lookup.splits sum.splits)


subsection \<open>From a status to the references\<close>

lemma artifact_needed:
  assumes "tg_artifact t = Some a" "ar_digest a = digest" "digest \<noteq> []"
    and "tag_ref public ` set tags \<subseteq> set (ar_tags a)" "CHR ''@'' \<notin> set public" "\<forall>v \<in> set tags. tag_pattern v"
    and "ref = digest_ref_of repo digest \<or> (\<exists>v \<in> set tags. ref = tag_ref repo v)"
  shows "needed_ref repo t ref"
proof -
  have pair: "(digest, ar_tags a) \<in> set (named_pairs t)" using assms(1,2) by (simp add: named_pairs_def)
  have "\<exists>tag \<in> set (ar_tags a). bare_tag tag \<noteq> [] \<and> ref = tag_ref repo (bare_tag tag)"
    if v: "v \<in> set tags" "ref = tag_ref repo v" for v
  proof (rule bexI)
    have "bare_tag (tag_ref public v) = v" "v \<noteq> []"
      using v assms(5,6) bare_tag_published(2)[of v public] tag_pattern_chars(4)[of v] by (auto simp: tag_ref_def)
    then show "bare_tag (tag_ref public v) \<noteq> [] \<and> ref = tag_ref repo (bare_tag (tag_ref public v))" using v by simp
    show "tag_ref public v \<in> set (ar_tags a)" using v assms(4) by blast
  qed
  then show ?thesis using pair assms(3,7) unfolding needed_ref_def named_pairs_def[symmetric] by blast
qed

lemma refreshed_after_publish:
  assumes "target_repo (rf_default rf) t = repo" "repo \<noteq> []" "rg_ref_ok (rf_registry rf) ref"
    and "\<not> isl (remote_auth (rf_env rf) (rf_default rf) soft (tg_namespace t) repo (tg_push t))"
    and "needed_ref repo t ref"
  shows "ref \<in> set (st_pulls (refresh_object rf t st))"
proof (rule leasable_pulled)
  show "leasable rf t ref"
    using assms remote_auth_soft[where soft = soft and soft' = Msg] by (simp add: leasable_def Let_def)
qed

subsection \<open>The composer\<close>






subsection \<open>The builder\<close>

lemma build_repository_target:
  "tg_push t = p \<Longrightarrow> target_repo d t = build_repository d (tg_namespace t) (tg_name t) p"
  by (auto simp: target_repo_def build_repository_def uses_default_repository_def split: option.splits)

lemma named_build:
  assumes "apply_tags env obj digest = (es, Inr None)"
  shows "\<exists>tags repo. effective_tags (get_tags (xs_push (ib_spec obj))) (get_ref (xs_push (ib_spec obj))) = Inr tags \<and>
    registry_for env obj = Inr repo \<and> repo \<noteq> [] \<and>
    (\<forall>ref desc. BTag ref desc \<in> set es \<longrightarrow> (\<exists>v \<in> set (publish_tags tags digest). ref = tag_ref repo v))"
proof -
  obtain tags repo where t: "effective_tags (get_tags (xs_push (ib_spec obj))) (get_ref (xs_push (ib_spec obj))) = Inr tags"
    "registry_for env obj = Inr repo" "repo \<noteq> []"
    using assms by (auto simp: apply_tags_def Let_def lift_def and_then_def split: sum.splits if_splits)
  show ?thesis
  proof (rule apply_tags_cases[where digest = digest, OF t(1,2)])
    fix pub desc
    assume "apply_tags env obj digest = and_then (tag_all env repo digest desc (publish_tags tags digest)) (\<lambda>_. lift (Inr None))"
    then have "es = fst (tag_all env repo digest desc (publish_tags tags digest))"
      using assms by (metis append_Nil2 fst_and_then fst_conv lift_def sum.case_eq_if)
    then obtain k where k: "es = map (\<lambda>t. BTag (tag_ref repo t) desc) (take k (publish_tags tags digest))"
      using tag_all_spec[of env repo digest desc "publish_tags tags digest"] by blast
    have "\<exists>v \<in> set (publish_tags tags digest). ref = tag_ref repo v" if "BTag ref dd \<in> set es" for ref dd
      using that set_take_subset[of k "publish_tags tags digest"] unfolding k by auto
    then show ?thesis using t by blast
  qed (use assms in auto)
qed

text \<open>
  What the builder names after a build is what its refresh pulls: the digest and every tag that was
  written, whatever history the object has.
\<close>

theorem tagged_is_refreshed:
  assumes "rf_default rf = bn_default env" "rf_env rf = bn_auth env"
    and "apply_tags env obj digest = (es, Inr None)" "hash_string digest"
    and "\<forall>v \<in> set (get_tags (xs_push (ib_spec obj))). tag_pattern v"
    and "CHR ''@'' \<notin> set (public_repository (bn_default env) (repository_of env obj))"
    and "ref = digest_ref_of (repository_of env obj) digest \<or> BTag ref desc \<in> set es"
    and "rg_ref_ok (rf_registry rf) ref"
  shows "ref \<in> set (st_pulls (builder_refresh_now (Some rf) (record_success env inputs ih digest obj) fs))"
proof -
  from named_build[OF assms(3)] obtain tags repo where t:
    "effective_tags (get_tags (xs_push (ib_spec obj))) (get_ref (xs_push (ib_spec obj))) = Inr tags"
    "registry_for env obj = Inr repo" "repo \<noteq> []"
    "\<And>ref desc. BTag ref desc \<in> set es \<Longrightarrow> \<exists>v \<in> set (publish_tags tags digest). ref = tag_ref repo v" by blast
  have repo: "repo = repository_of env obj"
    "\<not> isl (remote_auth (bn_auth env) (bn_default env) pending (ib_namespace obj) repo (xs_push (ib_spec obj)))"
    using t(2,3) by (auto simp: registry_for_def Let_def split: if_splits sum.splits)
  let ?obj = "record_success env inputs ih digest obj" and ?pub = "public_repository (bn_default env) repo"
  have obj: "ib_namespace ?obj = ib_namespace obj" "ib_name ?obj = ib_name obj" "ib_spec ?obj = ib_spec obj"
    by (simp_all add: record_success_def Let_def on_attempt_def split: option.splits)
  obtain a where a: "ib_artifact ?obj = Some a" "ar_digest a = digest"
    "ar_tags a = map (tag_ref ?pub) (publish_tags tags digest)"
    by (auto simp: record_success_def Let_def on_attempt_def t(1) repo(1) split: option.splits)
  let ?tg = "build_target ?obj"
  have pat: "\<forall>v \<in> set (publish_tags tags digest). tag_pattern v"
    by (intro publish_tags_pattern effective_tags_pattern[OF t(1) assms(5)] hash_string_tag(1)[OF assms(4)])
  have needed: "needed_ref repo ?tg ref"
  proof (rule artifact_needed[where public = ?pub and tags = "publish_tags tags digest", OF _ a(2) hash_string_tag(2)[OF assms(4)] _ _ pat])
    show "tg_artifact ?tg = Some a" using a(1) by (simp add: build_target_def)
    show "tag_ref ?pub ` set (publish_tags tags digest) \<subseteq> set (ar_tags a)" using a(3) by simp
    show "CHR ''@'' \<notin> set ?pub" using assms(6) repo(1) by simp
    show "ref = digest_ref_of repo digest \<or> (\<exists>v \<in> set (publish_tags tags digest). ref = tag_ref repo v)"
      using assms(7) repo(1) t(4) by blast
  qed
  have target: "target_repo (rf_default rf) ?tg = repo"
    using build_repository_target[of ?tg _ "rf_default rf", OF refl] repo(1) assms(1) obj
    by (simp add: build_target_def repository_of_def)
  have auth: "\<not> isl (remote_auth (rf_env rf) (rf_default rf) pending (tg_namespace ?tg) repo (tg_push ?tg))"
    using repo(2) assms(1,2) obj by (simp add: build_target_def)
  show ?thesis
    using refreshed_after_publish[OF target t(3) assms(8) auth needed]
    by (simp add: builder_refresh_now_def refresh_now_def)
qed

subsection \<open>Concrete publishes\<close>


lemma tagged:
  "list_ex (\<lambda>e. case e of BTag f d \<Rightarrow> f = a \<and> d = b | _ \<Rightarrow> False) es \<Longrightarrow> BTag a b \<in> set es"
  by (induction es) (auto split: build_effect.splits)


theorem tagged_is_refreshed_witness:
  "''reg.io/app:v1'' \<in> set (st_pulls (builder_refresh_now
     (Some \<lparr>rf_default = bn_default (sample_builder (tag_registry []) Missing),
        rf_env = bn_auth (sample_builder (tag_registry []) Missing), rf_registry = tag_registry []\<rparr>)
     (record_success (sample_builder (tag_registry [(''reg.io/app@sha256:bb'', ''m'')]) Missing) sample_build ''h''
       ''sha256:bb'' flux_build) Map.empty))"
proof -
  let ?env = "sample_builder (tag_registry [(''reg.io/app@sha256:bb'', ''m'')]) Missing"
  let ?rf = "\<lparr>rf_default = bn_default (sample_builder (tag_registry []) Missing),
        rf_env = bn_auth (sample_builder (tag_registry []) Missing), rf_registry = tag_registry []\<rparr>"
  have s: "snd (apply_tags ?env flux_build ''sha256:bb'') = Inr None" by code_simp
  have t: "BTag ''reg.io/app:v1'' ''m'' \<in> set (fst (apply_tags ?env flux_build ''sha256:bb''))" 
  proof -
    have "list_ex (\<lambda>e. case e of BTag f d \<Rightarrow> f = ''reg.io/app:v1'' \<and> d = ''m'' | _ \<Rightarrow> False)
      (fst (apply_tags ?env flux_build ''sha256:bb''))" by code_simp
    then show ?thesis by (rule tagged)
  qed
  have env: "rf_default ?rf = bn_default ?env" "rf_env ?rf = bn_auth ?env" "rg_ref_ok (rf_registry ?rf) ''reg.io/app:v1''"
    by (simp_all add: sample_builder_def tag_registry_def)
  have form: "hash_string ''sha256:bb''" "\<forall>v \<in> set (get_tags (xs_push (ib_spec flux_build))). tag_pattern v"
    "CHR ''@'' \<notin> set (public_repository (bn_default ?env) (repository_of ?env flux_build))" by code_simp+
  have run: "apply_tags ?env flux_build ''sha256:bb'' = (fst (apply_tags ?env flux_build ''sha256:bb''), Inr None)"
    using s by (simp add: prod_eq_iff)
  show ?thesis by (rule tagged_is_refreshed[OF env(1,2) run form disjI2[OF t] env(3)])
qed

end
