(* ===== verification/Fetch_Flags.thy ===== *)
theory Fetch_Flags
  imports Go_Strings
begin

section \<open>The arguments of the context fetcher\<close>

text \<open>
  \<^verbatim>\<open>cmd/oci-builder/fetchcontext.go\<close> reads its options with the \<^verbatim>\<open>flag\<close> package: the
  options, the parsing of numbers it uses and the parser's loop.
\<close>

record fetch_options =
  fp_kind :: string
  fp_url :: string
  fp_digest :: string
  fp_unpack :: string
  fp_subpath :: string
  fp_strip :: int
  fp_dest :: string
  fp_dockerfile :: string
  fp_token :: string

subsection \<open>Numbers in any base\<close>

definition digit_any :: "nat \<Rightarrow> char \<Rightarrow> nat option" where
  "digit_any base c =
     (let n = of_char c :: nat; l = of_char (to_lower_char c) :: nat;
          v = (if 48 \<le> n \<and> n \<le> 57 then Some (n - 48) else if 97 \<le> l \<and> l \<le> 122 then Some (l - 87) else None)
      in case v of None \<Rightarrow> None | Some d \<Rightarrow> if d < base then Some d else None)"

text \<open>The loop of \<^verbatim>\<open>ParseUint\<close> for base 0, which skips underscores.\<close>

fun parse_digits_any :: "nat \<Rightarrow> nat \<Rightarrow> string \<Rightarrow> nat option" where
  "parse_digits_any base acc [] = Some acc"
| "parse_digits_any base acc (c # cs) =
     (if c = CHR ''_'' then parse_digits_any base acc cs
      else (case digit_any base c of None \<Rightarrow> None | Some d \<Rightarrow> parse_digits_any base (acc * base + d) cs))"

definition base_letter :: "char \<Rightarrow> nat option" where
  "base_letter c =
     (let l = to_lower_char c in
      if l = CHR ''b'' then Some 2 else if l = CHR ''o'' then Some 8 else if l = CHR ''x'' then Some 16 else None)"

definition split_base :: "string \<Rightarrow> nat \<times> string" where
  "split_base s =
     (case s of
        z # rest \<Rightarrow>
          if z \<noteq> CHR ''0'' then (10, s)
          else (case rest of
              c # d # ds \<Rightarrow> (case base_letter c of Some b \<Rightarrow> (b, d # ds) | None \<Rightarrow> (8, rest))
            | _ \<Rightarrow> (8, rest))
      | [] \<Rightarrow> (10, s))"

text \<open>\<^verbatim>\<open>underscoreOK\<close>: an underscore stands between digits or after the base prefix.\<close>

datatype seen = SeenStart | SeenDigit | SeenUnderscore | SeenOther

fun underscores :: "bool \<Rightarrow> seen \<Rightarrow> string \<Rightarrow> bool" where
  "underscores hex i [] \<longleftrightarrow> i \<noteq> SeenUnderscore"
| "underscores hex i (c # cs) \<longleftrightarrow>
     (if digit_any 10 c \<noteq> None \<or> hex \<and> digit_any 16 c \<noteq> None then underscores hex SeenDigit cs
      else if c = CHR ''_'' then i = SeenDigit \<and> underscores hex SeenUnderscore cs
      else i \<noteq> SeenUnderscore \<and> underscores hex SeenOther cs)"

definition underscore_ok :: "string \<Rightarrow> bool" where
  "underscore_ok s \<longleftrightarrow>
     (case s of
        z # c # rest \<Rightarrow>
          if z = CHR ''0'' \<and> base_letter c \<noteq> None
          then underscores (to_lower_char c = CHR ''x'') SeenDigit rest
          else underscores False SeenStart s
      | _ \<Rightarrow> underscores False SeenStart s)"

text \<open>\<^verbatim>\<open>strconv.ParseInt(s, 0, bits)\<close>\<close>

definition parse_int_any :: "nat \<Rightarrow> string \<Rightarrow> int option" where
  "parse_int_any bits s =
     (let neg = has_prefix s ''-''; ds = (if neg \<or> has_prefix s ''+'' then tl s else s) in
      if ds = [] then None
      else (case parse_digits_any (fst (split_base ds)) 0 (snd (split_base ds)) of
          None \<Rightarrow> None
        | Some n \<Rightarrow>
            if CHR ''_'' \<in> set ds \<and> \<not> underscore_ok ds then None
            else (let v = (if neg then - int n else int n) in
              if - (2 ^ (bits - 1)) \<le> v \<and> v < 2 ^ (bits - 1) then Some v else None)))"

subsection \<open>Flags\<close>

text \<open>
  \<^verbatim>\<open>flag.Parse\<close> over the arguments the code passes: one or two dashes, a name and, after \<^verbatim>\<open>=\<close> or in the next
  argument, its value; it stops at what is no flag and after \<^verbatim>\<open>--\<close>.
\<close>

definition flag_set :: "string \<Rightarrow> string \<Rightarrow> fetch_options \<times> string \<Rightarrow> (fetch_options \<times> string) res" where
  "flag_set n v s =
     (let (opts, token_file) = s in
      if n = ''kind'' then Inr (opts\<lparr>fp_kind := v\<rparr>, token_file)
      else if n = ''url'' then Inr (opts\<lparr>fp_url := v\<rparr>, token_file)
      else if n = ''digest'' then Inr (opts\<lparr>fp_digest := v\<rparr>, token_file)
      else if n = ''unpack'' then Inr (opts\<lparr>fp_unpack := v\<rparr>, token_file)
      else if n = ''subpath'' then Inr (opts\<lparr>fp_subpath := v\<rparr>, token_file)
      else if n = ''strip-components''
      then (case parse_int_any 64 v of
          None \<Rightarrow> Inl (Msg (''invalid value '' @ v @ '' for flag -strip-components: parse error''))
        | Some i \<Rightarrow> Inr (opts\<lparr>fp_strip := i\<rparr>, token_file))
      else if n = ''dest'' then Inr (opts\<lparr>fp_dest := v\<rparr>, token_file)
      else if n = ''dockerfile'' then Inr (opts\<lparr>fp_dockerfile := v\<rparr>, token_file)
      else if n = ''token-file'' then Inr (opts, v)
      else Inl (Msg (''flag provided but not defined: -'' @ n)))"

definition flag_body :: "string \<Rightarrow> string option" where
  "flag_body a =
     (case a of
        c # d # rest \<Rightarrow> if c \<noteq> CHR ''-'' then None else if d = CHR ''-'' then Some rest else Some (d # rest)
      | _ \<Rightarrow> None)"

fun parse_flags :: "string list \<Rightarrow> fetch_options \<times> string \<Rightarrow> (fetch_options \<times> string) res" where
  "parse_flags [] s = Inr s"
| "parse_flags (a # as) s =
     (case flag_body a of
        None \<Rightarrow> Inr s
      | Some body \<Rightarrow>
          if a = ''--'' then Inr s
          else if body = [] \<or> hd body = CHR ''-'' \<or> hd body = CHR ''='' then Inl (Msg (''bad flag syntax: '' @ a))
          else (case cut CHR ''='' body of
              Some (n, v) \<Rightarrow> (case flag_set n v s of Inl e \<Rightarrow> Inl e | Inr s' \<Rightarrow> parse_flags as s')
            | None \<Rightarrow>
                (case as of
                   [] \<Rightarrow> Inl (Msg (''flag needs an argument: -'' @ body))
                 | v # as' \<Rightarrow> (case flag_set body v s of Inl e \<Rightarrow> Inl e | Inr s' \<Rightarrow> parse_flags as' s'))))"

definition default_options :: fetch_options where
  "default_options =
     \<lparr>fp_kind = [], fp_url = [], fp_digest = [], fp_unpack = ''tar.gz'', fp_subpath = [], fp_strip = 0, fp_dest = [],
      fp_dockerfile = [], fp_token = []\<rparr>"

subsection \<open>What was printed is read back\<close>

lemma digit_any_char: "d < 10 \<Longrightarrow> digit_any 10 (digit_char d) = Some d"
  by (simp add: digit_any_def of_digit_char)

lemma no_underscore: "is_digit c \<Longrightarrow> c \<noteq> CHR ''_''"
  by (auto simp: is_digit_def)

lemma parse_digits_any_append:
  "parse_digits_any b acc (xs @ ys) =
     (case parse_digits_any b acc xs of None \<Rightarrow> None | Some a \<Rightarrow> parse_digits_any b a ys)"
  by (induction xs arbitrary: acc) (auto split: option.splits)

lemma parse_any_show_nat: "parse_digits_any 10 0 (show_nat n) = Some n"
proof (induction n rule: show_nat.induct)
  case (1 n)
  have one: "parse_digits_any 10 a [digit_char d] = Some (a * 10 + d)" if "d < 10" for a d
    using that no_underscore[OF is_digit_digit_char[OF that]] by (simp add: digit_any_char)
  show ?case
  proof (cases "n < 10")
    case True
    then show ?thesis by (subst show_nat.simps) (simp add: one del: parse_digits_any.simps)
  next
    case False
    with 1 one[of "n mod 10" "n div 10"] show ?thesis
      by (subst show_nat.simps) (simp add: parse_digits_any_append del: parse_digits_any.simps)
  qed
qed

lemma show_nat_leading: "0 < n \<Longrightarrow> hd (show_nat n) \<noteq> CHR ''0''"
proof (induction n rule: show_nat.induct)
  case (1 n)
  show ?case
  proof (cases "n < 10")
    case True
    have "(of_char (digit_char n) :: nat) \<noteq> of_char CHR ''0''" using True 1(2) by (simp add: of_digit_char)
    then have "digit_char n \<noteq> CHR ''0''" by metis
    with True show ?thesis by (subst show_nat.simps) simp
  next
    case False
    then have "hd (show_nat n) = hd (show_nat (n div 10))" by (subst show_nat.simps) simp
    with 1(1)[OF False] False show ?thesis by simp
  qed
qed

lemma parse_int_any_show:
  assumes "- (2 ^ 63) \<le> i" "i < 2 ^ 63"
  shows "parse_int_any 64 (show_int i) = Some i"
proof -
  have base: "parse_digits_any (fst (split_base (show_nat n))) 0 (snd (split_base (show_nat n))) = Some n" for n
  proof (cases "n = 0")
    case True
    have "show_nat 0 = ''0''" by (subst show_nat.simps) (simp add: digit_char_def, code_simp)
    with True show ?thesis by (simp add: split_base_def)
  next
    case False
    then obtain c cs where "show_nat n = c # cs" "c \<noteq> CHR ''0''"
      using show_nat_leading[of n] by (cases "show_nat n") auto
    with parse_any_show_nat[of n] show ?thesis by (simp add: split_base_def)
  qed
  have us: "CHR ''_'' \<notin> set (show_nat n)" for n using show_nat_digits[of n] no_underscore by (auto simp: list_all_iff)
  have sign: "\<not> has_prefix (show_nat n) ''-''" "\<not> has_prefix (show_nat n) ''+''" for n
    using show_nat_digits[of n] by (cases "show_nat n"; auto simp: has_prefix_def is_digit_def)+
  show ?thesis
  proof (cases "i < 0")
    case True
    then have s: "show_int i = CHR ''-'' # show_nat (nat (- i))" by (simp add: show_int_def)
    show ?thesis using True assms base[of "nat (- i)"] us[of "nat (- i)"]
      by (simp add: parse_int_any_def s has_prefix_def Let_def)
  next
    case False
    then have s: "show_int i = show_nat (nat i)" by (simp add: show_int_def)
    show ?thesis using False assms base[of "nat i"] us[of "nat i"] sign[of "nat i"]
      by (simp add: parse_int_any_def s Let_def)
  qed
qed

end
