(* ===== verification/Archive_Extract.thy ===== *)
theory Archive_Extract
  imports Layer_Extract
begin

section \<open>Unpacking a build context\<close>

text \<open>
  \<^verbatim>\<open>internal/archive/archive.go\<close>: the archive of a build context becomes files below a
  directory. The file system maps component lists to nodes and follows symbolic links the way the
  operating system does, so that a link an earlier entry made is followed by a later one. The archive
  formats are parameters: what decompression and the tar reader yield. Where the entries land is
  the rule of \<^verbatim>\<open>Archive_Path\<close>.
\<close>

subsection \<open>The file system\<close>

datatype fnode =
    FDir
  | FFile string int
  | FLink string

type_synonym fs = "string list \<rightharpoonup> fnode"

text \<open>\<^verbatim>\<open>fh_body\<close> is what reading the entry yields before it ends, or fails with \<^verbatim>\<open>fh_error\<close>.\<close>

record file_header =
  fh_name :: string
  fh_type :: typeflag
  fh_mode :: int
  fh_link :: string
  fh_body :: string
  fh_error :: "error option"

datatype file_item = FileItem file_header | FileReadError error

record extract_env =
  xe_cwd :: "string list"
  xe_fault :: "string \<Rightarrow> string list \<Rightarrow> error option"
  xe_gunzip :: "string \<Rightarrow> string res"
  xe_untar :: "string \<Rightarrow> file_item list"

definition path_comps :: "('z) extract_env_scheme \<Rightarrow> string \<Rightarrow> string list" where
  "path_comps env p =
     (if has_prefix p ''/'' then [] else xe_cwd env) @ filter (\<lambda>c. c \<noteq> [] \<and> c \<noteq> ''.'') (split_on slash p)"

definition max_links :: nat where
  "max_links = 40"

text \<open>
  The lookup of a path from a directory: every component but the last is a directory or a link to
  one, the last may be missing. Following more than forty links is an error.
\<close>

function follow :: "nat \<Rightarrow> fs \<Rightarrow> string list \<Rightarrow> string list \<Rightarrow> string list option" where
  "follow l fs p [] = Some p"
| "follow l fs p (c # cs) =
     (if c = [] \<or> c = ''.'' then follow l fs p cs
      else if c = ''..'' then follow l fs (butlast p) cs
      else (case fs (p @ [c]) of
          Some (FLink t) \<Rightarrow>
            if l = 0 then None else follow (l - 1) fs (if has_prefix t ''/'' then [] else p) (split_on slash t @ cs)
        | Some FDir \<Rightarrow> follow l fs (p @ [c]) cs
        | _ \<Rightarrow> if cs = [] then Some (p @ [c]) else None))"
  by pat_completeness auto

termination
  by (relation "measures [\<lambda>(l, fs, p, cs). l, \<lambda>(l, fs, p, cs). length cs]") auto

definition is_dir :: "fs \<Rightarrow> string list \<Rightarrow> bool" where
  "is_dir fs p \<longleftrightarrow> p = [] \<or> fs p = Some FDir"

text \<open>\<^verbatim>\<open>os.MkdirAll\<close>: a link to a directory counts as one, any other link is in the way.\<close>

fun mkdir_all :: "('z) extract_env_scheme \<Rightarrow> fs \<Rightarrow> string list \<Rightarrow> string list \<Rightarrow> fs \<times> string list res" where
  "mkdir_all env fs p [] = (fs, Inr p)"
| "mkdir_all env fs p (c # cs) =
     (if c = ''..'' then mkdir_all env fs (butlast p) cs
      else (case fs (p @ [c]) of
          Some FDir \<Rightarrow> mkdir_all env fs (p @ [c]) cs
        | Some (FFile b m) \<Rightarrow> (fs, Inl (Msg ''not a directory''))
        | Some (FLink t) \<Rightarrow>
            (case follow max_links fs p [c] of
               None \<Rightarrow> (fs, Inl (Msg ''too many levels of symbolic links''))
             | Some q \<Rightarrow> if is_dir fs q then mkdir_all env fs q cs else (fs, Inl (Msg ''file exists'')))
        | None \<Rightarrow>
            (case xe_fault env ''mkdir'' (p @ [c]) of
               Some e \<Rightarrow> (fs, Inl e)
             | None \<Rightarrow> mkdir_all env (fs(p @ [c] \<mapsto> FDir)) (p @ [c]) cs)))"

text \<open>\<^verbatim>\<open>O_CREATE|O_TRUNC|O_WRONLY\<close>: a file that is there keeps its mode.\<close>

definition open_trunc ::
    "('z) extract_env_scheme \<Rightarrow> fs \<Rightarrow> string list \<Rightarrow> int \<Rightarrow> (fs \<times> string list \<times> int) res" where
  "open_trunc env fs cs mode =
     (case follow max_links fs [] cs of
        None \<Rightarrow> Inl (Msg ''no such file or directory'')
      | Some q \<Rightarrow>
          (case xe_fault env ''open'' q of
             Some e \<Rightarrow> Inl e
           | None \<Rightarrow>
               (case fs q of
                  None \<Rightarrow> if q = [] then Inl (Msg ''is a directory'') else Inr (fs(q \<mapsto> FFile [] mode), q, mode)
                | Some (FFile b m) \<Rightarrow> Inr (fs(q \<mapsto> FFile [] m), q, m)
                | Some n \<Rightarrow> Inl (Msg ''is a directory''))))"

definition symlink_at :: "('z) extract_env_scheme \<Rightarrow> fs \<Rightarrow> string list \<Rightarrow> string \<Rightarrow> fs \<times> unit res" where
  "symlink_at env fs cs target =
     (if cs = [] then (fs, Inl (Msg ''file exists''))
      else (case follow max_links fs [] (butlast cs) of
          None \<Rightarrow> (fs, Inl (Msg ''no such file or directory''))
        | Some p \<Rightarrow>
            if \<not> is_dir fs p then (fs, Inl (Msg ''not a directory''))
            else if fs (p @ [last cs]) \<noteq> None then (fs, Inl (Msg ''file exists''))
            else (case xe_fault env ''symlink'' (p @ [last cs]) of
                Some e \<Rightarrow> (fs, Inl e)
              | None \<Rightarrow> (fs(p @ [last cs] \<mapsto> FLink target), Inr ()))))"

subsection \<open>Entries\<close>

definition perm :: "int \<Rightarrow> int" where
  "perm mode = mode mod 512"

definition leaves_context :: "string \<Rightarrow> string \<Rightarrow> bool" where
  "leaves_context name link \<longleftrightarrow>
     (let resolved = path_join (path_dir name) link in
      has_prefix link ''/'' \<or> has_prefix resolved ''../'' \<or> resolved = ''..'')"

definition write_regular ::
    "('z) extract_env_scheme \<Rightarrow> string \<Rightarrow> string \<Rightarrow> file_header \<Rightarrow> fs \<Rightarrow> fs \<times> unit res" where
  "write_regular env full name hdr fs =
     (case open_trunc env fs (path_comps env full) (perm (fh_mode hdr)) of
        Inl e \<Rightarrow> (fs, Inl (Wrap (''creating '' @ name) e))
      | Inr (fs1, q, m) \<Rightarrow>
          (let fs2 = fs1(q \<mapsto> FFile (fh_body hdr) m) in
           case fh_error hdr of
             Some e \<Rightarrow> (fs2, Inl (Wrap (''writing '' @ name) e))
           | None \<Rightarrow> (fs2, case xe_fault env ''close'' q of Some e \<Rightarrow> Inl e | None \<Rightarrow> Inr ())))"

definition write_node :: "('z) extract_env_scheme \<Rightarrow> string \<Rightarrow> string \<Rightarrow> file_header \<Rightarrow> fs \<Rightarrow> fs \<times> unit res" where
  "write_node env full name hdr fs =
     (case fh_type hdr of
        TypeDir \<Rightarrow>
          (case mkdir_all env fs [] (path_comps env full) of
             (fs1, Inl e) \<Rightarrow> (fs1, Inl e)
           | (fs1, Inr p) \<Rightarrow> (fs1, Inr ()))
      | TypeReg \<Rightarrow>
          (case mkdir_all env fs [] (path_comps env (path_dir full)) of
             (fs1, Inl e) \<Rightarrow> (fs1, Inl e)
           | (fs1, Inr p) \<Rightarrow> write_regular env full name hdr fs1)
      | TypeSymlink \<Rightarrow>
          (case mkdir_all env fs [] (path_comps env (path_dir full)) of
             (fs1, Inl e) \<Rightarrow> (fs1, Inl e)
           | (fs1, Inr p) \<Rightarrow>
               if leaves_context name (fh_link hdr)
               then (fs1, Inl (Msg (''archive entry '' @ fh_name hdr @ '' is a symlink to '' @ fh_link hdr @
                 '', which leaves the context'')))
               else symlink_at env fs1 (path_comps env full) (fh_link hdr))
      | TypeOther \<Rightarrow> (fs, Inr ()))"

text \<open>The check on the joined path comes before anything is written.\<close>

definition extract_entry ::
    "('z) extract_env_scheme \<Rightarrow> string \<Rightarrow> file_header \<Rightarrow> string \<Rightarrow> fs \<Rightarrow> fs \<times> unit res" where
  "extract_entry env dest hdr name fs =
     (let full = path_join dest name in
      if \<not> has_prefix full (path_clean dest @ ''/'')
      then (fs, Inl (Msg (''archive entry '' @ fh_name hdr @ '' escapes the destination'')))
      else write_node env full name hdr fs)"

definition max_entries :: nat where
  "max_entries = 500000"

fun extract_loop ::
    "('z) extract_env_scheme \<Rightarrow> string \<Rightarrow> file_item list \<Rightarrow> nat \<Rightarrow> walk \<Rightarrow> fs \<Rightarrow> fs \<times> unit res" where
  "extract_loop env dest [] n w fs = (fs, case walk_err w of Some e \<Rightarrow> Inl e | None \<Rightarrow> Inr ())"
| "extract_loop env dest (FileReadError e # items) n w fs = (fs, Inl (Wrap ''reading the archive'' e))"
| "extract_loop env dest (FileItem hdr # items) n w fs =
     (if max_entries < Suc n then (fs, Inl (Msg ''archive has more than 500000 entries''))
      else if has_prefix (path_clean (fh_name hdr)) ''/''
      then (fs, Inl (Msg (''archive entry '' @ fh_name hdr @ '' is an absolute path, which escapes the layout the archive describes'')))
      else (case walk_map w (fh_name hdr) of
          (place, w') \<Rightarrow>
            if \<not> pl_selected place then extract_loop env dest items (Suc n) w' fs
            else (case extract_entry env dest hdr (pl_dest place) fs of
                (fs', Inl e) \<Rightarrow> (fs', Inl e)
              | (fs', Inr u) \<Rightarrow> extract_loop env dest items (Suc n) w' fs')))"

definition archive_reader :: "('z) extract_env_scheme \<Rightarrow> string \<Rightarrow> string \<Rightarrow> file_item list res" where
  "archive_reader env mode blob =
     (if mode = ''tar'' then Inr (xe_untar env blob)
      else if mode = ''tar.gz''
      then (case xe_gunzip env blob of
          Inl e \<Rightarrow> Inl (Wrap ''reading gzip'' e)
        | Inr raw \<Rightarrow> Inr (xe_untar env raw))
      else Inl (Msg (''unpack '' @ mode @ '' is not an archive mode this build can extract'')))"

definition extract_archive ::
    "('z) extract_env_scheme \<Rightarrow> string \<Rightarrow> string \<Rightarrow> string \<Rightarrow> string \<Rightarrow> int \<Rightarrow> fs \<Rightarrow> fs \<times> unit res" where
  "extract_archive env blob mode dest subpath strip fs =
     (case archive_reader env mode blob of
        Inl e \<Rightarrow> (fs, Inl e)
      | Inr items \<Rightarrow>
          (case mkdir_all env fs [] (path_comps env dest) of
             (fs1, Inl e) \<Rightarrow> (fs1, Inl (Wrap (''creating '' @ dest) e))
           | (fs1, Inr p) \<Rightarrow> extract_loop env dest items 0 (new_walk strip subpath) fs1))"


subsection \<open>What stays inside\<close>

text \<open>A link that only leads down: relative, with no component \<^verbatim>\<open>..\<close> in its target.\<close>

definition leads_down :: "string \<Rightarrow> bool" where
  "leads_down t \<longleftrightarrow> \<not> has_prefix t ''/'' \<and> ''..'' \<notin> set (split_on slash t)"

definition below :: "string list \<Rightarrow> string list \<Rightarrow> bool" where
  "below ds p \<longleftrightarrow> (\<exists>rest. p = ds @ rest)"

definition on_path :: "string list \<Rightarrow> string list \<Rightarrow> bool" where
  "on_path ds p \<longleftrightarrow> (\<exists>rest. rest \<noteq> [] \<and> p @ rest = ds)"

text \<open>No link on the way to the destination, and those inside lead down.\<close>

definition links_ok :: "string list \<Rightarrow> fs \<Rightarrow> bool" where
  "links_ok ds fs \<longleftrightarrow>
     (\<forall>p t. fs p = Some (FLink t) \<longrightarrow> (below ds p \<longrightarrow> p \<noteq> ds \<and> leads_down t) \<and> \<not> on_path ds p)"

text \<open>A lookup under way: on the way to the destination along its components, or inside it.\<close>

definition bound_for :: "string list \<Rightarrow> string list \<Rightarrow> string list \<Rightarrow> bool" where
  "bound_for ds p cs \<longleftrightarrow> ''..'' \<notin> set cs \<and> (below ds p \<or> (\<exists>s rest. p @ s = ds \<and> s \<noteq> [] \<and> list_all plain s \<and> cs = s @ rest))"

lemma bound_for_end: "bound_for ds p [] \<Longrightarrow> below ds p"
  by (auto simp: bound_for_def)

lemma bound_for_start: "list_all plain ds \<Longrightarrow> ''..'' \<notin> set rest \<Longrightarrow> bound_for ds [] (ds @ rest)"
  unfolding bound_for_def below_def by (cases "ds = []") (auto simp: list_all_iff)

lemma below_snoc: "below ds p \<Longrightarrow> below ds (p @ [c])"
  unfolding below_def by (metis append.assoc)

lemma bound_for_step:
  assumes "bound_for ds p (c # cs)"
  shows "bound_for ds (p @ [c]) cs" "c \<noteq> ''..''" "below ds (p @ [c]) \<or> on_path ds (p @ [c])"
    "\<not> below ds p \<Longrightarrow> plain c \<and> (p @ [c] = ds \<or> on_path ds (p @ [c]))"
proof -
  have up: "''..'' \<notin> set (c # cs)" using assms by (simp add: bound_for_def)
  then show "c \<noteq> ''..''" by auto
  show b: "bound_for ds (p @ [c]) cs"
  proof (cases "below ds p")
    case True
    with up below_snoc[OF True] show ?thesis by (simp add: bound_for_def)
  next
    case False
    then obtain s rest where s: "p @ s = ds" "s \<noteq> []" "list_all plain s" "c # cs = s @ rest"
      using assms unfolding bound_for_def by blast
    then obtain s' where "s = c # s'" "cs = s' @ rest" by (cases s) auto
    with s up show ?thesis
      unfolding bound_for_def below_def by (cases "s' = []") auto
  qed
  show p: "plain c \<and> (p @ [c] = ds \<or> on_path ds (p @ [c]))" if nb: "\<not> below ds p"
  proof -
    obtain s rest where s: "p @ s = ds" "s \<noteq> []" "list_all plain s" "c # cs = s @ rest"
      using assms nb unfolding bound_for_def by blast
    then obtain s' where "s = c # s'" "cs = s' @ rest" by (cases s) auto
    with s show ?thesis unfolding on_path_def by (cases "s' = []") auto
  qed
  show "below ds (p @ [c]) \<or> on_path ds (p @ [c])"
    using p below_snoc[of ds p c] unfolding below_def by (cases "below ds p") (auto simp: below_def)
qed

lemma follow_stays:
  "follow l fs p cs = Some q \<Longrightarrow> links_ok ds fs \<Longrightarrow> bound_for ds p cs \<Longrightarrow> below ds q"
proof (induction l fs p cs rule: follow.induct)
  case (1 l fs p)
  then show ?case using bound_for_end by simp
next
  case (2 l fs p c cs)
  note b = bound_for_step[OF "2.prems"(3)]
  consider (skip) "c = [] \<or> c = ''.''" | (link) t where "\<not> (c = [] \<or> c = ''.'')" "fs (p @ [c]) = Some (FLink t)"
    | (dir) "\<not> (c = [] \<or> c = ''.'')" "fs (p @ [c]) = Some FDir"
    | (other) "\<not> (c = [] \<or> c = ''.'')" "fs (p @ [c]) = None \<or> (\<exists>x m. fs (p @ [c]) = Some (FFile x m))"
    by (cases "fs (p @ [c])"; cases "the (fs (p @ [c]))") auto
  then show ?case
  proof cases
    case skip
    then have "below ds p" using b(4) by (cases "below ds p") auto
    then have "bound_for ds p cs" using "2.prems"(3) by (simp add: bound_for_def)
    with 2 skip show ?thesis by auto
  next
    case dir
    with 2 b(1,2) show ?thesis by auto
  next
    case other
    with "2.prems"(1) b(2) have "cs = []" "q = p @ [c]" by (auto split: if_splits)
    with b(1) bound_for_end show ?thesis by simp
  next
    case link
    then have in_ds: "below ds p" using b(4) "2.prems"(2) unfolding links_ok_def by (metis below_def append_Nil2)
    then have d: "leads_down t" using link(2) "2.prems"(2) below_snoc unfolding links_ok_def by blast
    then have "bound_for ds p (split_on slash t @ cs)"
      using "2.prems"(3) in_ds by (simp add: bound_for_def leads_down_def)
    moreover have "follow (l - 1) fs p (split_on slash t @ cs) = Some q" "l \<noteq> 0"
      using "2.prems"(1) link b(2) d by (auto simp: leads_down_def split: if_splits)
    ultimately show ?thesis using "2.IH" link b(2) d "2.prems"(2) by (auto simp: leads_down_def)
  qed
qed

text \<open>A change of the file system that touches the destination and the way to it only.\<close>

definition confined :: "string list \<Rightarrow> fs \<Rightarrow> fs \<Rightarrow> bool" where
  "confined ds fs fs' \<longleftrightarrow> (\<forall>p. fs' p \<noteq> fs p \<longrightarrow> below ds p \<or> on_path ds p)"

lemma confined_refl [simp]: "confined ds fs fs"
  by (simp add: confined_def)

lemma confined_trans: "confined ds fs fs1 \<Longrightarrow> confined ds fs1 fs2 \<Longrightarrow> confined ds fs fs2"
  unfolding confined_def by metis

lemma confined_upd: "below ds p \<or> on_path ds p \<Longrightarrow> confined ds fs (fs(p \<mapsto> n))"
  unfolding confined_def by simp

lemma links_ok_upd: "links_ok ds fs \<Longrightarrow> (\<And>t. n \<noteq> FLink t) \<Longrightarrow> links_ok ds (fs(p \<mapsto> n))"
  unfolding links_ok_def by auto

lemma mkdir_all_stays:
  "mkdir_all env fs p cs = (fs', r) \<Longrightarrow> links_ok ds fs \<Longrightarrow> bound_for ds p cs \<Longrightarrow> confined ds fs fs' \<and> links_ok ds fs'"
proof (induction env fs p cs arbitrary: fs' r rule: mkdir_all.induct)
  case (2 env fs p c cs)
  note b = bound_for_step[OF "2.prems"(3)]
  show ?case
  proof (cases "fs (p @ [c])")
    case None
    show ?thesis
    proof (cases "xe_fault env ''mkdir'' (p @ [c])")
      case (Some e)
      with None 2 b(2) show ?thesis by simp
    next
      case n: None
      let ?fs = "fs(p @ [c] \<mapsto> FDir)"
      have "mkdir_all env ?fs (p @ [c]) cs = (fs', r)" using None n "2.prems"(1) b(2) by simp
      then have "confined ds ?fs fs' \<and> links_ok ds fs'"
        using "2.IH"(2)[OF b(2) None n _ _ b(1)] links_ok_upd[OF "2.prems"(2), of FDir] by blast
      then show ?thesis using confined_trans confined_upd[OF b(3)] by blast
    qed
  next
    case (Some n)
    show ?thesis
    proof (cases n)
      case FDir
      with Some 2 b show ?thesis by simp
    next
      case (FFile x m)
      with Some 2 b show ?thesis by simp
    next
      case (FLink t)
      show ?thesis
      proof (cases "follow max_links fs p [c]")
        case None
        with Some FLink 2 b show ?thesis by simp
      next
        case f: (Some q)
        have "bound_for ds p [c]"
        proof -
          have "below ds p" using b(4) "2.prems"(2) Some FLink unfolding links_ok_def by (metis below_def append_Nil2)
          with b(2) show ?thesis by (auto simp: bound_for_def)
        qed
        from follow_stays[OF f "2.prems"(2) this] have "bound_for ds q cs"
          using "2.prems"(3) by (simp add: bound_for_def)
        with Some FLink f 2 b(2) show ?thesis by (auto split: if_splits)
      qed
    qed
  qed
qed simp


text \<open>The components of a path that the check of \<^verbatim>\<open>writeEntry\<close> lets through.\<close>

lemma path_comps_rooted: "list_all plain cs \<Longrightarrow> path_comps env (slash # join [slash] cs) = cs"
proof -
  assume p: "list_all plain cs"
  have "split_on slash (slash # join [slash] cs) = [] # split_on slash (join [slash] cs)"
    by (metis append_Nil empty_iff empty_set split_on_append_sep)
  moreover have "filter (\<lambda>c. c \<noteq> [] \<and> c \<noteq> ''.'') (split_on slash (join [slash] cs)) = cs"
  proof (cases "cs = []")
    case False
    have "filter (\<lambda>c. c \<noteq> [] \<and> c \<noteq> ''.'') cs = cs" using p by (auto simp: filter_id_conv list_all_iff plain_def)
    with split_join_plain[OF p False] show ?thesis by simp
  qed simp
  ultimately show ?thesis by (simp add: path_comps_def has_prefix_single)
qed

lemma checked_comps:
  assumes ds: "list_all plain ds" "ds \<noteq> []" and d: "dest = slash # join [slash] ds"
    and c: "has_prefix (path_join dest name) (path_clean dest @ ''/'')"
  obtains cs c where "list_all plain cs" "plain c" "path_join dest name = slash # join [slash] (ds @ cs @ [c])"
proof -
  have full: "path_join dest name = path_clean (dest @ ''/'' @ name) \<or> path_join dest name = path_clean dest"
    by (auto simp: path_join_def d)
  moreover have "has_prefix (dest @ ''/'' @ name) [slash]" "has_prefix dest [slash]"
    by (simp_all add: d has_prefix_single)
  ultimately obtain xs where xs: "list_all plain xs" "path_join dest name = slash # join [slash] xs"
    using path_clean_rooted clean_comps_rooted by metis
  have "path_clean dest = dest" using ds(1) d by simp
  with c xs(2) d have pre: "has_prefix (join [slash] xs) (join [slash] ds @ ''/'')" by (simp add: has_prefix_def)
  then obtain t where t: "join [slash] xs = join [slash] ds @ slash # t" by (auto simp: has_prefix_iff)
  then have "xs \<noteq> []" by auto
  have "split_on slash (join [slash] ds @ slash # t) = ds @ split_on slash t"
    using ds
  proof (induction ds rule: induct_list012)
    case (3 x y zs)
    then show ?case by (simp add: split_on_append_sep plain_def)
  qed (simp_all add: split_on_append_sep plain_def)
  then have "xs = ds @ split_on slash t" using split_join_plain[OF xs(1) \<open>xs \<noteq> []\<close>] t by simp
  moreover obtain cs c where "split_on slash t = cs @ [c]" using split_on_not_Nil by (metis rev_exhaust)
  ultimately show thesis using that[of cs c] xs by simp
qed


definition header_down :: "file_header \<Rightarrow> bool" where
  "header_down hdr \<longleftrightarrow> (fh_type hdr = TypeSymlink \<longrightarrow> leads_down (fh_link hdr))"

definition stays :: "string list \<Rightarrow> fs \<Rightarrow> fs \<Rightarrow> bool" where
  "stays ds fs fs' \<longleftrightarrow> confined ds fs fs' \<and> links_ok ds fs'"

lemma stays_trans: "stays ds fs fs1 \<Longrightarrow> stays ds fs1 fs2 \<Longrightarrow> stays ds fs fs2"
  unfolding stays_def using confined_trans by blast

lemma stays_upd:
  "links_ok ds fs \<Longrightarrow> below ds p \<Longrightarrow> (\<And>t. n \<noteq> FLink t) \<Longrightarrow> stays ds fs (fs(p \<mapsto> n))"
  unfolding stays_def using links_ok_upd confined_upd by blast

lemma write_regular_stays:
  assumes l: "links_ok ds fs" and b: "bound_for ds [] (path_comps env full)"
    and w: "write_regular env full name hdr fs = (fs', r)"
  shows "stays ds fs fs'"
proof (cases "open_trunc env fs (path_comps env full) (perm (fh_mode hdr))")
  case (Inl e)
  with w l show ?thesis by (simp add: write_regular_def stays_def)
next
  case (Inr x)
  obtain fs1 q m where x: "x = (fs1, q, m)" by (metis prod_cases3)
  then have f: "follow max_links fs [] (path_comps env full) = Some q" "fs1 = fs(q \<mapsto> FFile [] m)"
    using Inr unfolding open_trunc_def by (auto split: option.splits fnode.splits if_splits)
  have "fs' = fs1(q \<mapsto> FFile (fh_body hdr) m)"
    using w Inr x by (auto simp: write_regular_def Let_def split: option.splits)
  then have "fs' = fs(q \<mapsto> FFile (fh_body hdr) m)" using f(2) by simp
  with stays_upd[OF l follow_stays[OF f(1) l b]] show ?thesis by simp
qed

lemma symlink_at_stays:
  assumes l: "links_ok ds fs" and b: "bound_for ds [] (butlast cs)" and t: "leads_down t"
    and w: "symlink_at env fs cs t = (fs', r)"
  shows "stays ds fs fs'"
proof (cases "fs' = fs")
  case False
  then obtain p where p: "follow max_links fs [] (butlast cs) = Some p" "fs' = fs(p @ [last cs] \<mapsto> FLink t)"
    using w unfolding symlink_at_def by (auto split: option.splits if_splits)
  have q: "below ds p" using follow_stays[OF p(1) l b] .
  then have "below ds (p @ [last cs])" "p @ [last cs] \<noteq> ds" "\<not> on_path ds (p @ [last cs])"
    by (auto simp: below_def on_path_def)
  with l t show ?thesis unfolding stays_def p(2) confined_def links_ok_def by auto
qed (use l in \<open>simp add: stays_def\<close>)

lemma write_node_stays:
  assumes l: "links_ok ds fs" and ds: "list_all plain ds" and cs: "list_all plain cs" "plain c"
    and full: "full = slash # join [slash] (ds @ cs @ [c])" and h: "header_down hdr"
    and w: "write_node env full name hdr fs = (fs', r)"
  shows "stays ds fs fs'"
proof -
  have f: "path_comps env full = ds @ cs @ [c]" using path_comps_rooted[of "ds @ cs @ [c]"] ds cs full by simp
  have d: "path_comps env (path_dir full) = ds @ cs"
    using path_dir_rooted_join[of "ds @ cs" c] path_comps_rooted[of "ds @ cs"] ds cs full by simp
  have up: "''..'' \<notin> set cs" "c \<noteq> ''..''" using cs by (auto simp: list_all_iff)
  have b: "bound_for ds [] (ds @ cs)" "bound_for ds [] (ds @ cs @ [c])" using bound_for_start[OF ds] up by simp_all
  have mk: "stays ds fs fs1" if "mkdir_all env fs [] xs = (fs1, q)" "bound_for ds [] xs" for fs1 q xs
    using mkdir_all_stays[OF that(1) l that(2)] unfolding stays_def .
  obtain fs1 q where m: "mkdir_all env fs [] (ds @ cs) = (fs1, q)" by fastforce
  note s1 = mk[OF m b(1)]
  show ?thesis
  proof (cases "fh_type hdr")
    case TypeDir
    then have "\<exists>q. mkdir_all env fs [] (ds @ cs @ [c]) = (fs', q)"
      using w f by (auto simp: write_node_def split: prod.splits sum.splits)
    with mk b(2) show ?thesis by blast
  next
    case TypeReg
    show ?thesis
    proof (cases q)
      case (Inl e)
      with TypeReg m w d s1 show ?thesis by (simp add: write_node_def)
    next
      case (Inr p)
      with TypeReg m w d have "write_regular env full name hdr fs1 = (fs', r)" by (simp add: write_node_def)
      from write_regular_stays[OF _ _ this] s1 b(2) f stays_trans show ?thesis unfolding stays_def by metis
    qed
  next
    case TypeSymlink
    show ?thesis
    proof (cases "\<exists>p. q = Inr p \<and> \<not> leaves_context name (fh_link hdr)")
      case False
      with TypeSymlink m w d have "fs' = fs1" by (auto simp: write_node_def split: sum.splits)
      with s1 show ?thesis by simp
    next
      case True
      with TypeSymlink m w d f have "symlink_at env fs1 (ds @ cs @ [c]) (fh_link hdr) = (fs', r)"
        by (auto simp: write_node_def)
      moreover have "leads_down (fh_link hdr)" using h TypeSymlink by (simp add: header_down_def)
      ultimately have "stays ds fs1 fs'"
        using symlink_at_stays[of ds fs1 "ds @ cs @ [c]"] s1 b(1) unfolding stays_def by (simp add: butlast_append)
      with s1 stays_trans show ?thesis by blast
    qed
  qed (use w l in \<open>simp add: write_node_def stays_def\<close>)
qed

lemma extract_entry_stays:
  assumes l: "links_ok ds fs" and ds: "list_all plain ds" "ds \<noteq> []" "dest = slash # join [slash] ds"
    and h: "header_down hdr" and w: "extract_entry env dest hdr name fs = (fs', r)"
  shows "stays ds fs fs'"
proof (cases "has_prefix (path_join dest name) (path_clean dest @ ''/'')")
  case False
  with w l show ?thesis by (simp add: extract_entry_def stays_def Let_def)
next
  case True
  from checked_comps[OF ds True] obtain cs c where
    "list_all plain cs" "plain c" "path_join dest name = slash # join [slash] (ds @ cs @ [c])" by blast
  from write_node_stays[OF l ds(1) this h] w True show ?thesis by (simp add: extract_entry_def Let_def)
qed

lemma extract_loop_stays:
  "extract_loop env dest items n w fs = (fs', r) \<Longrightarrow> links_ok ds fs \<Longrightarrow> list_all plain ds \<Longrightarrow> ds \<noteq> [] \<Longrightarrow>
   dest = slash # join [slash] ds \<Longrightarrow> \<forall>hdr. FileItem hdr \<in> set items \<longrightarrow> header_down hdr \<Longrightarrow> stays ds fs fs'"
proof (induction env dest items n w fs arbitrary: fs' r rule: extract_loop.induct)
  case (3 env dest hdr items n w fs)
  obtain place w' where p: "walk_map w (fh_name hdr) = (place, w')" by fastforce
  show ?case
  proof (cases "max_entries < Suc n \<or> has_prefix (path_clean (fh_name hdr)) ''/''")
    case True
    with 3 show ?thesis by (auto simp: stays_def split: if_splits)
  next
    case go: False
    show ?thesis
    proof (cases "pl_selected place")
      case False
      with go p "3.prems" show ?thesis by (intro "3.IH"(1)) auto
    next
      case True
      obtain fs1 u where e: "extract_entry env dest hdr (pl_dest place) fs = (fs1, u)" by fastforce
      have s: "stays ds fs fs1" using extract_entry_stays[OF "3.prems"(2-5) _ e] "3.prems"(6) by simp
      show ?thesis
      proof (cases u)
        case (Inl x)
        with go p True e s "3.prems"(1) show ?thesis by simp
      next
        case (Inr x)
        with go p True e "3.prems"(1) have "extract_loop env dest items (Suc n) w' fs1 = (fs', r)" by simp
        then have "stays ds fs1 fs'"
          using "3.IH"(2)[OF _ _ p[symmetric] _ e[symmetric] Inr] go True "3.prems" s unfolding stays_def by simp
        with s stays_trans show ?thesis by blast
      qed
    qed
  qed
qed (auto simp: stays_def)

text \<open>
  Property C20. An archive whose symbolic links only lead down changes nothing outside the destination
  directory: whatever its entries are called, whatever they are and whatever calls fail, every path that
  is not the destination, inside it or on the way to it is as it was.
\<close>

theorem extract_stays_inside:
  assumes "list_all plain ds" "ds \<noteq> []" "links_ok ds fs"
    and "\<And>items hdr. archive_reader env mode blob = Inr items \<Longrightarrow> FileItem hdr \<in> set items \<Longrightarrow> header_down hdr"
    and "extract_archive env blob mode (slash # join [slash] ds) subpath strip fs = (fs', r)"
    and "\<not> below ds p" "\<not> on_path ds p"
  shows "fs' p = fs p"
proof -
  let ?dest = "slash # join [slash] ds"
  have "stays ds fs fs'"
  proof (cases "archive_reader env mode blob")
    case (Inl e)
    with assms(3,5) show ?thesis by (simp add: extract_archive_def stays_def)
  next
    case (Inr items)
    obtain fs1 q where m: "mkdir_all env fs [] (path_comps env ?dest) = (fs1, q)" by fastforce
    have s1: "stays ds fs fs1"
      using mkdir_all_stays[OF m assms(3)] bound_for_start[OF assms(1), of "[]"]
      unfolding stays_def path_comps_rooted[OF assms(1)] by simp
    show ?thesis
    proof (cases q)
      case (Inl e)
      with Inr m s1 assms(5) show ?thesis by (simp add: extract_archive_def)
    next
      case q: (Inr x)
      with Inr m assms(5) have "extract_loop env ?dest items 0 (new_walk strip subpath) fs1 = (fs', r)"
        by (simp add: extract_archive_def)
      from extract_loop_stays[OF this _ assms(1,2) refl] s1 assms(4)[OF Inr] stays_trans[OF s1] show ?thesis
        unfolding stays_def by blast
    qed
  qed
  with assms(6,7) show ?thesis unfolding stays_def confined_def by metis
qed


definition sample_entry :: "string \<Rightarrow> typeflag \<Rightarrow> string \<Rightarrow> string \<Rightarrow> file_item" where
  "sample_entry name ty link body =
     FileItem \<lparr>fh_name = name, fh_type = ty, fh_mode = 420, fh_link = link, fh_body = body, fh_error = None\<rparr>"

definition sample_extract_env :: "file_item list \<Rightarrow> extract_env" where
  "sample_extract_env items =
     \<lparr>xe_cwd = [], xe_fault = (\<lambda>op p. None), xe_gunzip = (\<lambda>b. Inl (Msg ''not gzip'')), xe_untar = (\<lambda>b. items)\<rparr>"

text \<open>A link, a file written through it, and an entry that climbs out and is refused.\<close>

definition sample_tree :: "file_item list" where
  "sample_tree = [sample_entry ''d'' TypeDir [] [], sample_entry ''e'' TypeSymlink ''d'' [],
     sample_entry ''e/f'' TypeReg [] ''x'', sample_entry ''../out'' TypeReg [] ''y'']"

lemma sample_mapping: "new_mapping 0 [] = \<lparr>mp_strip = 0, mp_prefix = []\<rparr>"
  by code_simp

lemma sample_names:
  "mapping_map \<lparr>mp_strip = 0, mp_prefix = []\<rparr> ''a/b/l'' = \<lparr>pl_dest = ''a/b/l'', pl_selected = True, pl_in_subpath = True, pl_survived = True\<rparr>"
  "mapping_map \<lparr>mp_strip = 0, mp_prefix = []\<rparr> ''m'' = \<lparr>pl_dest = ''m'', pl_selected = True, pl_in_subpath = True, pl_survived = True\<rparr>"
  "mapping_map \<lparr>mp_strip = 0, mp_prefix = []\<rparr> ''m/evil'' = \<lparr>pl_dest = ''m/evil'', pl_selected = True, pl_in_subpath = True, pl_survived = True\<rparr>"
  "path_clean ''a/b/l'' = ''a/b/l''" "path_clean ''m'' = ''m''" "path_clean ''m/evil'' = ''m/evil''" "path_clean ''/w/ctx'' = ''/w/ctx''"
  "path_join ''/w/ctx'' ''a/b/l'' = ''/w/ctx/a/b/l''" "path_join ''/w/ctx'' ''m'' = ''/w/ctx/m''" "path_join ''/w/ctx'' ''m/evil'' = ''/w/ctx/m/evil''"
  "path_dir ''/w/ctx/a/b/l'' = ''/w/ctx/a/b''" "path_dir ''/w/ctx/m'' = ''/w/ctx''" "path_dir ''/w/ctx/m/evil'' = ''/w/ctx/m''"
  "leaves_context ''a/b/l'' ''../..'' = False" "leaves_context ''m'' ''a/b/l/../..'' = False"
  "split_on slash ''../..'' = [''..'', ''..'']" "split_on slash ''a/b/l/../..'' = [''a'', ''b'', ''l'', ''..'', ''..'']"
  by code_simp+

lemma sample_comps:
  "path_comps env ''/w/ctx'' = [''w'', ''ctx'']" "path_comps env ''/w/ctx/a/b/l'' = [''w'', ''ctx'', ''a'', ''b'', ''l'']"
  "path_comps env ''/w/ctx/a/b'' = [''w'', ''ctx'', ''a'', ''b'']" "path_comps env ''/w/ctx/m'' = [''w'', ''ctx'', ''m'']"
  "path_comps env ''/w/ctx/m/evil'' = [''w'', ''ctx'', ''m'', ''evil'']"
  by (simp_all add: path_comps_def has_prefix_def)

text \<open>
  Two links that the check accepts one by one lead out together: \<^verbatim>\<open>m\<close> is resolved by its name, in
  which \<^verbatim>\<open>..\<close> undoes the component before it, while the operating system has followed \<^verbatim>\<open>l\<close>.
\<close>

definition link_chain :: "file_item list" where
  "link_chain = [sample_entry ''a/b/l'' TypeSymlink ''../..'' [], sample_entry ''m'' TypeSymlink ''a/b/l/../..'' [],
     sample_entry ''m/evil'' TypeReg [] ''x'']"

lemma link_chain_escapes:
  "\<exists>fs'. extract_archive (sample_extract_env link_chain) [] ''tar'' ''/w/ctx'' [] 0 Map.empty = (fs', Inr ()) \<and>
     fs' [''evil''] = Some (FFile ''x'' 420)"
  by (simp add: extract_archive_def archive_reader_def sample_extract_env_def link_chain_def sample_entry_def sample_comps sample_names
    new_walk_def sample_mapping walk_map_def Let_def extract_entry_def write_node_def has_prefix_def max_entries_def max_links_def
    symlink_at_def is_dir_def write_regular_def open_trunc_def walk_err_def perm_def)


lemma sample_tree_names:
  "mapping_map \<lparr>mp_strip = 0, mp_prefix = []\<rparr> ''d'' = \<lparr>pl_dest = ''d'', pl_selected = True, pl_in_subpath = True, pl_survived = True\<rparr>"
  "mapping_map \<lparr>mp_strip = 0, mp_prefix = []\<rparr> ''e'' = \<lparr>pl_dest = ''e'', pl_selected = True, pl_in_subpath = True, pl_survived = True\<rparr>"
  "mapping_map \<lparr>mp_strip = 0, mp_prefix = []\<rparr> ''e/f'' = \<lparr>pl_dest = ''e/f'', pl_selected = True, pl_in_subpath = True, pl_survived = True\<rparr>"
  "mapping_map \<lparr>mp_strip = 0, mp_prefix = []\<rparr> ''../out'' = \<lparr>pl_dest = ''../out'', pl_selected = True, pl_in_subpath = True, pl_survived = True\<rparr>"
  "path_clean ''d'' = ''d''" "path_clean ''e'' = ''e''" "path_clean ''e/f'' = ''e/f''" "path_clean ''../out'' = ''../out''" "path_clean ''/w'' = ''/w''"
  "path_join ''/w'' ''d'' = ''/w/d''" "path_join ''/w'' ''e'' = ''/w/e''" "path_join ''/w'' ''e/f'' = ''/w/e/f''" "path_join ''/w'' ''../out'' = ''/out''"
  "path_dir ''/w/d'' = ''/w''" "path_dir ''/w/e'' = ''/w''" "path_dir ''/w/e/f'' = ''/w/e''" "leaves_context ''e'' ''d'' = False"
  "split_on slash ''d'' = [''d'']"
  by code_simp+

lemma sample_tree_comps:
  "path_comps env ''/w'' = [''w'']" "path_comps env ''/w/d'' = [''w'', ''d'']" "path_comps env ''/w/e'' = [''w'', ''e'']"
  "path_comps env ''/w/e/f'' = [''w'', ''e'', ''f'']"
  by (simp_all add: path_comps_def has_prefix_def)

theorem extract_stays_inside_witness:
  "\<exists>fs' e. extract_archive (sample_extract_env sample_tree) [] ''tar'' ''/w'' [] 0 [[''out''] \<mapsto> FFile ''o'' 0] = (fs', Inl e) \<and>
     fs' [''out''] = Some (FFile ''o'' 0) \<and> fs' [''w'', ''d'', ''f''] = Some (FFile ''x'' 420)"
proof -
  let ?fs = "[[''out''] \<mapsto> FFile ''o'' 0]" and ?env = "sample_extract_env sample_tree"
  have "\<exists>fs' e. extract_archive ?env [] ''tar'' ''/w'' [] 0 ?fs = (fs', Inl e) \<and> fs' [''w'', ''d'', ''f''] = Some (FFile ''x'' 420)"
    by (simp add: extract_archive_def archive_reader_def sample_extract_env_def sample_tree_def sample_entry_def sample_tree_comps
      sample_tree_names new_walk_def sample_mapping walk_map_def Let_def extract_entry_def write_node_def has_prefix_def
      max_entries_def max_links_def symlink_at_def is_dir_def write_regular_def open_trunc_def perm_def)
  then obtain fs' e where run: "extract_archive ?env [] ''tar'' (slash # join [slash] [''w'']) [] 0 ?fs = (fs', Inl e)"
    and f: "fs' [''w'', ''d'', ''f''] = Some (FFile ''x'' 420)" by auto
  have down: "header_down hdr" if "archive_reader ?env ''tar'' [] = Inr items" "FileItem hdr \<in> set items" for items hdr
    using that by (auto simp: archive_reader_def sample_extract_env_def sample_tree_def sample_entry_def header_down_def
      leads_down_def has_prefix_def)
  have "fs' [''out''] = ?fs [''out'']"
    by (rule extract_stays_inside[OF _ _ _ down run])
      (auto simp: plain_def links_ok_def below_def on_path_def split: if_splits)
  with run f show ?thesis by auto
qed

end
