(* ===== verification/Fetch_Context.thy ===== *)
theory Fetch_Context
  imports Fetch_Flags Archive_Extract Dockerfile_Check Input_Hash
begin

section \<open>Fetching a build context in the build pod\<close>

text \<open>
  \<^verbatim>\<open>internal/fetchcontext/fetchcontext.go\<close> and the command that runs it in
  \<^verbatim>\<open>cmd/oci-builder/fetchcontext.go\<close>: download with a bounded retry into a staged file, compare the
  digest, unpack, and check the Dockerfile that came out. The server is a parameter, one answer per
  attempt; so are the cancellation of the context, the registry and the digest.
\<close>

subsection \<open>The download\<close>

text \<open>How an attempt goes: before the request, without an answer, or with a status, a body and its end.\<close>

datatype fetch_attempt =
    ResetFailed error
  | RequestFailed error
  | NoAnswer error
  | Answered nat string "string list" "error option"

record fetch_env = extract_env +
  fx_attempt :: "nat \<Rightarrow> string \<Rightarrow> (string \<times> string) list \<Rightarrow> fetch_attempt"
  fx_write :: "nat \<Rightarrow> error option"
  fx_cancelled :: "nat \<Rightarrow> error option"
  fx_cancelled_waiting :: "nat \<Rightarrow> error option"
  fx_sha256 :: "string \<Rightarrow> string"
  fx_stage :: string
  fx_blob :: string
  fx_pinned :: "string \<Rightarrow> error option"
  fx_image :: "string \<Rightarrow> (bool \<times> string res) res"
  fx_read_file :: "string \<Rightarrow> string res"

definition blob_digest :: "('z) fetch_env_scheme \<Rightarrow> string \<Rightarrow> string" where
  "blob_digest env b = ''sha256:'' @ hex_encode (fx_sha256 env b)"

definition fetch_attempts :: nat where
  "fetch_attempts = 6"

text \<open>In milliseconds.\<close>

definition fetch_base_delay :: nat where
  "fetch_base_delay = 500"

text \<open>\<^verbatim>\<open>permanentError\<close> marks what is not worth repeating.\<close>

datatype attempt_error = Permanent error | Transient error

definition request_headers :: "string \<Rightarrow> (string \<times> string) list" where
  "request_headers token = (if token = [] then [] else [(''Authorization'', ''Bearer '' @ token)])"

text \<open>
  One attempt: the staged file is emptied first, so the bytes of a failed one cannot end up in the next.
  The write to the staged file may fail on its own.
\<close>

definition fetch_into ::
    "('z) fetch_env_scheme \<Rightarrow> string \<Rightarrow> string \<Rightarrow> nat \<Rightarrow> string \<Rightarrow> string \<times> (attempt_error + string)" where
  "fetch_into env url token n staged =
     (case fx_attempt env n url (request_headers token) of
        ResetFailed e \<Rightarrow> (staged, Inl (Permanent (Wrap ''resetting the staged download'' e)))
      | RequestFailed e \<Rightarrow> ([], Inl (Permanent e))
      | NoAnswer e \<Rightarrow> ([], Inl (Transient (Wrap (''fetching '' @ url) e)))
      | Answered status reason chunks err \<Rightarrow>
          if status = 200 then
            (case (if fx_write env n \<noteq> None then fx_write env n else err) of
               Some e \<Rightarrow> (concat chunks, Inl (Transient (Wrap (''downloading '' @ url) e)))
             | None \<Rightarrow> (concat chunks, Inr (blob_digest env (concat chunks))))
          else if status = 429 \<or> 500 \<le> status
          then ([], Inl (Transient (Msg (''fetching '' @ url @ '': '' @ reason))))
          else ([], Inl (Permanent (Msg (''fetching '' @ url @ '': '' @ reason)))))"

text \<open>The loop returns the delays it waited, the staged bytes and the digest or the last error.\<close>

function download_loop ::
    "('z) fetch_env_scheme \<Rightarrow> string \<Rightarrow> string \<Rightarrow> nat \<Rightarrow> nat \<Rightarrow> string \<Rightarrow> error \<Rightarrow> nat list \<times> string \<times> string res" where
  "download_loop env url token n delay staged last_err =
     (if fetch_attempts < n then ([], staged, Inl last_err)
      else (case fetch_into env url token n staged of
          (staged', Inr digest) \<Rightarrow> ([], staged', Inr digest)
        | (staged', Inl (Permanent e)) \<Rightarrow> ([], staged', Inl e)
        | (staged', Inl (Transient e)) \<Rightarrow>
            if fx_cancelled env n \<noteq> None \<or> n = fetch_attempts then ([], staged', Inl e)
            else (case fx_cancelled_waiting env n of
                Some c \<Rightarrow> ([], staged', Inl c)
              | None \<Rightarrow>
                  (case download_loop env url token (Suc n) (2 * delay) staged' e of
                     (ds, r) \<Rightarrow> (delay # ds, r)))))"
  by pat_completeness auto

termination
  by (relation "measure (\<lambda>(env, url, token, n, delay, staged, e). Suc fetch_attempts - n)") auto

declare download_loop.simps [simp del]

definition download_bytes :: "('z) fetch_env_scheme \<Rightarrow> string \<Rightarrow> string \<Rightarrow> nat list \<times> string \<times> string res" where
  "download_bytes env url token = download_loop env url token 1 fetch_base_delay [] (Msg [])"

text \<open>
  The staged file lies in a directory of its own below the destination. The directory is reported with the
  bytes and the digest; an error is reported alone.
\<close>

definition download ::
    "('z) fetch_env_scheme \<Rightarrow> string \<Rightarrow> string \<Rightarrow> string \<Rightarrow> fs \<Rightarrow> fs \<times> (string list \<times> string \<times> string) res" where
  "download env url dest token fs =
     (case mkdir_all env fs [] (path_comps env dest) of
        (fs1, Inl e) \<Rightarrow> (fs1, Inl (Wrap (''creating '' @ dest) e))
      | (fs1, Inr p) \<Rightarrow>
          (let stage = p @ [''.fetch-'' @ fx_stage env]; blob = stage @ [''context-'' @ fx_blob env @ ''.blob''] in
           case (if fs1 stage \<noteq> None then Some (Msg ''file exists'') else xe_fault env ''mkdirtemp'' p) of
             Some e \<Rightarrow> (fs1, Inl (Wrap ''staging the download'' e))
           | None \<Rightarrow>
               (case xe_fault env ''createtemp'' stage of
                  Some e \<Rightarrow> (fs1(stage \<mapsto> FDir), Inl (Wrap ''staging the download'' e))
                | None \<Rightarrow>
                    (case download_bytes env url token of
                       (ds, staged, Inl e) \<Rightarrow> (fs1(stage \<mapsto> FDir, blob \<mapsto> FFile staged 384), Inl e)
                     | (ds, staged, Inr digest) \<Rightarrow>
                         (fs1(stage \<mapsto> FDir, blob \<mapsto> FFile staged 384), Inr (stage, staged, digest))))))"

subsection \<open>The pass\<close>

definition remove_tree :: "('z) extract_env_scheme \<Rightarrow> string list \<Rightarrow> fs \<Rightarrow> fs" where
  "remove_tree env p fs =
     (if xe_fault env ''removeall'' p \<noteq> None then fs else (\<lambda>q. if take (length p) q = p then None else fs q))"

definition check_dockerfile :: "('z) extract_env_scheme \<Rightarrow> fetch_options \<Rightarrow> fs \<Rightarrow> unit res" where
  "check_dockerfile env opts fs =
     (if fp_dockerfile opts = [] then Inr ()
      else (let file = path_join (fp_dest opts) (fp_dockerfile opts);
                failed = (\<lambda>e. Inl (Wrap (''reading '' @ fp_dockerfile opts @ '' from the context'') e)) in
        case follow max_links fs [] (path_comps env file) of
          None \<Rightarrow> failed (Msg ''no such file or directory'')
        | Some p \<Rightarrow>
            (case xe_fault env ''open'' p of
               Some e \<Rightarrow> failed e
             | None \<Rightarrow>
                 (case fs p of
                    Some (FFile b m) \<Rightarrow> check_pinned_bases b
                  | Some n \<Rightarrow> Inl (Msg ''is a directory'')
                  | None \<Rightarrow> failed (Msg ''no such file or directory'')))))"

text \<open>Verified before it is unpacked, and the staged file goes whatever the outcome.\<close>

definition unpack_blob ::
    "('z) fetch_env_scheme \<Rightarrow> fetch_options \<Rightarrow> string list \<Rightarrow> string \<Rightarrow> string \<Rightarrow> fs \<Rightarrow> fs \<times> unit res" where
  "unpack_blob env opts stage bytes digest fs =
     (if digest \<noteq> fp_digest opts then (fs, Inl (DigestMismatch (fp_digest opts) digest (fp_url opts)))
      else (case xe_fault env ''open'' stage of
          Some e \<Rightarrow> (fs, Inl e)
        | None \<Rightarrow>
            (case extract_archive env bytes (fp_unpack opts) (fp_dest opts) (fp_subpath opts) (fp_strip opts) fs of
               (fs1, Inl e) \<Rightarrow> (fs1, Inl e)
             | (fs1, Inr u) \<Rightarrow> (fs1, check_dockerfile env opts fs1))))"

definition fetch_image :: "('z) fetch_env_scheme \<Rightarrow> fetch_options \<Rightarrow> fs \<Rightarrow> fs \<times> unit res" where
  "fetch_image env opts fs =
     (case fx_pinned env (fp_url opts) of
        Some e \<Rightarrow> (fs, Inl (Wrap (''the image reference '' @ fp_url opts @ '' is not digest-pinned'') e))
      | None \<Rightarrow>
          (case fx_image env (fp_url opts) of
             Inl e \<Rightarrow> (fs, Inl (Wrap (''pulling '' @ fp_url opts) e))
           | Inr (index, content) \<Rightarrow>
               if index
               then (fs, Inl (Msg (fp_url opts @ '' is a multi-platform index: name a platform-specific digest, because '' @
                 ''resolving one here would make the context depend on where the build ran'')))
               else (case content of
                   Inl e \<Rightarrow> (fs, Inl (Wrap (''reading '' @ fp_url opts) e))
                 | Inr bytes \<Rightarrow>
                     (case mkdir_all env fs [] (path_comps env (fp_dest opts)) of
                        (fs1, Inl e) \<Rightarrow> (fs1, Inl (Wrap (''creating '' @ fp_dest opts) e))
                      | (fs1, Inr p) \<Rightarrow>
                          (case extract_archive env bytes ''tar'' (fp_dest opts) (fp_subpath opts) (fp_strip opts) fs1 of
                             (fs2, Inl e) \<Rightarrow> (fs2, Inl e)
                           | (fs2, Inr u) \<Rightarrow> (fs2, check_dockerfile env opts fs2))))))"

definition fetch_run :: "('z) fetch_env_scheme \<Rightarrow> fetch_options \<Rightarrow> fs \<Rightarrow> fs \<times> unit res" where
  "fetch_run env opts fs =
     (if fp_kind opts = ''image'' then fetch_image env opts fs
      else if fp_digest opts = []
      then (fs, Inl (Msg (''no digest for the '' @ fp_kind opts @ '' context: refusing to build content nothing addresses'')))
      else (case download env (fp_url opts) (fp_dest opts) (fp_token opts) fs of
          (fs1, Inl e) \<Rightarrow> (fs1, Inl e)
        | (fs1, Inr (stage, bytes, digest)) \<Rightarrow>
            (case unpack_blob env opts stage bytes digest fs1 of
               (fs2, r) \<Rightarrow> (remove_tree env stage fs2, r))))"

subsection \<open>The command\<close>

definition exit_digest_mismatch :: nat where
  "exit_digest_mismatch = 3"

text \<open>\<^verbatim>\<open>errors.As\<close> for the mismatch, through wrapped errors.\<close>

fun is_mismatch :: "error \<Rightarrow> bool" where
  "is_mismatch (Wrap s e) = is_mismatch e"
| "is_mismatch (TerminalError e) = is_mismatch e"
| "is_mismatch (PendingError e) = is_mismatch e"
| "is_mismatch (DigestMismatch w g u) = True"
| "is_mismatch e = False"

text \<open>The exit status; \<^verbatim>\<open>flag.ExitOnError\<close> exits with 2.\<close>

definition run_fetch_context :: "('z) fetch_env_scheme \<Rightarrow> string list \<Rightarrow> fs \<Rightarrow> fs \<times> nat" where
  "run_fetch_context env args fs =
     (case parse_flags args (default_options, []) of
        Inl e \<Rightarrow> (fs, 2)
      | Inr (opts, token_file) \<Rightarrow>
          (case (if token_file = [] then Inr [] else fx_read_file env token_file) of
             Inl e \<Rightarrow> (fs, 1)
           | Inr raw \<Rightarrow>
               (case fetch_run env (opts\<lparr>fp_token := trim_space raw\<rparr>) fs of
                  (fs', Inr u) \<Rightarrow> (fs', 0)
                | (fs', Inl e) \<Rightarrow> (fs', if is_mismatch e then exit_digest_mismatch else 1))))"


subsection \<open>The retry\<close>

text \<open>An attempt worth repeating, and one that delivered a whole body.\<close>

definition transient :: "('z) fetch_env_scheme \<Rightarrow> string \<Rightarrow> string \<Rightarrow> nat \<Rightarrow> bool" where
  "transient env url token n \<longleftrightarrow>
     (case fx_attempt env n url (request_headers token) of
        NoAnswer e \<Rightarrow> True
      | Answered status reason chunks err \<Rightarrow>
          if status = 200 then fx_write env n \<noteq> None \<or> err \<noteq> None else status = 429 \<or> 500 \<le> status
      | _ \<Rightarrow> False)"

definition served :: "('z) fetch_env_scheme \<Rightarrow> string \<Rightarrow> string \<Rightarrow> nat \<Rightarrow> string \<Rightarrow> bool" where
  "served env url token n b \<longleftrightarrow>
     (\<exists>reason chunks. fx_attempt env n url (request_headers token) = Answered 200 reason chunks None \<and> b = concat chunks)"

lemma fetch_into_ok:
  "fetch_into env url token n s = (s', Inr dg) \<Longrightarrow> served env url token n s' \<and> dg = blob_digest env s'"
  by (auto simp: fetch_into_def served_def split: fetch_attempt.splits option.splits if_splits)

lemma fetch_into_transient:
  "fetch_into env url token n s = (s', Inl (Transient e)) \<Longrightarrow> transient env url token n"
  by (auto simp: fetch_into_def transient_def split: fetch_attempt.splits option.splits if_splits)

lemma download_loop_bounds:
  "download_loop env url token n delay s e = (ds, s', r) \<Longrightarrow> n \<le> fetch_attempts \<Longrightarrow>
   n + length ds \<le> fetch_attempts \<and> ds = map (\<lambda>i. delay * 2 ^ i) [0..<length ds] \<and>
   (\<forall>i < length ds. transient env url token (n + i)) \<and>
   (\<forall>dg. r = Inr dg \<longrightarrow> served env url token (n + length ds) s' \<and> dg = blob_digest env s')"
proof (induction env url token n delay s e arbitrary: ds s' r rule: download_loop.induct)
  case (1 env url token n delay s e)
  note run = "1.prems"(1)[unfolded download_loop.simps[of env url token n]]
  obtain s1 x where f: "fetch_into env url token n s = (s1, x)" by fastforce
  show ?case
  proof (cases x)
    case (Inr dg)
    with run f "1.prems"(2) fetch_into_ok[of env url token n s s1 dg] show ?thesis by auto
  next
    case (Inl err)
    show ?thesis
    proof (cases err)
      case (Permanent p)
      with run f Inl "1.prems"(2) show ?thesis by auto
    next
      case (Transient p)
      show ?thesis
      proof (cases "fx_cancelled env n \<noteq> None \<or> n = fetch_attempts \<or> fx_cancelled_waiting env n \<noteq> None")
        case True
        with run f Inl Transient "1.prems"(2) show ?thesis by (auto split: if_splits)
      next
        case False
        obtain ds1 s2 r1 where l: "download_loop env url token (Suc n) (2 * delay) s1 p = (ds1, s2, r1)"
          by (metis prod_cases3)
        have out: "ds = delay # ds1" "s' = s2" "r = r1"
          using run f Inl Transient False l "1.prems"(2) by (auto split: if_splits)
        have le: "Suc n \<le> fetch_attempts" using False "1.prems"(2) by simp
        have IH: "Suc n + length ds1 \<le> fetch_attempts" "ds1 = map (\<lambda>i. 2 * delay * 2 ^ i) [0..<length ds1]"
          "\<forall>i < length ds1. transient env url token (Suc n + i)"
          "\<forall>dg. r1 = Inr dg \<longrightarrow> served env url token (Suc n + length ds1) s2 \<and> dg = blob_digest env s2"
          using "1.IH"[OF _ f[symmetric] Inl Transient _ _ l le] False "1.prems"(2) by auto
        have "ds = map (\<lambda>i. delay * 2 ^ i) [0..<length ds]"
        proof -
          have "map (\<lambda>i. delay * 2 ^ i) [0..<Suc (length ds1)] = delay # map (\<lambda>i. delay * 2 ^ i) (map Suc [0..<length ds1])"
            by (simp only: map_Suc_upt upt_conv_Cons) simp
          also have "map (\<lambda>i. delay * 2 ^ i) (map Suc [0..<length ds1]) = ds1"
            by (subst (2) IH(2)) (simp add: comp_def mult_ac)
          finally show ?thesis by (simp add: out(1))
        qed
        moreover have "\<forall>i < length ds. transient env url token (n + i)"
        proof (intro allI impI)
          fix i
          assume "i < length ds"
          then show "transient env url token (n + i)"
            using IH(3) fetch_into_transient[OF f[unfolded Inl Transient]] out(1) by (cases i) auto
        qed
        ultimately show ?thesis using IH(1,4) out by auto
      qed
    qed
  qed
qed

text \<open>
  Property C28. A download ends: at most six attempts are made and at most fifteen and a half seconds are
  spent between them, doubling from half a second; an attempt is repeated only where it failed in a way
  that may pass; and the digest that is reported is that of the bytes the last attempt delivered, whatever
  the ones before left in the staged file.
\<close>

theorem download_bounded:
  assumes "download_bytes env url token = (ds, staged, r)"
  shows "length ds < 6 \<and> sum_list ds \<le> 15500 \<and> (\<forall>i < length ds. ds ! i = 500 * 2 ^ i \<and> transient env url token (Suc i)) \<and>
    (\<forall>dg. r = Inr dg \<longrightarrow> served env url token (Suc (length ds)) staged \<and> dg = blob_digest env staged)"
proof -
  note b = download_loop_bounds[OF assms[unfolded download_bytes_def], unfolded fetch_attempts_def fetch_base_delay_def, simplified]
  obtain k where k: "k = length ds" by blast
  have ds: "ds = map (\<lambda>i. 500 * 2 ^ i) [0..<k]" and l: "k \<le> 5" using b unfolding k by blast+
  have "k \<in> {0, 1, 2, 3, 4, 5}" using l by auto
  then have s: "sum_list ds \<le> 15500" unfolding ds by (elim insertE emptyE) (simp_all add: upt_rec)
  have "ds ! i = 500 * 2 ^ i" if "i < length ds" for i using that unfolding ds by simp
  with l s b show ?thesis unfolding k by simp
qed


text \<open>A server that is not reachable, then breaks off, then answers.\<close>

definition sample_attempt :: "nat \<Rightarrow> string \<Rightarrow> (string \<times> string) list \<Rightarrow> fetch_attempt" where
  "sample_attempt n url hdrs =
     (if n = 1 then NoAnswer (Msg ''connection refused'')
      else if n = 2 then Answered 200 ''200 OK'' [''ba''] (Some (Msg ''unexpected EOF''))
      else Answered 200 ''200 OK'' [''a'', ''rchive''] None)"

definition sample_fetch_env :: "file_item list \<Rightarrow> fetch_env" where
  "sample_fetch_env items =
     \<lparr>xe_cwd = [], xe_fault = (\<lambda>op p. None), xe_gunzip = (\<lambda>b. Inl (Msg ''not gzip'')), xe_untar = (\<lambda>b. items),
      fx_attempt = sample_attempt, fx_write = (\<lambda>n. None), fx_cancelled = (\<lambda>n. None), fx_cancelled_waiting = (\<lambda>n. None),
      fx_sha256 = (\<lambda>b. take 1 b), fx_stage = ''1'', fx_blob = ''2'', fx_pinned = (\<lambda>u. None),
      fx_image = (\<lambda>u. Inl (Msg ''no image'')), fx_read_file = (\<lambda>p. Inr [])\<rparr>"

lemma sample_download: "download_bytes (sample_fetch_env items) url [] = ([500, 1000], ''archive'', Inr ''sha256:61'')"
proof -
  have a: "char_of (54::nat) = CHR ''6''" "char_of (49::nat) = CHR ''1''" by code_simp+
  show ?thesis
    by (simp add: download_bytes_def download_loop.simps fetch_into_def sample_fetch_env_def sample_attempt_def
      fetch_attempts_def fetch_base_delay_def request_headers_def blob_digest_def hex_encode_def hex_digit_def Let_def a)
qed

theorem download_bounded_witness:
  "download_bytes (sample_fetch_env []) ''u'' [] = ([500, 1000], ''archive'', Inr ''sha256:61'') \<and>
   transient (sample_fetch_env []) ''u'' [] 2 \<and> served (sample_fetch_env []) ''u'' [] 3 ''archive''"
proof -
  note b = download_bounded[OF sample_download[of "[]" "''u''"]]
  then have "transient (sample_fetch_env []) ''u'' [] (Suc 1)" by (metis One_nat_def lessI length_Cons list.size(3))
  moreover have "served (sample_fetch_env []) ''u'' [] 3 ''archive''" using b by (simp add: eval_nat_numeral)
  ultimately show ?thesis using sample_download by (simp add: numeral_2_eq_2)
qed

subsection \<open>What a pass leaves\<close>

lemma mkdir_all_only_dirs:
  "mkdir_all env fs p cs = (fs', r) \<Longrightarrow> fs' q = fs q \<or> fs' q = Some FDir"
  by (induction env fs p cs arbitrary: fs' r rule: mkdir_all.induct)
    (auto split: if_splits option.splits fnode.splits)

text \<open>The staging directory and all below it.\<close>

definition staged_path :: "('z) fetch_env_scheme \<Rightarrow> string list \<Rightarrow> bool" where
  "staged_path env q \<longleftrightarrow> (''.fetch-'' @ fx_stage env) \<in> set q"

lemma download_outcome:
  assumes "download env url dest token fs = (fs', r)"
  shows "(\<forall>q. fs' q = fs q \<or> fs' q = Some FDir \<or> staged_path env q) \<and>
    (\<forall>stage bytes dg. r = Inr (stage, bytes, dg) \<longrightarrow>
       dg = blob_digest env bytes \<and> (\<exists>n \<le> 6. served env url token n bytes) \<and> staged_path env stage)"
proof -
  obtain fs1 m where mk: "mkdir_all env fs [] (path_comps env dest) = (fs1, m)" by fastforce
  have dirs: "fs1 q = fs q \<or> fs1 q = Some FDir" for q by (rule mkdir_all_only_dirs[OF mk])
  show ?thesis
  proof (cases m)
    case (Inl e)
    with assms mk dirs show ?thesis by (auto simp: download_def)
  next
    case (Inr p)
    let ?stage = "p @ [''.fetch-'' @ fx_stage env]" and ?blob = "p @ [''.fetch-'' @ fx_stage env, ''context-'' @ fx_blob env @ ''.blob'']"
    have st: "staged_path env ?stage" "staged_path env ?blob" by (simp_all add: staged_path_def)
    have up: "(fs1(?stage \<mapsto> x, ?blob \<mapsto> y)) q = fs q \<or> (fs1(?stage \<mapsto> x, ?blob \<mapsto> y)) q = Some FDir \<or> staged_path env q" for x y q
      using st dirs[of q] by (cases "q = ?stage"; cases "q = ?blob") auto
    have up1: "(fs1(?stage \<mapsto> x)) q = fs q \<or> (fs1(?stage \<mapsto> x)) q = Some FDir \<or> staged_path env q" for x q
      using st dirs[of q] by (cases "q = ?stage") auto
    obtain ds bytes b where d: "download_bytes env url token = (ds, bytes, b)" by (metis prod_cases3)
    note bd = download_bounded[OF d]
    show ?thesis
    proof (cases "(if fs1 ?stage \<noteq> None then Some (Msg ''file exists'') else xe_fault env ''mkdirtemp'' p) = None")
      case False
      then obtain e where e: "(if fs1 ?stage \<noteq> None then Some (Msg ''file exists'') else xe_fault env ''mkdirtemp'' p) = Some e"
        by blast
      have "fs' = fs1" "\<exists>e. r = Inl e" using assms unfolding download_def mk Inr Let_def prod.case sum.case e option.case by auto
      with dirs show ?thesis by auto
    next
      case t: True
      have run: "(fs', r) = (case xe_fault env ''createtemp'' ?stage of
          Some e \<Rightarrow> (fs1(?stage \<mapsto> FDir), Inl (Wrap ''staging the download'' e))
        | None \<Rightarrow> (fs1(?stage \<mapsto> FDir, ?blob \<mapsto> FFile bytes 384), case b of Inl e \<Rightarrow> Inl e | Inr dg \<Rightarrow> Inr (?stage, bytes, dg)))"
        unfolding assms[symmetric] download_def mk Inr Let_def prod.case sum.case t option.case d by (simp split: option.split sum.split)
      show ?thesis
      proof (cases "xe_fault env ''createtemp'' ?stage")
        case (Some e)
        with run up1 show ?thesis by auto
      next
        case None
        have "dg = blob_digest env bytes \<and> (\<exists>n \<le> 6. served env url token n bytes)" if "b = Inr dg" for dg
          using bd that by (intro conjI exI[of _ "Suc (length ds)"]) auto
        with None run up st(1) show ?thesis by (auto split: sum.splits)
      qed
    qed
  qed
qed

text \<open>
  Property C13. Nothing of a context is unpacked unless its bytes have the declared digest: if a pass over
  an archive succeeds, some attempt delivered bytes of that digest, what is on disk is what unpacking those
  bytes leaves, less the staging directory, and the Dockerfile in it passed the check; and if no attempt
  delivers such bytes, the pass fails and leaves only directories beside its staged file.
\<close>

theorem context_verified_before_unpacking:
  assumes "fetch_run env opts fs = (fs', r)" "fp_kind opts \<noteq> ''image''"
  shows "(r = Inr () \<longrightarrow> (\<exists>n bytes fs1 fs2 stage. n \<le> 6 \<and> served env (fp_url opts) (fp_token opts) n bytes \<and>
      blob_digest env bytes = fp_digest opts \<and>
      extract_archive env bytes (fp_unpack opts) (fp_dest opts) (fp_subpath opts) (fp_strip opts) fs1 = (fs2, Inr ()) \<and>
      check_dockerfile env opts fs2 = Inr () \<and> fs' = remove_tree env stage fs2)) \<and>
    ((\<forall>n b. served env (fp_url opts) (fp_token opts) n b \<longrightarrow> blob_digest env b \<noteq> fp_digest opts) \<longrightarrow>
      r \<noteq> Inr () \<and> (\<forall>q x m. fs' q = Some (FFile x m) \<longrightarrow> fs q = Some (FFile x m) \<or> staged_path env q))"
proof (cases "fp_digest opts = []")
  case True
  with assms show ?thesis by (auto simp: fetch_run_def)
next
  case False
  obtain fs1 d where dl: "download env (fp_url opts) (fp_dest opts) (fp_token opts) fs = (fs1, d)" by fastforce
  note o = download_outcome[OF dl]
  have old: "fs q = Some (FFile x m) \<or> staged_path env q" if "fs1 q = Some (FFile x m)" for q x m
    using o that by (metis fnode.distinct(1) option.inject)
  show ?thesis
  proof (cases d)
    case (Inl e)
    with assms False dl have "fs' = fs1" "r = Inl e" by (simp_all add: fetch_run_def)
    with old show ?thesis by auto
  next
    case (Inr x)
    obtain stage bytes dg where x: "d = Inr (stage, bytes, dg)" using Inr by (metis prod_cases3)
    obtain n where n: "n \<le> 6" "served env (fp_url opts) (fp_token opts) n bytes" and dg: "dg = blob_digest env bytes"
      using o x by blast
    obtain fs2 r2 where u: "unpack_blob env opts stage bytes dg fs1 = (fs2, r2)" by fastforce
    with assms False dl x have out: "fs' = remove_tree env stage fs2" "r = r2" by (simp_all add: fetch_run_def)
    show ?thesis
    proof (cases "dg = fp_digest opts")
      case True
      have "extract_archive env bytes (fp_unpack opts) (fp_dest opts) (fp_subpath opts) (fp_strip opts) fs1 = (fs2, Inr ()) \<and>
          check_dockerfile env opts fs2 = Inr ()" if "r2 = Inr ()"
        using u that True by (auto simp: unpack_blob_def split: option.splits prod.splits sum.splits)
      with n dg True out show ?thesis by blast
    next
      case False
      with u have "fs2 = fs1" "r2 \<noteq> Inr ()" by (auto simp: unpack_blob_def)
      moreover from this have "fs1 q = Some y" if "fs' q = Some y" for q y
        using that out(1) by (auto simp: remove_tree_def split: if_splits)
      ultimately show ?thesis using old out(2) by blast
    qed
  qed
qed


definition sample_options :: "string \<Rightarrow> fetch_options" where
  "sample_options digest = default_options\<lparr>fp_kind := ''fetch'', fp_url := ''u'', fp_digest := digest, fp_unpack := ''tar'', fp_dest := ''/w''\<rparr>"

lemma sample_file_names:
  "mapping_map \<lparr>mp_strip = 0, mp_prefix = []\<rparr> ''f'' = \<lparr>pl_dest = ''f'', pl_selected = True, pl_in_subpath = True, pl_survived = True\<rparr>"
  "path_clean ''f'' = ''f''" "path_join ''/w'' ''f'' = ''/w/f''" "path_dir ''/w/f'' = ''/w''"
  by code_simp+

lemma sample_file_comps: "path_comps env ''/w/f'' = [''w'', ''f'']"
  by (simp add: path_comps_def has_prefix_def)

lemma sample_fetch_run:
  "\<exists>fs'. fetch_run (sample_fetch_env [sample_entry ''f'' TypeReg [] ''x'']) (sample_options ''sha256:61'') Map.empty = (fs', Inr ()) \<and>
     fs' [''w'', ''f''] = Some (FFile ''x'' 420)"
proof -
  let ?items = "[sample_entry ''f'' TypeReg [] ''x'']"
  define env where "env = sample_fetch_env ?items"
  have d: "download_bytes env url [] = ([500, 1000], ''archive'', Inr ''sha256:61'')" for url unfolding env_def by (rule sample_download)
  have f: "xe_fault env op p = None" "xe_untar env b = ?items" "fx_stage env = ''1''" "fx_blob env = ''2''" for op p b
    unfolding env_def by (simp_all add: sample_fetch_env_def)
  show ?thesis unfolding env_def[symmetric]
    by (simp add: fetch_run_def sample_options_def default_options_def download_def d f sample_tree_comps sample_tree_names
      sample_file_comps sample_file_names sample_entry_def unpack_blob_def extract_archive_def archive_reader_def new_walk_def
      sample_mapping walk_map_def Let_def extract_entry_def write_node_def has_prefix_def max_entries_def max_links_def
      write_regular_def open_trunc_def perm_def is_dir_def check_dockerfile_def walk_err_def remove_tree_def)
qed

theorem context_verified_before_unpacking_witness:
  "\<exists>fs' n bytes. fetch_run (sample_fetch_env [sample_entry ''f'' TypeReg [] ''x'']) (sample_options ''sha256:61'') Map.empty = (fs', Inr ()) \<and>
     fs' [''w'', ''f''] = Some (FFile ''x'' 420) \<and> served (sample_fetch_env [sample_entry ''f'' TypeReg [] ''x'']) ''u'' [] n bytes \<and>
     blob_digest (sample_fetch_env [sample_entry ''f'' TypeReg [] ''x'']) bytes = ''sha256:61''"
proof -
  obtain fs' where run: "fetch_run (sample_fetch_env [sample_entry ''f'' TypeReg [] ''x'']) (sample_options ''sha256:61'') Map.empty = (fs', Inr ())"
    "fs' [''w'', ''f''] = Some (FFile ''x'' 420)" using sample_fetch_run by blast
  have o: "fp_kind (sample_options ''sha256:61'') \<noteq> ''image''" "fp_url (sample_options ''sha256:61'') = ''u''"
    "fp_token (sample_options ''sha256:61'') = []" "fp_digest (sample_options ''sha256:61'') = ''sha256:61''"
    by (simp_all add: sample_options_def default_options_def)
  from context_verified_before_unpacking[OF run(1) o(1), unfolded o] run show ?thesis by blast
qed

text \<open>The exit status tells a digest mismatch from every other failure.\<close>

lemma exit_status:
  assumes "run_fetch_context env args fs = (fs', n)"
  shows "n = 3 \<longleftrightarrow> (\<exists>opts file raw e. parse_flags args (default_options, []) = Inr (opts, file) \<and>
    (if file = [] then Inr [] else fx_read_file env file) = Inr raw \<and>
    fetch_run env (opts\<lparr>fp_token := trim_space raw\<rparr>) fs = (fs', Inl e) \<and> is_mismatch e)"
  using assms unfolding run_fetch_context_def exit_digest_mismatch_def
  by (auto split: sum.splits prod.splits if_splits)

text \<open>The staging directory of a download that failed stays behind: nothing is deferred yet.\<close>

lemma failed_download_keeps_stage:
  assumes "fp_kind opts \<noteq> ''image''" "fp_digest opts \<noteq> []" "mkdir_all env fs [] (path_comps env (fp_dest opts)) = (fs1, Inr p)"
    and "\<And>op q. xe_fault env op q = None" "fs1 (p @ [''.fetch-'' @ fx_stage env]) = None"
    and "download_bytes env (fp_url opts) (fp_token opts) = (ds, staged, Inl e)"
  shows "\<exists>fs'. fetch_run env opts fs = (fs', Inl e) \<and> fs' (p @ [''.fetch-'' @ fx_stage env]) = Some FDir"
  using assms by (simp add: fetch_run_def download_def Let_def)

end
