(* ===== verification/Fetch_Job.thy ===== *)
theory Fetch_Job
  imports Fetch_Context Build_Job_Theorems
begin

section \<open>The arguments of a build and what the fetcher reads\<close>

text \<open>
  The controller writes the init container's arguments in \<^verbatim>\<open>internal/buildcontroller/job.go\<close>; the binary
  in it reads them in \<^verbatim>\<open>cmd/oci-builder/fetchcontext.go\<close>. Both halves are modelled elsewhere; here they meet.
\<close>

definition flag_arg :: "string \<times> string \<Rightarrow> string" where
  "flag_arg a = ''--'' @ fst a @ ''='' @ snd a"

definition flag_name :: "string \<Rightarrow> bool" where
  "flag_name n \<longleftrightarrow> n \<noteq> [] \<and> hd n \<noteq> CHR ''-'' \<and> CHR ''='' \<notin> set n"

fun set_flags :: "(string \<times> string) list \<Rightarrow> fetch_options \<times> string \<Rightarrow> (fetch_options \<times> string) res" where
  "set_flags [] s = Inr s"
| "set_flags (a # as) s = (case flag_set (fst a) (snd a) s of Inl e \<Rightarrow> Inl e | Inr s' \<Rightarrow> set_flags as s')"

lemma parse_flag_args:
  "list_all (\<lambda>a. flag_name (fst a)) as \<Longrightarrow> parse_flags (map flag_arg as) s = set_flags as s"
proof (induction as arbitrary: s)
  case (Cons a as)
  obtain c cs where n: "fst a = c # cs" "c \<noteq> CHR ''-''" "c \<noteq> CHR ''=''" "CHR ''='' \<notin> set cs"
    using Cons.prems by (cases "fst a") (auto simp: flag_name_def)
  have "cut CHR ''='' (c # cs @ CHR ''='' # snd a) = Some (c # cs, snd a)"
    by (subst cut_Some) (use n in simp)
  with n Cons show ?case
    by (simp add: flag_arg_def flag_body_def split: sum.split)
qed simp

text \<open>What the flags stand for, per kind of context.\<close>

definition job_flags :: "image_build \<Rightarrow> job_config \<Rightarrow> string \<Rightarrow> string \<Rightarrow> string \<Rightarrow> (string \<times> string) list option" where
  "job_flags obj cfg ih url dg =
     (let spec = ib_spec obj;
          common = (\<lambda>u. [(''dest'', context_path), (''url'', u), (''digest'', dg)] @
            (if projected_dockerfile spec then [] else [(''dockerfile'', effective_dockerfile (xs_dockerfile spec))]))
      in case get_source_ref (xs_context spec) of
           Some ref \<Rightarrow> Some
             ((if jc_context_base cfg = [] then common url
               else common (trim_suffix (jc_context_base cfg) ''/'' @ ''/contexts/'' @ ib_namespace obj @ ''/'' @ ib_name obj @ ''/'' @ ih) @
                 [(''token-file'', path_join context_token_path context_token_file)]) @
              [(''kind'', ''sourceRef''), (''unpack'', ''tar.gz''), (''subpath'', sr_subpath ref)])
         | None \<Rightarrow>
             (case get_image (xs_context spec) of
                Some img \<Rightarrow> Some (common url @ [(''kind'', ''image''), (''subpath'', is_subpath img)])
              | None \<Rightarrow>
                  (case get_fetch (xs_context spec) of
                     None \<Rightarrow> None
                   | Some f \<Rightarrow> Some (common url @ [(''kind'', ''fetch''), (''unpack'', ft_unpack f), (''subpath'', ft_subpath f),
                       (''strip-components'', show_int (ft_strip f))]))))"

lemma args_are_flags:
  "fetch_context_args obj cfg ih url dg = map_option (\<lambda>fs. ''fetch-context'' # map flag_arg fs) (job_flags obj cfg ih url dg)"
  by (simp add: fetch_context_args_def job_flags_def flag_arg_def Let_def eval_nat_numeral split: option.split)

lemma job_flag_names: "job_flags obj cfg ih url dg = Some fs \<Longrightarrow> list_all (\<lambda>a. flag_name (fst a)) fs"
  by (auto simp: job_flags_def flag_name_def Let_def split: option.splits if_splits)

lemma flag_set_simps:
  "flag_set ''kind'' v (opts, t) = Inr (opts\<lparr>fp_kind := v\<rparr>, t)"
  "flag_set ''url'' v (opts, t) = Inr (opts\<lparr>fp_url := v\<rparr>, t)"
  "flag_set ''digest'' v (opts, t) = Inr (opts\<lparr>fp_digest := v\<rparr>, t)"
  "flag_set ''unpack'' v (opts, t) = Inr (opts\<lparr>fp_unpack := v\<rparr>, t)"
  "flag_set ''subpath'' v (opts, t) = Inr (opts\<lparr>fp_subpath := v\<rparr>, t)"
  "flag_set ''dest'' v (opts, t) = Inr (opts\<lparr>fp_dest := v\<rparr>, t)"
  "flag_set ''dockerfile'' v (opts, t) = Inr (opts\<lparr>fp_dockerfile := v\<rparr>, t)"
  "flag_set ''token-file'' v (opts, t) = Inr (opts, v)"
  by (simp_all add: flag_set_def)

lemma flag_set_strip:
  "- (2 ^ 63) \<le> i \<Longrightarrow> i < 2 ^ 63 \<Longrightarrow> flag_set ''strip-components'' (show_int i) (opts, t) = Inr (opts\<lparr>fp_strip := i\<rparr>, t)"
  using parse_int_any_show[of i] by (simp add: flag_set_def)

text \<open>
  Property C25. What the controller asks for is what the fetcher does: the arguments it writes into the build
  pod parse, without an error and in whatever strings the spec holds, to the options of the spec: the digest
  that was resolved, the Dockerfile to check unless it was projected, the kind, archive mode, subpath and
  depth of the context, and the token file where the URL is the controller's own endpoint.
\<close>

theorem job_arguments_read_back:
  assumes "fetch_context_args obj cfg ih url dg = Some args"
    and "\<And>f. get_fetch (xs_context (ib_spec obj)) = Some f \<Longrightarrow> - (2 ^ 63) \<le> ft_strip f \<and> ft_strip f < 2 ^ 63"
  shows "\<exists>opts file. hd args = ''fetch-context'' \<and> parse_flags (tl args) (default_options, []) = Inr (opts, file) \<and>
    fp_dest opts = context_path \<and> fp_digest opts = dg \<and>
    fp_dockerfile opts = (if projected_dockerfile (ib_spec obj) then [] else effective_dockerfile (xs_dockerfile (ib_spec obj))) \<and>
    (case get_source_ref (xs_context (ib_spec obj)) of
       Some ref \<Rightarrow> (fp_kind opts, fp_unpack opts, fp_subpath opts, fp_strip opts) = (''sourceRef'', ''tar.gz'', sr_subpath ref, 0) \<and>
         (if jc_context_base cfg = [] then fp_url opts = url \<and> file = []
          else file = path_join context_token_path context_token_file \<and>
            fp_url opts = trim_suffix (jc_context_base cfg) ''/'' @ ''/contexts/'' @ ib_namespace obj @ ''/'' @ ib_name obj @ ''/'' @ ih)
     | None \<Rightarrow> file = [] \<and> fp_url opts = url \<and>
         (case get_image (xs_context (ib_spec obj)) of
            Some img \<Rightarrow> (fp_kind opts, fp_subpath opts, fp_strip opts) = (''image'', is_subpath img, 0)
          | None \<Rightarrow> (case get_fetch (xs_context (ib_spec obj)) of
              None \<Rightarrow> False
            | Some f \<Rightarrow> (fp_kind opts, fp_unpack opts, fp_subpath opts, fp_strip opts) =
                (''fetch'', ft_unpack f, ft_subpath f, ft_strip f))))"
proof -
  obtain fs where fs: "job_flags obj cfg ih url dg = Some fs" "args = ''fetch-context'' # map flag_arg fs"
    using assms(1) unfolding args_are_flags by auto
  have "parse_flags (tl args) (default_options, []) = set_flags fs (default_options, [])"
    using parse_flag_args[OF job_flag_names[OF fs(1)]] fs(2) by simp
  moreover have "hd args = ''fetch-context''" using fs(2) by simp
  ultimately show ?thesis
    using fs(1) assms(2)
    by (auto simp: job_flags_def Let_def flag_set_simps flag_set_strip default_options_def split: option.splits if_splits)
qed

theorem job_arguments_read_back_witness:
  "\<exists>args opts file. fetch_context_args sample_path_build sample_job_config ''h'' ''u'' ''sha256:aa'' = Some args \<and>
     parse_flags (tl args) (default_options, []) = Inr (opts, file) \<and> fp_digest opts = ''sha256:aa''"
proof -
  obtain args where a: "fetch_context_args sample_path_build sample_job_config ''h'' ''u'' ''sha256:aa'' = Some args"
  proof -
    have "fetch_context_args sample_path_build sample_job_config ''h'' ''u'' ''sha256:aa'' \<noteq> None" by code_simp
    then show thesis using that by blast
  qed
  have "get_fetch (xs_context (ib_spec sample_path_build)) = None" by code_simp
  then have "- (2 ^ 63) \<le> ft_strip f \<and> ft_strip f < 2 ^ 63" if "get_fetch (xs_context (ib_spec sample_path_build)) = Some f" for f
    using that by simp
  from job_arguments_read_back[OF a this] a show ?thesis by blast
qed

end
