(* ===== verification/Context_Endpoint.thy ===== *)
theory Context_Endpoint
  imports Fetch_Job Build_Theorems
begin

section \<open>The endpoint a build pod gets its source from\<close>

text \<open>
  \<^verbatim>\<open>internal/buildcontroller/contextproxy.go\<close>: routing, the decision of \<^verbatim>\<open>serve\<close>, and \<^verbatim>\<open>stream\<close>,
  which copies what source-controller answers. A request is given with its path cleaned and decoded,
  as the router hands it on; the answer of the server behind is a parameter. The result is the
  list of URLs fetched, and the response as written.
\<close>

record proxy_request =
  rq_method :: string
  rq_path :: string
  rq_authorization :: string

record proxy_response =
  px_status :: nat
  px_headers :: "(string \<times> string) list"
  px_body :: string

record upstream_answer =
  ua_status :: nat
  ua_text :: string
  ua_length :: string
  ua_body :: string
  ua_broken :: "error option"

record upstream =
  up_request :: "string \<Rightarrow> error option"
  up_do :: "string \<Rightarrow> upstream_answer res"

text \<open>\<^verbatim>\<open>http.Error\<close>: plain text with a newline.\<close>

definition http_error :: "nat \<Rightarrow> string \<Rightarrow> proxy_response" where
  "http_error code msg =
     \<lparr>px_status = code,
      px_headers = [(''Content-Type'', ''text/plain; charset=utf-8''), (''X-Content-Type-Options'', ''nosniff'')],
      px_body = msg @ [CHR 0x0A]\<rparr>"

text \<open>The error is only logged. A body that breaks off has been written as far as it went.\<close>

definition stream_artifact ::
    "('z) upstream_scheme \<Rightarrow> string \<Rightarrow> string list \<times> proxy_response \<times> error option" where
  "stream_artifact up url =
     (case up_request up url of
        Some e \<Rightarrow> ([], http_error 500 ''bad artifact URL'', Some e)
      | None \<Rightarrow>
          (case up_do up url of
             Inl e \<Rightarrow> ([url], http_error 502 ''the artifact is unavailable'', Some (Wrap (''fetching '' @ url) e))
           | Inr a \<Rightarrow>
               if ua_status a \<noteq> 200
               then ([url], http_error 502 ''the artifact is unavailable'',
                     Some (Msg (''fetching '' @ url @ '': '' @ ua_text a)))
               else ([url],
                     \<lparr>px_status = 200,
                      px_headers = (''Content-Type'', ''application/gzip'') #
                        (if ua_length a \<noteq> [] then [(''Content-Length'', ua_length a)] else []),
                      px_body = ua_body a\<rparr>,
                     ua_broken a)))"

text \<open>
  The pattern of the router: \<^verbatim>\<open>GET /contexts/{namespace}/{name}/{hash}\<close>, whose wildcards are one
  segment each, never empty; GET admits HEAD.
\<close>

datatype route = Serve string string string | WrongMethod | NoRoute

definition routed :: "string \<Rightarrow> string \<Rightarrow> route" where
  "routed method path =
     (case split_on slash path of
        [root, contexts, ns, name, hash] \<Rightarrow>
          if root = [] \<and> contexts = ''contexts'' \<and> ns \<noteq> [] \<and> name \<noteq> [] \<and> hash \<noteq> [] then
            (if method = ''GET'' \<or> method = ''HEAD'' then Serve ns name hash else WrongMethod)
          else NoRoute
      | _ \<Rightarrow> NoRoute)"

definition proxy_handler ::
    "('z) build_reader_scheme \<Rightarrow> ('y) upstream_scheme \<Rightarrow> (string \<Rightarrow> string \<Rightarrow> (string \<rightharpoonup> string) lookup) \<Rightarrow>
     (string \<Rightarrow> string \<Rightarrow> image_build lookup) \<Rightarrow> proxy_request \<Rightarrow> string list \<times> proxy_response" where
  "proxy_handler env up secrets get req =
     (case routed (rq_method req) (rq_path req) of
        NoRoute \<Rightarrow> ([], http_error 404 ''404 page not found'')
      | WrongMethod \<Rightarrow> ([], http_error 405 ''Method Not Allowed'')
      | Serve ns name hash \<Rightarrow>
          (case serve_context env secrets get ns name hash (rq_authorization req) of
             Refused code msg \<Rightarrow> ([], http_error code msg)
           | Stream url \<Rightarrow> (case stream_artifact up url of (urls, resp, err) \<Rightarrow> (urls, resp))))"

subsection \<open>Who is served, and with what\<close>

lemma routed_path:
  assumes "slash \<notin> set ns" "slash \<notin> set name" "slash \<notin> set hash" "ns \<noteq> []" "name \<noteq> []" "hash \<noteq> []"
  shows "routed ''GET'' (''/contexts/'' @ ns @ ''/'' @ name @ ''/'' @ hash) = Serve ns name hash"
proof -
  have "split_on slash ([] @ slash # ''contexts'' @ slash # ns @ slash # name @ slash # hash) =
      [[], ''contexts'', ns, name, hash]"
    using assms by (simp add: split_on_append_sep split_on_no_sep)
  then show ?thesis using assms by (simp add: routed_def)
qed

text \<open>A build that a request may read, with the token it was issued and its own source.\<close>

definition entitled ::
    "('z) build_reader_scheme \<Rightarrow> (string \<Rightarrow> string \<Rightarrow> (string \<rightharpoonup> string) lookup) \<Rightarrow> image_build \<Rightarrow> string \<Rightarrow>
     string \<Rightarrow> string \<Rightarrow> bool" where
  "entitled env secrets obj hash header url \<longleftrightarrow>
     (\<exists>data token ref art.
        secrets (ib_namespace obj) (context_secret_name (job_name (ib_name obj) hash)) = Found data \<and>
        data ''token'' = Some token \<and> token \<noteq> [] \<and> header = ''Bearer '' @ token \<and>
        get_source_ref (xs_context (ib_spec obj)) = Some ref \<and>
        (sr_namespace ref = [] \<or> sr_namespace ref = ib_namespace obj) \<and>
        flux_source (bn_flux env (sr_kind ref) (ib_namespace obj) (sr_name ref))
          (flux_ref (sr_kind ref) (ib_namespace obj) (sr_name ref)) = Inr art \<and>
        url = fa_url art)"

lemma authorised_iff:
  "authorised secrets obj hash header \<longleftrightarrow>
     (\<exists>data token. secrets (ib_namespace obj) (context_secret_name (job_name (ib_name obj) hash)) = Found data \<and>
        data ''token'' = Some token \<and> token \<noteq> [] \<and> header = ''Bearer '' @ token)"
proof
  assume a: "authorised secrets obj hash header"
  then obtain rest where h: "header = ''Bearer '' @ rest"
    by (auto simp: authorised_def has_prefix_iff split: if_splits)
  have "drop (length ''Bearer '') (''Bearer '' @ rest) = rest" by simp
  then show "\<exists>data token. secrets (ib_namespace obj) (context_secret_name (job_name (ib_name obj) hash)) = Found data \<and>
        data ''token'' = Some token \<and> token \<noteq> [] \<and> header = ''Bearer '' @ token"
    using a h by (auto simp: authorised_def split: if_splits lookup.splits option.splits)
next
  assume "\<exists>data token. secrets (ib_namespace obj) (context_secret_name (job_name (ib_name obj) hash)) = Found data \<and>
        data ''token'' = Some token \<and> token \<noteq> [] \<and> header = ''Bearer '' @ token"
  then show "authorised secrets obj hash header" by (auto simp: authorised_def has_prefix_iff)
qed

lemma serve_streams:
  "serve_context env secrets get ns name hash header = Stream url \<longleftrightarrow>
     (\<exists>obj. get ns name = Found obj \<and> entitled env secrets obj hash header url)"
  unfolding entitled_def serve_context_def authorised_iff
  by (auto split: lookup.splits option.splits sum.splits)

text \<open>
  Property C9. The endpoint fetches a URL exactly for a request of the right shape that carries the
  token of the build it names, and the URL is the one of that build's own source in its own namespace;
  it answers 200 only with what source-controller answered to that request, and no other request makes
  it fetch anything.
\<close>

theorem context_endpoint_exact:
  assumes "up_request up url = None"
  shows "(url \<in> set (fst (proxy_handler env up secrets get req)) \<longleftrightarrow>
      (\<exists>ns name hash obj. routed (rq_method req) (rq_path req) = Serve ns name hash \<and>
        get ns name = Found obj \<and> entitled env secrets obj hash (rq_authorization req) url)) \<and>
    (px_status (snd (proxy_handler env up secrets get req)) = 200 \<longrightarrow>
      (\<exists>u a. fst (proxy_handler env up secrets get req) = [u] \<and> up_do up u = Inr a \<and> ua_status a = 200 \<and>
        px_body (snd (proxy_handler env up secrets get req)) = ua_body a))"
proof -
  let ?h = "proxy_handler env up secrets get req"
  have fetched: "fst (stream_artifact up u) = (if up_request up u = None then [u] else [])" for u
    by (auto simp: stream_artifact_def split: option.splits sum.splits)
  have streamed: "px_status (fst (snd (stream_artifact up u))) = 200 \<Longrightarrow> fst (stream_artifact up u) = [u] \<and>
      (\<exists>a. up_do up u = Inr a \<and> ua_status a = 200 \<and> px_body (fst (snd (stream_artifact up u))) = ua_body a)" for u
    by (auto simp: stream_artifact_def http_error_def split: option.splits sum.splits if_splits)
  have refused: "serve_context env secrets get ns name hash h = Refused code msg \<Longrightarrow> code \<noteq> 200"
    for ns name hash h code msg
    by (auto simp: serve_context_def split: lookup.splits option.splits sum.splits if_splits)
  have one: "?h = ([], snd ?h) \<and> px_status (snd ?h) \<noteq> 200 \<and>
        \<not> (\<exists>ns name hash obj u. routed (rq_method req) (rq_path req) = Serve ns name hash \<and>
          get ns name = Found obj \<and> entitled env secrets obj hash (rq_authorization req) u) \<or>
      (\<exists>ns name hash u. routed (rq_method req) (rq_path req) = Serve ns name hash \<and>
        serve_context env secrets get ns name hash (rq_authorization req) = Stream u \<and>
        ?h = (fst (stream_artifact up u), fst (snd (stream_artifact up u))))"
  proof (cases "routed (rq_method req) (rq_path req)")
    case (Serve ns name hash)
    show ?thesis
    proof (cases "serve_context env secrets get ns name hash (rq_authorization req)")
      case (Refused code msg)
      then have "\<not> (\<exists>obj u. get ns name = Found obj \<and> entitled env secrets obj hash (rq_authorization req) u)"
        by (metis proxy_answer.distinct(1) serve_streams)
      then show ?thesis using Serve Refused refused[OF Refused] by (simp add: proxy_handler_def http_error_def)
    next
      case (Stream u)
      then show ?thesis using Serve by (auto simp: proxy_handler_def split: prod.splits)
    qed
  qed (simp_all add: proxy_handler_def http_error_def)
  then show ?thesis
  proof
    assume "?h = ([], snd ?h) \<and> px_status (snd ?h) \<noteq> 200 \<and>
        \<not> (\<exists>ns name hash obj u. routed (rq_method req) (rq_path req) = Serve ns name hash \<and>
          get ns name = Found obj \<and> entitled env secrets obj hash (rq_authorization req) u)"
    then show ?thesis by (metis empty_iff empty_set fst_conv)
  next
    assume "\<exists>ns name hash u. routed (rq_method req) (rq_path req) = Serve ns name hash \<and>
        serve_context env secrets get ns name hash (rq_authorization req) = Stream u \<and>
        ?h = (fst (stream_artifact up u), fst (snd (stream_artifact up u)))"
    then obtain ns name hash u where u: "routed (rq_method req) (rq_path req) = Serve ns name hash"
      "serve_context env secrets get ns name hash (rq_authorization req) = Stream u"
      "?h = (fst (stream_artifact up u), fst (snd (stream_artifact up u)))" by blast
    from u(2) have same: "v = u" if "get ns name = Found obj" "entitled env secrets obj hash (rq_authorization req) v" for v obj
      using that by (metis proxy_answer.inject(2) serve_streams)
    have "url \<in> set (fst ?h) \<longleftrightarrow> url = u" using assms fetched[of u] unfolding u(3) by auto
    moreover have "url = u \<longleftrightarrow> (\<exists>obj. get ns name = Found obj \<and> entitled env secrets obj hash (rq_authorization req) url)"
      using same u(2)[unfolded serve_streams] by blast
    ultimately show ?thesis using u(1) streamed[of u] unfolding u(3) by auto
  qed
qed

text \<open>
  A caller without a token can tell whether a build exists: the answers differ, which the comment in
  \<^verbatim>\<open>serve\<close> means to prevent.
\<close>

lemma existence_is_visible:
  assumes "get ns name = Found obj" "\<not> authorised secrets obj hash header" "get' ns name = Missing"
  shows "serve_context env secrets get ns name hash header \<noteq> serve_context env secrets get' ns name hash header"
  using assms by (simp add: serve_context_def)

subsection \<open>The pod and the endpoint agree\<close>

lemma job_url:
  assumes "fetch_context_args obj cfg ih url dg = Some args" "get_source_ref (xs_context (ib_spec obj)) = Some ref"
    and "jc_context_base cfg \<noteq> []" "parse_flags (tl args) (default_options, []) = Inr (opts, file)"
  shows "fp_url opts = trim_suffix (jc_context_base cfg) ''/'' @ ''/contexts/'' @ ib_namespace obj @ ''/'' @ ib_name obj @ ''/'' @ ih"
proof -
  obtain fs where fs: "job_flags obj cfg ih url dg = Some fs" "args = ''fetch-context'' # map flag_arg fs"
    using assms(1) unfolding args_are_flags by auto
  have "set_flags fs (default_options, []) = Inr (opts, file)"
    using parse_flag_args[OF job_flag_names[OF fs(1)]] fs(2) assms(4) by simp
  then show ?thesis
    using fs(1) assms(2,3) by (auto simp: job_flags_def Let_def flag_set_simps default_options_def split: if_splits)
qed

lemma minted_token:
  assumes "BCreateSecret sec \<in> set (fst (context_token_for env obj job))" "bn_token env = Inr token"
  shows "bt_namespace sec = ib_namespace obj" "bt_name sec = context_secret_name job" "bt_data sec ''token'' = Some token"
proof -
  have "BCreateSecret sec \<in> set (fst (create_build_secret env obj s what)) \<Longrightarrow>
      bt_namespace sec = bt_namespace s \<and> bt_name sec = bt_name s \<and> bt_data sec = bt_data s" for s what
    by (auto simp: create_build_secret_def Let_def fst_and_then emit_def lift_def attempt_def map_run_err_def
        split: option.splits create_answer.splits lookup.splits sum.splits if_splits)
  then show "bt_namespace sec = ib_namespace obj" "bt_name sec = context_secret_name job" "bt_data sec ''token'' = Some token"
    using assms by (auto simp: context_token_for_def Let_def per_build_secret_def fst_and_then split: sum.splits)
qed

text \<open>
  Property C21. The token the controller mints for a build, the URL it writes into the pod's arguments
  and the header the pod sends are what the endpoint asks for: the pod is answered with the artifact of
  the build's own source, streamed as it is.
\<close>

theorem pod_gets_its_context:
  assumes "fetch_context_args obj cfg ih url dg = Some args" "parse_flags (tl args) (default_options, []) = Inr (opts, file)"
    and "jc_context_base cfg \<noteq> []" "get_source_ref (xs_context (ib_spec obj)) = Some ref"
    and "sr_namespace ref = [] \<or> sr_namespace ref = ib_namespace obj"
    and "BCreateSecret sec \<in> set (fst (context_token_for env obj (job_name (ib_name obj) ih)))"
    and "bn_token env = Inr token" "token \<noteq> []"
    and "secrets (bt_namespace sec) (bt_name sec) = Found (bt_data sec)"
    and "get (ib_namespace obj) (ib_name obj) = Found obj"
    and "flux_source (bn_flux env (sr_kind ref) (ib_namespace obj) (sr_name ref))
      (flux_ref (sr_kind ref) (ib_namespace obj) (sr_name ref)) = Inr art"
    and "\<forall>seg \<in> {ib_namespace obj, ib_name obj, ih}. seg \<noteq> [] \<and> slash \<notin> set seg"
  shows "\<exists>path header. fp_url opts = trim_suffix (jc_context_base cfg) ''/'' @ path \<and>
    request_headers token = [(''Authorization'', header)] \<and>
    proxy_handler env up secrets get \<lparr>rq_method = ''GET'', rq_path = path, rq_authorization = header\<rparr> =
      (fst (stream_artifact up (fa_url art)), fst (snd (stream_artifact up (fa_url art))))"
proof (intro exI conjI)
  let ?path = "''/contexts/'' @ ib_namespace obj @ ''/'' @ ib_name obj @ ''/'' @ ih"
  show "fp_url opts = trim_suffix (jc_context_base cfg) ''/'' @ ?path"
    using job_url[OF assms(1,4,3,2)] by simp
  show "request_headers token = [(''Authorization'', ''Bearer '' @ token)]" using assms(8) by (simp add: request_headers_def)
  have r: "routed ''GET'' ?path = Serve (ib_namespace obj) (ib_name obj) ih" by (rule routed_path) (use assms(12) in auto)
  note m = minted_token[OF assms(6,7)]
  have "entitled env secrets obj ih (''Bearer '' @ token) (fa_url art)"
    unfolding entitled_def using assms(4,5,8,9,11) m by auto
  then have "serve_context env secrets get (ib_namespace obj) (ib_name obj) ih (''Bearer '' @ token) = Stream (fa_url art)"
    using assms(10) serve_streams by blast
  then show "proxy_handler env up secrets get \<lparr>rq_method = ''GET'', rq_path = ?path, rq_authorization = ''Bearer '' @ token\<rparr> =
      (fst (stream_artifact up (fa_url art)), fst (snd (stream_artifact up (fa_url art))))"
    using r by (simp add: proxy_handler_def split: prod.splits)
qed

subsection \<open>A concrete request\<close>

definition sample_upstream :: upstream where
  "sample_upstream =
     \<lparr>up_request = (\<lambda>u. None),
      up_do = (\<lambda>u. Inr \<lparr>ua_status = 200, ua_text = ''200 OK'', ua_length = ''3'', ua_body = ''tgz'', ua_broken = None\<rparr>)\<rparr>"

definition sample_tokens :: "string \<Rightarrow> string \<Rightarrow> (string \<rightharpoonup> string) lookup" where
  "sample_tokens ns n =
     (if ns = ''team'' \<and> n = context_secret_name (job_name ''app'' ''h'') then Found [''token'' \<mapsto> ''t''] else Missing)"

definition sample_request :: "string \<Rightarrow> proxy_request" where
  "sample_request token =
     \<lparr>rq_method = ''GET'', rq_path = ''/contexts/team/app/h'', rq_authorization = ''Bearer '' @ token\<rparr>"

theorem context_endpoint_exact_witness:
  "(\<exists>obj. entitled (sample_builder (tag_registry []) Missing) sample_tokens obj ''h'' ''Bearer t'' ''http://x/a.tar.gz'') \<and>
   fst (proxy_handler (sample_builder (tag_registry []) Missing) sample_upstream sample_tokens (\<lambda>ns n. Found flux_build)
     (sample_request ''u'')) = []"
proof
  let ?env = "sample_builder (tag_registry []) Missing" and ?get = "\<lambda>ns n. Found flux_build"
  let ?url = "''http://x/a.tar.gz''"
  have up: "up_request sample_upstream ?url = None" by (simp add: sample_upstream_def)
  have "?url \<in> set (fst (proxy_handler ?env sample_upstream sample_tokens ?get (sample_request ''t'')))" by code_simp
  moreover have "routed (rq_method (sample_request ''t'')) (rq_path (sample_request ''t'')) = Serve ''team'' ''app'' ''h''"
    "rq_authorization (sample_request ''t'') = ''Bearer t''" by code_simp+
  ultimately show "\<exists>obj. entitled ?env sample_tokens obj ''h'' ''Bearer t'' ?url"
    using conjunct1[OF context_endpoint_exact[OF up, where env = ?env and secrets = sample_tokens and get = ?get
        and req = "sample_request ''t''"]] by auto
  show "fst (proxy_handler ?env sample_upstream sample_tokens ?get (sample_request ''u'')) = []" by code_simp
qed

theorem pod_gets_its_context_witness:
  "\<exists>path header. request_headers ''t'' = [(''Authorization'', header)] \<and>
     px_body (snd (proxy_handler (sample_builder (tag_registry []) Missing) sample_upstream sample_tokens
       (\<lambda>ns n. Found flux_build) \<lparr>rq_method = ''GET'', rq_path = path, rq_authorization = header\<rparr>)) = ''tgz''"
proof -
  let ?env = "sample_builder (tag_registry []) Missing" and ?get = "\<lambda>ns n. Found flux_build"
  let ?sec = "(per_build_secret flux_build (context_secret_name (job_name ''app'' ''h'')) ''Lets this build fetch its own source'')
           \<lparr>bt_immutable := True, bt_data := [''token'' \<mapsto> ''t''], bt_owner := OwnedByBuild ''app''\<rparr>"
  have "fetch_context_args flux_build sample_job_config ''h'' ''u'' ''sha256:aa'' \<noteq> None" by code_simp
  then obtain args where a: "fetch_context_args flux_build sample_job_config ''h'' ''u'' ''sha256:aa'' = Some args" by blast
  have "\<not> isl (parse_flags (tl (the (fetch_context_args flux_build sample_job_config ''h'' ''u'' ''sha256:aa'')))
      (default_options, []))" by code_simp
  then obtain opts tok_file where o: "parse_flags (tl args) (default_options, []) = Inr (opts, tok_file)"
    using a by (cases "parse_flags (tl args) (default_options, [])") auto
  have base: "jc_context_base sample_job_config \<noteq> []" by code_simp
  have ref: "get_source_ref (xs_context (ib_spec flux_build)) = Some sample_source" by code_simp
  have own: "sr_namespace sample_source = [] \<or> sr_namespace sample_source = ib_namespace flux_build" by code_simp
  have mint: "BCreateSecret ?sec \<in> set (fst (context_token_for ?env flux_build (job_name (ib_name flux_build) ''h'')))"
    by (simp add: context_token_for_def create_build_secret_def sample_builder_def flux_build_def Let_def fst_and_then)
  have tok: "bn_token ?env = Inr ''t''" "''t'' \<noteq> []" by (simp_all add: sample_builder_def)
  have sec: "sample_tokens (bt_namespace ?sec) (bt_name ?sec) = Found (bt_data ?sec)"
    by (simp add: sample_tokens_def per_build_secret_def flux_build_def)
  have flux: "flux_source (bn_flux ?env (sr_kind sample_source) (ib_namespace flux_build) (sr_name sample_source))
      (flux_ref (sr_kind sample_source) (ib_namespace flux_build) (sr_name sample_source)) =
      Inr \<lparr>fa_url = ''http://x/a.tar.gz'', fa_digest = ''sha256:aa'', fa_revision = ''main@sha1:1''\<rparr>" by code_simp
  have segs: "\<forall>seg \<in> {ib_namespace flux_build, ib_name flux_build, ''h''}. seg \<noteq> [] \<and> slash \<notin> set seg" by code_simp
  have body: "px_body (fst (snd (stream_artifact sample_upstream u))) = ''tgz''" for u
    by (simp add: stream_artifact_def sample_upstream_def)
  from pod_gets_its_context[where get = ?get and secrets = sample_tokens and up = sample_upstream,
      OF a o base ref own mint tok sec refl flux segs]
  show ?thesis using body by (metis snd_conv)
qed

end
