(* ===== verification/Composition_Watches.thy ===== *)
theory Composition_Watches
  imports Composition_Status
begin

section \<open>What wakes a composition\<close>

text \<open>
  The watches of \<^verbatim>\<open>setup\<close> in \<^verbatim>\<open>imagecomposition_controller.go\<close>: which events become requests for
  which objects. They cover everything a pass reads of the cluster's sources.
\<close>

subsection \<open>Watches\<close>

definition flux_source_kinds :: "string list" where
  "flux_source_kinds = [''GitRepository'', ''OCIRepository'', ''Bucket'']"

definition flux_source_group :: string where
  "flux_source_group = ''source.toolkit.fluxcd.io''"

text \<open>The mapper answers with the version the API server prefers, or not at all.\<close>

type_synonym gvk = "string \<times> string \<times> string"

definition watchable_source_kinds :: "(string \<Rightarrow> string \<Rightarrow> gvk option) \<Rightarrow> gvk list" where
  "watchable_source_kinds mapper = List.map_filter (mapper flux_source_group) flux_source_kinds"

text \<open>
  Of the annotations the one the controller reads is in the object. An event of another kind than an
  update always passes the predicate.
\<close>

definition update_passes :: "composition \<Rightarrow> composition \<Rightarrow> bool" where
  "update_passes old new \<longleftrightarrow> co_generation new \<noteq> co_generation old \<or> ic_requested new \<noteq> ic_requested old"

datatype watch_event =
    CompositionUpdated composition composition
  | CompositionOther composition
  | ConfigMapEvent string string
  | SourceEvent string string string

definition requests ::
    "(string \<Rightarrow> string \<Rightarrow> gvk option) \<Rightarrow> composition list res \<Rightarrow> watch_event \<Rightarrow> (string \<times> string) list" where
  "requests mapper items ev =
     (case ev of
        CompositionUpdated old new \<Rightarrow> if update_passes old new then [(ic_namespace new, ic_name new)] else []
      | CompositionOther obj \<Rightarrow> [(ic_namespace obj, ic_name obj)]
      | ConfigMapEvent ns name \<Rightarrow> compositions_for_config_map items ns name
      | SourceEvent kind ns name \<Rightarrow>
          if kind \<in> set (map (\<lambda>(group, version, k). k) (watchable_source_kinds mapper))
          then compositions_for_source kind items ns name else [])"

subsection \<open>The watches cover what a pass reads\<close>

text \<open>Two states of the cluster's sources between which the event happened, and nothing else.\<close>

fun changed_by :: "watch_event \<Rightarrow> source_env \<Rightarrow> source_env \<Rightarrow> bool" where
  "changed_by (ConfigMapEvent ns name) s s' \<longleftrightarrow>
     sv_flux s' = sv_flux s \<and> sv_require_pinned s' = sv_require_pinned s \<and>
     cme_pack (sv_config_maps s') = cme_pack (sv_config_maps s) \<and>
     cme_sha256 (sv_config_maps s') = cme_sha256 (sv_config_maps s) \<and>
     cme_temp (sv_config_maps s') = cme_temp (sv_config_maps s) \<and>
     (\<forall>key. key \<noteq> ns @ ''/'' @ name \<longrightarrow> cme_get (sv_config_maps s') key = cme_get (sv_config_maps s) key)"
| "changed_by (SourceEvent kind ns name) s s' \<longleftrightarrow>
     sv_config_maps s' = sv_config_maps s \<and> sv_require_pinned s' = sv_require_pinned s \<and>
     (\<forall>k n m. (k, n, m) \<noteq> (kind, ns, name) \<longrightarrow> sv_flux s' k n m = sv_flux s k n m)"
| "changed_by _ s s' \<longleftrightarrow> s' = s"

definition reads :: "watch_event \<Rightarrow> composition \<Rightarrow> layer_spec \<Rightarrow> bool" where
  "reads ev o' l =
     (case ev of
        ConfigMapEvent ns name \<Rightarrow>
          ic_namespace o' = ns \<and> (case ly_config_map l of None \<Rightarrow> False | Some c \<Rightarrow> cs_name c = name)
      | SourceEvent kind ns name \<Rightarrow> references_source kind ns name o' l
      | _ \<Rightarrow> False)"

lemma joined_key:
  "slash \<notin> set a \<Longrightarrow> slash \<notin> set b \<Longrightarrow> a @ ''/'' @ x = b @ ''/'' @ y \<longleftrightarrow> a = b \<and> x = y"
  using cut_Some[of slash "a @ slash # x" a x] cut_Some[of slash "a @ slash # x" b y] by auto

lemma config_map_layer_cong:
  assumes "cme_pack e' = cme_pack e" "cme_sha256 e' = cme_sha256 e" "cme_temp e' = cme_temp e" "cme_get e' key = cme_get e key"
  shows "config_map_layer e' key opt = config_map_layer e key opt"
  unfolding config_map_layer_def assms ..

lemma resolve_layer_unread:
  assumes "changed_by ev s s'" "\<not> reads ev obj l"
    and "\<And>ns name. ev = ConfigMapEvent ns name \<Longrightarrow> slash \<notin> set ns" "slash \<notin> set (ic_namespace obj)"
  shows "resolve_layer s' p (ic_namespace obj) l =
    (resolve_layer s p (ic_namespace obj) l :: (event, ('img layer_input \<times> image_source option) option) run)"
proof -
  have flux: "resolve_flux_source s' p (ic_namespace obj) ref = resolve_flux_source s p (ic_namespace obj) ref"
    if "ly_source_ref l = Some ref" for ref
  proof (cases ev)
    case (SourceEvent kind n name)
    have pin: "sv_require_pinned s' = sv_require_pinned s" using assms(1) SourceEvent by simp
    show ?thesis
    proof (cases "sr_namespace ref = [] \<or> sr_namespace ref = ic_namespace obj")
      case True
      then have "(sr_kind ref, ic_namespace obj, sr_name ref) \<noteq> (kind, n, name)"
        using assms(2) SourceEvent that by (auto simp: reads_def references_source_def split: if_splits)
      then have "sv_flux s' (sr_kind ref) (ic_namespace obj) (sr_name ref) =
          sv_flux s (sr_kind ref) (ic_namespace obj) (sr_name ref)"
        using assms(1) SourceEvent by simp
      then show ?thesis by (simp add: resolve_flux_source_def pin)
    qed (simp add: resolve_flux_source_def pin)
  qed (use assms(1) in \<open>simp_all add: resolve_flux_source_def\<close>)
  have cm: "config_map_input s' (ic_namespace obj) c i = config_map_input s (ic_namespace obj) c i"
    if "ly_config_map l = Some c" for c and i :: "'img layer_input"
  proof (cases ev)
    case (ConfigMapEvent ns name)
    then have "ic_namespace obj @ ''/'' @ cs_name c \<noteq> ns @ ''/'' @ name"
      using assms(2-4) that joined_key[of "ic_namespace obj" ns] by (auto simp: reads_def)
    with assms(1) ConfigMapEvent have "config_map_layer (sv_config_maps s') (ic_namespace obj @ ''/'' @ cs_name c) (cs_optional c)
        = config_map_layer (sv_config_maps s) (ic_namespace obj @ ''/'' @ cs_name c) (cs_optional c)"
      by (intro config_map_layer_cong) simp_all
    then show ?thesis by (simp only: config_map_input_def)
  qed (use assms(1) in \<open>simp_all add: config_map_input_def\<close>)
  show ?thesis
    unfolding resolve_layer_def
    by (cases "ly_source_ref l"; cases "ly_config_map l") (simp_all add: flux cm cong: option.case_cong)
qed

lemma resolve_layers_unread:
  assumes "changed_by ev s s'" "\<forall>l \<in> set ls. \<not> reads ev obj l"
    and "\<And>ns name. ev = ConfigMapEvent ns name \<Longrightarrow> slash \<notin> set ns" "slash \<notin> set (ic_namespace obj)"
  shows "resolve_layers s' p (ic_namespace obj) ls inputs pulls =
    (resolve_layers s p (ic_namespace obj) ls inputs pulls :: (event, 'img layer_input list \<times> image_pulls) run)"
  using assms(2)
proof (induction ls arbitrary: inputs pulls)
  case (Cons l ls)
  have "resolve_layer s' p (ic_namespace obj) l =
      (resolve_layer s p (ic_namespace obj) l :: (event, ('img layer_input \<times> image_source option) option) run)"
    using Cons.prems by (intro resolve_layer_unread[OF assms(1) _ assms(3,4)]) simp_all
  moreover have "resolve_layers s' p (ic_namespace obj) ls i q = resolve_layers s p (ic_namespace obj) ls i q"
    for i :: "'img layer_input list" and q
    by (rule Cons.IH) (use Cons.prems in simp)
  ultimately show ?case by simp
qed simp

definition source_event :: "(string \<Rightarrow> string \<Rightarrow> gvk option) \<Rightarrow> watch_event \<Rightarrow> bool" where
  "source_event mapper ev \<longleftrightarrow>
     (case ev of
        ConfigMapEvent ns name \<Rightarrow> slash \<notin> set ns
      | SourceEvent kind ns name \<Rightarrow> kind \<in> set (map (\<lambda>(group, version, k). k) (watchable_source_kinds mapper))
      | _ \<Rightarrow> False)"

lemma reads_requests:
  assumes "obj \<in> set os" "l \<in> set (sc_layers (ic_spec obj))" "reads ev obj l" "source_event mapper ev"
  shows "(ic_namespace obj, ic_name obj) \<in> set (requests mapper (Inr os) ev)"
proof (cases ev)
  case (ConfigMapEvent ns name)
  then show ?thesis
    using assms by (force simp: requests_def compositions_for_config_map_def reads_def list_ex_iff image_iff)
next
  case (SourceEvent kind ns name)
  then show ?thesis
    using assms by (force simp: requests_def compositions_for_source_def reads_def source_event_def list_ex_iff image_iff)
qed (use assms in \<open>simp_all add: source_event_def\<close>)

text \<open>Nothing but the resolution of the layers looks at the sources.\<close>

lemma without_sources:
  fixes env :: "('img, 'l, 'z) controller_scheme"
  shows "cheap (env\<lparr>ce_sources := s\<rparr>) = cheap env" "report_progress (env\<lparr>ce_sources := s\<rparr>) = report_progress env"
    "cn_digest (env\<lparr>ce_sources := s\<rparr>) = cn_digest env"
  by (simp_all add: fun_eq_iff cheap_def report_progress_def write_status_def cong: option.case_cong patch_answer.case_cong)

lemma fetch_without_sources:
  fixes env :: "('img, 'l, 'z) controller_scheme"
  shows "fetch_layers (env\<lparr>ce_sources := s\<rparr>) ns declared pulls n is = fetch_layers env ns declared pulls n is"
proof -
  have "fetch_layer (env\<lparr>ce_sources := s\<rparr>) ns declared src i = fetch_layer env ns declared src i" for src i
    by (simp add: fetch_layer_def pull_image_layer_def compose_env.truncate_def cong: option.case_cong sum.case_cong)
  then show ?thesis by (induction "is" arbitrary: n) simp_all
qed

lemma assemble_without_sources:
  fixes env :: "('img, 'l, 'z) controller_scheme"
  shows "assemble_step (env\<lparr>ce_sources := s\<rparr>) obj pp is = assemble_step env obj pp is"
  by (simp add: assemble_step_def assemble_artifact_def resolve_base_def resolve_bases_def compose_env.truncate_def cong: option.case_cong sum.case_cong list.case_cong)

lemma settle_without_sources:
  fixes env :: "('img, 'l, 'z) controller_scheme"
  shows "settle (env\<lparr>ce_sources := s\<rparr>) obj pp is art d = settle env obj pp is art d"
proof -
  let ?e = "env\<lparr>ce_sources := s\<rparr>"
  have "attest_published ?e spec t d is b = attest_published env spec t d is b" for spec t b
    by (simp add: attest_published_def cong: sum.case_cong)
  moreover have "own_tag_step ?e r d = own_tag_step env r d" for r by (simp add: own_tag_step_def)
  moreover have "kept_result ?e pp d tag cur = kept_result env pp d tag cur" for tag cur by (simp add: kept_result_def)
  moreover have "publish_refs ?e rs d = publish_refs env rs d" for rs
    by (induction rs) (simp_all add: publish_ref_def)
  moreover have "build_record_of ?e art tags d is = build_record_of env art tags d is" for tags
  proof -
    have "image_blobs ?e = image_blobs env" by (simp add: fun_eq_iff image_blobs_def cong: sum.case_cong)
    then show ?thesis by (cases art) (simp_all add: build_record_of_def cong: sum.case_cong)
  qed
  ultimately show ?thesis by (simp add: settle_def publish_def Let_def cong: if_cong del: publish_refs.simps and_then_Inr)
qed

lemma pass_unread:
  fixes env :: "('img, 'l, 'z) controller_scheme"
  assumes "resolve_inputs s' (sc_push (ic_spec obj)) (ic_namespace obj) (sc_layers (ic_spec obj)) =
      (resolve_inputs (ce_sources env) (sc_push (ic_spec obj)) (ic_namespace obj) (sc_layers (ic_spec obj))
        :: (event, 'img layer_input list \<times> image_pulls) run)"
  shows "reconcile_artifact (env\<lparr>ce_sources := s'\<rparr>) obj = reconcile_artifact env obj"
proof -
  have "prepare (env\<lparr>ce_sources := s'\<rparr>) obj = prepare env obj"
    unfolding prepare_def by (simp add: assms)
  moreover have "settle (env\<lparr>ce_sources := s'\<rparr>) obj pp is art = settle env obj pp is art" for pp "is" art
    by (simp add: fun_eq_iff settle_without_sources)
  ultimately show ?thesis
    unfolding reconcile_artifact_def
    by (simp only: without_sources fetch_without_sources assemble_without_sources cong: if_cong)
qed

text \<open>
  Property C12. A change of one ConfigMap or of one Flux source of a watched kind that makes a pass over a
  listed object come out in any other way, in its inputs, its hash, its errors or its events, is a
  request for that object. A namespace has no slash.
\<close>

theorem watches_cover_inputs:
  fixes env :: "('img, 'l, 'z) controller_scheme"
  assumes "obj \<in> set os" "slash \<notin> set (ic_namespace obj)" "source_event mapper ev"
    and "changed_by ev (ce_sources env) s'"
    and "reconcile_artifact (env\<lparr>ce_sources := s'\<rparr>) obj \<noteq> reconcile_artifact env obj"
  shows "(ic_namespace obj, ic_name obj) \<in> set (requests mapper (Inr os) ev)"
proof (rule ccontr)
  assume no: "\<not> ?thesis"
  have unread: "\<forall>l \<in> set (sc_layers (ic_spec obj)). \<not> reads ev obj l"
    using reads_requests[OF assms(1) _ _ assms(3)] no by blast
  have ns: "slash \<notin> set ns" if "ev = ConfigMapEvent ns name" for ns name
    using assms(3) that by (simp add: source_event_def)
  have "resolve_layers s' (sc_push (ic_spec obj)) (ic_namespace obj) (sc_layers (ic_spec obj)) [] Map.empty =
      (resolve_layers (ce_sources env) (sc_push (ic_spec obj)) (ic_namespace obj) (sc_layers (ic_spec obj)) [] Map.empty
        :: (event, 'img layer_input list \<times> image_pulls) run)"
    by (rule resolve_layers_unread[OF assms(4) unread ns assms(2)])
  with pass_unread[of s' obj env] assms(5) show False by (simp add: resolve_inputs_def)
qed

definition mapped_composition :: composition where
  "mapped_composition =
     (sample_composition conflict_fail)
       \<lparr>ic_spec := (ic_spec (sample_composition conflict_fail))
          \<lparr>sc_layers := [(remove_layer ''a'')\<lparr>ly_remove := [], ly_config_map := Some \<lparr>cs_name = ''files'', cs_optional = False\<rparr>\<rparr>]\<rparr>\<rparr>"

definition waits :: "build_result res \<Rightarrow> bool" where
  "waits r = (case r of Inl e \<Rightarrow> is_pending e | Inr x \<Rightarrow> False)"

theorem watches_cover_inputs_witness:
  "(''team'', ''app'') \<in> set (requests (\<lambda>g k. None) (Inr [sample_composition conflict_fail, mapped_composition])
     (ConfigMapEvent ''team'' ''files''))"
proof -
  let ?ev = "ConfigMapEvent ''team'' ''files''"
  let ?cms = "sample_config_maps\<lparr>cme_get := (cme_get sample_config_maps)(''team/files'' := Missing)\<rparr>"
  let ?env = "sample_controller []" and ?s = "sample_sources\<lparr>sv_config_maps := ?cms\<rparr>"
  have "waits (snd (reconcile_artifact (?env\<lparr>ce_sources := ?s\<rparr>) mapped_composition))"
    "\<not> waits (snd (reconcile_artifact ?env mapped_composition))" by code_simp+
  then have differ: "reconcile_artifact (?env\<lparr>ce_sources := ?s\<rparr>) mapped_composition \<noteq> reconcile_artifact ?env mapped_composition"
    by metis
  have obj: "ic_namespace mapped_composition = ''team''" "ic_name mapped_composition = ''app''"
    by (simp_all add: mapped_composition_def sample_composition_def)
  have changed: "changed_by ?ev (ce_sources ?env) ?s"
    by (simp add: sample_controller_def sample_sources_def)
  have "slash \<notin> set (ic_namespace mapped_composition)" by (simp add: obj)
  moreover have "source_event (\<lambda>g k. None) ?ev" by (simp add: source_event_def)
  ultimately show ?thesis
    using watches_cover_inputs[OF _ _ _ changed differ, of "[sample_composition conflict_fail, mapped_composition]" "\<lambda>g k. None"]
    unfolding obj by simp
qed

end
