(* ===== verification/Composition_Settling.thy ===== *)
theory Composition_Settling
  imports Composition_Watches
begin

section \<open>When a composition rests\<close>

text \<open>
  The pass after a pass: an object whose last pass succeeded is left as it is, and no write of a pass
  is a reason for another.
\<close>

subsection \<open>A pass does not wake its own object\<close>

definition trigger :: "composition \<Rightarrow> int \<times> string" where
  "trigger o' = (co_generation o', ic_requested o')"

lemma trigger_simps [simp]:
  "trigger (stamped set_suspended o') = trigger o'" "trigger (stamped (set_waiting reason msg) o') = trigger o'"
  "trigger (stamped (set_succeeded n r) o') = trigger o'" "trigger (stamped (set_stalled reason msg) o') = trigger o'"
  "trigger (stamped (\<lambda>o'. remove_condition t (set_stalled reason msg o')) o') = trigger o'"
  "trigger (stamped (\<lambda>o'. o'\<lparr>ic_ref_export := w\<rparr>) o') = trigger o'" "trigger (set_progressing what art o') = trigger o'"
  "trigger (add_finalizer o') = trigger o'" "trigger (remove_finalizer o') = trigger o'"
  "trigger (mark_status out repo now o') = trigger o'"
  by (simp_all add: trigger_def stamped_def set_suspended_def set_waiting_def set_succeeded_def set_stalled_def
      set_progressing_def set_condition_def remove_condition_def add_finalizer_def remove_finalizer_def mark_status_def Let_def)

lemma emit_leaves [simp]: "leaves g (EvEmit ev)" "leaves g (EvRefresh a)" "leaves g (EvTag t d)"
  by (simp_all add: leaves_def)










subsection \<open>A pass after a successful pass\<close>


lemma stored_success:
  "ic_artifact (stamped (set_succeeded n r) y) = Some (bs_artifact r)"
  "ic_input_hash (stamped (set_succeeded n r) y) = bs_input_hash r"
  "ic_attestations (stamped (set_succeeded n r) y) = bs_attestations r"
  "ic_spec (stamped (set_succeeded n r) y) = ic_spec y"
  "ic_namespace (stamped (set_succeeded n r) y) = ic_namespace y" "ic_name (stamped (set_succeeded n r) y) = ic_name y"
  "ic_ref_export (stamped (set_succeeded n r) y) = ic_ref_export y"
  by (simp_all add: stamped_def set_succeeded_def set_condition_def remove_condition_def)



lemma stored_fields:
  assumes "cn_status env AtOutcome = PatchOK" "snd (reconcile_artifact env obj) = Inr r"
    and "get_write_ref_to (sc_push (ic_spec obj)) = None" "ic_ref_export obj = None"
    and "o' = persisted (fst (work env obj)) obj"
  shows "\<exists>y. o' = stamped (set_succeeded (cn_history_limit env) r) y"
    "ic_artifact o' = Some (bs_artifact r)" "ic_input_hash o' = bs_input_hash r" "ic_attestations o' = bs_attestations r"
    "ic_spec o' = ic_spec obj" "ic_ref_export o' = ic_ref_export obj"
    "ic_namespace o' = ic_namespace obj" "ic_name o' = ic_name obj"
proof -
  let ?y = "persisted (fst (reconcile_artifact env obj)) obj"
  have store: "o' = stamped (set_succeeded (cn_history_limit env) r) ?y"
    unfolding assms(5) by (rule work_success(3)[OF assms(1-4)])
  then show "\<exists>y. o' = stamped (set_succeeded (cn_history_limit env) r) y" by blast
  have frame: "ic_spec ?y = ic_spec obj" "ic_ref_export ?y = ic_ref_export obj"
    "ic_namespace ?y = ic_namespace obj" "ic_name ?y = ic_name obj"
    using artifact_frame[of "\<lambda>x. (ic_spec x, ic_ref_export x, ic_namespace x, ic_name x)" env obj obj]
    by (simp_all add: set_progressing_def set_condition_def remove_condition_def Let_def)
  show "ic_artifact o' = Some (bs_artifact r)" "ic_input_hash o' = bs_input_hash r"
    "ic_attestations o' = bs_attestations r" "ic_spec o' = ic_spec obj" "ic_ref_export o' = ic_ref_export obj"
    "ic_namespace o' = ic_namespace obj" "ic_name o' = ic_name obj"
    unfolding store stored_success frame by (rule refl)+
qed



subsection \<open>A kept tag\<close>

text \<open>
  A pass that keeps a tag stores the conflict, the existing digest and the hash of its own inputs. When
  the next pass then takes the cheap path, it clears the conflict and reports the existing artifact as
  published, although the spec still produces something else.
\<close>

lemma kept_divergence_forgotten:
  assumes ok: "cn_status env AtOutcome = PatchOK" "cn_status env2 AtOutcome = PatchOK"
    and unexported: "get_write_ref_to (sc_push (ic_spec obj)) = None" "ic_ref_export obj = None"
    and first: "snd (reconcile_artifact env obj) = Inr r" "bs_conflict r = Some c"
    and o': "o' = persisted (fst (work env obj)) obj"
    and second: "snd (prepare env2 o') = Inr pp" "cheap env2 o' pp"
  shows "ic_conflict o' = Some c" "ic_conflict (persisted (fst (work env2 o')) o') = None"
proof -
  note st = stored_fields[OF ok(1) first(1) unexported o']
  have c: "ic_conflict (stamped (set_succeeded n s) y) = bs_conflict s" for n s y
    by (simp add: stamped_def set_succeeded_def set_condition_def remove_condition_def)
  show "ic_conflict o' = Some c" using st(1) c first(2) by auto
  have "snd (reconcile_artifact env2 o') = Inr \<lparr>bs_artifact = the (ic_artifact o'), bs_input_hash = pp_hash pp,
      bs_attestations = ic_attestations o', bs_conflict = None, bs_record = None\<rparr>"
    using second(2) by (simp add: reconcile_artifact_def and_then_step[OF second(1)])
  from work_success(3)[OF ok(2) this, of o'] show "ic_conflict (persisted (fst (work env2 o')) o') = None"
    using unexported st(5,6) c by simp
qed

text \<open>It does: one declared tag, held by another digest.\<close>

definition one_tag_composition :: composition where
  "one_tag_composition =
     (sample_composition conflict_keep)
       \<lparr>ic_spec := (ic_spec (sample_composition conflict_keep))
          \<lparr>sc_push := Some ((sample_push conflict_keep)\<lparr>ps_tags := [''v1'']\<rparr>)\<rparr>\<rparr>"

lemma kept_divergence_example:
  defines "env \<equiv> sample_controller [(''r/x:v1'', ''sha256:0d''), (''r/x@sha256:0d'', ''sha256:0d'')]"
  shows "\<exists>c o'. o' = persisted (fst (work env one_tag_composition)) one_tag_composition \<and>
    ic_conflict o' = Some c \<and> tc_dropped c = ''sha256:aa'' \<and> ic_conflict (persisted (fst (work env o')) o') = None"
proof -
  let ?o = "persisted (fst (work env one_tag_composition)) one_tag_composition"
  let ?a = "\<lparr>ar_digest = ''sha256:0d'', ar_revision = ''v1@sha256:0d'', ar_ref = ''r/x:v1@sha256:0d'',
      ar_tags = [''r/x:v1''], ar_updated = Some 5\<rparr>"
  have "case snd (reconcile_artifact env one_tag_composition) of Inl e \<Rightarrow> False | Inr r \<Rightarrow>
      (case bs_conflict r of None \<Rightarrow> False | Some c \<Rightarrow> tc_dropped c = ''sha256:aa'') \<and>
      bs_artifact r = ?a \<and> bs_input_hash r = ''sha256:68'' \<and> bs_attestations r = None"
    unfolding env_def by code_simp
  then obtain r c where r: "snd (reconcile_artifact env one_tag_composition) = Inr r" "bs_conflict r = Some c"
    "tc_dropped c = ''sha256:aa''" "bs_artifact r = ?a" "bs_input_hash r = ''sha256:68''" "bs_attestations r = None"
    by (auto split: sum.splits option.splits)
  have ok: "cn_status env AtOutcome = PatchOK" by (simp add: env_def sample_controller_def)
  have n: "get_write_ref_to (sc_push (ic_spec one_tag_composition)) = None" "ic_ref_export one_tag_composition = None"
    by (simp_all add: one_tag_composition_def sample_composition_def sample_push_def get_write_ref_to_def)
  note st = stored_fields[OF ok r(1) n refl]
  have same: "prepare env ?o = prepare env (one_tag_composition\<lparr>ic_artifact := Some ?a\<rparr>)"
    by (simp add: prepare_def st r(4) del: and_then_Inr)
  have "case snd (prepare env (one_tag_composition\<lparr>ic_artifact := Some ?a\<rparr>)) of Inl e \<Rightarrow> False
      | Inr pp \<Rightarrow> pp_hash pp = ''sha256:68'' \<and> matches (pp_published pp) ''sha256:0d''"
    unfolding env_def by code_simp
  then obtain pp where pp: "snd (prepare env ?o) = Inr pp" "pp_hash pp = ''sha256:68''" "matches (pp_published pp) ''sha256:0d''"
    unfolding same by (auto split: sum.splits)
  have "attestor_complete (cn_attestor env) None d" for d
    unfolding env_def by (simp add: sample_controller_def attestor_complete_def attestor_enabled_def)
  then have "cheap env ?o pp" using pp(2,3) by (simp add: cheap_def st(2-4) r(4-6))
  from kept_divergence_forgotten[OF ok ok n r(1,2) refl pp(1) this] r(3) show ?thesis by blast
qed

end
