(* ===== verification/Layer_Cache.thy ===== *)
theory Layer_Cache
  imports Disk_Store Input_Hash
begin

section \<open>Fetching and caching layer content\<close>

text \<open>
  \<^verbatim>\<open>internal/oci/fetch.go\<close> downloads a layer's content into a temporary file and compares its
  digest; \<^verbatim>\<open>internal/cache/cache.go\<close> keeps it in a local disk store and, optionally, in a shared
  remote store, whose answers are not trusted. The remote store and the HTTP server are parameters with
  no law; the local tier is the disk store and its contract.
\<close>

subsection \<open>Fetching\<close>

text \<open>
  The transport: what parsing a URL says, and what a request is answered, the status with its text and
  the body. The digest is a parameter over bytes, as everywhere.
\<close>

record http =
  ht_request :: "string \<Rightarrow> error option"
  ht_do :: "string \<Rightarrow> (nat \<times> string \<times> content_stream) res"

record cache_env = disk_env +
  ce_dir :: string
  ce_temp_dir :: string
  ce_fetch_random :: string
  ce_pull_random :: string
  ce_sha256 :: "string \<Rightarrow> string"

definition digest_of :: "('z) cache_env_scheme \<Rightarrow> string \<Rightarrow> string" where
  "digest_of env b = ''sha256:'' @ hex_encode (ce_sha256 env b)"

definition fetch_name :: "('z) cache_env_scheme \<Rightarrow> string" where
  "fetch_name env = ce_temp_dir env @ ''/oci-composer-fetch-'' @ ce_fetch_random env"

definition pull_name :: "('z) cache_env_scheme \<Rightarrow> string" where
  "pull_name env = ce_dir env @ ''/.pull-'' @ ce_pull_random env"

text \<open>\<^verbatim>\<open>os.CreateTemp\<close> never opens a file that is there; the new inode is the handle.\<close>

definition create_temp :: "('z) disk_env_scheme \<Rightarrow> string \<Rightarrow> string \<Rightarrow> disk \<Rightarrow> (nat \<times> disk) res" where
  "create_temp env dir p d =
     (case (if dk_names d p \<noteq> None then Some (Msg ''file exists'') else dv_fault env (SysTemp dir)) of
        Some e \<Rightarrow> Inl e
      | None \<Rightarrow> Inr (dk_next d, create_file p (dv_now env) d))"

definition open_file :: "('z) disk_env_scheme \<Rightarrow> string \<Rightarrow> disk \<Rightarrow> content_stream res" where
  "open_file env p d =
     (case dv_fault env (SysOpen p) of
        Some e \<Rightarrow> Inl e
      | None \<Rightarrow>
          (case view d p of
             None \<Rightarrow> Inl (Msg (''open '' @ p @ '': no such file or directory''))
           | Some b \<Rightarrow> Inr ([b], None)))"

text \<open>The body is hashed on its way to the file; whatever fails, the deferred call removes the file.\<close>

definition fetch_url ::
    "('z) cache_env_scheme \<Rightarrow> http \<Rightarrow> string \<Rightarrow> string \<Rightarrow> disk \<Rightarrow> disk \<times> string res" where
  "fetch_url env http url want d =
     (if \<not> has_prefix want ''sha256:''
      then (d, Inl (Msg (''unsupported digest algorithm in '' @ want @ '': only sha256 is supported'')))
      else (case ht_request http url of
          Some e \<Rightarrow> (d, Inl (Wrap (''building request for '' @ url) e))
        | None \<Rightarrow>
            (case ht_do http url of
               Inl e \<Rightarrow> (d, Inl (Wrap (''fetching '' @ url) e))
             | Inr (status, text, body) \<Rightarrow>
                 if status \<noteq> 200 then (d, Inl (Msg (''fetching '' @ url @ '': unexpected status '' @ text)))
                 else (case create_temp env (ce_temp_dir env) (fetch_name env) d of
                     Inl e \<Rightarrow> (d, Inl (Wrap ''creating temp file'' e))
                   | Inr (ino, d1) \<Rightarrow>
                       (case copy_chunks env ino (fst body) (snd body) d1 of
                          (d2, Some e) \<Rightarrow> (discard env (fetch_name env) d2, Inl (Wrap (''reading '' @ url) e))
                        | (d2, None) \<Rightarrow>
                            (let got = digest_of env (concat (fst body)) in
                             if got \<noteq> want then (discard env (fetch_name env) d2, Inl (DigestMismatch want got url))
                             else (d2, Inr (fetch_name env))))))))"

subsection \<open>The cache\<close>

definition new_cache ::
    "(string \<Rightarrow> string res) \<Rightarrow> (string \<Rightarrow> error option) \<Rightarrow> string \<Rightarrow> (string \<times> string) res" where
  "new_cache make_abs mkdir dir =
     (case new_disk make_abs mkdir dir of Inl e \<Rightarrow> Inl (Wrap ''cache'' e) | Inr root \<Rightarrow> Inr (root, dir))"

definition local_path :: "('z) cache_env_scheme \<Rightarrow> string \<Rightarrow> string" where
  "local_path env key = path_join (ce_dir env) key"

definition store_file :: "'s store \<Rightarrow> string \<Rightarrow> string \<Rightarrow> content_stream res \<Rightarrow> 's \<Rightarrow> 's \<times> error option" where
  "store_file st key path src s =
     (case src of
        Inl e \<Rightarrow> (s, Some (Wrap (''opening '' @ path) e))
      | Inr f \<Rightarrow>
          (case st_write st s key f of
             (s', Some e) \<Rightarrow> (s', Some (Wrap (''writing '' @ key) e))
           | (s', None) \<Rightarrow> (s', None)))"

text \<open>
  A remote object comes down into a temporary file, is compared with the digest, and only then written to
  the local tier. A wrong one is deleted from the remote. \<open>NotFound\<close> is the sentinel.
\<close>

definition pull_from_remote ::
    "('z) cache_env_scheme \<Rightarrow> 'r store \<Rightarrow> string \<Rightarrow> string \<Rightarrow> disk \<Rightarrow> 'r \<Rightarrow> (disk \<times> 'r) \<times> unit found" where
  "pull_from_remote env rem key digest d r =
     (case st_open rem r key of
        NotFound \<Rightarrow> ((d, r), NotFound)
      | Failed e \<Rightarrow> ((d, r), Failed e)
      | Object body \<Rightarrow>
          (case create_temp env (ce_dir env) (pull_name env) d of
             Inl e \<Rightarrow> ((d, r), Failed (Wrap ''creating temp file'' e))
           | Inr (ino, d1) \<Rightarrow>
               (case copy_chunks env ino (fst body) (snd body) d1 of
                  (d2, Some e) \<Rightarrow>
                    ((discard env (pull_name env) d2, r), Failed (Wrap ''reading from remote cache'' e))
                | (d2, None) \<Rightarrow>
                    (let got = digest_of env (concat (fst body)) in
                     if got \<noteq> digest then
                       (case st_delete rem r key of
                          (r', Some e) \<Rightarrow> ((discard env (pull_name env) d2, r'),
                            Failed (Wrap (''remote cache holds '' @ got @ '' under key for '' @ digest @
                              '', and removing it failed'') e))
                        | (r', None) \<Rightarrow> ((discard env (pull_name env) d2, r'),
                            Failed (Msg (''remote cache held '' @ got @ '' under the key for '' @ digest @ ''; removed it''))))
                     else (case dv_fault env SysClose of
                         Some e \<Rightarrow> ((discard env (pull_name env) d2, r), Failed (Wrap ''closing temp file'' e))
                       | None \<Rightarrow>
                           (case open_file env (pull_name env) d2 of
                              Inl e \<Rightarrow> ((discard env (pull_name env) d2, r), Failed (Wrap ''reopening temp file'' e))
                            | Inr f \<Rightarrow>
                                (case st_write (disk_store env) d2 key f of
                                   (d3, Some e) \<Rightarrow>
                                     ((discard env (pull_name env) d3, r), Failed (Wrap ''writing to local cache'' e))
                                 | (d3, None) \<Rightarrow> ((discard env (pull_name env) d3, r), Object ()))))))))"

definition cache_pull ::
    "('z) cache_env_scheme \<Rightarrow> 'r store option \<Rightarrow> string \<Rightarrow> string \<Rightarrow> disk \<Rightarrow> 'r \<Rightarrow> (disk \<times> 'r) \<times> unit found" where
  "cache_pull env remote key digest d r =
     (case remote of None \<Rightarrow> ((d, r), NotFound) | Some rem \<Rightarrow> pull_from_remote env rem key digest d r)"

text \<open>
  After the origin: only a failure of the local tier changes what is returned. The origin's file is
  removed once both tiers have had it.
\<close>

definition cache_admit ::
    "('z) cache_env_scheme \<Rightarrow> 'r store option \<Rightarrow> string \<Rightarrow> string \<Rightarrow> disk \<Rightarrow> 'r \<Rightarrow> (disk \<times> 'r) \<times> string res" where
  "cache_admit env remote key fetched d r =
     (case store_file (disk_store env) key fetched (open_file env fetched d) d of
        (d1, Some e) \<Rightarrow> ((d1, r), Inr fetched)
      | (d1, None) \<Rightarrow>
          (let r1 = (case remote of None \<Rightarrow> r
              | Some rem \<Rightarrow> fst (store_file rem key fetched (open_file env fetched d1) r))
           in ((discard env fetched d1, r1), Inr (local_path env key))))"

definition cache_path ::
    "('z) cache_env_scheme \<Rightarrow> 'r store option \<Rightarrow> (string \<Rightarrow> disk \<Rightarrow> disk \<times> string res) \<Rightarrow> string \<Rightarrow>
     disk \<times> 'r \<Rightarrow> (disk \<times> 'r) \<times> string res" where
  "cache_path env remote origin digest s =
     (case store_key namespace_inputs digest of
        Inl e \<Rightarrow> (s, Inl e)
      | Inr key \<Rightarrow>
          (case st_stat (disk_store env) (fst s) key of
             Object i \<Rightarrow> (s, Inr (local_path env key))
           | _ \<Rightarrow>
               (case cache_pull env remote key digest (fst s) (snd s) of
                  (s1, Object u) \<Rightarrow> (s1, Inr (local_path env key))
                | ((d1, r1), _) \<Rightarrow>
                    (case origin digest d1 of
                       (d2, Inl e) \<Rightarrow> ((d2, r1), Inl e)
                     | (d2, Inr fetched) \<Rightarrow> cache_admit env remote key fetched d2 r1))))"

text \<open>\<^verbatim>\<open>resolveLayer\<close> of the composition controller: the cache, when there is one, in front of the fetcher.\<close>

definition resolve_layer_content ::
    "('z) cache_env_scheme \<Rightarrow> bool \<Rightarrow> 'r store option \<Rightarrow> http \<Rightarrow> string \<Rightarrow> string \<Rightarrow> disk \<times> 'r \<Rightarrow>
     (disk \<times> 'r) \<times> string res" where
  "resolve_layer_content env cached remote http url digest s =
     (if cached then cache_path env remote (fetch_url env http url) digest s
      else (case fetch_url env http url digest (fst s) of (d', res) \<Rightarrow> ((d', snd s), res)))"


subsection \<open>What a fetch leaves\<close>

text \<open>A file that is no object of the local tier.\<close>

definition elsewhere :: "('z) disk_env_scheme \<Rightarrow> string \<Rightarrow> bool" where
  "elsewhere env p \<longleftrightarrow> (\<forall>k. valid_key k \<longrightarrow> p \<noteq> dv_root env @ slash # k)"

lemma same_elsewhere: "same_beside {p} d d' \<Longrightarrow> elsewhere env p \<Longrightarrow> disk_content env d' = disk_content env d"
  by (rule same_content) (auto simp: elsewhere_def)

lemma create_temp_building:
  assumes "create_temp env dir p d = Inr (ino, d1)" "disk_ok root d"
  shows "building d1 p ino [] \<and> same_beside {p} d d1 \<and> disk_ok root d1"
proof -
  have "dk_names d p = None" "d1 = create_file p (dv_now env) d" "ino = dk_next d"
    using assms(1) unfolding create_temp_def by (simp_all split: if_splits option.splits)
  with create_building[OF assms(2), of p "dv_now env"] show ?thesis by simp
qed

text \<open>A download into a temporary file, and its removal.\<close>

lemma temp_download_outcome:
  assumes t: "create_temp env dir p d = Inr (ino, d1)" and ok: "disk_ok root d"
    and c: "copy_chunks env ino cs e d1 = (d2, r)"
  shows "disk_ok root d2 \<and> same_beside {p} d d2 \<and> (r = None \<longrightarrow> e = None \<and> view d2 p = Some (concat cs) \<and> dk_names d2 p \<noteq> None)"
    and "disk_ok root (discard env' p d2) \<and> same_beside {p} d (discard env' p d2)"
proof -
  note b = create_temp_building[OF t ok]
  obtain more where m: "building d2 p ino more" "same_beside {p} d1 d2" "disk_ok root d2"
    "r = None \<longrightarrow> e = None \<and> more = concat cs"
    using copy_building[OF _ _ c, of root p "[]"] b by auto
  have s: "same_beside {p} d d2" using b m(2) same_beside_trans by blast
  then show "disk_ok root d2 \<and> same_beside {p} d d2 \<and> (r = None \<longrightarrow> e = None \<and> view d2 p = Some (concat cs) \<and> dk_names d2 p \<noteq> None)"
    using m unfolding building_def by auto
  show "disk_ok root (discard env' p d2) \<and> same_beside {p} d (discard env' p d2)"
    using discard_beside[OF m(3)] s same_beside_trans by blast
qed

lemma fetch_url_outcome:
  assumes "fetch_url env http url want d = (d', res)" "disk_ok root d"
  shows "disk_ok root d' \<and> same_beside {fetch_name env} d d' \<and>
    (\<forall>p. res = Inr p \<longrightarrow> p = fetch_name env \<and> dk_names d' p \<noteq> None \<and> (\<exists>b. view d' p = Some b \<and> digest_of env b = want))"
proof (cases "\<exists>status reason body ino d1. ht_do http url = Inr (status, reason, body) \<and> has_prefix want ''sha256:'' \<and>
    ht_request http url = None \<and> status = 200 \<and> create_temp env (ce_temp_dir env) (fetch_name env) d = Inr (ino, d1)")
  case False
  with assms(1) have "d' = d \<and> (\<exists>x. res = Inl x)"
    unfolding fetch_url_def by (auto split: if_splits option.splits sum.splits)
  with assms(2) show ?thesis by auto
next
  case True
  then obtain reason body ino d1 where h: "ht_do http url = Inr (200, reason, body)" "has_prefix want ''sha256:''"
    "ht_request http url = None" "create_temp env (ce_temp_dir env) (fetch_name env) d = Inr (ino, d1)" by blast
  obtain d2 r where c: "copy_chunks env ino (fst body) (snd body) d1 = (d2, r)" by fastforce
  note o = temp_download_outcome[OF h(4) assms(2) c]
  show ?thesis
  proof (cases r)
    case (Some e)
    with assms(1) h c have "d' = discard env (fetch_name env) d2 \<and> (\<exists>x. res = Inl x)" by (auto simp: fetch_url_def)
    with o(2) show ?thesis by auto
  next
    case None
    show ?thesis
    proof (cases "digest_of env (concat (fst body)) = want")
      case True
      with assms(1) h c None have "d' = d2" "res = Inr (fetch_name env)" by (simp_all add: fetch_url_def Let_def)
      with o(1) True None show ?thesis by auto
    next
      case False
      with assms(1) h c None have "d' = discard env (fetch_name env) d2 \<and> (\<exists>x. res = Inl x)"
        by (auto simp: fetch_url_def Let_def)
      with o(2) show ?thesis by auto
    qed
  qed
qed

text \<open>A file that exists is left alone by a write of an object.\<close>

lemma disk_write_beside:
  assumes vk: "root_ok (dv_root env)" "valid_key k" and ok: "disk_ok (dv_root env) d"
    and w: "disk_write env d k (cs, e) = (d', r)" and q: "dk_names d q \<noteq> None" "q \<noteq> dv_root env @ slash # k"
  shows "view d' q = view d q"
proof -
  let ?root = "dv_root env" and ?p = "dv_root env @ slash # k"
  obtain dir where dir: "path_dir ?p = ?root @ slash # dir" using disk_path_valid(2)[OF vk] by blast
  define d1 where "d1 = d\<lparr>dk_dirs := dk_dirs d \<union> parents (path_dir ?p)\<rparr>"
  define tmp where "tmp = temp_name (path_dir ?p) (dv_random env)"
  have same: "view d1 x = view d x" "dk_names d1 x = dk_names d x" for x unfolding d1_def view_def by simp_all
  have tmp: "tmp \<noteq> ?p" using temp_not_valid[OF vk dir] unfolding tmp_def .
  show ?thesis
  proof (rule disk_write_cases[OF disk_path_valid(1)[OF vk] w d1_def tmp_def])
    assume f: "dk_names d1 tmp = None"
      "fill_file env (dk_next d1) k tmp ?p (cs, e) (create_file tmp (dv_now env) d1) = (d', r)"
    have ok1: "disk_ok ?root d1" using make_parents_ok[OF vk ok] unfolding d1_def .
    note c = create_building[OF ok1 f(1), of "dv_now env"]
    have "?p \<notin> dk_dirs (create_file tmp (dv_now env) d1)" using c vk(2) unfolding disk_ok_def by blast
    then have "same_beside {tmp, ?p} (create_file tmp (dv_now env) d1) d'"
      using fill_file_outcome[OF _ _ tmp _ f(2), of ?root] c unfolding same_beside_def by blast
    moreover have "q \<noteq> tmp" using f(1) q(1) same(2) by auto
    ultimately show ?thesis using c q(2) same(1) unfolding same_beside_def by simp
  qed (simp_all add: same)
qed


subsection \<open>What is cached was verified\<close>

text \<open>Every object of the local tier hashes to the digest its key stands for.\<close>

definition cache_sound :: "('z) cache_env_scheme \<Rightarrow> disk \<Rightarrow> bool" where
  "cache_sound env d \<longleftrightarrow>
     (\<forall>digest k b. store_key namespace_inputs digest = Inr k \<and> disk_content env d k = Some b \<longrightarrow> digest_of env b = digest)"

lemma key_valid: "store_key namespace_inputs digest = Inr k \<Longrightarrow> valid_key k"
  by (erule store_key_valid) (simp_all add: namespace_inputs_def path_chars_def)

lemma cache_sound_iff:
  "root_ok (dv_root env) \<Longrightarrow> cache_sound env d \<longleftrightarrow> dsk.sound TYPE(_) env (digest_of env) namespace_inputs d"
  unfolding cache_sound_def dsk.sound_def disk_valid_def using key_valid by blast

definition cache_ok :: "('z) cache_env_scheme \<Rightarrow> disk \<Rightarrow> bool" where
  "cache_ok env d \<longleftrightarrow> root_ok (dv_root env) \<and> ce_dir env = dv_root env \<and> elsewhere env (fetch_name env) \<and>
     disk_ok (dv_root env) d \<and> cache_sound env d"

lemma cache_okD:
  assumes "cache_ok env d"
  shows "root_ok (dv_root env)" "ce_dir env = dv_root env" "elsewhere env (fetch_name env)"
    "disk_ok (dv_root env) d" "cache_sound env d"
  using assms unfolding cache_ok_def by blast+

lemma pull_elsewhere: "ce_dir env = dv_root env \<Longrightarrow> elsewhere env (pull_name env)"
proof -
  assume dir: "ce_dir env = dv_root env"
  have "CHR ''.'' \<in> set k" if "pull_name env = dv_root env @ slash # k" for k
    using that unfolding pull_name_def dir by auto
  then show ?thesis using valid_key_facts(1) unfolding elsewhere_def by blast
qed

lemma cache_ok_elsewhere:
  assumes "cache_ok env d" "elsewhere env p" "disk_ok (dv_root env) d' \<and> same_beside {p} d d'"
  shows "cache_ok env d'"
  using assms same_elsewhere[of p d d' env] unfolding cache_ok_def cache_sound_def by simp

text \<open>An object under its key, of the digest of the key.\<close>

definition holds :: "('z) cache_env_scheme \<Rightarrow> disk \<Rightarrow> string \<Rightarrow> string \<Rightarrow> bool" where
  "holds env d p digest \<longleftrightarrow> (\<exists>b. view d p = Some b \<and> digest_of env b = digest)"

lemma local_path_key: "root_ok root \<Longrightarrow> valid_key k \<Longrightarrow> ce_dir env = root \<Longrightarrow> local_path env k = root @ slash # k"
  using disk_path_valid(1)[of root k] unfolding local_path_def disk_path_def by (simp add: Let_def split: if_splits)

lemma local_write:
  assumes ok: "cache_ok env d" and k: "store_key namespace_inputs digest = Inr k"
    and b: "e = None \<Longrightarrow> digest_of env (concat cs) = digest" and w: "disk_write env d k (cs, e) = (d', r)"
  shows "cache_ok env d' \<and> (r = None \<longrightarrow> holds env d' (dv_root env @ slash # k) digest)"
proof -
  note D = cache_okD[OF ok]
  have v: "disk_valid env k" using D(1) key_valid[OF k] by (simp add: disk_valid_def)
  have "dsk.sound TYPE(_) env (digest_of env) namespace_inputs d" using D(5) cache_sound_iff[OF D(1)] by simp
  from dsk.sound_write[OF this D(4) v k b, where s' = d' and r = r] w
  have "dsk.sound TYPE(_) env (digest_of env) namespace_inputs d' \<and> disk_ok (dv_root env) d' \<and>
      (r = None \<longrightarrow> (\<exists>b. disk_content env d' k = Some b \<and> digest_of env b = digest))" by (simp add: disk_store_def)
  then show ?thesis using D(1-3) cache_sound_iff[OF D(1), of d'] key_valid[OF k]
    unfolding cache_ok_def holds_def disk_content_def by auto
qed

lemma pull_sound:
  assumes ok: "cache_ok env d" and k: "store_key namespace_inputs digest = Inr k"
    and p: "pull_from_remote env rem k digest d r = ((d', r'), res)"
  shows "cache_ok env d' \<and> (res = Object () \<longrightarrow> holds env d' (dv_root env @ slash # k) digest)"
proof (cases "\<exists>body ino d1. st_open rem r k = Object body \<and> create_temp env (ce_dir env) (pull_name env) d = Inr (ino, d1)")
  case False
  with p have "d' = d \<and> res \<noteq> Object ()"
    unfolding pull_from_remote_def by (auto split: found.splits sum.splits)
  with ok show ?thesis by simp
next
  case True
  then obtain body ino d1 where h: "st_open rem r k = Object body"
    "create_temp env (ce_dir env) (pull_name env) d = Inr (ino, d1)" by blast
  obtain d2 e where c: "copy_chunks env ino (fst body) (snd body) d1 = (d2, e)" by fastforce
  note D = cache_okD[OF ok]
  note el = pull_elsewhere[OF D(2)]
  note o = temp_download_outcome[OF h(2) D(4) c]
  have dis: "cache_ok env (discard env (pull_name env) d2)" by (rule cache_ok_elsewhere[OF ok el o(2)])
  have d2: "cache_ok env d2" using cache_ok_elsewhere[OF ok el] o(1) by blast
  show ?thesis
  proof (cases "e = None \<and> digest_of env (concat (fst body)) = digest \<and> dv_fault env SysClose = None \<and>
      dv_fault env (SysOpen (pull_name env)) = None")
    case False
    with p h c have "d' = discard env (pull_name env) d2 \<and> res \<noteq> Object ()"
      by (auto simp: pull_from_remote_def Let_def open_file_def split: option.splits if_splits prod.splits)
    with dis show ?thesis by simp
  next
    case True
    then have v: "view d2 (pull_name env) = Some (concat (fst body))" using o(1) by simp
    obtain d3 e3 where w: "disk_write env d2 k ([concat (fst body)], None) = (d3, e3)" by fastforce
    from local_write[OF d2 k _ w] True have l: "cache_ok env d3" "e3 = None \<Longrightarrow> holds env d3 (dv_root env @ slash # k) digest"
      by auto
    have d': "d' = discard env (pull_name env) d3" "res = Object () \<Longrightarrow> e3 = None"
      using p h c True v w
      by (auto simp: pull_from_remote_def Let_def open_file_def disk_store_def split: option.splits)
    have s: "same_beside {pull_name env} d3 d'" "disk_ok (dv_root env) d'"
      using discard_beside[OF cache_okD(4)[OF l(1)]] unfolding d'(1) by blast+
    have "dv_root env @ slash # k \<noteq> pull_name env" using el key_valid[OF k] unfolding elsewhere_def by metis
    then have "holds env d' (dv_root env @ slash # k) digest" if "res = Object ()"
      using l(2) d'(2) that s(1) unfolding holds_def same_beside_def by simp
    with cache_ok_elsewhere[OF l(1) el] s show ?thesis by blast
  qed
qed

lemma admit_sound:
  assumes ok: "cache_ok env d" and k: "store_key namespace_inputs digest = Inr k"
    and f: "dk_names d p \<noteq> None" "holds env d p digest" "elsewhere env p"
    and a: "cache_admit env remote k p d r = ((d', r'), res)"
  shows "cache_ok env d' \<and> (\<exists>q. res = Inr q \<and> holds env d' q digest)"
proof (cases "open_file env p d")
  case (Inl e)
  with a have "d' = d" "res = Inr p" by (auto simp: cache_admit_def store_file_def)
  with ok f show ?thesis by simp
next
  case (Inr src)
  note D = cache_okD[OF ok]
  obtain b where b: "view d p = Some b" "digest_of env b = digest" using f(2) unfolding holds_def by blast
  with Inr have src: "src = ([b], None)" by (simp add: open_file_def split: option.splits)
  obtain d1 e where w: "disk_write env d k ([b], None) = (d1, e)" by fastforce
  note l = local_write[OF ok k _ w, simplified, OF b(2)]
  have ne: "p \<noteq> dv_root env @ slash # k" using f(3) key_valid[OF k] unfolding elsewhere_def by metis
  show ?thesis
  proof (cases e)
    case (Some x)
    with a Inr src w have "d' = d1" "res = Inr p" by (auto simp: cache_admit_def store_file_def disk_store_def)
    moreover have "view d1 p = view d p" by (rule disk_write_beside[OF D(1) key_valid[OF k] D(4) w f(1) ne])
    ultimately show ?thesis using l f(2) unfolding holds_def by simp
  next
    case None
    with a Inr src w have d': "d' = discard env p d1" "res = Inr (local_path env k)"
      by (auto simp: cache_admit_def store_file_def disk_store_def Let_def)
    have s: "same_beside {p} d1 d'" "disk_ok (dv_root env) d'"
      using discard_beside[OF cache_okD(4)] l unfolding d'(1) by blast+
    have "holds env d' (dv_root env @ slash # k) digest"
      using l None s(1) ne unfolding holds_def same_beside_def by simp
    then show ?thesis using cache_ok_elsewhere[OF _ f(3)] l s d'(2) local_path_key[OF D(1) key_valid[OF k] D(2)] by auto
  qed
qed


lemma cache_pull_sound:
  assumes "cache_ok env d" "store_key namespace_inputs digest = Inr k"
    and "cache_pull env remote k digest d r = ((d', r'), res)"
  shows "cache_ok env d' \<and> (res = Object () \<longrightarrow> holds env d' (dv_root env @ slash # k) digest)"
proof (cases remote)
  case (Some rem)
  with assms(3) have "pull_from_remote env rem k digest d r = ((d', r'), res)" by (simp add: cache_pull_def)
  from pull_sound[OF assms(1,2) this] show ?thesis .
qed (use assms in \<open>auto simp: cache_pull_def\<close>)

lemma fetch_sound:
  assumes "cache_ok env d" "fetch_url env http url digest d = (d', res)"
  shows "cache_ok env d' \<and> (\<forall>p. res = Inr p \<longrightarrow> dk_names d' p \<noteq> None \<and> elsewhere env p \<and> holds env d' p digest)"
  using fetch_url_outcome[OF assms(2) cache_okD(4)[OF assms(1)]] cache_ok_elsewhere[OF assms(1) cache_okD(3)[OF assms(1)]]
    cache_okD(3)[OF assms(1)] unfolding holds_def by metis

lemma cache_path_sound:
  assumes ok: "cache_ok env d" and p: "cache_path env remote (fetch_url env http url) digest (d, r) = ((d', r'), res)"
  shows "cache_ok env d' \<and> (\<forall>p. res = Inr p \<longrightarrow> holds env d' p digest)"
proof (cases "store_key namespace_inputs digest")
  case (Inl e)
  with p ok show ?thesis by (auto simp: cache_path_def)
next
  case k: (Inr k)
  note D = cache_okD[OF ok]
  note lp = local_path_key[OF D(1) key_valid[OF k] D(2)]
  have v: "disk_valid env k" using D(1) key_valid[OF k] by (simp add: disk_valid_def)
  show ?thesis
  proof (cases "\<exists>i. st_stat (disk_store env) d k = Object i")
    case True
    then obtain i where i: "st_stat (disk_store env) d k = Object i" by blast
    then obtain b where b: "disk_content env d k = Some b" using dsk.stat_Object[OF D(4) v] by blast
    have "digest_of env b = digest" using D(5) k b unfolding cache_sound_def by blast
    moreover have "view d (dv_root env @ slash # k) = Some b" using b key_valid[OF k] by (simp add: disk_content_def)
    ultimately have "holds env d (local_path env k) digest" unfolding holds_def lp by blast
    with p i k ok show ?thesis by (auto simp: cache_path_def)
  next
    case False
    obtain d1 r1 u where c: "cache_pull env remote k digest d r = ((d1, r1), u)"
      by (metis surj_pair)
    note o = cache_pull_sound[OF ok k c]
    show ?thesis
    proof (cases "u = Object ()")
      case True
      with p k False c have "d' = d1" "res = Inr (local_path env k)" by (auto simp: cache_path_def split: found.splits)
      with o True lp show ?thesis by simp
    next
      case u: False
      obtain d2 f where f: "fetch_url env http url digest d1 = (d2, f)" by fastforce
      note s = fetch_sound[OF conjunct1[OF o] f]
      have run: "((d', r'), res) = (case f of Inl e \<Rightarrow> ((d2, r1), Inl e) | Inr x \<Rightarrow> cache_admit env remote k x d2 r1)"
        using p k False c u f by (cases "st_stat (disk_store env) d k"; cases u) (auto simp: cache_path_def)
      show ?thesis
      proof (cases f)
        case (Inr x)
        with run have "cache_admit env remote k x d2 r1 = ((d', r'), res)" by simp
        from admit_sound[OF _ k _ _ _ this] s Inr show ?thesis by auto
      qed (use run s in simp)
    qed
  qed
qed

text \<open>
  Property C4. Whatever the shared cache and the server of a URL answer, and whatever calls of the
  operating system fail, a layer's content that is handed to the assembly hashes to the digest the spec
  declares, and the local cache keeps only objects that hash to the digest they are stored under.
\<close>

theorem layer_bytes_verified:
  assumes "cache_ok env d" "resolve_layer_content env cached remote http url digest (d, r) = ((d', r'), res)"
  shows "cache_ok env d' \<and> (\<forall>p. res = Inr p \<longrightarrow> (\<exists>b. view d' p = Some b \<and> digest_of env b = digest))"
proof (cases cached)
  case True
  with assms(2) cache_path_sound[OF assms(1), of remote http url digest r d' r' res] show ?thesis
    unfolding resolve_layer_content_def holds_def by simp
next
  case False
  with assms(2) fetch_sound[OF assms(1), of http url digest d' res] show ?thesis
    unfolding resolve_layer_content_def holds_def by (auto split: prod.splits)
qed

text \<open>A remote that holds other bytes under the key, and a server that has the right ones.\<close>

definition sample_cache_env :: cache_env where
  "sample_cache_env =
     \<lparr>dv_root = ''/c'', dv_fault = (\<lambda>op. None), dv_partial = 0, dv_now = 0, dv_random = ''1'', dv_dir_size = 0,
      ce_dir = ''/c'', ce_temp_dir = ''/tmp'', ce_fetch_random = ''2'', ce_pull_random = ''3'', ce_sha256 = (\<lambda>b. b)\<rparr>"

definition sample_remote :: memory where
  "sample_remote = [''inputs/sha256/61'' \<mapsto> \<lparr>mo_data = ''bad'', mo_time = 0\<rparr>]"

definition sample_http :: http where
  "sample_http = \<lparr>ht_request = (\<lambda>u. None), ht_do = (\<lambda>u. Inr (200, ''200 OK'', ([''a''], None)))\<rparr>"

definition empty_disk :: disk where
  "empty_disk = \<lparr>dk_names = Map.empty, dk_inodes = Map.empty, dk_dirs = {}, dk_next = 0\<rparr>"

lemma sample_cache_ok: "cache_ok sample_cache_env empty_disk"
proof -
  have "root_ok ''/c''" unfolding root_ok_def by (intro exI[of _ "[''c'']"]) (simp add: plain_def)
  moreover have "elsewhere sample_cache_env (fetch_name sample_cache_env)"
    by (simp add: elsewhere_def fetch_name_def sample_cache_env_def)
  ultimately show ?thesis
    by (simp add: cache_ok_def sample_cache_env_def empty_disk_def disk_ok_def cache_sound_def disk_content_def view_def)
qed

lemma sample_digits: "char_of (54::nat) = CHR ''6''" "char_of (49::nat) = CHR ''1''"
  by code_simp+

lemma sample_cache_path:
  "disk_path ''/c'' ''inputs/sha256/61'' = Inr ''/c/inputs/sha256/61''" "path_dir ''/c/inputs/sha256/61'' = ''/c/inputs/sha256''"
  "store_key namespace_inputs ''sha256:61'' = Inr ''inputs/sha256/61''" "path_join ''/c'' ''inputs/sha256/61'' = ''/c/inputs/sha256/61''"
  by code_simp+

lemma sample_not_parent: "''/c/inputs/sha256/61'' \<notin> parents ''/c/inputs/sha256''"
proof
  assume "''/c/inputs/sha256/61'' \<in> parents ''/c/inputs/sha256''"
  then obtain i where "''/c/inputs/sha256/61'' = take i ''/c/inputs/sha256''" unfolding parents_def by auto
  then have "length ''/c/inputs/sha256/61'' \<le> length ''/c/inputs/sha256''" by (metis length_take min.cobounded1)
  then show False by simp
qed

lemma sample_cache_run:
  "\<exists>d'. cache_path sample_cache_env (Some (memory_store 0)) (fetch_url sample_cache_env sample_http ''u'') ''sha256:61''
       (empty_disk, sample_remote) =
     ((d', sample_remote(''inputs/sha256/61'' \<mapsto> \<lparr>mo_data = ''a'', mo_time = 0\<rparr>)), Inr ''/c/inputs/sha256/61'')"
  by (simp add: cache_path_def sample_cache_path sample_not_parent disk_store_def disk_stat_def
    cache_pull_def pull_from_remote_def memory_store_def memory_open_def sample_remote_def create_temp_def
    empty_disk_def sample_cache_env_def create_file_def append_file_def digest_of_def hex_encode_def hex_digit_def
    Let_def memory_delete_def discard_def remove_file_def pull_name_def fetch_url_def sample_http_def fetch_name_def
    cache_admit_def store_file_def open_file_def disk_write_def fill_file_def commit_file_def rename_file_def temp_name_def
    view_def memory_write_def local_path_def has_prefix_def sample_digits)

theorem layer_bytes_verified_witness:
  "\<exists>d' r' p. resolve_layer_content sample_cache_env True (Some (memory_store 0)) sample_http ''u'' ''sha256:61''
       (empty_disk, sample_remote) = ((d', r'), Inr p) \<and>
     (\<exists>b. view d' p = Some b \<and> digest_of sample_cache_env b = ''sha256:61'') \<and> r' ''inputs/sha256/61'' \<noteq> sample_remote ''inputs/sha256/61''"
proof -
  obtain d' where run: "cache_path sample_cache_env (Some (memory_store 0)) (fetch_url sample_cache_env sample_http ''u'')
      ''sha256:61'' (empty_disk, sample_remote) =
     ((d', sample_remote(''inputs/sha256/61'' \<mapsto> \<lparr>mo_data = ''a'', mo_time = 0\<rparr>)), Inr ''/c/inputs/sha256/61'')"
    using sample_cache_run by blast
  then have "resolve_layer_content sample_cache_env True (Some (memory_store 0)) sample_http ''u'' ''sha256:61''
       (empty_disk, sample_remote) =
     ((d', sample_remote(''inputs/sha256/61'' \<mapsto> \<lparr>mo_data = ''a'', mo_time = 0\<rparr>)), Inr ''/c/inputs/sha256/61'')"
    by (simp add: resolve_layer_content_def)
  from layer_bytes_verified[OF sample_cache_ok this] this show ?thesis
    by (intro exI[of _ d'] exI) (auto simp: sample_remote_def)
qed

end
