(* ===== verification/Netguard.thy ===== *)
theory Netguard
  imports Go_Base "HOL-Library.Word"
begin

section \<open>The dial guard\<close>

text \<open>
  \<^verbatim>\<open>internal/netguard/dialguard.go\<close>: which addresses a fetch may connect to. The predicates of Go's
  \<^verbatim>\<open>net.IP\<close> the guard calls are written on its bytes, four or sixteen of them. The reference
  is a list of networks in the notation of an address prefix, and the guard is shown to refuse
  exactly their members. Splitting and parsing the dialled address are parameters.
\<close>

unbundle bit_operations_syntax

subsection \<open>Addresses\<close>

type_synonym ip = "8 word list"

definition v4_prefix :: ip where
  "v4_prefix = replicate 10 0 @ [0xFF, 0xFF]"

definition to4 :: "ip \<Rightarrow> ip option" where
  "to4 ip =
     (if length ip = 4 then Some ip
      else if length ip = 16 \<and> take 12 ip = v4_prefix then Some (drop 12 ip) else None)"

definition ip_equal :: "ip \<Rightarrow> ip \<Rightarrow> bool" where
  "ip_equal a b \<longleftrightarrow>
     (if length a = length b then a = b
      else if length a = 4 \<and> length b = 16 then take 12 b = v4_prefix \<and> a = drop 12 b
      else length a = 16 \<and> length b = 4 \<and> take 12 a = v4_prefix \<and> drop 12 a = b)"

definition is_unspecified :: "ip \<Rightarrow> bool" where
  "is_unspecified ip \<longleftrightarrow> ip_equal ip (v4_prefix @ replicate 4 0) \<or> ip_equal ip (replicate 16 0)"

definition is_loopback :: "ip \<Rightarrow> bool" where
  "is_loopback ip =
     (case to4 ip of Some a \<Rightarrow> a ! 0 = 127 | None \<Rightarrow> ip_equal ip (replicate 15 0 @ [1]))"

definition is_private :: "ip \<Rightarrow> bool" where
  "is_private ip =
     (case to4 ip of
        Some a \<Rightarrow> a ! 0 = 10 \<or> (a ! 0 = 172 \<and> a ! 1 AND 0xF0 = 16) \<or> (a ! 0 = 192 \<and> a ! 1 = 168)
      | None \<Rightarrow> length ip = 16 \<and> ip ! 0 AND 0xFE = 0xFC)"

definition is_link_local_multicast :: "ip \<Rightarrow> bool" where
  "is_link_local_multicast ip =
     (case to4 ip of
        Some a \<Rightarrow> a ! 0 = 224 \<and> a ! 1 = 0 \<and> a ! 2 = 0
      | None \<Rightarrow> length ip = 16 \<and> ip ! 0 = 0xFF \<and> ip ! 1 AND 0x0F = 0x02)"

definition is_link_local_unicast :: "ip \<Rightarrow> bool" where
  "is_link_local_unicast ip =
     (case to4 ip of
        Some a \<Rightarrow> a ! 0 = 169 \<and> a ! 1 = 254
      | None \<Rightarrow> length ip = 16 \<and> ip ! 0 = 0xFE \<and> ip ! 1 AND 0xC0 = 0x80)"

subsection \<open>The guard\<close>

record dial_guard =
  dg_deny_private :: bool

definition link_local_reason :: string where
  "link_local_reason = ''link-local addresses host cloud metadata endpoints, which hand out credentials''"

definition unspecified_reason :: string where
  "unspecified_reason = ''the unspecified address is not a layer source''"

definition loopback_reason :: string where
  "loopback_reason = ''loopback reaches the controller own process (--fetch-deny-private)''"

definition private_reason :: string where
  "private_reason = ''private addresses are refused by --fetch-deny-private''"

definition cgnat_reason :: string where
  "cgnat_reason = ''carrier-grade NAT addresses are refused by --fetch-deny-private''"

definition blocked :: "dial_guard \<Rightarrow> ip \<Rightarrow> string" where
  "blocked g ip =
     (if is_link_local_unicast ip \<or> is_link_local_multicast ip then link_local_reason
      else if is_unspecified ip then unspecified_reason
      else if \<not> dg_deny_private g then []
      else if is_loopback ip then loopback_reason
      else if is_private ip then private_reason
      else if to4 ip \<noteq> None \<and> ip ! (length ip - 4) = 100 \<and> ip ! (length ip - 3) AND 0xC0 = 64
      then cgnat_reason
      else [])"

record dial_env =
  de_split :: "string \<Rightarrow> string res"
  de_parse :: "string \<Rightarrow> ip option"
  de_show :: "ip \<Rightarrow> string"

definition blocked_address :: "string \<Rightarrow> string \<Rightarrow> string \<Rightarrow> error" where
  "blocked_address host shown reason =
     Msg (''refusing to fetch from '' @ host @ '' ('' @ shown @ ''): '' @ reason)"

text \<open>The hook of the dialer, called with the resolved address right before it connects.\<close>

definition dial_control :: "dial_env \<Rightarrow> dial_guard \<Rightarrow> string \<Rightarrow> string \<Rightarrow> unit res" where
  "dial_control env g host address =
     bind_res (de_split env address) (\<lambda>h.
     case de_parse env h of
       None \<Rightarrow> Inl (Msg (''unparseable address '' @ address))
     | Some ip \<Rightarrow>
         (let reason = blocked g ip in
          if reason \<noteq> [] then Inl (blocked_address host (de_show env ip) reason) else Inr ()))"

text \<open>The dialer of the standard library is given the hook and calls it for every address it tries.\<close>

definition dial_context ::
    "dial_env \<Rightarrow> ((string \<Rightarrow> unit res) \<Rightarrow> string \<Rightarrow> 'c res) \<Rightarrow> dial_guard \<Rightarrow> string \<Rightarrow> 'c res" where
  "dial_context env dial g addr =
     bind_res (de_split env addr) (\<lambda>host. dial (dial_control env g host) addr)"

subsection \<open>Networks\<close>

text \<open>An address in its sixteen-byte form, bit by bit, and a network as the bits its members begin with.\<close>

definition byte_bits :: "8 word \<Rightarrow> bool list" where
  "byte_bits b = map (bit b) [7, 6, 5, 4, 3, 2, 1, 0]"

definition ip_bits :: "ip \<Rightarrow> bool list" where
  "ip_bits ip = concat (map byte_bits (if length ip = 4 then v4_prefix @ ip else ip))"

definition v4_net :: "8 word list \<Rightarrow> nat \<Rightarrow> bool list" where
  "v4_net bytes n = concat (map byte_bits v4_prefix) @ take n (concat (map byte_bits bytes))"

definition v6_net :: "8 word list \<Rightarrow> nat \<Rightarrow> bool list" where
  "v6_net bytes n = take n (concat (map byte_bits bytes))"

definition in_network :: "ip \<Rightarrow> bool list \<Rightarrow> bool" where
  "in_network ip net = has_prefix (ip_bits ip) net"

text \<open>Link-local and unspecified: 169.254/16, 224.0.0/24, fe80::/10, ff02::/16 with any flags, 0.0.0.0, ::.\<close>

definition denied_networks :: "bool list list" where
  "denied_networks =
     [v4_net [169, 254] 16, v4_net [224, 0, 0] 24, v6_net [0xFE, 0x80] 10] @
     map (\<lambda>f. v6_net [0xFF, f] 16) [0x02, 0x12, 0x22, 0x32, 0x42, 0x52, 0x62, 0x72, 0x82, 0x92, 0xA2, 0xB2, 0xC2,
       0xD2, 0xE2, 0xF2] @
     [v4_net (replicate 4 0) 32, v6_net (replicate 16 0) 128]"

text \<open>127/8, ::1, 10/8, 172.16/12, 192.168/16, fc00::/7, 100.64/10.\<close>

definition private_networks :: "bool list list" where
  "private_networks =
     [v4_net [127] 8, v6_net (replicate 15 0 @ [1]) 128, v4_net [10] 8, v4_net [172, 16] 12,
      v4_net [192, 168] 16, v6_net [0xFC] 7, v4_net [100, 64] 10]"

subsection \<open>What the guard refuses\<close>

lemma byte_eq_iff: "a = b \<longleftrightarrow> byte_bits a = byte_bits b" for a b :: "8 word"
proof
  assume eq: "byte_bits a = byte_bits b"
  show "a = b"
  proof (rule bit_word_eqI)
    fix n assume "n < LENGTH(8)"
    then have "n \<in> {0, 1, 2, 3, 4, 5, 6, 7}" by auto
    with eq show "bit a n = bit b n" by (auto simp: byte_bits_def)
  qed
qed simp

lemma bits_of_byte: "byte_bits b = [bit b 7, bit b 6, bit b 5, bit b 4, bit b 3, bit b 2, bit b 1, bit b 0]"
  by (simp add: byte_bits_def)

lemma byte_masks:
  "b AND 0xF0 = 16 \<longleftrightarrow> take 4 (byte_bits b) = take 4 (byte_bits 16)"
  "b AND 0xFE = 0xFC \<longleftrightarrow> take 7 (byte_bits b) = take 7 (byte_bits 0xFC)"
  "b AND 0xC0 = 0x80 \<longleftrightarrow> take 2 (byte_bits b) = take 2 (byte_bits 0x80)"
  "b AND 0xC0 = 64 \<longleftrightarrow> take 2 (byte_bits b) = take 2 (byte_bits 64)"
  "b AND 0x0F = 0x02 \<longleftrightarrow> drop 4 (byte_bits b) = [False, False, True, False]"
  by (simp_all add: byte_eq_iff bits_of_byte bit_and_iff)

abbreviation bits_of :: "ip \<Rightarrow> bool list" where
  "bits_of bs \<equiv> concat (map byte_bits bs)"

lemma has_prefix_bits: "has_prefix (bits_of xs) (bits_of ys) \<longleftrightarrow> has_prefix xs ys"
proof (induction ys arbitrary: xs)
  case Nil
  then show ?case by (simp add: has_prefix_def)
next
  case (Cons y ys)
  show ?case
  proof (cases xs)
    case Nil
    then show ?thesis by (simp add: has_prefix_def bits_of_byte)
  next
    case (Cons x xs')
    have "has_prefix (bits_of (x # xs')) (bits_of (y # ys)) \<longleftrightarrow>
        byte_bits x = byte_bits y \<and> has_prefix (bits_of xs') (bits_of ys)"
      by (auto simp: has_prefix_def bits_of_byte)
    with Cons.IH[of xs'] Cons show ?thesis by (simp add: has_prefix_def byte_eq_iff[symmetric])
  qed
qed

lemma has_prefix_cancel [simp]: "has_prefix (a @ s) (a @ p) \<longleftrightarrow> has_prefix s p"
  by (simp add: has_prefix_def)

lemma length_v4_prefix [simp]: "length v4_prefix = 12"
  by (simp add: v4_prefix_def)

lemma to4_Some: "to4 ip = Some q \<Longrightarrow> length q = 4 \<and> ip_bits ip = bits_of v4_prefix @ bits_of q"
proof -
  assume q: "to4 ip = Some q"
  have "ip = v4_prefix @ drop 12 ip" if "length ip = 16" "take 12 ip = v4_prefix"
    using that by (metis append_take_drop_id)
  with q show ?thesis by (auto simp: to4_def ip_bits_def split: if_splits)
qed

lemma v4_in_v4_net:
  "to4 ip = Some q \<Longrightarrow> in_network ip (v4_net bs n) \<longleftrightarrow> has_prefix (bits_of q) (take n (bits_of bs))"
  by (simp add: in_network_def v4_net_def to4_Some)

lemma v4_in_v6_net:
  assumes "to4 ip = Some q" "bit b 7" "0 < n"
  shows "\<not> in_network ip (v6_net (b # bs) n)"
proof -
  obtain zs where z: "bits_of v4_prefix = False # zs" by (simp add: v4_prefix_def bits_of_byte numeral_eq_Suc)
  obtain ns where n: "take n (bits_of (b # bs)) = True # ns"
    using assms(2,3) by (cases n) (simp_all add: bits_of_byte)
  have "\<not> has_prefix (bits_of v4_prefix @ bits_of q) (take n (bits_of (b # bs)))"
    unfolding z n by (simp add: has_prefix_def)
  with to4_Some[OF assms(1)] show ?thesis by (simp add: in_network_def v6_net_def)
qed

lemma long_v6_net: "length bs = 16 \<Longrightarrow> v6_net bs 128 = bits_of bs"
  by (simp add: v6_net_def length_concat comp_def bits_of_byte sum_list_triv)

lemma in_long_v6_net:
  assumes "length bs = 16"
  shows "in_network ip (v6_net bs 128) \<longleftrightarrow> has_prefix (if length ip = 4 then v4_prefix @ ip else ip) bs"
  unfolding in_network_def ip_bits_def long_v6_net[OF assms] by (rule has_prefix_bits)

lemma not_v4_in_v4_net: "length ip = 16 \<Longrightarrow> to4 ip = None \<Longrightarrow> \<not> in_network ip (v4_net bs n)"
proof
  assume l: "length ip = 16" "to4 ip = None" and "in_network ip (v4_net bs n)"
  then have "has_prefix (bits_of ip) (bits_of v4_prefix)"
    unfolding in_network_def v4_net_def ip_bits_def by (auto simp: has_prefix_iff)
  then have "take 12 ip = v4_prefix" unfolding has_prefix_bits by (simp add: has_prefix_def)
  with l show False by (simp add: to4_def)
qed

lemma not_v4_in_v6_net: "length ip = 16 \<Longrightarrow> in_network ip (v6_net bs n) \<longleftrightarrow> has_prefix (bits_of ip) (take n (bits_of bs))"
  by (simp add: in_network_def v6_net_def ip_bits_def)

lemma length4: "length q = 4 \<Longrightarrow> \<exists>a b c d. q = [a, b, c, d]"
  by (auto simp: numeral_eq_Suc length_Suc_conv)

lemma v4_facts:
  assumes q: "to4 ip = Some q"
  shows "in_network ip (v4_net [169, 254] 16) \<longleftrightarrow> q ! 0 = 169 \<and> q ! 1 = 254"
    "in_network ip (v4_net [224, 0, 0] 24) \<longleftrightarrow> q ! 0 = 224 \<and> q ! 1 = 0 \<and> q ! 2 = 0"
    "in_network ip (v4_net (replicate 4 0) 32) \<longleftrightarrow> q = replicate 4 0"
    "in_network ip (v4_net [127] 8) \<longleftrightarrow> q ! 0 = 127"
    "in_network ip (v4_net [10] 8) \<longleftrightarrow> q ! 0 = 10"
    "in_network ip (v4_net [172, 16] 12) \<longleftrightarrow> q ! 0 = 172 \<and> q ! 1 AND 0xF0 = 16"
    "in_network ip (v4_net [192, 168] 16) \<longleftrightarrow> q ! 0 = 192 \<and> q ! 1 = 168"
    "in_network ip (v4_net [100, 64] 10) \<longleftrightarrow> q ! 0 = 100 \<and> q ! 1 AND 0xC0 = 64"
proof -
  obtain a b c d where abcd: "q = [a, b, c, d]" using to4_Some[OF q] length4 by blast
  note s = v4_in_v4_net[OF q] abcd has_prefix_def byte_eq_iff bits_of_byte bit_and_iff
  show "in_network ip (v4_net [169, 254] 16) \<longleftrightarrow> q ! 0 = 169 \<and> q ! 1 = 254" by (simp add: s)
  show "in_network ip (v4_net [224, 0, 0] 24) \<longleftrightarrow> q ! 0 = 224 \<and> q ! 1 = 0 \<and> q ! 2 = 0" by (simp add: s)
  show "in_network ip (v4_net (replicate 4 0) 32) \<longleftrightarrow> q = replicate 4 0" by (simp add: s numeral_eq_Suc)
  show "in_network ip (v4_net [127] 8) \<longleftrightarrow> q ! 0 = 127" by (simp add: s)
  show "in_network ip (v4_net [10] 8) \<longleftrightarrow> q ! 0 = 10" by (simp add: s)
  show "in_network ip (v4_net [172, 16] 12) \<longleftrightarrow> q ! 0 = 172 \<and> q ! 1 AND 0xF0 = 16" by (auto simp: s)
  show "in_network ip (v4_net [192, 168] 16) \<longleftrightarrow> q ! 0 = 192 \<and> q ! 1 = 168" by (simp add: s)
  show "in_network ip (v4_net [100, 64] 10) \<longleftrightarrow> q ! 0 = 100 \<and> q ! 1 AND 0xC0 = 64" by (auto simp: s)
qed

lemma v6_facts:
  assumes l: "length ip = 16"
  shows "in_network ip (v6_net [0xFE, 0x80] 10) \<longleftrightarrow> ip ! 0 = 0xFE \<and> ip ! 1 AND 0xC0 = 0x80"
    "in_network ip (v6_net [0xFC] 7) \<longleftrightarrow> ip ! 0 AND 0xFE = 0xFC"
    "in_network ip (v6_net [0xFF, f] 16) \<longleftrightarrow> ip ! 0 = 0xFF \<and> ip ! 1 = f"
proof -
  obtain a b cs where ab: "ip = a # b # cs" using l by (auto simp: numeral_eq_Suc length_Suc_conv)
  note s = not_v4_in_v6_net[OF l[unfolded ab]] has_prefix_def byte_eq_iff bits_of_byte bit_and_iff
  show "in_network ip (v6_net [0xFE, 0x80] 10) \<longleftrightarrow> ip ! 0 = 0xFE \<and> ip ! 1 AND 0xC0 = 0x80" unfolding ab by (auto simp: s)
  show "in_network ip (v6_net [0xFC] 7) \<longleftrightarrow> ip ! 0 AND 0xFE = 0xFC" unfolding ab by (auto simp: s)
  show "in_network ip (v6_net [0xFF, f] 16) \<longleftrightarrow> ip ! 0 = 0xFF \<and> ip ! 1 = f" unfolding ab by (auto simp: s)
qed

lemma multicast_flags: "b AND 0x0F = 0x02 \<longleftrightarrow>
    b \<in> {0x02, 0x12, 0x22, 0x32, 0x42, 0x52, 0x62, 0x72, 0x82, 0x92, 0xA2, 0xB2, 0xC2, 0xD2, 0xE2, 0xF2}" for b :: "8 word"
  by (cases "bit b 7"; cases "bit b 6"; cases "bit b 5"; cases "bit b 4")
    (simp_all add: byte_eq_iff bits_of_byte bit_and_iff)


lemma ones_in_v4_prefix: "0xFF \<in> set v4_prefix" "(0xFF :: 8 word) \<noteq> 0"
  by (simp_all add: v4_prefix_def)

lemma no_ones: "0xFF \<notin> set (replicate n (0 :: 8 word))"
  by simp

lemma to4_canonical:
  "to4 ip = Some q \<Longrightarrow> (if length ip = 4 then v4_prefix @ ip else ip) = v4_prefix @ q"
  by (auto simp: to4_def split: if_splits) (metis append_take_drop_id)

lemma v4_not_long_v6_net:
  assumes "to4 ip = Some q" and "length bs = 16" "take 12 bs = replicate 12 0"
  shows "\<not> in_network ip (v6_net bs 128)"
proof
  assume "in_network ip (v6_net bs 128)"
  then have "take 16 (v4_prefix @ q) = bs"
    unfolding in_long_v6_net[OF assms(2)] to4_canonical[OF assms(1)] using assms(2) by (simp add: has_prefix_def)
  then have "take 12 bs = v4_prefix" by auto
  with assms(3) show False using ones_in_v4_prefix no_ones by metis
qed

lemma bits_high: "bit (0xFE :: 8 word) 7" "bit (0xFF :: 8 word) 7" "bit (0xFC :: 8 word) 7"
  by simp_all

lemma v4_unspecified: "to4 ip = Some q \<Longrightarrow> is_unspecified ip \<longleftrightarrow> q = replicate 4 0"
proof -
  assume q: "to4 ip = Some q"
  have ne: "v4_prefix @ q \<noteq> replicate 16 0" 
    using ones_in_v4_prefix(1) no_ones by (metis Un_iff set_append)
  consider "length ip = 4" "q = ip" | "length ip = 16" "ip = v4_prefix @ q" "length q = 4"
  proof (cases "length ip = 4")
    case True
    then have "q = ip" using q by (simp add: to4_def)
    with True that(1) show thesis by blast
  next
    case False
    then have "ip = v4_prefix @ q" using to4_canonical[OF q] by simp
    moreover have "length ip = 16" using q False by (simp add: to4_def split: if_splits)
    ultimately show thesis using that(2) to4_Some[OF q] by blast
  qed
  then show ?thesis
  proof cases
    case 1
    then show ?thesis by (auto simp: is_unspecified_def ip_equal_def)
  next
    case 2
    with ne show ?thesis by (simp add: is_unspecified_def ip_equal_def)
  qed
qed

lemma v6_unspecified:
  assumes "to4 ip = None" "length ip = 16"
  shows "is_unspecified ip \<longleftrightarrow> ip = replicate 16 0"
proof -
  have "ip \<noteq> v4_prefix @ x" for x using assms by (auto simp: to4_def)
  then show ?thesis using assms(2) by (simp add: is_unspecified_def ip_equal_def)
qed

lemma denied_iff:
  assumes l: "length ip = 4 \<or> length ip = 16"
  shows "is_link_local_unicast ip \<or> is_link_local_multicast ip \<or> is_unspecified ip \<longleftrightarrow>
      list_ex (in_network ip) denied_networks"
proof (cases "to4 ip")
  case (Some q)
  show ?thesis
    unfolding denied_networks_def using v4_not_long_v6_net[OF Some, of "replicate 16 0"]
    by (simp add: is_link_local_unicast_def is_link_local_multicast_def Some v4_unspecified v4_facts[OF Some]
        v4_in_v6_net[OF Some] bits_high)
next
  case None
  with l have n: "length ip = 16" by (auto simp: to4_def)
  have z: "in_network ip (v6_net (replicate 16 0) 128) \<longleftrightarrow> ip = replicate 16 0"
    using n by (simp add: in_long_v6_net has_prefix_def)
  have m: "list_ex (in_network ip) (map (\<lambda>f. v6_net [0xFF, f] 16) [0x02, 0x12, 0x22, 0x32, 0x42, 0x52, 0x62, 0x72,
      0x82, 0x92, 0xA2, 0xB2, 0xC2, 0xD2, 0xE2, 0xF2]) \<longleftrightarrow> ip ! 0 = 0xFF \<and> ip ! 1 AND 0x0F = 0x02"
    unfolding multicast_flags by (cases "ip ! 0 = 0xFF") (simp_all add: v6_facts(3)[OF n])
  show ?thesis
    unfolding denied_networks_def list_ex_append m
    by (simp add: is_link_local_unicast_def is_link_local_multicast_def None n v6_unspecified not_v4_in_v4_net z
        v6_facts)
qed

lemma private_iff:
  assumes l: "length ip = 4 \<or> length ip = 16"
  shows "is_loopback ip \<or> is_private ip \<or>
        (to4 ip \<noteq> None \<and> ip ! (length ip - 4) = 100 \<and> ip ! (length ip - 3) AND 0xC0 = 64) \<longleftrightarrow>
      list_ex (in_network ip) private_networks"
proof (cases "to4 ip")
  case (Some q)
  have "ip ! (length ip - 4) = q ! 0" "ip ! (length ip - 3) = q ! 1"
    using Some by (auto simp: to4_def split: if_splits)
  then show ?thesis
    unfolding private_networks_def using v4_not_long_v6_net[OF Some, of "replicate 15 0 @ [1]"]
    by (auto simp: is_loopback_def is_private_def Some v4_facts[OF Some] v4_in_v6_net[OF Some] bits_high)
next
  case None
  with l have n: "length ip = 16" by (auto simp: to4_def)
  have z: "in_network ip (v6_net (replicate 15 0 @ [1]) 128) \<longleftrightarrow> ip = replicate 15 0 @ [1]"
    using n by (simp add: in_long_v6_net has_prefix_def)
  show ?thesis
    unfolding private_networks_def
    by (auto simp: is_loopback_def is_private_def None n ip_equal_def not_v4_in_v4_net z v6_facts)
qed

text \<open>
  Property C19. The guard refuses an address exactly when it lies in a refused network, however it is
  written (four bytes, or an IPv4 address in its IPv6 form): link-local and unspecified addresses
  always, and with the deny-private option also loopback, private, unique-local and carrier-grade NAT
  addresses. The hook lets a connection through only for an address outside all of these.
\<close>

theorem guard_exact:
  assumes l: "length ip = 4 \<or> length ip = 16"
  shows "(blocked g ip = [] \<longleftrightarrow>
      \<not> list_ex (in_network ip) (denied_networks @ (if dg_deny_private g then private_networks else []))) \<and>
    (de_split env address = Inr h \<and> de_parse env h = Some ip \<longrightarrow>
      (dial_control env g host address = Inr () \<longleftrightarrow> blocked g ip = []))"
proof -
  have r: "link_local_reason \<noteq> []" "unspecified_reason \<noteq> []" "loopback_reason \<noteq> []" "private_reason \<noteq> []"
    "cgnat_reason \<noteq> []" by code_simp+
  have b: "blocked g ip = [] \<longleftrightarrow> \<not> (is_link_local_unicast ip \<or> is_link_local_multicast ip \<or> is_unspecified ip) \<and>
      (dg_deny_private g \<longrightarrow> \<not> (is_loopback ip \<or> is_private ip \<or>
        (to4 ip \<noteq> None \<and> ip ! (length ip - 4) = 100 \<and> ip ! (length ip - 3) AND 0xC0 = 64)))"
    unfolding blocked_def using r by simp
  have "blocked g ip = [] \<longleftrightarrow>
      \<not> list_ex (in_network ip) (denied_networks @ (if dg_deny_private g then private_networks else []))"
    unfolding b denied_iff[OF l] private_iff[OF l] by simp
  then show ?thesis by (auto simp: dial_control_def Let_def)
qed

theorem guard_exact_witness:
  "blocked \<lparr>dg_deny_private = False\<rparr> (v4_prefix @ [169, 254, 169, 254]) \<noteq> [] \<and>
   blocked \<lparr>dg_deny_private = False\<rparr> [10, 0, 0, 7] = [] \<and> blocked \<lparr>dg_deny_private = True\<rparr> [10, 0, 0, 7] \<noteq> []"
proof -
  have "in_network (v4_prefix @ [169, 254, 169, 254]) (v4_net [169, 254] 16)"
    "\<not> list_ex (in_network [10, 0, 0, 7]) denied_networks" "in_network [10, 0, 0, 7] (v4_net [10] 8)"
    by (simp_all add: in_network_def ip_bits_def v4_net_def v6_net_def denied_networks_def v4_prefix_def
        bits_of_byte has_prefix_def numeral_eq_Suc)
  moreover have "length (v4_prefix @ [169, 254, 169, 254]) = 16" "length [10, 0, 0, 7 :: 8 word] = 4" by simp_all
  ultimately show ?thesis
    using conjunct1[OF guard_exact, of "v4_prefix @ [169, 254, 169, 254]" "\<lparr>dg_deny_private = False\<rparr>"]
      conjunct1[OF guard_exact, of "[10, 0, 0, 7]" "\<lparr>dg_deny_private = False\<rparr>"]
      conjunct1[OF guard_exact, of "[10, 0, 0, 7]" "\<lparr>dg_deny_private = True\<rparr>"]
    by (simp add: denied_networks_def private_networks_def)
qed

end
