(* ===== verification/Startup.thy ===== *)
theory Startup
  imports Build_Controller Layer_Cache Netguard
begin

section \<open>Starting the two controllers\<close>

text \<open>
  \<^verbatim>\<open>internal/opts\<close>, the options both binaries share, and what \<^verbatim>\<open>cmd/oci-composer/main.go\<close> and
  \<^verbatim>\<open>cmd/oci-builder/main.go\<close> make of them: what is refused before anything runs, in the order of the
  code, and how the controllers are wired otherwise. The signing key is loaded here, from
  \<^verbatim>\<open>internal/attest/cluster.go\<close> and \<^verbatim>\<open>sign.go\<close>, and the trusted roots from
  \<^verbatim>\<open>internal/reconciler/transport.go\<close>. Files, the cluster, the parsing of keys and certificates and the
  manager are parameters; usage texts and logging are left out.
\<close>

subsection \<open>Options\<close>

record registry_flags =
  rg_default :: string
  rg_public :: string
  rg_push_secret :: string
  rg_insecure :: string
  rg_ca_file :: string
  rg_sbom :: bool
  rg_provenance :: bool
  rg_signing_secret :: string

record export_flags =
  ef_namespaces :: string
  ef_labels :: string
  ef_allowed_labels :: string
  ef_allowed_annotations :: string

record 'k start_env =
  se_namespace :: string
  se_getenv :: "string \<Rightarrow> string"
  se_read_file :: "string \<Rightarrow> string res"
  se_system_roots :: "string list res"
  se_append_certs :: "string list \<Rightarrow> string \<Rightarrow> string list option"
  se_http_transport :: bool
  se_kubeconfig :: "error option"
  se_client :: "error option"
  se_secret :: "string \<Rightarrow> string \<Rightarrow> (string \<rightharpoonup> string) res"
  se_pem_decode :: "string \<Rightarrow> string option"
  se_pem_encode :: "string \<Rightarrow> string"
  se_decrypt :: "string \<Rightarrow> string \<Rightarrow> string res"
  se_parse_key :: "string \<Rightarrow> 'k res"
  se_is_ecdsa :: "'k \<Rightarrow> bool"
  se_signer :: "'k \<Rightarrow> signing_key res"
  se_public_pem :: "'k \<Rightarrow> string res"
  se_parse_url :: "string \<Rightarrow> (string \<times> string) res"
  se_s3_client :: "string \<Rightarrow> s3_config \<Rightarrow> error option"
  se_abs :: "string \<Rightarrow> string res"
  se_mkdir :: "string \<Rightarrow> error option"
  se_step :: "string \<Rightarrow> error option"

definition split_list :: "string \<Rightarrow> string list" where
  "split_list s = filter (\<lambda>p. p \<noteq> []) (map trim_space (split_on (CHR '','') s))"

text \<open>The map of \<^verbatim>\<open>ParseLabels\<close> as the list of its pairs.\<close>

fun label_pairs :: "string list \<Rightarrow> (string \<times> string) list \<Rightarrow> (string \<times> string) list" where
  "label_pairs [] ls = ls"
| "label_pairs (pair # ps) ls =
     (case cut (CHR ''='') (trim_space pair) of
        None \<Rightarrow> label_pairs ps ls
      | Some (k, v) \<Rightarrow> if k = [] then label_pairs ps ls else label_pairs ps (AList.update k v ls))"

definition export_options_of :: "export_flags \<Rightarrow> export_options" where
  "export_options_of f =
     \<lparr>eo_namespaces = split_list (ef_namespaces f), eo_watch_labels = label_pairs (split_on (CHR '','') (ef_labels f)) [],
      eo_allowed_labels = split_list (ef_allowed_labels f), eo_allowed_annotations = split_list (ef_allowed_annotations f)\<rparr>"

definition registry_default :: "registry_flags \<Rightarrow> string \<Rightarrow> default_registry" where
  "registry_default o' ns =
     \<lparr>dr_host = rg_default o', dr_public = rg_public o', dr_secret = rg_push_secret o', dr_namespace = ns\<rparr>"

definition registry_insecure :: "registry_flags \<Rightarrow> string list" where
  "registry_insecure o' = split_list (rg_insecure o')"

subsection \<open>Trust\<close>

record transport =
  tp_roots :: "string list"
  tp_min_tls :: string

definition ca_transport :: "'k start_env \<Rightarrow> string \<Rightarrow> transport res" where
  "ca_transport env ca_file =
     (case se_read_file env ca_file of
        Inl e \<Rightarrow> Inl (Wrap ''reading registry CA'' e)
      | Inr pem \<Rightarrow>
          (case se_system_roots env of
             Inl e \<Rightarrow> Inl (Wrap ''reading system CA pool'' e)
           | Inr roots \<Rightarrow>
               (case se_append_certs env roots pem of
                  None \<Rightarrow> Inl (Msg (''no certificate found in '' @ ca_file))
                | Some pool \<Rightarrow>
                    if \<not> se_http_transport env
                    then Inl (Msg (''go-containerregistry's default transport is no longer an *http.Transport''))
                    else Inr \<lparr>tp_roots = pool, tp_min_tls = ''1.2''\<rparr>)))"

definition registry_transport :: "'k start_env \<Rightarrow> registry_flags \<Rightarrow> (transport option \<times> string) res" where
  "registry_transport env o' =
     (if rg_ca_file o' = [] then Inr (None, [])
      else (case ca_transport env (rg_ca_file o') of
          Inl e \<Rightarrow> Inl e
        | Inr rt \<Rightarrow>
            (case se_read_file env (rg_ca_file o') of
               Inl e \<Rightarrow> Inl (Wrap ''reading the registry CA'' e)
             | Inr ca \<Rightarrow> Inr (Some rt, ca))))"

subsection \<open>The signing key\<close>

definition self_check_probe :: string where
  "self_check_probe = ''kube-oci-composer signing self-check''"

definition self_check :: "signing_key \<Rightarrow> error option" where
  "self_check k =
     (case sk_sign k self_check_probe of
        Inl e \<Rightarrow> Some (Wrap ''the signing key cannot sign'' e)
      | Inr sig \<Rightarrow>
          if sk_verify k sig self_check_probe then None
          else Some (Msg ''the signing key produced a signature it cannot verify''))"

definition parse_private_key :: "'k start_env \<Rightarrow> string \<Rightarrow> 'k res" where
  "parse_private_key env bare =
     (case se_parse_key env bare of
        Inr k \<Rightarrow> Inr k
      | Inl e \<Rightarrow>
          (case se_parse_key env (se_pem_encode env bare) of
             Inr k \<Rightarrow> Inr k
           | Inl e' \<Rightarrow> Inl (Wrap ''parsing the signing key'' e')))"

definition load_key :: "'k start_env \<Rightarrow> (string \<rightharpoonup> string) \<Rightarrow> signing_key res" where
  "load_key env data =
     (case data ''cosign.key'' of
        None \<Rightarrow> Inl (Msg ''secret has no cosign.key; create it with `cosign generate-key-pair k8s://<namespace>/<name>`'')
      | Some raw \<Rightarrow>
          (case se_pem_decode env raw of
             None \<Rightarrow> Inl (Msg ''cosign.key is not a PEM block'')
           | Some block \<Rightarrow>
               (case se_decrypt env block (case data ''cosign.password'' of None \<Rightarrow> [] | Some p \<Rightarrow> p) of
                  Inl e \<Rightarrow> Inl (Wrap ''decrypting the signing key (wrong cosign.password?)'' e)
                | Inr bare \<Rightarrow>
                    bind_res (parse_private_key env bare) (\<lambda>priv.
                    if \<not> se_is_ecdsa env priv then Inl (Msg ''the signing key is not ECDSA; cosign uses ECDSA-P256'')
                    else (case se_signer env priv of
                        Inl e \<Rightarrow> Inl (Wrap ''building the signer'' e)
                      | Inr k \<Rightarrow>
                          (case se_public_pem env priv of
                             Inl e \<Rightarrow> Inl (Wrap ''marshalling the public key'' e)
                           | Inr pub \<Rightarrow>
                               (case self_check k of
                                  Some e \<Rightarrow> Inl e
                                | None \<Rightarrow>
                                    (case data ''cosign.pub'' of
                                       None \<Rightarrow> Inr k
                                     | Some declared \<Rightarrow>
                                         if trim_space declared \<noteq> trim_space pub
                                         then Inl (Msg (''cosign.pub does not match the public half of cosign.key; '' @
                                           ''the Secret holds a mismatched pair''))
                                         else Inr k))))))))"

definition load_key_from_cluster :: "'k start_env \<Rightarrow> string \<Rightarrow> string \<Rightarrow> signing_key res" where
  "load_key_from_cluster env ns name =
     (case se_kubeconfig env of
        Some e \<Rightarrow> Inl (Wrap ''reading the kubeconfig'' e)
      | None \<Rightarrow>
          (case se_client env of
             Some e \<Rightarrow> Inl (Wrap ''building a client'' e)
           | None \<Rightarrow>
               (case se_secret env ns name of
                  Inl e \<Rightarrow> Inl (Wrap (''reading '' @ ns @ ''/'' @ name) e)
                | Inr data \<Rightarrow> load_key env data)))"

definition registry_attestor :: "'k start_env \<Rightarrow> registry_flags \<Rightarrow> string \<Rightarrow> attestor res" where
  "registry_attestor env o' ns =
     (let a = \<lparr>at_sbom = rg_sbom o', at_provenance = rg_provenance o', at_key = None\<rparr> in
      if rg_signing_secret o' = [] then Inr a
      else if ns = [] then Inl (Msg ''POD_NAMESPACE is unset, so the signing key cannot be read'')
      else (case load_key_from_cluster env ns (rg_signing_secret o') of
          Inl e \<Rightarrow> Inl e
        | Inr k \<Rightarrow> Inr (a\<lparr>at_key := Some k\<rparr>)))"


subsection \<open>What both binaries set up\<close>

record publishing =
  pb_transport :: "transport option"
  pb_ca :: string
  pb_attestor :: attestor
  pb_default :: default_registry
  pb_insecure :: "string list"

definition set_up_publishing :: "'k start_env \<Rightarrow> registry_flags \<Rightarrow> publishing res" where
  "set_up_publishing env o' =
     (case registry_transport env o' of
        Inl e \<Rightarrow> Inl (Wrap ''unable to trust the registry CA'' e)
      | Inr (rt, ca) \<Rightarrow>
          (case registry_attestor env o' (se_namespace env) of
             Inl e \<Rightarrow> Inl (Wrap ''unable to set up supply-chain signing'' e)
           | Inr a \<Rightarrow>
               (let d = registry_default o' (se_namespace env) in
                if dr_secret d \<noteq> [] \<and> dr_namespace d = []
                then Inl (Msg (''POD_NAMESPACE is unset, so the default push credential cannot be read; '' @
                  ''set it from the downward API''))
                else Inr \<lparr>pb_transport = rt, pb_ca = ca, pb_attestor = a, pb_default = d,
                  pb_insecure = registry_insecure o'\<rparr>)))"

text \<open>A step of the manager's setup that may fail.\<close>

definition step :: "'k start_env \<Rightarrow> string \<Rightarrow> unit res" where
  "step env name = (case se_step env name of None \<Rightarrow> Inr () | Some e \<Rightarrow> Inl (Wrap name e))"

subsection \<open>The composer\<close>

record manager_options =
  mo_metrics :: string
  mo_probe :: string
  mo_leader_elect :: bool
  mo_election_id :: string

record composer_flags =
  cf_metrics :: string
  cf_probe :: string
  cf_leader_elect :: bool
  cf_version :: bool
  cf_registry :: registry_flags
  cf_export :: export_flags
  cf_cache_dir :: string
  cf_s3_endpoint :: string
  cf_s3_bucket :: string
  cf_s3_prefix :: string
  cf_s3_region :: string
  cf_s3_path_style :: bool
  cf_refresh_interval :: int
  cf_deny_private :: bool
  cf_require_pinned :: bool
  cf_keep_builds :: int
  cf_gc_keep_builds :: int

record composer_wiring =
  cw_manager :: manager_options
  cw_publishing :: publishing
  cw_export :: export_options
  cw_cache :: "string \<times> string"
  cw_remote :: "s3 option"
  cw_history_limit :: int
  cw_guard :: dial_guard
  cw_require_pinned :: bool
  cw_refresh :: "int option"

definition effective_keep_builds :: "int \<Rightarrow> int \<Rightarrow> int" where
  "effective_keep_builds keep deprecated =
     (if deprecated > 0 \<and> keep = default_history_limit then deprecated else keep)"

definition s3_config_of :: "'k start_env \<Rightarrow> composer_flags \<Rightarrow> s3_config" where
  "s3_config_of env f =
     \<lparr>sc_endpoint = cf_s3_endpoint f, sc_bucket = cf_s3_bucket f, sc_prefix = cf_s3_prefix f, sc_region = cf_s3_region f,
      sc_path_style = cf_s3_path_style f, sc_access = se_getenv env ''AWS_ACCESS_KEY_ID'',
      sc_secret = se_getenv env ''AWS_SECRET_ACCESS_KEY''\<rparr>"

definition composer_remote :: "'k start_env \<Rightarrow> composer_flags \<Rightarrow> s3 option res" where
  "composer_remote env f =
     (if cf_s3_endpoint f \<noteq> []
      then (case new_s3 (se_parse_url env) (se_s3_client env) (s3_config_of env f) of
          Inl e \<Rightarrow> Inl (Wrap ''invalid S3 configuration'' e)
        | Inr s \<Rightarrow> Inr (Some s))
      else if cf_s3_bucket f \<noteq> []
      then Inl (Msg ''--s3-bucket is set but --s3-endpoint is not; the cache would stay local'')
      else Inr None)"

text \<open>\<open>None\<close> is the version request, which ends the process before anything is checked.\<close>

definition composer_main :: "'k start_env \<Rightarrow> composer_flags \<Rightarrow> composer_wiring option res" where
  "composer_main env f =
     (if cf_version f then Inr None
      else bind_res (composer_remote env f) (\<lambda>remote.
        bind_res (case new_cache (se_abs env) (se_mkdir env) (cf_cache_dir f) of
            Inl e \<Rightarrow> Inl (Wrap ''unable to set up the layer cache'' e) | Inr c \<Rightarrow> Inr c) (\<lambda>cache.
        bind_res (step env ''unable to start manager'') (\<lambda>_.
        bind_res (set_up_publishing env (cf_registry f)) (\<lambda>pub.
        bind_res (if cf_refresh_interval f > 0 then step env ''unable to set up retention refresh'' else Inr ()) (\<lambda>_.
        bind_res (step env ''unable to create controller'') (\<lambda>_.
        bind_res (step env ''unable to set up health check'') (\<lambda>_.
        bind_res (step env ''unable to set up ready check'') (\<lambda>_.
        bind_res (step env ''problem running manager'') (\<lambda>_.
          Inr (Some \<lparr>cw_manager = \<lparr>mo_metrics = cf_metrics f, mo_probe = cf_probe f, mo_leader_elect = cf_leader_elect f,
              mo_election_id = ''oci-composer.lhns.de''\<rparr>,
            cw_publishing = pub, cw_export = export_options_of (cf_export f), cw_cache = cache, cw_remote = remote,
            cw_history_limit = effective_keep_builds (cf_keep_builds f) (cf_gc_keep_builds f),
            cw_guard = \<lparr>dg_deny_private = cf_deny_private f\<rparr>, cw_require_pinned = cf_require_pinned f,
            cw_refresh = (if cf_refresh_interval f > 0 then Some (cf_refresh_interval f) else None)\<rparr>)))))))))))"

subsection \<open>The builder\<close>

record builder_flags =
  bf_metrics :: string
  bf_probe :: string
  bf_context_addr :: string
  bf_leader_elect :: bool
  bf_version :: bool
  bf_registry :: registry_flags
  bf_export :: export_flags
  bf_builder :: string
  bf_frontend :: string
  bf_fetcher :: string
  bf_context_base :: string
  bf_epoch :: string
  bf_refresh_interval :: int
  bf_poll_interval :: int
  bf_deny_private :: bool
  bf_require_pinned :: bool
  bf_keep_builds :: int

record builder_wiring =
  bw_manager :: manager_options
  bw_publishing :: publishing
  bw_export :: export_options
  bw_job_config :: job_config
  bw_history_limit :: int
  bw_guard :: dial_guard
  bw_require_pinned :: bool
  bw_poll :: int
  bw_refresh :: "int option"
  bw_serves_contexts :: "string option"

text \<open>\<^verbatim>\<open>jobFlags\<close> has the fields of \<^verbatim>\<open>JobConfig\<close>: they are copied one by one.\<close>

definition new_job_config :: "builder_flags \<Rightarrow> publishing \<Rightarrow> job_config" where
  "new_job_config f pub =
     \<lparr>jc_builder = bf_builder f, jc_frontend = bf_frontend f, jc_fetcher = bf_fetcher f, jc_sbom = rg_sbom (bf_registry f),
      jc_provenance = rg_provenance (bf_registry f), jc_registry_ca = pb_ca pub, jc_insecure = pb_insecure pub,
      jc_context_base = bf_context_base f, jc_epoch = bf_epoch f\<rparr>"

definition pinned_image :: "string \<Rightarrow> bool" where
  "pinned_image v \<longleftrightarrow> contains v ''@sha256:''"

fun check_images :: "(string \<times> string) list \<Rightarrow> unit res" where
  "check_images [] = Inr ()"
| "check_images (x # xs) =
     (if snd x = [] then Inl (Msg (''required flag is not set: '' @ fst x))
      else if \<not> pinned_image (snd x)
      then Inl (Msg (''image must be pinned by digest: its digest is part of the build input hash, so a floating tag '' @
        ''would let an upgraded builder change output without changing the hash: '' @ fst x))
      else check_images xs)"

definition builder_main :: "'k start_env \<Rightarrow> builder_flags \<Rightarrow> builder_wiring option res" where
  "builder_main env f =
     (if bf_version f then Inr None
      else bind_res (check_images [(''--buildkit-image'', bf_builder f), (''--dockerfile-frontend'', bf_frontend f)]) (\<lambda>_.
        bind_res (if bf_fetcher f = [] then Inl (Msg ''required flag is not set: --fetcher-image'') else Inr ()) (\<lambda>_.
        bind_res (step env ''unable to start the manager'') (\<lambda>_.
        bind_res (set_up_publishing env (bf_registry f)) (\<lambda>pub.
        bind_res (if bf_refresh_interval f > 0 then step env ''unable to set up retention refresh'' else Inr ()) (\<lambda>_.
        bind_res (step env ''unable to set up the ImageBuild controller'') (\<lambda>_.
        bind_res (if bf_context_base f = [] then Inr () else step env ''unable to start the context endpoint'') (\<lambda>_.
        bind_res (step env ''unable to set up the health check'') (\<lambda>_.
        bind_res (step env ''unable to set up the readiness check'') (\<lambda>_.
        bind_res (step env ''manager exited with an error'') (\<lambda>_.
          Inr (Some \<lparr>bw_manager = \<lparr>mo_metrics = bf_metrics f, mo_probe = bf_probe f, mo_leader_elect = bf_leader_elect f,
              mo_election_id = ''oci-builder.lhns.de''\<rparr>,
            bw_publishing = pub, bw_export = export_options_of (bf_export f), bw_job_config = new_job_config f pub,
            bw_history_limit = bf_keep_builds f, bw_guard = \<lparr>dg_deny_private = bf_deny_private f\<rparr>,
            bw_require_pinned = bf_require_pinned f, bw_poll = bf_poll_interval f,
            bw_refresh = (if bf_refresh_interval f > 0 then Some (bf_refresh_interval f) else None),
            bw_serves_contexts = (if bf_context_base f = [] then None else Some (bf_context_addr f))\<rparr>))))))))))))"

subsection \<open>What a running controller rests on\<close>

lemma label_pairs_map: "map_of (label_pairs ps ls) = parse_pairs ps (map_of ls)"
  by (induction ps ls rule: label_pairs.induct) (auto simp: update_conv' fun_upd_def split: option.split)

lemma label_pairs_distinct: "distinct (map fst ls) \<Longrightarrow> distinct (map fst (label_pairs ps ls))"
  by (induction ps ls rule: label_pairs.induct) (auto simp: distinct_update split: option.split)

lemma watch_labels: "map_of (eo_watch_labels (export_options_of f)) = parse_labels (ef_labels f)"
  by (simp add: export_options_of_def label_pairs_map parse_labels_def)

lemma load_key_signs:
  assumes "load_key env data = Inr k"
  shows "\<exists>sig. sk_sign k self_check_probe = Inr sig \<and> sk_verify k sig self_check_probe"
proof -
  have "self_check k = None"
    using assms unfolding load_key_def bind_res_def by (auto split: option.splits sum.splits if_splits)
  then show ?thesis unfolding self_check_def by (auto split: sum.splits if_splits)
qed

lemma attestor_key:
  assumes "registry_attestor env o' ns = Inr a" "at_key a = Some k"
  shows "ns \<noteq> [] \<and> rg_signing_secret o' \<noteq> [] \<and> (\<exists>data. se_secret env ns (rg_signing_secret o') = Inr data \<and> load_key env data = Inr k)"
  using assms unfolding registry_attestor_def load_key_from_cluster_def Let_def
  by (auto split: if_splits sum.splits option.splits)

lemma set_up_publishing_ok:
  assumes "set_up_publishing env o' = Inr pub"
  shows "pb_default pub = registry_default o' (se_namespace env)" "dr_secret (pb_default pub) \<noteq> [] \<Longrightarrow> se_namespace env \<noteq> []"
    "registry_attestor env o' (se_namespace env) = Inr (pb_attestor pub)"
    "registry_transport env o' = Inr (pb_transport pub, pb_ca pub)"
  using assms unfolding set_up_publishing_def Let_def
  by (auto simp: registry_default_def split: sum.splits prod.splits if_splits)

lemma ca_transport_adds:
  assumes "registry_transport env o' = Inr (Some t, ca)"
  shows "\<exists>roots. se_system_roots env = Inr roots \<and> se_append_certs env roots ca = Some (tp_roots t)"
  using assms unfolding registry_transport_def ca_transport_def by (auto split: if_splits sum.splits option.splits)

text \<open>
  A builder that runs has both images whose digests are hashed pinned by digest, a fetcher, and the
  namespace its credentials are read from; a signing key it holds was read from its own namespace and has signed and
  verified a probe; and every setting of a build pod is the flag of that name.
\<close>

theorem builder_startup_sound:
  assumes "builder_main env f = Inr (Some w)"
  shows "pinned_image (jc_builder (bw_job_config w)) \<and> pinned_image (jc_frontend (bw_job_config w)) \<and>
    jc_fetcher (bw_job_config w) \<noteq> [] \<and>
    (dr_secret (pb_default (bw_publishing w)) \<noteq> [] \<longrightarrow> dr_namespace (pb_default (bw_publishing w)) \<noteq> []) \<and>
    (\<forall>k. at_key (pb_attestor (bw_publishing w)) = Some k \<longrightarrow>
       (\<exists>data. se_secret env (se_namespace env) (rg_signing_secret (bf_registry f)) = Inr data \<and> load_key env data = Inr k) \<and>
       (\<exists>sig. sk_sign k self_check_probe = Inr sig \<and> sk_verify k sig self_check_probe)) \<and>
    bw_job_config w = new_job_config f (bw_publishing w)"
proof -
  have imgs: "check_images [(''--buildkit-image'', bf_builder f), (''--dockerfile-frontend'', bf_frontend f)] = Inr ()"
    and fetcher: "bf_fetcher f \<noteq> []" and pub: "set_up_publishing env (bf_registry f) = Inr (bw_publishing w)"
    and jc: "bw_job_config w = new_job_config f (bw_publishing w)"
    using assms unfolding builder_main_def bind_res_def by (auto split: if_splits sum.splits)
  note p = set_up_publishing_ok[OF pub]
  have "pinned_image (bf_builder f)" "pinned_image (bf_frontend f)" using imgs by (auto split: if_splits)
  moreover have "dr_secret (pb_default (bw_publishing w)) \<noteq> [] \<longrightarrow> dr_namespace (pb_default (bw_publishing w)) \<noteq> []"
    using p(1,2) by (simp add: registry_default_def)
  moreover have "(\<exists>data. se_secret env (se_namespace env) (rg_signing_secret (bf_registry f)) = Inr data \<and> load_key env data = Inr k) \<and>
       (\<exists>sig. sk_sign k self_check_probe = Inr sig \<and> sk_verify k sig self_check_probe)"
    if "at_key (pb_attestor (bw_publishing w)) = Some k" for k
    using attestor_key[OF p(3) that] load_key_signs by blast
  ultimately show ?thesis using fetcher by (simp add: jc new_job_config_def)
qed


definition sample_start_env :: "unit start_env" where
  "sample_start_env =
     \<lparr>se_namespace = ''oci'', se_getenv = (\<lambda>n. []), se_read_file = (\<lambda>p. Inl (Msg ''no such file'')), se_system_roots = Inr [''root''],
      se_append_certs = (\<lambda>rs p. Some (rs @ [p])), se_http_transport = True, se_kubeconfig = None, se_client = None,
      se_secret = (\<lambda>ns n. Inr [''cosign.key'' \<mapsto> ''pem'']), se_pem_decode = Some, se_pem_encode = (\<lambda>b. b),
      se_decrypt = (\<lambda>b p. Inr b), se_parse_key = (\<lambda>b. Inr ()), se_is_ecdsa = (\<lambda>k. True),
      se_signer = (\<lambda>k. Inr \<lparr>sk_sign = Inr, sk_verify = (=)\<rparr>), se_public_pem = (\<lambda>k. Inr ''pub''),
      se_parse_url = (\<lambda>u. Inl (Msg ''bad URL'')), se_s3_client = (\<lambda>h c. None), se_abs = Inr, se_mkdir = (\<lambda>p. None),
      se_step = (\<lambda>n. None)\<rparr>"

definition sample_registry_flags :: registry_flags where
  "sample_registry_flags =
     \<lparr>rg_default = ''registry.example:5000'', rg_public = [], rg_push_secret = ''push'', rg_insecure = [], rg_ca_file = [], rg_sbom = False,
      rg_provenance = False, rg_signing_secret = ''signing''\<rparr>"

definition sample_builder_flags :: builder_flags where
  "sample_builder_flags =
     \<lparr>bf_metrics = [], bf_probe = [], bf_context_addr = [], bf_leader_elect = False, bf_version = False, bf_registry = sample_registry_flags,
      bf_export = \<lparr>ef_namespaces = [], ef_labels = [], ef_allowed_labels = [], ef_allowed_annotations = []\<rparr>,
      bf_builder = ''b@sha256:1'', bf_frontend = ''f@sha256:2'', bf_fetcher = ''o:1'', bf_context_base = [], bf_epoch = ''0'',
      bf_refresh_interval = 0, bf_poll_interval = 0, bf_deny_private = False, bf_require_pinned = False, bf_keep_builds = 10\<rparr>"

theorem builder_startup_sound_witness:
  "\<exists>w k. builder_main sample_start_env sample_builder_flags = Inr (Some w) \<and> pinned_image (jc_builder (bw_job_config w)) \<and>
     at_key (pb_attestor (bw_publishing w)) = Some k \<and> sk_verify k self_check_probe self_check_probe"
proof -
  have pin: "pinned_image ''b@sha256:1''" "pinned_image ''f@sha256:2''" by code_simp+
  have "\<exists>w k. builder_main sample_start_env sample_builder_flags = Inr (Some w) \<and> at_key (pb_attestor (bw_publishing w)) = Some k \<and>
      k = \<lparr>sk_sign = Inr, sk_verify = (=)\<rparr>"
    by (simp add: builder_main_def sample_builder_flags_def pin step_def sample_start_env_def set_up_publishing_def
      sample_registry_flags_def registry_transport_def registry_attestor_def load_key_from_cluster_def load_key_def
      parse_private_key_def self_check_def Let_def registry_default_def)
  then obtain w k where w: "builder_main sample_start_env sample_builder_flags = Inr (Some w)"
    "at_key (pb_attestor (bw_publishing w)) = Some k" "k = \<lparr>sk_sign = Inr, sk_verify = (=)\<rparr>" by blast
  from builder_startup_sound[OF w(1)] w show ?thesis by auto
qed

text \<open>A list flag is read back, and entries are trimmed and never empty.\<close>

lemma split_list_join:
  assumes "list_all (\<lambda>x. x \<noteq> [] \<and> trim_space x = x \<and> CHR '','' \<notin> set x) xs"
  shows "split_list (join '','' xs) = xs"
proof (cases "xs = []")
  case True
  have "trim_space [] = []" by code_simp
  with True show ?thesis by (simp add: split_list_def)
next
  case False
  have "split_on (CHR '','') (join '','' xs) = xs"
    using assms False by (intro split_on_join) (auto simp: list_all_iff)
  moreover have "map trim_space xs = xs" using assms by (auto simp: list_all_iff intro: map_idI)
  moreover have "filter (\<lambda>p. p \<noteq> []) xs = xs" using assms by (auto simp: list_all_iff filter_id_conv)
  ultimately show ?thesis by (simp add: split_list_def)
qed

lemma keep_builds_alias:
  "effective_keep_builds keep 0 = keep" "keep \<noteq> default_history_limit \<Longrightarrow> effective_keep_builds keep old = keep"
  "0 < old \<Longrightarrow> effective_keep_builds default_history_limit old = old"
  by (simp_all add: effective_keep_builds_def)

lemma composer_remote_needs_endpoint: "composer_remote env f = Inr (Some s) \<Longrightarrow> cf_s3_endpoint f \<noteq> [] \<and> s3_bucket s \<noteq> []"
  unfolding composer_remote_def new_s3_def s3_validate_def s3_config_of_def Let_def
  by (auto split: if_splits sum.splits option.splits prod.splits)

end
