(* ===== verification/Command_Flags.thy ===== *)
theory Command_Flags
  imports Startup Fetch_Flags
begin

section \<open>The flags of the two commands\<close>

text \<open>
  Which flag sets which option, and what an option is without its flag: \<^verbatim>\<open>Bind\<close> and
  \<^verbatim>\<open>Register\<close> of \<^verbatim>\<open>internal/opts\<close> and the flags of both \<^verbatim>\<open>main\<close> functions, as tables from names to
  the setters of options, read by the loop of Go's \<^verbatim>\<open>flag\<close> package. Flags of the logging and client
  libraries are an argument; usage texts are left out. What each flag does is a law of the tables,
  the locale \<open>flag_table\<close>: setting a flag changes its own option and leaves the others.
\<close>

subsection \<open>Values\<close>

definition parse_bool :: "string \<Rightarrow> bool option" where
  "parse_bool s =
     (if s \<in> {''1'', ''t'', ''T'', ''TRUE'', ''true'', ''True''} then Some True
      else if s \<in> {''0'', ''f'', ''F'', ''FALSE'', ''false'', ''False''} then Some False
      else None)"

text \<open>
  \<^verbatim>\<open>time.ParseDuration\<close>: numbers with units, added up within 63 bits. A fraction is computed
  exactly, where Go goes through a float.
\<close>

definition duration_unit :: "string \<Rightarrow> nat option" where
  "duration_unit u =
     (if u = ''ns'' then Some 1
      else if u = ''us'' \<or> u = [CHR 0xC2, CHR 0xB5] @ ''s'' \<or> u = [CHR 0xCE, CHR 0xBC] @ ''s'' then Some 1000
      else if u = ''ms'' then Some 1000000
      else if u = ''s'' then Some 1000000000
      else if u = ''m'' then Some 60000000000
      else if u = ''h'' then Some 3600000000000
      else None)"

fun digits_value :: "nat \<Rightarrow> string \<Rightarrow> nat" where
  "digits_value acc [] = acc"
| "digits_value acc (c # cs) = digits_value (acc * 10 + (of_char c - 48)) cs"

definition one_duration :: "string \<Rightarrow> (nat \<times> string) option" where
  "one_duration s =
     (let whole = takeWhile is_digit s; r1 = dropWhile is_digit s;
          (frac, r2) = (if has_prefix r1 ''.'' then (takeWhile is_digit (tl r1), dropWhile is_digit (tl r1)) else ([], r1));
          u = takeWhile (\<lambda>c. c \<noteq> CHR ''.'' \<and> \<not> is_digit c) r2
      in if whole = [] \<and> frac = [] \<or> 2 ^ 63 < digits_value 0 whole then None
         else (case duration_unit u of
             None \<Rightarrow> None
           | Some unit \<Rightarrow>
               (let v = digits_value 0 whole * unit + digits_value 0 frac * unit div 10 ^ length frac
                in if 2 ^ 63 < v then None else Some (v, drop (length u) r2))))"

lemma one_duration_shorter:
  assumes "one_duration s = Some (v, r)"
  shows "length r < length s"
proof -
  let ?r1 = "dropWhile is_digit s"
  let ?r2 = "if has_prefix ?r1 ''.'' then dropWhile is_digit (tl ?r1) else ?r1"
  let ?u = "takeWhile (\<lambda>c. c \<noteq> CHR ''.'' \<and> \<not> is_digit c) ?r2"
  have u: "?u \<noteq> []" "r = drop (length ?u) ?r2"
    using assms by (auto simp: one_duration_def duration_unit_def Let_def split: if_splits option.splits)
  have "length ?r1 \<le> length s" "length (dropWhile is_digit (tl ?r1)) \<le> length ?r1"
    using length_dropWhile_le[of is_digit s] length_dropWhile_le[of is_digit "tl ?r1"] by auto
  then have "length ?r2 \<le> length s" by auto
  moreover have "0 < length ?u" using u(1) by blast
  moreover have "length ?u \<le> length ?r2" by (rule length_takeWhile_le)
  ultimately show ?thesis unfolding u(2) length_drop by linarith
qed

function sum_durations :: "nat \<Rightarrow> string \<Rightarrow> nat option" where
  "sum_durations d s =
     (if s = [] then Some d
      else (case one_duration s of
          None \<Rightarrow> None
        | Some (v, r) \<Rightarrow> if 2 ^ 63 < d + v then None else sum_durations (d + v) r))"
  by pat_completeness auto

termination
  by (relation "measure (\<lambda>(d, s). length s)") (auto dest: one_duration_shorter)

declare sum_durations.simps [simp del]

definition parse_duration :: "string \<Rightarrow> int option" where
  "parse_duration s =
     (let neg = has_prefix s ''-''; body = (if neg \<or> has_prefix s ''+'' then tl s else s)
      in if body = ''0'' then Some 0
         else if body = [] then None
         else (case sum_durations 0 body of
             None \<Rightarrow> None
           | Some d \<Rightarrow> if neg then Some (- int d) else if 2 ^ 63 \<le> d then None else Some (int d)))"

subsection \<open>Tables and their reader\<close>

datatype 's binding =
    BindString "string \<Rightarrow> 's \<Rightarrow> 's"
  | BindBool "bool \<Rightarrow> 's \<Rightarrow> 's"
  | BindInt "int \<Rightarrow> 's \<Rightarrow> 's"
  | BindDuration "int \<Rightarrow> 's \<Rightarrow> 's"

fun set_flag :: "'s binding \<Rightarrow> string \<Rightarrow> 's \<Rightarrow> 's option" where
  "set_flag (BindString f) v s = Some (f v s)"
| "set_flag (BindBool f) v s = map_option (\<lambda>b. f b s) (parse_bool v)"
| "set_flag (BindInt f) v s = map_option (\<lambda>i. f i s) (parse_int_any 64 v)"
| "set_flag (BindDuration f) v s = map_option (\<lambda>i. f i s) (parse_duration v)"

fun is_bool :: "'s binding \<Rightarrow> bool" where
  "is_bool (BindBool f) = True"
| "is_bool _ = False"

text \<open>An option inside another.\<close>

fun inside :: "(('a \<Rightarrow> 'a) \<Rightarrow> 's \<Rightarrow> 's) \<Rightarrow> 'a binding \<Rightarrow> 's binding" where
  "inside up (BindString f) = BindString (\<lambda>v. up (f v))"
| "inside up (BindBool f) = BindBool (\<lambda>v. up (f v))"
| "inside up (BindInt f) = BindInt (\<lambda>v. up (f v))"
| "inside up (BindDuration f) = BindDuration (\<lambda>v. up (f v))"

type_synonym 's table = "(string \<times> 's binding) list"

definition put_flag :: "'s table \<Rightarrow> string \<Rightarrow> string option \<Rightarrow> string list \<Rightarrow> 's \<Rightarrow> ('s \<times> string list) res" where
  "put_flag table n value rest s =
     (case map_of table n of
        None \<Rightarrow> Inl (Msg (if n = ''help'' \<or> n = ''h'' then ''flag: help requested'' else ''flag provided but not defined: -'' @ n))
      | Some b \<Rightarrow>
          (case (case value of
               Some v \<Rightarrow> Some (v, rest)
             | None \<Rightarrow> if is_bool b then Some (''true'', rest) else (case rest of [] \<Rightarrow> None | v # rest' \<Rightarrow> Some (v, rest'))) of
             None \<Rightarrow> Inl (Msg (''flag needs an argument: -'' @ n))
           | Some (v, rest') \<Rightarrow>
               (case set_flag b v s of
                  None \<Rightarrow> Inl (Msg (''invalid value '' @ v @ '' for flag -'' @ n))
                | Some s' \<Rightarrow> Inr (s', rest'))))"

lemma put_flag_shorter: "put_flag table n value rest s = Inr (s', rest') \<Longrightarrow> length rest' \<le> length rest"
  by (auto simp: put_flag_def split: option.splits if_splits list.splits)

function parse_command :: "'s table \<Rightarrow> string list \<Rightarrow> 's \<Rightarrow> 's res" where
  "parse_command table [] s = Inr s"
| "parse_command table (a # as) s =
     (case flag_body a of
        None \<Rightarrow> Inr s
      | Some body \<Rightarrow>
          if a = ''--'' then Inr s
          else if body = [] \<or> hd body = CHR ''-'' \<or> hd body = CHR ''='' then Inl (Msg (''bad flag syntax: '' @ a))
          else (case (case cut (CHR ''='') body of
                 Some (n, v) \<Rightarrow> put_flag table n (Some v) as s
               | None \<Rightarrow> put_flag table body None as s) of
              Inl e \<Rightarrow> Inl e
            | Inr (s', rest) \<Rightarrow> parse_command table rest s'))"
  by pat_completeness auto

termination
  by (relation "measure (\<lambda>(table, as, s). length as)") (auto dest!: put_flag_shorter split: option.splits prod.splits)

subsection \<open>What both commands share\<close>

definition registry_bindings :: "registry_flags table" where
  "registry_bindings =
     [(''default-registry'', BindString (\<lambda>v o'. o'\<lparr>rg_default := v\<rparr>)),
      (''public-registry-host'', BindString (\<lambda>v o'. o'\<lparr>rg_public := v\<rparr>)),
      (''default-push-secret'', BindString (\<lambda>v o'. o'\<lparr>rg_push_secret := v\<rparr>)),
      (''insecure-registry'', BindString (\<lambda>v o'. o'\<lparr>rg_insecure := v\<rparr>)),
      (''registry-ca-file'', BindString (\<lambda>v o'. o'\<lparr>rg_ca_file := v\<rparr>)),
      (''sbom'', BindBool (\<lambda>b o'. o'\<lparr>rg_sbom := b\<rparr>)),
      (''provenance'', BindBool (\<lambda>b o'. o'\<lparr>rg_provenance := b\<rparr>)),
      (''signing-key-secret'', BindString (\<lambda>v o'. o'\<lparr>rg_signing_secret := v\<rparr>))]"

definition registry_defaults :: registry_flags where
  "registry_defaults =
     \<lparr>rg_default = [], rg_public = [], rg_push_secret = [], rg_insecure = [], rg_ca_file = [], rg_sbom = False,
      rg_provenance = False, rg_signing_secret = []\<rparr>"

definition export_bindings :: "export_flags table" where
  "export_bindings =
     [(''ref-export-namespaces'', BindString (\<lambda>v f. f\<lparr>ef_namespaces := v\<rparr>)),
      (''ref-export-labels'', BindString (\<lambda>v f. f\<lparr>ef_labels := v\<rparr>)),
      (''ref-export-allowed-labels'', BindString (\<lambda>v f. f\<lparr>ef_allowed_labels := v\<rparr>)),
      (''ref-export-allowed-annotations'', BindString (\<lambda>v f. f\<lparr>ef_allowed_annotations := v\<rparr>))]"

definition export_defaults :: export_flags where
  "export_defaults = \<lparr>ef_namespaces = [], ef_labels = [], ef_allowed_labels = [], ef_allowed_annotations = []\<rparr>"

definition nested :: "(('a \<Rightarrow> 'a) \<Rightarrow> 's \<Rightarrow> 's) \<Rightarrow> 'a table \<Rightarrow> 's table" where
  "nested up t = map (\<lambda>(n, b). (n, inside up b)) t"

subsection \<open>The composer\<close>

definition composer_bindings :: "composer_flags table" where
  "composer_bindings =
     nested (\<lambda>g f. f\<lparr>cf_registry := g (cf_registry f)\<rparr>) registry_bindings @
     [(''metrics-bind-address'', BindString (\<lambda>v f. f\<lparr>cf_metrics := v\<rparr>)),
      (''health-probe-bind-address'', BindString (\<lambda>v f. f\<lparr>cf_probe := v\<rparr>)),
      (''leader-elect'', BindBool (\<lambda>b f. f\<lparr>cf_leader_elect := b\<rparr>)),
      (''cache-dir'', BindString (\<lambda>v f. f\<lparr>cf_cache_dir := v\<rparr>)),
      (''s3-endpoint'', BindString (\<lambda>v f. f\<lparr>cf_s3_endpoint := v\<rparr>)),
      (''s3-bucket'', BindString (\<lambda>v f. f\<lparr>cf_s3_bucket := v\<rparr>)),
      (''s3-prefix'', BindString (\<lambda>v f. f\<lparr>cf_s3_prefix := v\<rparr>)),
      (''s3-region'', BindString (\<lambda>v f. f\<lparr>cf_s3_region := v\<rparr>)),
      (''s3-path-style'', BindBool (\<lambda>b f. f\<lparr>cf_s3_path_style := b\<rparr>))] @
     nested (\<lambda>g f. f\<lparr>cf_export := g (cf_export f)\<rparr>) export_bindings @
     [(''retention-refresh-interval'', BindDuration (\<lambda>i f. f\<lparr>cf_refresh_interval := i\<rparr>)),
      (''fetch-deny-private'', BindBool (\<lambda>b f. f\<lparr>cf_deny_private := b\<rparr>)),
      (''require-pinned-sources'', BindBool (\<lambda>b f. f\<lparr>cf_require_pinned := b\<rparr>)),
      (''keep-builds'', BindInt (\<lambda>i f. f\<lparr>cf_keep_builds := i\<rparr>)),
      (''gc-keep-builds'', BindInt (\<lambda>i f. f\<lparr>cf_gc_keep_builds := i\<rparr>)),
      (''version'', BindBool (\<lambda>b f. f\<lparr>cf_version := b\<rparr>))]"

definition composer_defaults :: composer_flags where
  "composer_defaults =
     \<lparr>cf_metrics = '':8080'', cf_probe = '':8081'', cf_leader_elect = False, cf_version = False,
      cf_registry = registry_defaults, cf_export = export_defaults,
      cf_cache_dir = ''/var/cache/oci-composer'', cf_s3_endpoint = [], cf_s3_bucket = [], cf_s3_prefix = [],
      cf_s3_region = ''default'', cf_s3_path_style = True, cf_refresh_interval = 3600 * second, cf_deny_private = False,
      cf_require_pinned = False, cf_keep_builds = default_history_limit, cf_gc_keep_builds = 0\<rparr>"

text \<open>A command line that does not parse ends the process with status 2, or 0 for help.\<close>

definition composer_command ::
    "'k start_env \<Rightarrow> composer_flags table \<Rightarrow> string list \<Rightarrow> composer_wiring option res" where
  "composer_command env libraries args =
     bind_res (parse_command (composer_bindings @ libraries) args composer_defaults) (composer_main env)"

subsection \<open>The builder\<close>

definition builder_bindings :: "builder_flags table" where
  "builder_bindings =
     nested (\<lambda>g f. f\<lparr>bf_registry := g (bf_registry f)\<rparr>) registry_bindings @
     [(''metrics-bind-address'', BindString (\<lambda>v f. f\<lparr>bf_metrics := v\<rparr>)),
      (''health-probe-bind-address'', BindString (\<lambda>v f. f\<lparr>bf_probe := v\<rparr>)),
      (''context-bind-address'', BindString (\<lambda>v f. f\<lparr>bf_context_addr := v\<rparr>)),
      (''context-base-url'', BindString (\<lambda>v f. f\<lparr>bf_context_base := v\<rparr>)),
      (''leader-elect'', BindBool (\<lambda>b f. f\<lparr>bf_leader_elect := b\<rparr>)),
      (''buildkit-image'', BindString (\<lambda>v f. f\<lparr>bf_builder := v\<rparr>)),
      (''dockerfile-frontend'', BindString (\<lambda>v f. f\<lparr>bf_frontend := v\<rparr>)),
      (''fetcher-image'', BindString (\<lambda>v f. f\<lparr>bf_fetcher := v\<rparr>)),
      (''fetch-deny-private'', BindBool (\<lambda>b f. f\<lparr>bf_deny_private := b\<rparr>)),
      (''source-date-epoch'', BindString (\<lambda>v f. f\<lparr>bf_epoch := v\<rparr>))] @
     nested (\<lambda>g f. f\<lparr>bf_export := g (bf_export f)\<rparr>) export_bindings @
     [(''build-poll-interval'', BindDuration (\<lambda>i f. f\<lparr>bf_poll_interval := i\<rparr>)),
      (''retention-refresh-interval'', BindDuration (\<lambda>i f. f\<lparr>bf_refresh_interval := i\<rparr>)),
      (''require-pinned-sources'', BindBool (\<lambda>b f. f\<lparr>bf_require_pinned := b\<rparr>)),
      (''keep-builds'', BindInt (\<lambda>i f. f\<lparr>bf_keep_builds := i\<rparr>)),
      (''version'', BindBool (\<lambda>b f. f\<lparr>bf_version := b\<rparr>))]"

definition builder_defaults :: builder_flags where
  "builder_defaults =
     \<lparr>bf_metrics = '':8080'', bf_probe = '':8081'', bf_context_addr = '':8090'', bf_leader_elect = False,
      bf_version = False, bf_registry = registry_defaults, bf_export = export_defaults, bf_builder = [], bf_frontend = [],
      bf_fetcher = [], bf_context_base = [], bf_epoch = ''0'', bf_refresh_interval = 3600 * second, bf_poll_interval = 0,
      bf_deny_private = False, bf_require_pinned = False, bf_keep_builds = default_history_limit\<rparr>"

text \<open>The init container is the same binary under another first argument, with flags of its own.\<close>

datatype builder_run = RunFetcher "string list" | RunManager "builder_wiring option res"

definition builder_command ::
    "'k start_env \<Rightarrow> builder_flags table \<Rightarrow> string list \<Rightarrow> builder_run" where
  "builder_command env libraries args =
     (case args of
        a # rest \<Rightarrow>
          if a = ''fetch-context'' then RunFetcher rest
          else RunManager (bind_res (parse_command (builder_bindings @ libraries) args builder_defaults) (builder_main env))
      | [] \<Rightarrow> RunManager (bind_res (parse_command (builder_bindings @ libraries) args builder_defaults) (builder_main env)))"


subsection \<open>Every option by its own flag\<close>

definition flag_arg :: "string \<times> string \<Rightarrow> string" where
  "flag_arg nv = ''--'' @ fst nv @ ''='' @ snd nv"

definition show_bool :: "bool \<Rightarrow> string" where
  "show_bool b = (if b then ''true'' else ''false'')"

definition show_duration :: "int \<Rightarrow> string" where
  "show_duration i = show_int i @ ''ns''"

lemma parse_show_bool [simp]: "parse_bool (show_bool b) = Some b"
  by (simp add: parse_bool_def show_bool_def)

lemma digits_value_append: "digits_value a (xs @ ys) = digits_value (digits_value a xs) ys"
  by (induction xs arbitrary: a) auto

lemma digits_value_show: "digits_value 0 (show_nat n) = n"
proof (induction n rule: show_nat.induct)
  case (1 n)
  then show ?case by (subst show_nat.simps) (auto simp: digits_value_append of_digit_char)
qed

lemma one_duration_show:
  assumes "n \<le> 2 ^ 63"
  shows "one_duration (show_nat n @ ''ns'') = Some (n, [])"
proof -
  have d: "\<forall>c \<in> set (show_nat n). is_digit c" using show_nat_digits[of n] by (simp add: list_all_iff)
  have n: "\<not> is_digit CHR ''n''" "\<not> is_digit CHR ''s''" by code_simp+
  show ?thesis using assms d n
    by (simp add: one_duration_def digits_value_show has_prefix_def duration_unit_def takeWhile_append2 dropWhile_append2)
qed

lemma show_nat_head:
  obtains c cs where "show_nat n = c # cs" "is_digit c"
  using show_nat_digits[of n] by (cases "show_nat n") auto

lemma parse_show_duration:
  assumes "- (2 ^ 63) \<le> i" "i < 2 ^ 63"
  shows "parse_duration (show_duration i) = Some i"
proof -
  have sum: "sum_durations 0 (show_nat n @ ''ns'') = Some n" if "n \<le> 2 ^ 63" for n
    using that by (subst sum_durations.simps) (simp add: one_duration_show, simp add: sum_durations.simps)
  have sign: "\<not> has_prefix (show_nat n @ ''ns'') ''-''" "\<not> has_prefix (show_nat n @ ''ns'') ''+''" for n
    by (rule show_nat_head[of n], auto simp: has_prefix_def is_digit_def)+
  have long: "show_nat n @ ''ns'' \<noteq> ''0''" for n by (rule show_nat_head[of n]) auto
  have unit: "show_nat n @ ''ns'' \<noteq> []" for n by simp
  show ?thesis
  proof (cases "i < 0")
    case True
    define n where "n = nat (- i)"
    have i: "show_duration i = CHR ''-'' # (show_nat n @ ''ns'')" "i = - int n"
      using True by (simp_all add: show_duration_def show_int_def n_def)
    have "n \<le> 2 ^ 63" using assms(1) i(2) by simp
    from sum[OF this] have "parse_duration (CHR ''-'' # (show_nat n @ ''ns'')) = Some (- int n)"
      by (simp add: parse_duration_def Let_def has_prefix_def long)
    then show ?thesis by (subst i(1), subst i(2))
  next
    case False
    define n where "n = nat i"
    have i: "show_duration i = show_nat n @ ''ns''" "i = int n"
      using False by (simp_all add: show_duration_def show_int_def n_def)
    have "n < 2 ^ 63" using assms(2) i(2) by simp
    then have "parse_duration (show_nat n @ ''ns'') = Some (int n)"
      by (simp add: parse_duration_def Let_def sign long sum)
    then show ?thesis by (subst i(1), subst i(2))
  qed
qed

definition flag_name :: "string \<Rightarrow> bool" where
  "flag_name n \<longleftrightarrow> n \<noteq> [] \<and> hd n \<noteq> CHR ''-'' \<and> CHR ''='' \<notin> set n"

lemma parse_flag_arg:
  assumes "flag_name n" "map_of table n = Some b" "set_flag b v s = Some s'"
  shows "parse_command table (flag_arg (n, v) # as) s = parse_command table as s'"
proof -
  let ?body = "n @ CHR ''='' # v"
  have body: "flag_body (flag_arg (n, v)) = Some ?body" by (simp add: flag_body_def flag_arg_def)
  have cut: "cut (CHR ''='') ?body = Some (n, v)" using assms(1) by (simp add: cut_Some flag_name_def)
  have long: "flag_arg (n, v) \<noteq> ''--''" by (simp add: flag_arg_def)
  have ok: "\<not> (?body = [] \<or> hd ?body = CHR ''-'' \<or> hd ?body = CHR ''='')"
    using assms(1) by (cases n) (auto simp: flag_name_def)
  have put: "put_flag table n (Some v) as s = Inr (s', as)" using assms(2,3) by (simp add: put_flag_def)
  show ?thesis
    by (simp only: parse_command.simps(2) body option.case long if_False ok cut prod.case put sum.case)
qed

text \<open>
  What a command's table has to be: \<open>line\<close> shows all its options, each under the name of its flag,
  the names differ, and setting the flag at a position to what \<open>line\<close> shows there of some options
  changes what it shows at that position and nowhere else.
\<close>

locale flag_table =
  fixes table :: "'s table"
    and line :: "'s \<Rightarrow> (string \<times> string) list"
    and writable :: "'s \<Rightarrow> bool"
  assumes names: "map fst (line f) = map fst table"
    and distinct_names: "distinct (map fst table)"
    and proper_names: "list_all flag_name (map fst table)"
    and put: "writable f \<Longrightarrow> list_all (\<lambda>(k, n, b). \<exists>s'. set_flag b (snd (line f ! k)) s = Some s' \<and>
      line s' = (line s)[k := line f ! k]) (enumerate 0 table)"
begin

lemma line_value: "(n, v) \<in> set (line f) \<Longrightarrow> map_of (line f) n = Some v"
  using distinct_names names[of f] by (simp add: map_of_eq_Some_iff)

lemma proper_name: "(n, v) \<in> set (line f) \<Longrightarrow> flag_name n"
  using proper_names names[of f] by (metis fst_conv image_eqI list_all_iff set_map)

lemma put_named:
  assumes "writable f" "(n, v) \<in> set (line f)"
  shows "\<exists>b s'. map_of table n = Some b \<and> set_flag b v s = Some s' \<and>
    line s' = map (\<lambda>(m, w). (m, if m = n then v else w)) (line s)"
proof -
  have len: "length (line g) = length table" for g using names[of g] by (metis length_map)
  obtain k where k: "k < length (line f)" "line f ! k = (n, v)" using assms(2) by (auto simp: in_set_conv_nth)
  have name: "fst (line g ! j) = fst (table ! j)" if "j < length table" for g j
    using names[of g] that len[of g] by (metis nth_map)
  have kt: "k < length table" using k(1) len[of f] by simp
  define b where "b = snd (table ! k)"
  have nb: "table ! k = (n, b)" using name[OF kt, of f] k(2) by (simp add: b_def prod_eq_iff)
  have "(k, n, b) \<in> set (enumerate 0 table)" using kt nb by (simp add: in_set_enumerate_eq)
  with put[OF assms(1), of s] obtain s' where s': "set_flag b v s = Some s'" "line s' = (line s)[k := (n, v)]"
    by (auto simp: list_all_iff k(2))
  have "map_of table n = Some b" using distinct_names nb kt by (metis map_of_eq_Some_iff nth_mem)
  moreover have "(line s)[k := (n, v)] = map (\<lambda>(m, w). (m, if m = n then v else w)) (line s)"
  proof (rule nth_equalityI)
    fix i
    assume "i < length ((line s)[k := (n, v)])"
    then have i: "i < length table" using len[of s] by simp
    have "fst (table ! i) = n \<longleftrightarrow> i = k"
      using distinct_names nb i kt by (metis distinct_map fst_conv length_map nth_eq_iff_index_eq nth_map)
    then show "(line s)[k := (n, v)] ! i = map (\<lambda>(m, w). (m, if m = n then v else w)) (line s) ! i"
      using name[OF i, of s] i kt len[of s] by (cases "line s ! i") auto
  qed simp
  ultimately show ?thesis using s' by auto
qed

lemma parse_args:
  assumes "writable f" "set args \<subseteq> set (line f)"
  shows "\<exists>s'. parse_command (table @ libraries) (map flag_arg args) s = Inr s' \<and>
    line s' = map (\<lambda>(m, w). (m, case map_of args m of Some v \<Rightarrow> v | None \<Rightarrow> w)) (line s)"
  using assms(2)
proof (induction args arbitrary: s)
  case Nil
  then show ?case by simp
next
  case (Cons a args)
  obtain n v where a: "a = (n, v)" by (cases a)
  with Cons.prems have m: "(n, v) \<in> set (line f)" by simp
  obtain b s1 where s1: "map_of table n = Some b" "set_flag b v s = Some s1"
    "line s1 = map (\<lambda>(m, w). (m, if m = n then v else w)) (line s)" using put_named[OF assms(1) m] by blast
  have sub: "set args \<subseteq> set (line f)" using Cons.prems by simp
  from Cons.IH[OF this, of s1] obtain s' where s': "parse_command (table @ libraries) (map flag_arg args) s1 = Inr s'"
    "line s' = map (\<lambda>(m, w). (m, case map_of args m of Some v \<Rightarrow> v | None \<Rightarrow> w)) (line s1)" by blast
  have same: "w = v" if "map_of args n = Some w" for w
  proof -
    have "(n, w) \<in> set (line f)" using map_of_SomeD[OF that] sub by blast
    then show ?thesis using line_value[OF m] line_value[of n w f] by simp
  qed
  have b: "map_of (table @ libraries) n = Some b" using s1(1) by (simp add: map_add_def)
  have "parse_command (table @ libraries) (map flag_arg (a # args)) s = Inr s'"
    unfolding a list.map(2) parse_flag_arg[OF proper_name[OF m] b s1(2)] by (rule s'(1))
  moreover have "line s' = map (\<lambda>(m, w). (m, case map_of (a # args) m of Some v \<Rightarrow> v | None \<Rightarrow> w)) (line s)"
    unfolding s'(2) s1(3) map_map
    by (rule map_cong[OF refl]) (auto simp: a split: option.splits dest: same)
  ultimately show ?case by (intro exI conjI)
qed

lemma parse_all:
  assumes "writable f" "set args = set (line f)"
  shows "\<exists>s'. parse_command (table @ libraries) (map flag_arg args) s = Inr s' \<and> line s' = line f"
proof -
  from parse_args[OF assms(1) equalityD1[OF assms(2)], of libraries s]
  obtain s' where s': "parse_command (table @ libraries) (map flag_arg args) s = Inr s'"
    "line s' = map (\<lambda>(m, w). (m, case map_of args m of Some v \<Rightarrow> v | None \<Rightarrow> w)) (line s)"
    by (elim exE conjE)
  have "map_of args m = Some v" if "(m, v) \<in> set (line f)" for m v
  proof -
    have "(m, v) \<in> set args" using that assms(2) by simp
    then have "m \<in> fst ` set args" by (rule rev_image_eqI) simp
    then obtain w where w: "map_of args m = Some w" by (cases "map_of args m") (auto simp: map_of_eq_None_iff)
    have "(m, w) \<in> set (line f)" using map_of_SomeD[OF w] assms(2) by simp
    with w line_value[OF that] line_value[of m w f] show ?thesis by simp
  qed
  then have v: "map_of args (fst x) = Some (snd x)" if "x \<in> set (line f)" for x
    using that by (cases x) simp
  have "line s' = map (\<lambda>m. (m, the (map_of args m))) (map fst (line s))"
  proof -
    have "map_of args (fst x) \<noteq> None" if "x \<in> set (line s)" for x
    proof -
      have "fst x \<in> set (map fst (line f))" using that names[of s] names[of f] by (metis image_eqI set_map)
      then obtain y where "y \<in> set (line f)" "fst y = fst x" by auto
      then show ?thesis using v[of y] by simp
    qed
    then show ?thesis unfolding s'(2) map_map by (intro map_cong[OF refl]) (force split: option.splits)
  qed
  also have "\<dots> = map (\<lambda>x. (fst x, snd x)) (line f)"
    unfolding names[of s] names[of f, symmetric] map_map by (intro map_cong) (simp_all add: v)
  finally have "line s' = line f" by simp
  with s'(1) show ?thesis by (intro exI conjI)
qed

end

definition registry_line :: "registry_flags \<Rightarrow> (string \<times> string) list" where
  "registry_line o' =
     [(''default-registry'', rg_default o'), (''public-registry-host'', rg_public o'),
      (''default-push-secret'', rg_push_secret o'), (''insecure-registry'', rg_insecure o'),
      (''registry-ca-file'', rg_ca_file o'), (''sbom'', show_bool (rg_sbom o')),
      (''provenance'', show_bool (rg_provenance o')), (''signing-key-secret'', rg_signing_secret o')]"

definition export_line :: "export_flags \<Rightarrow> (string \<times> string) list" where
  "export_line f =
     [(''ref-export-namespaces'', ef_namespaces f), (''ref-export-labels'', ef_labels f),
      (''ref-export-allowed-labels'', ef_allowed_labels f),
      (''ref-export-allowed-annotations'', ef_allowed_annotations f)]"

definition composer_line :: "composer_flags \<Rightarrow> (string \<times> string) list" where
  "composer_line f =
     registry_line (cf_registry f) @
     [(''metrics-bind-address'', cf_metrics f), (''health-probe-bind-address'', cf_probe f),
      (''leader-elect'', show_bool (cf_leader_elect f)),
      (''cache-dir'', cf_cache_dir f), (''s3-endpoint'', cf_s3_endpoint f), (''s3-bucket'', cf_s3_bucket f),
      (''s3-prefix'', cf_s3_prefix f), (''s3-region'', cf_s3_region f), (''s3-path-style'', show_bool (cf_s3_path_style f))] @
     export_line (cf_export f) @
     [(''retention-refresh-interval'', show_duration (cf_refresh_interval f)),
      (''fetch-deny-private'', show_bool (cf_deny_private f)), (''require-pinned-sources'', show_bool (cf_require_pinned f)),
      (''keep-builds'', show_int (cf_keep_builds f)), (''gc-keep-builds'', show_int (cf_gc_keep_builds f)),
      (''version'', show_bool (cf_version f))]"

definition builder_line :: "builder_flags \<Rightarrow> (string \<times> string) list" where
  "builder_line f =
     registry_line (bf_registry f) @
     [(''metrics-bind-address'', bf_metrics f), (''health-probe-bind-address'', bf_probe f),
      (''context-bind-address'', bf_context_addr f),
      (''context-base-url'', bf_context_base f), (''leader-elect'', show_bool (bf_leader_elect f)),
      (''buildkit-image'', bf_builder f), (''dockerfile-frontend'', bf_frontend f), (''fetcher-image'', bf_fetcher f),
      (''fetch-deny-private'', show_bool (bf_deny_private f)), (''source-date-epoch'', bf_epoch f)] @
     export_line (bf_export f) @
     [(''build-poll-interval'', show_duration (bf_poll_interval f)),
      (''retention-refresh-interval'', show_duration (bf_refresh_interval f)),
      (''require-pinned-sources'', show_bool (bf_require_pinned f)), (''keep-builds'', show_int (bf_keep_builds f)),
      (''version'', show_bool (bf_version f))]"

definition fits :: "int \<Rightarrow> bool" where
  "fits i \<longleftrightarrow> - (2 ^ 63) \<le> i \<and> i < 2 ^ 63"

definition composer_writable :: "composer_flags \<Rightarrow> bool" where
  "composer_writable f \<longleftrightarrow> fits (cf_refresh_interval f) \<and> fits (cf_keep_builds f) \<and> fits (cf_gc_keep_builds f)"

definition builder_writable :: "builder_flags \<Rightarrow> bool" where
  "builder_writable f \<longleftrightarrow> fits (bf_poll_interval f) \<and> fits (bf_refresh_interval f) \<and> fits (bf_keep_builds f)"

lemma set_number_flags:
  "fits i \<Longrightarrow> set_flag (BindDuration f) (show_duration i) s = Some (f i s)"
  "fits i \<Longrightarrow> set_flag (BindInt f) (show_int i) s = Some (f i s)"
  "set_flag (BindBool g) (show_bool b) s = Some (g b s)"
  by (simp_all add: fits_def parse_show_duration parse_int_any_show)

lemma show_bool_inject [simp]: "show_bool a = show_bool b \<longleftrightarrow> a = b"
  by (simp add: show_bool_def)

lemma show_duration_inject [simp]: "show_duration i = show_duration j \<longleftrightarrow> i = j"
  by (simp add: show_duration_def)

lemmas line_simps = registry_line_def export_line_def registry_bindings_def export_bindings_def nested_def

lemma composer_line_inject: "composer_line f = composer_line g \<Longrightarrow> f = g"
  by (cases f; cases g; cases "cf_registry f"; cases "cf_registry g"; cases "cf_export f"; cases "cf_export g")
    (simp add: composer_line_def line_simps)

lemma builder_line_inject: "builder_line f = builder_line g \<Longrightarrow> f = g"
  by (cases f; cases g; cases "bf_registry f"; cases "bf_registry g"; cases "bf_export f"; cases "bf_export g")
    (simp add: builder_line_def line_simps)

interpretation composer_table: flag_table composer_bindings composer_line composer_writable
proof
  show "map fst (composer_line f) = map fst composer_bindings" for f
    by (simp add: composer_line_def composer_bindings_def line_simps)
  show "distinct (map fst composer_bindings)" by code_simp
  show "list_all flag_name (map fst composer_bindings)" by code_simp
  show "list_all (\<lambda>(k, n, b). \<exists>s'. set_flag b (snd (composer_line f ! k)) s = Some s' \<and>
      composer_line s' = (composer_line s)[k := composer_line f ! k]) (enumerate 0 composer_bindings)"
    if "composer_writable f" for f s
  proof -
    have fits: "fits (cf_refresh_interval f)" "fits (cf_keep_builds f)" "fits (cf_gc_keep_builds f)"
      using that by (simp_all add: composer_writable_def)
    show ?thesis
      unfolding composer_bindings_def line_simps
      by (simp only: list.map append.simps enumerate_simps list.pred_inject(2) list.pred_inject(1) prod.case inside.simps simp_thms,
        intro conjI;
        simp add: composer_line_def line_simps set_number_flags fits del: set_flag.simps(2-4))
  qed
qed

interpretation builder_table: flag_table builder_bindings builder_line builder_writable
proof
  show "map fst (builder_line f) = map fst builder_bindings" for f
    by (simp add: builder_line_def builder_bindings_def line_simps)
  show "distinct (map fst builder_bindings)" by code_simp
  show "list_all flag_name (map fst builder_bindings)" by code_simp
  show "list_all (\<lambda>(k, n, b). \<exists>s'. set_flag b (snd (builder_line f ! k)) s = Some s' \<and>
      builder_line s' = (builder_line s)[k := builder_line f ! k]) (enumerate 0 builder_bindings)"
    if "builder_writable f" for f s
  proof -
    have fits: "fits (bf_poll_interval f)" "fits (bf_refresh_interval f)" "fits (bf_keep_builds f)"
      using that by (simp_all add: builder_writable_def)
    show ?thesis
      unfolding builder_bindings_def line_simps
      by (simp only: list.map append.simps enumerate_simps list.pred_inject(2) list.pred_inject(1) prod.case inside.simps simp_thms,
        intro conjI;
        simp add: builder_line_def line_simps set_number_flags fits del: set_flag.simps(2-4))
  qed
qed

text \<open>
  Property C29. Each flag of the composer sets the option of its name and no other. \<^verbatim>\<open>composer_line\<close> shows every
  option of the record under the name of its flag. Any selection of flags, in any order and any
  number of times, with values an options record has (numbers within 64 bits), is accepted; after it
  each option shows the value its flag was given, or what it was before when its flag is not among
  them, whatever other flags the libraries register. A command line with every flag of a record
  yields that record.
\<close>

theorem composer_flags_roundtrip:
  assumes "fits (cf_refresh_interval f)" "fits (cf_keep_builds f)" "fits (cf_gc_keep_builds f)"
    and "set args \<subseteq> set (composer_line f)"
  shows "\<exists>s'. parse_command (composer_bindings @ libraries) (map flag_arg args) s = Inr s' \<and>
    composer_line s' = map (\<lambda>(m, w). (m, case map_of args m of Some v \<Rightarrow> v | None \<Rightarrow> w)) (composer_line s) \<and>
    (set args = set (composer_line f) \<longrightarrow> s' = f)"
proof -
  have w: "composer_writable f" using assms(1-3) by (simp add: composer_writable_def)
  from composer_table.parse_args[OF w assms(4), of libraries s]
  obtain s' where s': "parse_command (composer_bindings @ libraries) (map flag_arg args) s = Inr s'"
    "composer_line s' = map (\<lambda>(m, w). (m, case map_of args m of Some v \<Rightarrow> v | None \<Rightarrow> w)) (composer_line s)"
    by (elim exE conjE)
  have "s' = f" if all: "set args = set (composer_line f)"
  proof -
    from composer_table.parse_all[OF w all, of libraries s] s'(1) have "composer_line s' = composer_line f" by simp
    then show ?thesis by (rule composer_line_inject)
  qed
  with s' show ?thesis by (intro exI conjI impI)
qed

text \<open>The same of the builder.\<close>

theorem builder_flags_roundtrip:
  assumes "fits (bf_poll_interval f)" "fits (bf_refresh_interval f)" "fits (bf_keep_builds f)"
    and "set args \<subseteq> set (builder_line f)"
  shows "\<exists>s'. parse_command (builder_bindings @ libraries) (map flag_arg args) s = Inr s' \<and>
    builder_line s' = map (\<lambda>(m, w). (m, case map_of args m of Some v \<Rightarrow> v | None \<Rightarrow> w)) (builder_line s) \<and>
    (set args = set (builder_line f) \<longrightarrow> s' = f)"
proof -
  have w: "builder_writable f" using assms(1-3) by (simp add: builder_writable_def)
  from builder_table.parse_args[OF w assms(4), of libraries s]
  obtain s' where s': "parse_command (builder_bindings @ libraries) (map flag_arg args) s = Inr s'"
    "builder_line s' = map (\<lambda>(m, w). (m, case map_of args m of Some v \<Rightarrow> v | None \<Rightarrow> w)) (builder_line s)"
    by (elim exE conjE)
  have "s' = f" if all: "set args = set (builder_line f)"
  proof -
    from builder_table.parse_all[OF w all, of libraries s] s'(1) have "builder_line s' = builder_line f" by simp
    then show ?thesis by (rule builder_line_inject)
  qed
  with s' show ?thesis by (intro exI conjI impI)
qed

text \<open>Two flags of the manager, the second one first: they move two addresses and nothing else.\<close>

theorem composer_flags_roundtrip_witness:
  "\<exists>s'. parse_command (composer_bindings @ [(''zap-devel'', BindBool (\<lambda>b f. f))])
       (map flag_arg [(''leader-elect'', ''true''), (''metrics-bind-address'', '':9090'')]) composer_defaults = Inr s' \<and>
     composer_line s' = composer_line (composer_defaults\<lparr>cf_metrics := '':9090'', cf_leader_elect := True\<rparr>)"
proof -
  let ?f = "composer_defaults\<lparr>cf_metrics := '':9090'', cf_leader_elect := True\<rparr>"
  let ?args = "[(''leader-elect'', ''true''), (''metrics-bind-address'', '':9090'')]"
  have n: "fits (cf_refresh_interval ?f)" "fits (cf_keep_builds ?f)" "fits (cf_gc_keep_builds ?f)"
    by (simp_all add: fits_def composer_defaults_def second_def default_history_limit_def)
  have "set ?args \<subseteq> set (composer_line ?f)" by (simp add: composer_line_def show_bool_def)
  from composer_flags_roundtrip[OF n this, of "[(''zap-devel'', BindBool (\<lambda>b f. f))]" composer_defaults]
  obtain s' where s': "parse_command (composer_bindings @ [(''zap-devel'', BindBool (\<lambda>b f. f))]) (map flag_arg ?args) composer_defaults = Inr s'"
    "composer_line s' = map (\<lambda>(m, w). (m, case map_of ?args m of Some v \<Rightarrow> v | None \<Rightarrow> w)) (composer_line composer_defaults)"
    by (elim exE conjE)
  have "composer_line s' = composer_line ?f"
    unfolding s'(2) by (simp add: composer_line_def line_simps show_bool_def composer_defaults_def)
  with s'(1) show ?thesis by (intro exI conjI)
qed

end
