(* ===== verification/Backfill.thy ===== *)
theory Backfill
  imports Composition_Theorems
begin

section \<open>What a backfill pass learns and records\<close>

text \<open>
  \<^verbatim>\<open>backfillDigestTags\<close> of the composer, against the registry's answers alone. The predicates below
  say in these answers when content has been given its own name, when the registry reports it gone,
  and what a record of the history then becomes; they do not use the operations of the model. The
  lemmas of this theory carry them through the operations, from one digest to the whole pass.
\<close>

subsection \<open>The answers of the registry\<close>

definition own_name :: "string \<Rightarrow> string" where
  "own_name d = ''digest-'' @ (if CHR '':'' \<in> set d then tl (dropWhile (\<lambda>c. c \<noteq> CHR '':'') d) else d)"

definition claims_own :: "string list \<Rightarrow> string \<Rightarrow> bool" where
  "claims_own tags d \<longleftrightarrow> list_ex (\<lambda>t. t = own_name d \<or> has_suffix t ('':'' @ own_name d)) tags"

text \<open>The content was read and its own tag accepted; or one of the two was answered with a 404.\<close>

definition tag_sent :: "registry \<Rightarrow> string \<Rightarrow> string \<Rightarrow> string \<Rightarrow> bool" where
  "tag_sent reg repo d desc \<longleftrightarrow>
     rg_digest_ok reg (repo @ ''@'' @ d) \<and> rg_get reg (repo @ ''@'' @ d) = Inr desc \<and>
     rg_tag_ok reg (repo @ '':'' @ own_name d)"

definition named :: "registry \<Rightarrow> string \<Rightarrow> string \<Rightarrow> bool" where
  "named reg repo d \<longleftrightarrow> (\<exists>desc. tag_sent reg repo d desc \<and> rg_put_tag reg (repo @ '':'' @ own_name d) desc = None)"

definition missing :: "registry \<Rightarrow> string \<Rightarrow> string \<Rightarrow> bool" where
  "missing reg repo d \<longleftrightarrow>
     (\<exists>e. transport_status e = Some 404 \<and>
       (rg_digest_ok reg (repo @ ''@'' @ d) \<and> rg_get reg (repo @ ''@'' @ d) = Inl e \<or>
        (\<exists>desc. tag_sent reg repo d desc \<and> rg_put_tag reg (repo @ '':'' @ own_name d) desc = Some e)))"

definition fully_named :: "registry \<Rightarrow> string \<Rightarrow> string \<Rightarrow> bool" where
  "fully_named reg repo d \<longleftrightarrow>
     named reg repo d \<and>
     (\<exists>ds. rg_referrers reg (repo @ ''@'' @ d) = Inr (Inr ds) \<and> (\<forall>x \<in> set ds. named reg repo x \<or> missing reg repo x))"

definition reported_gone :: "registry \<Rightarrow> string \<Rightarrow> string \<Rightarrow> bool" where
  "reported_gone reg repo d \<longleftrightarrow>
     missing reg repo d \<or>
     named reg repo d \<and>
       (\<exists>e. transport_status e = Some 404 \<and>
         (rg_referrers reg (repo @ ''@'' @ d) = Inl e \<or> rg_referrers reg (repo @ ''@'' @ d) = Inr (Inl e)))"

text \<open>What waits for its own name, and what becomes of a record and of the current artifact.\<close>

definition due :: "composition \<Rightarrow> string \<Rightarrow> bool" where
  "due obj d \<longleftrightarrow>
     d \<noteq> [] \<and>
     ((case ic_artifact obj of None \<Rightarrow> False | Some a \<Rightarrow> ar_digest a = d \<and> \<not> claims_own (ar_tags a) d) \<or>
      list_ex (\<lambda>r. br_digest r = d \<and> br_lost r = None \<and> \<not> claims_own (br_tags r) d) (ic_history obj))"

definition record_after :: "registry \<Rightarrow> string \<Rightarrow> artifact option \<Rightarrow> int \<Rightarrow> build_record \<Rightarrow> build_record" where
  "record_after reg repo current now r =
     (if br_digest r = [] \<or> br_lost r \<noteq> None \<or> claims_own (br_tags r) (br_digest r) then r
      else if fully_named reg repo (br_digest r) then r\<lparr>br_tags := br_tags r @ [own_name (br_digest r)]\<rparr>
      else if reported_gone reg repo (br_digest r) \<and> map_option ar_digest current \<noteq> Some (br_digest r)
      then r\<lparr>br_lost := Some now\<rparr>
      else r)"

definition artifact_after :: "registry \<Rightarrow> string \<Rightarrow> string \<Rightarrow> artifact \<Rightarrow> artifact" where
  "artifact_after reg repo pull a =
     (if ar_digest a \<noteq> [] \<and> \<not> claims_own (ar_tags a) (ar_digest a) \<and> fully_named reg repo (ar_digest a)
      then a\<lparr>ar_tags := ar_tags a @ [pull @ '':'' @ own_name (ar_digest a)]\<rparr> else a)"

subsection \<open>One digest\<close>

lemma digest_tag_own: "digest_tag d = own_name d"
proof (cases "cut (CHR '':'') d")
  case None
  then have "CHR '':'' \<notin> set d" by (rule iffD1[OF cut_None])
  with None show ?thesis by (simp add: digest_tag_def own_name_def)
next
  case (Some p)
  obtain a b where p: "p = (a, b)" by fastforce
  have d: "d = a @ CHR '':'' # b" "CHR '':'' \<notin> set a" using Some p by (simp_all add: cut_Some)
  have "dropWhile (\<lambda>c. c \<noteq> CHR '':'') d = CHR '':'' # b"
    unfolding d(1) using d(2) by (subst dropWhile_append2) auto
  then show ?thesis using Some p d(1) by (simp add: digest_tag_def own_name_def)
qed

lemma has_tag_claims: "has_digest_tag ts d = claims_own ts d"
  by (simp add: has_digest_tag_def claims_own_def digest_tag_own)

lemmas registry_names = tag_ref_def digest_ref_of_def digest_tag_own

lemma apply_tag_named: "snd (apply_digest_tag reg repo d) = None \<longleftrightarrow> named reg repo d"
  by (auto simp: apply_digest_tag_def registry_names named_def tag_sent_def Let_def split: sum.splits option.splits)

lemma apply_tag_missing:
  "(\<exists>e. snd (apply_digest_tag reg repo d) = Some e \<and> is_not_found e) \<longleftrightarrow> missing reg repo d"
  by (auto simp: apply_digest_tag_def registry_names missing_def tag_sent_def Let_def is_not_found_def terminal_def
      split: sum.splits option.splits)

lemma apply_tag_writes:
  "(ref, desc) \<in> set (fst (apply_digest_tag reg repo d)) \<longleftrightarrow> tag_sent reg repo d desc \<and> ref = repo @ '':'' @ own_name d"
  by (auto simp: apply_digest_tag_def registry_names tag_sent_def Let_def split: sum.splits option.splits)

lemma apply_tags_result:
  "snd (apply_digest_tags reg repo ds) = None \<longleftrightarrow> (\<forall>x \<in> set ds. named reg repo x \<or> missing reg repo x)"
  "snd (apply_digest_tags reg repo ds) = Some e \<Longrightarrow> \<not> is_not_found e"
proof (induction ds)
  case (Cons d ds)
  obtain w r where w: "apply_digest_tag reg repo d = (w, r)" by fastforce
  obtain ws r' where ws: "apply_digest_tags reg repo ds = (ws, r')" by fastforce
  have d: "r = None \<longleftrightarrow> named reg repo d" "(\<exists>e. r = Some e \<and> is_not_found e) \<longleftrightarrow> missing reg repo d"
    using apply_tag_named[of reg repo d] apply_tag_missing[of reg repo d] w by simp_all
  { case 1 then show ?case using Cons.IH(1) d w ws by (auto split: option.splits) }
  { case 2 then show ?case using Cons.IH(2) d w ws by (auto split: option.splits if_splits) }
qed simp_all

lemma apply_tags_writes:
  "(ref, desc) \<in> set (fst (apply_digest_tags reg repo ds)) \<Longrightarrow>
     \<exists>x \<in> set ds. tag_sent reg repo x desc \<and> ref = repo @ '':'' @ own_name x"
proof (induction ds)
  case (Cons d ds)
  obtain w r where w: "apply_digest_tag reg repo d = (w, r)" by fastforce
  obtain ws r' where ws: "apply_digest_tags reg repo ds = (ws, r')" by fastforce
  have "(ref, desc) \<in> set w \<or> (ref, desc) \<in> set ws" using Cons.prems w ws by (auto split: option.splits if_splits)
  then show ?case using Cons.IH apply_tag_writes[of ref desc reg repo d] w ws by auto
qed simp

lemma with_referrers_result:
  "snd (apply_digest_tag_with_referrers reg repo d) = None \<longleftrightarrow> fully_named reg repo d"
  "(\<exists>e. snd (apply_digest_tag_with_referrers reg repo d) = Some e \<and> is_not_found e) \<longleftrightarrow> reported_gone reg repo d"
proof -
  obtain w r where w: "apply_digest_tag reg repo d = (w, r)" by fastforce
  have d: "r = None \<longleftrightarrow> named reg repo d" "(\<exists>e. r = Some e \<and> is_not_found e) \<longleftrightarrow> missing reg repo d"
    using apply_tag_named[of reg repo d] apply_tag_missing[of reg repo d] w by simp_all
  note defs = apply_digest_tag_with_referrers_def w digest_ref_of_def fully_named_def reported_gone_def is_not_found_def
  show "snd (apply_digest_tag_with_referrers reg repo d) = None \<longleftrightarrow> fully_named reg repo d"
    using d apply_tags_result(1)[of reg repo]
    by (auto simp: defs split_beta split: option.splits sum.splits)
  show "(\<exists>e. snd (apply_digest_tag_with_referrers reg repo d) = Some e \<and> is_not_found e) \<longleftrightarrow> reported_gone reg repo d"
    using d apply_tags_result(2)[of reg repo]
    by (auto simp: defs split_beta split: option.splits sum.splits)
qed

lemma with_referrers_writes:
  assumes "(ref, desc) \<in> set (fst (apply_digest_tag_with_referrers reg repo d))"
  shows "\<exists>x. tag_sent reg repo x desc \<and> ref = repo @ '':'' @ own_name x \<and>
    (x = d \<or> named reg repo d \<and> (\<exists>ds. rg_referrers reg (repo @ ''@'' @ d) = Inr (Inr ds) \<and> x \<in> set ds))"
proof -
  obtain w r where w: "apply_digest_tag reg repo d = (w, r)" by fastforce
  have n: "r = None \<longleftrightarrow> named reg repo d" using apply_tag_named[of reg repo d] w by simp
  consider "(ref, desc) \<in> set w"
    | ds where "r = None" "rg_referrers reg (repo @ ''@'' @ d) = Inr (Inr ds)"
        "(ref, desc) \<in> set (fst (apply_digest_tags reg repo ds))"
    using assms w
    by (auto simp: apply_digest_tag_with_referrers_def digest_ref_of_def split: option.splits sum.splits prod.splits)
  then show ?thesis
  proof cases
    case 1
    then show ?thesis using apply_tag_writes[of ref desc reg repo d] w by auto
  next
    case 2
    then show ?thesis using apply_tags_writes[OF 2(3)] n by blast
  qed
qed

lemma with_referrers_sends:
  assumes "tag_sent reg repo d desc"
  shows "(repo @ '':'' @ own_name d, desc) \<in> set (fst (apply_digest_tag_with_referrers reg repo d))"
proof -
  obtain w r where w: "apply_digest_tag reg repo d = (w, r)" by fastforce
  have "(repo @ '':'' @ own_name d, desc) \<in> set w" using apply_tag_writes[of _ desc reg repo d] assms w by auto
  then show ?thesis
    by (auto simp: apply_digest_tag_with_referrers_def w split: option.splits sum.splits prod.splits)
qed

subsection \<open>All of them\<close>

definition learned :: "registry \<Rightarrow> string \<Rightarrow> string \<Rightarrow> bool option" where
  "learned reg repo d =
     (if fully_named reg repo d then Some True else if reported_gone reg repo d then Some False else None)"

lemma record_outcome_learned:
  assumes "out d = None"
  shows "record_outcome out d (snd (apply_digest_tag_with_referrers reg repo d)) = out(d := learned reg repo d)"
proof (cases "snd (apply_digest_tag_with_referrers reg repo d)")
  case None
  then show ?thesis using with_referrers_result(1)[of reg repo d] by (simp add: record_outcome_def learned_def)
next
  case (Some e)
  then show ?thesis using with_referrers_result[of reg repo d] assms
    by (auto simp: record_outcome_def learned_def fun_eq_iff)
qed

lemma backfill_apply_learns:
  "snd (backfill_apply reg repo ds out) = (\<lambda>d. if out d = None \<and> d \<in> set ds then learned reg repo d else out d)"
proof (induction ds arbitrary: out)
  case (Cons d ds)
  obtain w err where w: "apply_digest_tag_with_referrers reg repo d = (w, err)" by fastforce
  show ?case
  proof (cases "out d = None")
    case True
    have "record_outcome out d err = out(d := learned reg repo d)"
      using record_outcome_learned[of out d reg repo] True w by simp
    then show ?thesis by (auto simp: True w split_beta Cons.IH fun_eq_iff)
  next
    case False
    then show ?thesis using Cons.IH[of out] by (auto simp: fun_eq_iff)
  qed
qed (simp add: fun_eq_iff)

lemma backfill_apply_writes:
  "x \<in> set (fst (backfill_apply reg repo ds out)) \<Longrightarrow>
     \<exists>d \<in> set ds. x \<in> set (fst (apply_digest_tag_with_referrers reg repo d))"
proof (induction ds arbitrary: out)
  case (Cons d ds)
  obtain w err where w: "apply_digest_tag_with_referrers reg repo d = (w, err)" by fastforce
  have "x \<in> set w \<or> x \<in> set (fst (backfill_apply reg repo ds out)) \<or>
      x \<in> set (fst (backfill_apply reg repo ds (record_outcome out d err)))"
    using Cons.prems w by (auto simp: split_beta split: if_splits)
  then show ?case using Cons.IH[of out] Cons.IH[of "record_outcome out d err"] w by auto
qed simp

lemma backfill_apply_sends:
  "d \<in> set ds \<Longrightarrow> out d = None \<Longrightarrow>
     set (fst (apply_digest_tag_with_referrers reg repo d)) \<subseteq> set (fst (backfill_apply reg repo ds out))"
proof (induction ds arbitrary: out)
  case (Cons x ds)
  obtain w err where w: "apply_digest_tag_with_referrers reg repo x = (w, err)" by fastforce
  show ?case
  proof (cases "x = d")
    case True
    with Cons.prems w show ?thesis by (auto split: prod.splits)
  next
    case False
    then have d: "d \<in> set ds" "record_outcome out x err d = None"
      using Cons.prems by (auto simp: record_outcome_def split: option.splits)
    show ?thesis using Cons.IH[OF d(1), of out] Cons.IH[OF d(1), of "record_outcome out x err"] d(2) Cons.prems(2) w
      by (auto simp: split_beta)
  qed
qed simp

lemma due_digests: "d \<in> set (backfill_digests (ic_artifact obj) (ic_history obj)) \<longleftrightarrow> due obj d"
  by (auto simp: backfill_digests_def artifact_needs_tag_def needs_digest_tag_def due_def has_tag_claims
      list_ex_iff split: option.splits)

subsection \<open>The whole pass\<close>

lemma learned_due:
  "snd (backfill_apply reg repo (backfill_digests (ic_artifact obj) (ic_history obj)) Map.empty) =
     (\<lambda>d. if due obj d then learned reg repo d else None)"
  by (simp add: backfill_apply_learns due_digests)

lemma mark_artifact_after:
  "mark_artifact (\<lambda>d. if due obj d then learned reg repo d else None) (\<lambda>d. tag_ref pull (digest_tag d)) (ic_artifact obj) =
     map_option (artifact_after reg repo pull) (ic_artifact obj)"
proof (cases "ic_artifact obj")
  case None
  then show ?thesis by (simp add: mark_artifact_def)
next
  case (Some a)
  let ?out = "\<lambda>d. if due obj d then learned reg repo d else None"
  have "tagged_outcome ?out d \<longleftrightarrow> due obj d \<and> fully_named reg repo d" for d
    by (simp add: tagged_outcome_def learned_def)
  moreover have "due obj (ar_digest a) \<longleftrightarrow> ar_digest a \<noteq> []" if "\<not> claims_own (ar_tags a) (ar_digest a)"
    using that Some by (simp add: due_def)
  ultimately have "tagged_outcome ?out (ar_digest a) \<and> \<not> has_digest_tag (ar_tags a) (ar_digest a) \<longleftrightarrow>
      ar_digest a \<noteq> [] \<and> \<not> claims_own (ar_tags a) (ar_digest a) \<and> fully_named reg repo (ar_digest a)"
    unfolding has_tag_claims by blast
  then show ?thesis
    unfolding Some mark_artifact_def option.case option.map artifact_after_def registry_names by simp
qed

lemma mark_record_after:
  assumes "r \<in> set (ic_history obj)" "map_option ar_digest current = map_option ar_digest (ic_artifact obj)"
  shows "mark_record (\<lambda>d. if due obj d then learned reg repo d else None) current digest_tag now r =
    record_after reg repo (ic_artifact obj) now r"
proof (cases "needs_digest_tag r")
  case True
  then have n: "br_digest r \<noteq> []" "br_lost r = None" "\<not> claims_own (br_tags r) (br_digest r)"
    by (simp_all add: needs_digest_tag_def has_tag_claims)
  then have "due obj (br_digest r)" using assms(1) by (auto simp: due_def list_ex_iff)
  then have out: "(if due obj (br_digest r) then learned reg repo (br_digest r) else None) = learned reg repo (br_digest r)"
    by simp
  have cur: "(case current of None \<Rightarrow> x | Some a \<Rightarrow> if ar_digest a \<noteq> d then x else y) =
      (if map_option ar_digest (ic_artifact obj) \<noteq> Some d then x else y)" for x y :: build_record and d
    unfolding assms(2)[symmetric] by (cases current) simp_all
  show ?thesis
    unfolding mark_record_def out record_after_def digest_tag_own cur
    by (cases "fully_named reg repo (br_digest r)"; cases "reported_gone reg repo (br_digest r)")
      (simp_all add: True n learned_def)
next
  case False
  then show ?thesis
    by (auto simp: mark_record_def record_after_def needs_digest_tag_def has_tag_claims split: option.splits)
qed

lemma mark_status_after:
  "mark_status (\<lambda>d. if due obj d then learned reg repo d else None) pull now obj =
     obj\<lparr>ic_artifact := map_option (artifact_after reg repo pull) (ic_artifact obj),
       ic_history := map (record_after reg repo (ic_artifact obj) now) (ic_history obj)\<rparr>"
proof -
  have "map_option ar_digest (map_option (artifact_after reg repo pull) (ic_artifact obj)) = map_option ar_digest (ic_artifact obj)"
    by (cases "ic_artifact obj") (simp_all add: artifact_after_def)
  from mark_record_after[OF _ this] show ?thesis
    by (simp add: mark_status_def Let_def mark_artifact_after mark_history_def)
qed

lemma backfill_runs:
  assumes "target_of (cn_default env) (ic_namespace obj) (ic_name obj) (sc_push (ic_spec obj)) = Inr t"
    and "remote_auth (ce_secrets env) (cn_default env) pending (ic_namespace obj) (pt_write_repo t) (sc_push (ic_spec obj)) =
      Inr auth"
    and "ds = backfill_digests (ic_artifact obj) (ic_history obj)"
    and "out = snd (backfill_apply (cn_registry env) (pt_write_repo t) ds Map.empty)"
  shows "backfill env obj =
    (tag_effects (fst (backfill_apply (cn_registry env) (pt_write_repo t) ds Map.empty)) @
       (if out \<noteq> Map.empty \<and> cn_status env AtBackfill = PatchOK then [EvPatch (mark_status out (pt_pull_repo t) (cn_now env))] else []),
     if out \<noteq> Map.empty \<and> cn_status env AtBackfill = PatchOK then mark_status out (pt_pull_repo t) (cn_now env) obj else obj)"
  using assms
  by (cases "backfill_digests (ic_artifact obj) (ic_history obj) = []")
    (auto simp: backfill_def tag_effects_def Let_def split: prod.splits patch_answer.splits)

lemma mark_status_nothing: "mark_status Map.empty pull now obj = obj"
proof -
  have "mark_record Map.empty cur own now = id" for cur own by (simp add: mark_record_def fun_eq_iff)
  moreover have "mark_artifact Map.empty own art = art" for own art
    by (simp add: mark_artifact_def tagged_outcome_def split: option.splits)
  ultimately show ?thesis by (simp add: mark_status_def mark_history_def Let_def)
qed

lemma backfill_writes:
  assumes "(ref, desc) \<in> set (fst (backfill_apply reg repo (backfill_digests (ic_artifact obj) (ic_history obj)) Map.empty))"
  shows "\<exists>x. rg_get reg (repo @ ''@'' @ x) = Inr desc \<and> ref = repo @ '':'' @ own_name x \<and>
    (due obj x \<or> (\<exists>d ds. due obj d \<and> named reg repo d \<and> rg_referrers reg (repo @ ''@'' @ d) = Inr (Inr ds) \<and> x \<in> set ds))"
proof -
  from backfill_apply_writes[OF assms] obtain d where d: "due obj d"
    "(ref, desc) \<in> set (fst (apply_digest_tag_with_referrers reg repo d))" using due_digests by blast
  from with_referrers_writes[OF d(2)] d(1) show ?thesis unfolding tag_sent_def by blast
qed

lemma backfill_sends:
  assumes "due obj d" "tag_sent reg repo d desc"
  shows "(repo @ '':'' @ own_name d, desc) \<in>
    set (fst (backfill_apply reg repo (backfill_digests (ic_artifact obj) (ic_history obj)) Map.empty))"
  using backfill_apply_sends[OF iffD2[OF due_digests assms(1)], of Map.empty] with_referrers_sends[OF assms(2)] by auto

text \<open>
  Property C32. The backfill of the composer, exactly, when the object has a target and the credentials are found.
  With \<^verbatim>\<open>due\<close> the digests of the current artifact and of the history that carry no tag of their own: a
  record of the history is changed only when its digest is due; it gains the digest's own tag when
  content and referrers could all be named (a referrer that is gone does not count), it is marked
  lost when the registry answered the request for this very digest with a 404 and it is not the
  current artifact's, and stays as it is after any other failure. The artifact gains its tag in the
  same way and is never marked. Nothing is recorded unless the status write is accepted. Every tag
  that is written is the own name of the content it is written on, as the registry returned that
  content, and the content is due or a referrer of such content; and every due digest the registry
  returns is written its tag.
\<close>

theorem backfill_exact:
  assumes "target_of (cn_default env) (ic_namespace obj) (ic_name obj) (sc_push (ic_spec obj)) = Inr t"
    and "remote_auth (ce_secrets env) (cn_default env) pending (ic_namespace obj) (pt_write_repo t) (sc_push (ic_spec obj)) =
      Inr auth"
  shows "let reg = cn_registry env; repo = pt_write_repo t; es = fst (backfill env obj);
      marked = obj\<lparr>ic_artifact := map_option (artifact_after reg repo (pt_pull_repo t)) (ic_artifact obj),
        ic_history := map (record_after reg repo (ic_artifact obj) (cn_now env)) (ic_history obj)\<rparr>
    in snd (backfill env obj) = (if cn_status env AtBackfill = PatchOK then marked else obj) \<and>
      (\<forall>e \<in> set es.
        (\<exists>x desc. e = EvTag (repo @ '':'' @ own_name x) desc \<and> rg_get reg (repo @ ''@'' @ x) = Inr desc \<and>
          (due obj x \<or>
           (\<exists>d ds. due obj d \<and> named reg repo d \<and> rg_referrers reg (repo @ ''@'' @ d) = Inr (Inr ds) \<and> x \<in> set ds))) \<or>
        (\<exists>mark. e = EvPatch mark \<and> mark obj = marked)) \<and>
      (\<forall>d desc. due obj d \<and> tag_sent reg repo d desc \<longrightarrow> EvTag (repo @ '':'' @ own_name d) desc \<in> set es)"
proof -
  let ?reg = "cn_registry env" and ?repo = "pt_write_repo t"
  define ws where "ws = fst (backfill_apply ?reg ?repo (backfill_digests (ic_artifact obj) (ic_history obj)) Map.empty)"
  define out where "out = snd (backfill_apply ?reg ?repo (backfill_digests (ic_artifact obj) (ic_history obj)) Map.empty)"
  define marked where "marked = obj\<lparr>ic_artifact := map_option (artifact_after ?reg ?repo (pt_pull_repo t)) (ic_artifact obj),
        ic_history := map (record_after ?reg ?repo (ic_artifact obj) (cn_now env)) (ic_history obj)\<rparr>"
  note run = backfill_runs[OF assms refl out_def, folded ws_def]
  have m: "mark_status out (pt_pull_repo t) (cn_now env) obj = marked"
    unfolding out_def learned_due mark_status_after marked_def ..
  have same: "marked = obj" if "out = Map.empty" using m that by (simp add: mark_status_nothing)
  have mem: "e \<in> set (fst (backfill env obj)) \<longleftrightarrow> (\<exists>ref desc. e = EvTag ref desc \<and> (ref, desc) \<in> set ws) \<or>
      out \<noteq> Map.empty \<and> cn_status env AtBackfill = PatchOK \<and> e = EvPatch (mark_status out (pt_pull_repo t) (cn_now env))" for e
    by (force simp: run tag_effects_def)
  show ?thesis unfolding Let_def marked_def[symmetric]
  proof (intro conjI ballI allI impI)
    show "snd (backfill env obj) = (if cn_status env AtBackfill = PatchOK then marked else obj)" using same by (simp add: run m)
  next
    fix e
    assume "e \<in> set (fst (backfill env obj))"
    then show "(\<exists>x desc. e = EvTag (?repo @ '':'' @ own_name x) desc \<and> rg_get ?reg (?repo @ ''@'' @ x) = Inr desc \<and>
          (due obj x \<or> (\<exists>d ds. due obj d \<and> named ?reg ?repo d \<and>
            rg_referrers ?reg (?repo @ ''@'' @ d) = Inr (Inr ds) \<and> x \<in> set ds))) \<or>
        (\<exists>mark. e = EvPatch mark \<and> mark obj = marked)"
    proof (unfold mem, elim disjE exE conjE)
      fix ref desc
      assume e: "e = EvTag ref desc" "(ref, desc) \<in> set ws"
      show ?thesis using backfill_writes[OF e(2)[unfolded ws_def]] e(1) by (intro disjI1) blast
    qed (use m in blast)
  next
    fix d desc
    assume "due obj d \<and> tag_sent ?reg ?repo d desc"
    then show "EvTag (?repo @ '':'' @ own_name d) desc \<in> set (fst (backfill env obj))"
      unfolding mem ws_def using backfill_sends by blast
  qed
qed

text \<open>
  A record is retired on any 404 on the way, wrapped or not: also when the registry returned the
  content and then answered the write of its tag with one.
\<close>

lemma refused_tag_retires:
  assumes "tag_sent reg repo (br_digest r) desc"
    and "rg_put_tag reg (repo @ '':'' @ own_name (br_digest r)) desc = Some (HTTPStatus 404)"
    and "needs_digest_tag r" "current = None"
  shows "record_after reg repo current now r = r\<lparr>br_lost := Some now\<rparr>"
proof -
  have "missing reg repo (br_digest r)" unfolding missing_def using assms(1,2) by (intro exI[of _ "HTTPStatus 404"]) auto
  moreover have "\<not> named reg repo (br_digest r)" using assms(1,2) by (auto simp: named_def tag_sent_def)
  ultimately show ?thesis using assms(3,4)
    by (simp add: record_after_def fully_named_def reported_gone_def needs_digest_tag_def has_tag_claims)
qed

text \<open>The artifact's content is there and gets its name; the other build of the history is gone.\<close>

definition sample_backfilled :: composition where
  "sample_backfilled =
     (sample_composition conflict_fail)\<lparr>ic_artifact := Some (sample_artifact ''sha256:aa'' [''r/x:v1'']),
       ic_history := [sample_record ''sha256:aa'', sample_record ''sha256:bb'']\<rparr>"

theorem backfill_exact_witness:
  "ic_history (snd (backfill (sample_controller [(''r/x@sha256:aa'', ''sha256:aa'')]) sample_backfilled)) =
     [(sample_record ''sha256:aa'')\<lparr>br_tags := br_tags (sample_record ''sha256:aa'') @ [''digest-aa'']\<rparr>,
      (sample_record ''sha256:bb'')\<lparr>br_lost := Some 5\<rparr>] \<and>
   EvTag ''r/x:digest-aa'' ''sha256:aa'' \<in>
     set (fst (backfill (sample_controller [(''r/x@sha256:aa'', ''sha256:aa'')]) sample_backfilled))"
proof -
  let ?env = "sample_controller [(''r/x@sha256:aa'', ''sha256:aa'')]"
  let ?t = "\<lparr>pt_write_repo = ''r/x'', pt_pull_repo = ''r/x'', pt_tags = [''v1'', ''main''],
    pt_on_conflict = conflict_policy (Some (sample_push conflict_fail))\<rparr>"
  have t: "target_of (cn_default ?env) (ic_namespace sample_backfilled) (ic_name sample_backfilled)
      (sc_push (ic_spec sample_backfilled)) = Inr ?t"
    using sample_target[of _ conflict_fail] by (simp add: sample_backfilled_def)
  obtain auth where a: "remote_auth (ce_secrets ?env) (cn_default ?env) pending (ic_namespace sample_backfilled)
      (pt_write_repo ?t) (sc_push (ic_spec sample_backfilled)) = Inr auth"
  proof -
    have "\<not> isl (remote_auth (ce_secrets ?env) (cn_default ?env) pending (ic_namespace sample_backfilled)
      (pt_write_repo ?t) (sc_push (ic_spec sample_backfilled)))" by code_simp
    then show thesis using that by (auto simp: isl_def split: sum.splits) (metis sumE)
  qed
  note b = backfill_exact[OF t a]
  have own: "own_name ''sha256:aa'' = ''digest-aa''" "own_name ''sha256:bb'' = ''digest-bb''" by code_simp+
  have claims: "\<not> claims_own (br_tags (sample_record ''sha256:aa'')) ''sha256:aa''"
    "\<not> claims_own (br_tags (sample_record ''sha256:bb'')) ''sha256:bb''"
    "\<not> claims_own [''r/x:v1''] ''sha256:aa''" by code_simp+
  have sent: "tag_sent (cn_registry ?env) ''r/x'' ''sha256:aa'' ''sha256:aa''"
    by (simp add: tag_sent_def own sample_controller_def tag_registry_def)
  have "named (cn_registry ?env) ''r/x'' ''sha256:aa''"
    unfolding named_def using sent by (auto simp: sample_controller_def tag_registry_def)
  then have named: "fully_named (cn_registry ?env) ''r/x'' ''sha256:aa''"
    by (simp add: fully_named_def) (simp add: sample_controller_def tag_registry_def)
  have gone: "\<not> named (cn_registry ?env) ''r/x'' ''sha256:bb''" "missing (cn_registry ?env) ''r/x'' ''sha256:bb''"
    by (simp_all add: named_def missing_def tag_sent_def own sample_controller_def tag_registry_def)
  have "due sample_backfilled ''sha256:aa''"
    using claims(3) by (simp add: due_def sample_backfilled_def sample_artifact_def)
  with sent b have "EvTag (''r/x'' @ '':'' @ own_name ''sha256:aa'') ''sha256:aa'' \<in> set (fst (backfill ?env sample_backfilled))"
    unfolding Let_def by (simp only: publish_target.simps)
  moreover have "ic_history (snd (backfill ?env sample_backfilled)) =
      map (record_after (cn_registry ?env) ''r/x'' (ic_artifact sample_backfilled) (cn_now ?env)) (ic_history sample_backfilled)"
    using b by (simp add: Let_def sample_controller_def)
  moreover have "cn_now ?env = 5" "ic_history sample_backfilled = [sample_record ''sha256:aa'', sample_record ''sha256:bb'']"
    "map_option ar_digest (ic_artifact sample_backfilled) = Some ''sha256:aa''"
    by (simp_all add: sample_controller_def sample_backfilled_def sample_artifact_def)
  moreover have "br_digest (sample_record d) = d" "br_lost (sample_record d) = None" for d
    by (simp_all add: sample_record_def)
  ultimately show ?thesis using claims named gone
    by (simp add: record_after_def own fully_named_def[of _ _ "''sha256:bb''"] reported_gone_def)
qed

end
