(* ===== verification/Spec2Isabelle.thy ===== *)
theory Spec2Isabelle
  imports Build_Status Disk_Concurrency Publish_Lease Context_Endpoint Composition_Settling Command_Flags Backfill
begin

text \<open>
  Verification of kube-oci-composer, two Kubernetes controllers that keep container images in a
  registry in step with objects of the API. An ImageComposition names layers (downloads, Flux
  artifacts, ConfigMaps, images, removals) that the composer assembles into an image itself; an
  ImageBuild names a context and a Dockerfile that the builder runs in a Job. Both publish under a
  conflict policy, keep a history, renew what the registry would otherwise expire, sign what they
  publish and may write its reference into a ConfigMap.

  \<^bold>\<open>Foundations.\<close> Go_Base holds results (\<open>error + 'a\<close>), integers and the shared collections
  of rules; Go_Strings and Go_Utf8 the functions of Go's strings and utf8 packages the code calls;
  Go_Path path.Clean, Join, Base and Dir. Effects models a routine that dials a server as the list of
  its effects and a result, so that what precedes an error stays in the trace; Actions adds the object
  a pass edits in memory. A server (registry, API server, HTTP) is a record of the answers it gives
  during one pass, and every request that changes it is an effect of the trace.

  \<^bold>\<open>Images\<close> (internal/archive, internal/oci, internal/build). Archive_Path is path.go: Mapping
  and Walk. Layer_Extract is the collector and the tar loop, Layer_Zip and Layer_Deb the zip and
  Debian containers, Layer_Assemble the layers, platforms and configuration of assemble.go and
  provenance.go, Input_Hash the hashed streams of both controllers. Their theorems (Layer_Theorems,
  Assemble_Theorems, Input_Hash) show that no entry leaves its target, that the headers of a layer
  are a function of its content in a fixed order, that a zip and a tar agree, that the hash is equal
  exactly when its fields are, up to a collision of SHA-256, and that it covers what a layer holds.

  \<^bold>\<open>Shared services\<close> (internal/reconciler, internal/retention, internal/source,
  internal/attest, api/v1alpha1). Api_Types has the types of the API and their resolving methods;
  Recon the error classes, conditions, truncation and tags; Registry_State published state and digest
  tags; Default_Registry naming and credentials; Ref_Export the exported ConfigMap; Retention the
  refresher; Sources the Flux, ConfigMap and image sources; Attest documents, referrers and
  signatures. Their theorems bound what is written, dialled and disclosed.

  \<^bold>\<open>The composer\<close> (internal/controller). Composition_Inputs is resolve.go and platforms.go,
  Composition the whole pass of imagecomposition_controller.go. Composition_Theorems shows when tags
  move and in what order a publish writes; Composition_Status what a pass stores. Composition_Watches
  has the watches and shows that they cover whatever a pass reads; Composition_Settling that a pass
  which succeeded, exported nothing, kept no foreign tag and had its status accepted is enough, that
  no pass wakes its own object, and what becomes of a kept tag. Backfill specifies the digest tags
  given to earlier builds by the answers of the registry and shows that the whole backfill does that.

  \<^bold>\<open>The builder\<close> (internal/buildcontroller). Build_Types is imagebuild_types.go, Build_Job
  job.go, Dockerfile_Check the scanner of dockerfile.go and the search of context.go, Build_Inputs
  the resolution of inputs, Build_Controller the rest: conflict.go, errors.go, attest.go,
  contextproxy.go and the pass of imagebuild_controller.go. Build_Job_Theorems, Build_Theorems and
  Build_Status show what a Job may mount, when one is started, what is tagged after it, how failures
  are counted and what status is stored. Context_Endpoint is the handler of contextproxy.go with its
  routing and streaming: who gets which source, and that the pods the controller starts get theirs.

  \<^bold>\<open>The lease.\<close> Retention_Loop runs the refresher's cycles over the events its loop selects
  and shows that a reference some live object needs never lapses, given what a registry with a
  retention window promises and a ticker that keeps its interval; an hour against thirty days leaves
  room for 719 cycles that miss in a row. Publish_Lease joins it to the controllers: what a pass
  writes or tags is what the refresh after it pulls.

  \<^bold>\<open>Getting content\<close> (internal/netguard, internal/store, internal/cache, internal/oci/fetch.go,
  internal/archive/archive.go, internal/fetchcontext, cmd/oci-builder/fetchcontext.go). Netguard is
  the dial guard over the bytes of an address, shown to refuse exactly a list of networks. Store has
  the keys, the interface of a store and its contract, the locale \<open>object_store\<close>, with the memory
  store and the bucket; Disk_Store the store on disk, whose every system call may fail, and the
  interpretation of the contract; Disk_Concurrency the same calls as steps of readers and writers that
  interleave and die. Layer_Cache is fetch.go, cache.go and resolveLayer: what reaches the assembly
  hashes to its digest. Archive_Extract unpacks onto a file system with symbolic links, Fetch_Flags
  reads the arguments of the build pod's init container, Fetch_Context retries, verifies and unpacks,
  and Fetch_Job closes the loop with the arguments Build_Job writes. A directory maps component lists
  to nodes; links are followed as the kernel does, at most forty of them. A download makes at most six
  attempts.

  \<^bold>\<open>Startup\<close> (cmd, internal/opts). Startup has the options both binaries share, the trusted
  roots, the loading of the signing key, and what either command refuses, in order, before it runs.
  Command_Flags has the flags of both as tables from names to the options they set, with the defaults
  and the parser of Go's flag package, and shows, through the locale
  \<open>flag_table\<close> interpreted for both, that a flag sets its own option and no other.

  \<^bold>\<open>Choices.\<close> Strings are lists of bytes. Times and durations are unbounded integers of
  nanoseconds; the failure counter of a build is a 32-bit word. Conditions are a map from type to
  status, reason and message, without transition times. Letter case and white space are those of
  ASCII, for Go's white space, case folding and trimming too. Error messages keep their class and
  the values they carry, sometimes shortened. A patch of
  the finalizers returns the object as the server answers it, a parameter; a status write is a
  function applied to the stored object as a whole, where the code sends the difference as a merge
  patch. A file of the layer cache, once opened, is read to its end without an error. The fraction of a duration
  is computed exactly. A request reaches the context endpoint with its path cleaned and decoded. No
  loop needs fuel: the scans are structural, the loop of the refresher runs over the events it
  receives, and the others have a measure.

  \<^bold>\<open>Not modelled.\<close> Usage texts, the builder's SetupWithManager, logging and metrics. The
  generated deep copies and the schema markers have no behaviour of their own, nor have the test
  environment and the schema generator under hack. Cryptography, JSON, base64, gzip, tar and zip
  readers, HTTP, the registry, bucket and Kubernetes clients are libraries: parameters. On disk, one
  operation of a directory is a step: what a crash of the machine loses is not described.
\<close>

end
